(* ===== verification/Prelude.thy ===== *)
theory Prelude
  imports Complex_Main "HOL-Library.Sublist"
begin

text \<open>
  Shared vocabulary of the development: the theorem collections the component theories add
  their rules to, and generic facts on lists, options and association lists that several
  components use. Nothing here is specific to one source file.
\<close>

section \<open>Collections\<close>

named_theorems js_str \<open>rewriting for the JavaScript string operations\<close>
named_theorems rx \<open>rewriting for the regular-expression matchers\<close>
named_theorems json \<open>rewriting for JSON text\<close>

section \<open>Lists\<close>

lemma dropWhile_none: "(xs = [] \<or> \<not> P (hd xs)) \<Longrightarrow> dropWhile P xs = xs"
  by (cases xs) auto

lemma dropWhile_all: "list_all P xs \<Longrightarrow> dropWhile P (xs @ ys) = dropWhile P ys"
  by (induction xs) auto

lemma takeWhile_all: "list_all P xs \<Longrightarrow> takeWhile P (xs @ ys) = xs @ takeWhile P ys"
  by (induction xs) auto

lemma list_all_takeWhile: "list_all P (takeWhile P xs)"
  by (induction xs) auto

lemma hd_dropWhile_not: "dropWhile P xs \<noteq> [] \<Longrightarrow> \<not> P (hd (dropWhile P xs))"
  by (simp add: hd_dropWhile)

lemma map_the_Some [simp]: "map (the \<circ> Some) xs = xs"
  by (induction xs) auto

section \<open>Updating and removing the element that carries a key\<close>

text \<open>
  The editors of the console keep lists of objects that carry an identifier and update or
  remove the one whose identifier is given. \<open>upd_by\<close> is \<open>list.map(x => key(x) === k ? f(x) : x)\<close>
  and \<open>del_by\<close> is \<open>list.filter(x => key(x) !== k)\<close>.
\<close>

definition upd_by :: "('a \<Rightarrow> 'k) \<Rightarrow> 'k \<Rightarrow> ('a \<Rightarrow> 'a) \<Rightarrow> 'a list \<Rightarrow> 'a list" where
  "upd_by key k f xs = map (\<lambda>x. if key x = k then f x else x) xs"

definition del_by :: "('a \<Rightarrow> 'k) \<Rightarrow> 'k \<Rightarrow> 'a list \<Rightarrow> 'a list" where
  "del_by key k xs = filter (\<lambda>x. key x \<noteq> k) xs"

lemma upd_by_absent [simp]: "k \<notin> key ` set xs \<Longrightarrow> upd_by key k f xs = xs"
  by (induction xs) (auto simp: upd_by_def)

lemma del_by_absent [simp]: "k \<notin> key ` set xs \<Longrightarrow> del_by key k xs = xs"
  by (induction xs) (auto simp: del_by_def)

lemma map_key_upd_by [simp]:
  "(\<And>x. key (f x) = key x) \<Longrightarrow> map key (upd_by key k f xs) = map key xs"
  by (induction xs) (auto simp: upd_by_def)

lemma map_key_del_by: "map key (del_by key k xs) = filter (\<lambda>j. j \<noteq> k) (map key xs)"
  by (induction xs) (auto simp: del_by_def)

lemma distinct_del_by: "distinct (map key xs) \<Longrightarrow> distinct (map key (del_by key k xs))"
  by (simp add: map_key_del_by)

lemma length_upd_by [simp]: "length (upd_by key k f xs) = length xs"
  by (simp add: upd_by_def)

lemma set_upd_by_other: "x \<in> set xs \<Longrightarrow> key x \<noteq> k \<Longrightarrow> x \<in> set (upd_by key k f xs)"
  by (auto simp: upd_by_def)

lemma set_upd_by_hit: "x \<in> set xs \<Longrightarrow> key x = k \<Longrightarrow> f x \<in> set (upd_by key k f xs)"
  by (auto simp: upd_by_def)

text \<open>Looking an element up by its key.\<close>

lemma find_key_None_iff: "find (\<lambda>x. key x = k) xs = None \<longleftrightarrow> k \<notin> key ` set xs"
  by (induction xs) auto

lemma find_key_None: "k \<notin> key ` set xs \<Longrightarrow> find (\<lambda>x. key x = k) xs = None"
  by (induction xs) auto

lemma find_key_Some: "distinct (map key xs) \<Longrightarrow> x \<in> set xs \<Longrightarrow> find (\<lambda>y. key y = key x) xs = Some x"
  by (induction xs) (auto simp: image_iff)

lemma find_upd_by:
  assumes "\<And>x. key (f x) = key x"
  shows "find (\<lambda>x. key x = j) (upd_by key k f xs) =
     (if j = k then map_option f (find (\<lambda>x. key x = j) xs) else find (\<lambda>x. key x = j) xs)"
  by (induction xs) (auto simp: upd_by_def assms)

lemma find_del_by:
  "find (\<lambda>x. key x = j) (del_by key k xs) = (if j = k then None else find (\<lambda>x. key x = j) xs)"
  by (induction xs) (auto simp: del_by_def)

section \<open>Sets and answers\<close>

text \<open>\<open>new Set(xs)\<close> lists the values by their first occurrence.\<close>

definition js_set :: "'a list \<Rightarrow> 'a list" where
  "js_set xs = rev (remdups (rev xs))"

text \<open>An answer of the backend: an exception with its message, a refusal with its message, or data.\<close>

datatype 'a reply = Thrown string | Refused string | Granted 'a

text \<open>\<open>map\<close> with a function that may throw.\<close>

fun map_sum_list :: "('a \<Rightarrow> 'e + 'b) \<Rightarrow> 'a list \<Rightarrow> 'e + 'b list" where
  "map_sum_list f [] = Inr []"
| "map_sum_list f (x # xs) = (case f x of Inl e \<Rightarrow> Inl e
     | Inr y \<Rightarrow> (case map_sum_list f xs of Inl e \<Rightarrow> Inl e | Inr ys \<Rightarrow> Inr (y # ys)))"

lemma set_map_sum_list: "map_sum_list f xs = Inr ys \<Longrightarrow> length ys = length xs \<and> (\<forall>i < length xs. f (xs ! i) = Inr (ys ! i))"
proof (induction xs arbitrary: ys)
  case (Cons x xs)
  then obtain y zs where "f x = Inr y" "map_sum_list f xs = Inr zs" "ys = y # zs" by (auto split: sum.splits)
  then show ?case using Cons.IH by (auto simp: nth_Cons split: nat.split)
qed simp

lemma map_sum_list_total: "(\<And>x. f x = Inr (g x)) \<Longrightarrow> map_sum_list f xs = Inr (map g xs)"
  by (induction xs) auto

end
