(* ===== verification/JsString.thy ===== *)
theory JsString
  imports Prelude
begin

text \<open>
  The operations of JavaScript's \<open>String\<close> that the modelled code uses, on Isabelle's \<open>string\<close>.
  A \<open>char\<close> is one code unit; the alphabet is the code units 0 to 255 (ASCII and Latin-1), so the
  texts of the model are the JavaScript strings over that alphabet. The white space that \<open>trim\<close>
  and the regular-expression class \<open>\s\<close> accept is, in this alphabet, TAB, LF, VT, FF, CR, SPACE
  and NBSP.
\<close>

section \<open>Definitions\<close>

definition js_ws :: "char \<Rightarrow> bool" where
  "js_ws c \<longleftrightarrow> c \<in> {CHR 0x09, CHR 0x0A, CHR 0x0B, CHR 0x0C, CHR 0x0D, CHR '' '', CHR 0xA0}"

definition is_digit :: "char \<Rightarrow> bool" where
  "is_digit c \<longleftrightarrow> 48 \<le> (of_char c :: nat) \<and> (of_char c :: nat) \<le> 57"

definition digit_val :: "char \<Rightarrow> int" where
  "digit_val c = of_char c - 48"

definition trim_start :: "string \<Rightarrow> string" where
  "trim_start s = dropWhile js_ws s"

definition trim :: "string \<Rightarrow> string" where
  "trim s = rev (dropWhile js_ws (rev (dropWhile js_ws s)))"

text \<open>\<open>s.slice(a, b)\<close> for \<open>0 \<le> a\<close>, \<open>0 \<le> b\<close>; \<open>s.slice(1, -1)\<close> is \<open>slice_inner\<close>.\<close>

definition slice :: "nat \<Rightarrow> nat \<Rightarrow> string \<Rightarrow> string" where
  "slice a b s = take (b - a) (drop a s)"

definition slice_inner :: "string \<Rightarrow> string" where
  "slice_inner s = butlast (tl s)"

text \<open>\<open>s.includes(n)\<close>.\<close>

fun str_includes :: "string \<Rightarrow> string \<Rightarrow> bool" where
  "str_includes n [] = (n = [])"
| "str_includes n (c # s) = (prefix n (c # s) \<or> str_includes n s)"

text \<open>\<open>s.split(c)\<close> for a one-character separator: never empty, \<open>''.split(c)\<close> is \<open>['']\<close>.\<close>

fun split_char :: "char \<Rightarrow> string \<Rightarrow> string list" where
  "split_char d [] = [[]]"
| "split_char d (c # s) =
     (if c = d then [] # split_char d s
      else (case split_char d s of [] \<Rightarrow> [[c]] | p # ps \<Rightarrow> (c # p) # ps))"

text \<open>\<open>parts.join(sep)\<close>.\<close>

fun join :: "string \<Rightarrow> string list \<Rightarrow> string" where
  "join sep [] = []"
| "join sep [p] = p"
| "join sep (p # q # ps) = p @ sep @ join sep (q # ps)"

text \<open>\<open>s.replaceAll(c, '')\<close> and \<open>s.replace(/\s+/g, '')\<close>.\<close>

definition remove_char :: "char \<Rightarrow> string \<Rightarrow> string" where
  "remove_char c s = filter (\<lambda>d. d \<noteq> c) s"

definition remove_ws :: "string \<Rightarrow> string" where
  "remove_ws s = filter (\<lambda>c. \<not> js_ws c) s"

text \<open>\<open>toLowerCase\<close> and \<open>toUpperCase\<close> on the alphabet (U+00FF and U+00B5 have upper-case forms
  outside it and stay as they are; the modelled code compares the result with ASCII words only).\<close>

definition lower_char :: "char \<Rightarrow> char" where
  "lower_char c = (let n = of_char c :: nat in
     if (65 \<le> n \<and> n \<le> 90) \<or> (192 \<le> n \<and> n \<le> 222 \<and> n \<noteq> 215) then char_of (n + 32) else c)"

definition to_lower :: "string \<Rightarrow> string" where
  "to_lower s = map lower_char s"

definition upper_char :: "char \<Rightarrow> string" where
  "upper_char c = (let n = of_char c :: nat in
     if (97 \<le> n \<and> n \<le> 122) \<or> (224 \<le> n \<and> n \<le> 254 \<and> n \<noteq> 247) then [char_of (n - 32)]
     else if n = 223 then ''SS'' else [c])"

definition to_upper :: "string \<Rightarrow> string" where
  "to_upper s = concat (map upper_char s)"

text \<open>\<open>s.indexOf(c)\<close> for one character, \<open>None\<close> for the \<open>-1\<close>.\<close>

fun index_of :: "char \<Rightarrow> string \<Rightarrow> nat option" where
  "index_of d [] = None"
| "index_of d (c # s) = (if c = d then Some 0 else map_option Suc (index_of d s))"

text \<open>Decimal digits of a non-negative integer, and back (\<open>parseInt(s, 10)\<close> on a string of digits).\<close>

definition digit_char :: "int \<Rightarrow> char" where
  "digit_char n = char_of (48 + n)"

function int_str :: "int \<Rightarrow> string" where
  "int_str n = (if n < 10 then [digit_char n] else int_str (n div 10) @ [digit_char (n mod 10)])"
  by pat_completeness auto
termination
  by (relation "measure nat") auto

definition int_of_str :: "string \<Rightarrow> int" where
  "int_of_str s = foldl (\<lambda>n c. 10 * n + digit_val c) 0 s"

definition nat_str :: "nat \<Rightarrow> string" where
  "nat_str n = int_str (int n)"

declare int_str.simps [simp del]

section \<open>White space and trimming\<close>

definition trimmed :: "string \<Rightarrow> bool" where
  "trimmed s \<longleftrightarrow> s = [] \<or> (\<not> js_ws (hd s) \<and> \<not> js_ws (last s))"

lemma js_ws_concrete [simp]:
  "js_ws CHR '' ''" "js_ws CHR 0x09" "js_ws CHR 0x0A" "js_ws CHR 0x0D"
  by (auto simp: js_ws_def)

lemma trim_Nil [simp]: "trim [] = []"
  by (simp add: trim_def)

lemma trim_id: "trimmed s \<Longrightarrow> trim s = s"
  by (cases "s = []") (simp_all add: trim_def trimmed_def dropWhile_none hd_rev)

lemma trimmed_trim [simp]: "trimmed (trim s)"
proof (cases "dropWhile js_ws s = []")
  case True
  show ?thesis unfolding trim_def True by (simp add: trimmed_def)
next
  case False
  define a where "a = dropWhile js_ws s"
  define b where "b = dropWhile js_ws (rev a)"
  have ha: "\<not> js_ws (hd a)" using False unfolding a_def by (rule hd_dropWhile_not)
  have "hd a \<in> set (rev a)" using False by (simp add: a_def)
  then have bn: "b \<noteq> []" using ha by (auto simp: b_def dropWhile_eq_Nil_conv)
  then have hb: "\<not> js_ws (hd b)" unfolding b_def by (rule hd_dropWhile_not)
  obtain p where "rev a = p @ b" unfolding b_def by (metis takeWhile_dropWhile_id)
  then have "a = rev b @ rev p" by (metis rev_append rev_rev_ident)
  then have "hd (rev b) = hd a" using bn by simp
  then show ?thesis
    using ha hb bn by (simp add: trim_def trimmed_def a_def[symmetric] b_def[symmetric] last_rev)
qed

lemma trim_idem [simp]: "trim (trim s) = trim s"
  by (simp add: trim_id)

lemma trim_Nil_iff: "trim s = [] \<longleftrightarrow> list_all js_ws s"
proof
  assume "trim s = []"
  then have "\<forall>x \<in> set (dropWhile js_ws s). js_ws x"
    by (simp add: trim_def dropWhile_eq_Nil_conv)
  then have "dropWhile js_ws s = []"
    using hd_dropWhile_not[of js_ws s] hd_in_set[of "dropWhile js_ws s"] by blast
  then show "list_all js_ws s" by (simp add: dropWhile_eq_Nil_conv list_all_iff)
next
  assume "list_all js_ws s"
  then have "dropWhile js_ws s = []" by (simp add: dropWhile_eq_Nil_conv list_all_iff)
  then show "trim s = []" unfolding trim_def by (simp only: dropWhile.simps rev.simps)
qed

lemma set_trim: "set (trim s) \<subseteq> set s"
  by (auto simp: trim_def dest!: set_dropWhileD)

lemma length_trim: "length (trim s) \<le> length s"
  unfolding trim_def by (metis length_dropWhile_le length_rev le_trans)

lemma not_ws_all_trimmed: "list_all (\<lambda>c. \<not> js_ws c) s \<Longrightarrow> trimmed s"
  by (auto simp: trimmed_def list_all_iff)

lemma trimmed_append:
  "s \<noteq> [] \<Longrightarrow> t \<noteq> [] \<Longrightarrow> \<not> js_ws (hd s) \<Longrightarrow> \<not> js_ws (last t) \<Longrightarrow> trimmed (s @ t)"
  by (simp add: trimmed_def)

section \<open>Includes, join, split\<close>

lemma str_includes_sublist: "str_includes n s = sublist n s"
  by (induction s) (auto simp: sublist_Cons_right)

lemma join_Cons: "join sep (p # ps) = (if ps = [] then p else p @ sep @ join sep ps)"
  by (cases ps) auto

lemma split_char_nonempty [simp]: "split_char d s \<noteq> []"
  by (cases s) (auto split: list.splits)

lemma split_char_none: "d \<notin> set s \<Longrightarrow> split_char d s = [s]"
  by (induction s) auto

lemma split_char_append: "d \<notin> set p \<Longrightarrow> split_char d (p @ d # s) = p # split_char d s"
  by (induction p) auto

lemma split_char_join:
  "ps \<noteq> [] \<Longrightarrow> \<forall>p \<in> set ps. d \<notin> set p \<Longrightarrow> split_char d (join [d] ps) = ps"
  by (induction ps) (auto simp: join_Cons split_char_none split_char_append)

section \<open>Decimal digits\<close>

lemma of_char_digit_char:
  assumes "0 \<le> n" "n < 10"
  shows "of_char (digit_char n) = 48 + n"
proof -
  have "of_char (char_of (48 + n) :: char) = (48 + n) mod 256" by simp
  then show ?thesis using assms by (simp add: digit_char_def)
qed

lemma digit_val_digit_char [simp]: "0 \<le> n \<Longrightarrow> n < 10 \<Longrightarrow> digit_val (digit_char n) = n"
  by (simp add: digit_val_def of_char_digit_char)

lemma is_digit_digit_char [simp]:
  assumes "0 \<le> n" "n < 10"
  shows "is_digit (digit_char n)"
proof -
  have "int (of_char (digit_char n)) = 48 + n"
    using of_char_digit_char[OF assms] by (simp only: of_nat_of_char)
  then show ?thesis using assms by (simp add: is_digit_def)
qed

lemma int_str_nonempty [simp]: "int_str n \<noteq> []"
  by (subst int_str.simps) simp

lemma int_str_digits: "0 \<le> n \<Longrightarrow> list_all is_digit (int_str n)"
proof (induction n rule: int_str.induct)
  case (1 n)
  then show ?case by (subst int_str.simps) (simp add: list_all_append)
qed

lemma int_of_str_snoc: "int_of_str (s @ [c]) = 10 * int_of_str s + digit_val c"
  by (simp add: int_of_str_def)

lemma int_of_str_int_str [simp]: "0 \<le> n \<Longrightarrow> int_of_str (int_str n) = n"
proof (induction n rule: int_str.induct)
  case (1 n)
  show ?case
  proof (cases "n < 10")
    case True
    then show ?thesis using 1 by (subst int_str.simps) (simp add: int_of_str_def)
  next
    case False
    have "int_of_str (int_str n) = 10 * int_of_str (int_str (n div 10)) + n mod 10"
      using False by (subst int_str.simps) (simp add: int_of_str_snoc)
    then show ?thesis using 1 False by simp
  qed
qed

lemma nat_str_nonempty [simp]: "nat_str n \<noteq> []"
  by (simp add: nat_str_def)

lemma nat_str_digits: "list_all is_digit (nat_str n)"
  by (simp add: nat_str_def int_str_digits)

lemma int_of_str_nat_str [simp]: "int_of_str (nat_str n) = int n"
  by (simp add: nat_str_def)

lemma nat_str_inj [simp]: "nat_str m = nat_str n \<longleftrightarrow> m = n"
  by (metis int_of_str_nat_str of_nat_eq_iff)

lemma digit_not_ws: "is_digit c \<Longrightarrow> \<not> js_ws c"
  by (auto simp: is_digit_def js_ws_def)

lemma nat_str_trimmed [simp]: "trimmed (nat_str n)"
  using nat_str_digits[of n] by (auto intro: not_ws_all_trimmed simp: list_all_iff digit_not_ws)

end
