(* ===== verification/JsRegex.thy ===== *)
theory JsRegex
  imports JsString
begin

text \<open>
  JavaScript regular expressions as matchers: a matcher takes a position in the subject (what
  was consumed, reversed; what is left; the captures so far) and gives all the ways it can go on,
  in the order in which the backtracking of ECMAScript tries them, so that the first element is
  the match the program sees. The literals of the source are written with these combinators, one
  combinator per construct of the pattern.
\<close>

section \<open>Matchers\<close>

type_synonym mst = "string \<times> string \<times> (nat \<times> string) list"
type_synonym matcher = "mst \<Rightarrow> mst list"

fun rest_len :: "mst \<Rightarrow> nat" where
  "rest_len (b, r, g) = length r"

fun r_cls :: "(char \<Rightarrow> bool) \<Rightarrow> matcher" where
  "r_cls p (b, [], g) = []"
| "r_cls p (b, c # r, g) = (if p c then [(c # b, r, g)] else [])"

fun r_lit :: "string \<Rightarrow> matcher" where
  "r_lit [] s = [s]"
| "r_lit (c # w) (b, [], g) = []"
| "r_lit (c # w) (b, d # r, g) = (if c = d then r_lit w (d # b, r, g) else [])"

definition r_seq :: "matcher \<Rightarrow> matcher \<Rightarrow> matcher" where
  "r_seq m n s = concat (map n (m s))"

fun r_seqs :: "matcher list \<Rightarrow> matcher" where
  "r_seqs [] = (\<lambda>s. [s])"
| "r_seqs (m # ms) = r_seq m (r_seqs ms)"

definition r_alt :: "matcher \<Rightarrow> matcher \<Rightarrow> matcher" where
  "r_alt m n s = m s @ n s"

fun r_alts :: "matcher list \<Rightarrow> matcher" where
  "r_alts [] = (\<lambda>s. [])"
| "r_alts (m # ms) = r_alt m (r_alts ms)"

text \<open>\<open>m?\<close>, \<open>m*\<close>, \<open>m+\<close>, all greedy; an iteration of a loop that consumes nothing is dropped, as
  ECMAScript does, so as many iterations as characters are left are enough.\<close>

definition r_opt :: "matcher \<Rightarrow> matcher" where
  "r_opt m s = m s @ [s]"

fun star_iter :: "matcher \<Rightarrow> nat \<Rightarrow> matcher" where
  "star_iter m 0 s = [s]"
| "star_iter m (Suc n) s =
     concat (map (star_iter m n) (filter (\<lambda>t. rest_len t < rest_len s) (m s))) @ [s]"

definition r_star :: "matcher \<Rightarrow> matcher" where
  "r_star m s = star_iter m (rest_len s) s"

definition r_plus :: "matcher \<Rightarrow> matcher" where
  "r_plus m = r_seq m (r_star m)"

fun r_group :: "nat \<Rightarrow> matcher \<Rightarrow> matcher" where
  "r_group i m (b, r, g) =
     map (\<lambda>(b', r', g'). (b', r', (i, take (length r - length r') r) # g')) (m (b, r, g))"

fun r_back :: "nat \<Rightarrow> matcher" where
  "r_back i (b, r, g) = (case map_of g i of None \<Rightarrow> [(b, r, g)] | Some w \<Rightarrow> r_lit w (b, r, g))"

fun r_bol :: matcher where
  "r_bol (b, r, g) = (if b = [] then [(b, r, g)] else [])"

fun r_eol :: matcher where
  "r_eol (b, r, g) = (if r = [] then [(b, r, g)] else [])"

definition word_char :: "char \<Rightarrow> bool" where
  "word_char c \<longleftrightarrow> (let n = of_char c :: nat in
     (48 \<le> n \<and> n \<le> 57) \<or> (65 \<le> n \<and> n \<le> 90) \<or> (97 \<le> n \<and> n \<le> 122) \<or> n = 95)"

fun r_wordb :: matcher where
  "r_wordb (b, r, g) =
     (if (b \<noteq> [] \<and> word_char (hd b)) \<noteq> (r \<noteq> [] \<and> word_char (hd r)) then [(b, r, g)] else [])"

text \<open>The classes the patterns of the console use.\<close>

definition cls_dot :: "char \<Rightarrow> bool" where
  "cls_dot c \<longleftrightarrow> c \<noteq> CHR 0x0A \<and> c \<noteq> CHR 0x0D"

definition cls_num :: "char \<Rightarrow> bool" where
  "cls_num c \<longleftrightarrow> is_digit c \<or> c \<in> {CHR ''.'', CHR ''e'', CHR ''E'', CHR ''+'', CHR ''-''}"

definition cls_not_quote :: "char \<Rightarrow> bool" where
  "cls_not_quote c \<longleftrightarrow> c \<noteq> CHR 0x22"

abbreviation r_digit :: matcher where "r_digit \<equiv> r_cls is_digit"
abbreviation r_ws :: matcher where "r_ws \<equiv> r_star (r_cls js_ws)"

section \<open>Running a pattern\<close>

text \<open>\<open>exec\<close> tries the start positions from left to right. The result is the part before the match
  and the state after it.\<close>

fun exec_from :: "matcher \<Rightarrow> string \<Rightarrow> string \<Rightarrow> (string \<times> mst) option" where
  "exec_from m b [] = (case m (b, [], []) of [] \<Rightarrow> None | t # _ \<Rightarrow> Some (b, t))"
| "exec_from m b (c # s) =
     (case m (b, c # s, []) of [] \<Rightarrow> exec_from m (c # b) s | t # _ \<Rightarrow> Some (b, t))"

text \<open>\<open>s.match(re)\<close> and \<open>re.test(s)\<close>, the captures as a map from group numbers.\<close>

definition rx_match :: "matcher \<Rightarrow> string \<Rightarrow> (nat \<rightharpoonup> string) option" where
  "rx_match m s = map_option (\<lambda>(b, b', r, g). map_of g) (exec_from m [] s)"

definition rx_test :: "matcher \<Rightarrow> string \<Rightarrow> bool" where
  "rx_test m s \<longleftrightarrow> rx_match m s \<noteq> None"

text \<open>The successive matches of a pattern with the \<open>g\<close> flag: after each match the search goes on
  behind it, one position further when it was empty.\<close>

function rx_all :: "matcher \<Rightarrow> string \<Rightarrow> string \<Rightarrow> (nat \<rightharpoonup> string) list" where
  "rx_all m b s =
     (case exec_from m b s of
        None \<Rightarrow> []
      | Some (b0, b', r, g) \<Rightarrow>
          map_of g # (if length r < length s then rx_all m b' r
                      else (case s of [] \<Rightarrow> [] | c # s' \<Rightarrow> rx_all m (c # b) s')))"
  by pat_completeness auto
termination
  by (relation "measure (\<lambda>(m, b, s). length s)") auto

declare rx_all.simps [simp del]

section \<open>Loops\<close>

lemma star_iter_fuel: "rest_len s \<le> n \<Longrightarrow> star_iter m n s = star_iter m (rest_len s) s"
proof (induction n arbitrary: s rule: less_induct)
  case (less n)
  show ?case
  proof (cases n)
    case 0
    then show ?thesis using less.prems by simp
  next
    case (Suc k)
    show ?thesis
    proof (cases "rest_len s")
      case 0
      then show ?thesis using Suc by simp
    next
      case (Suc j)
      have eq: "star_iter m k t = star_iter m j t" if "rest_len t < rest_len s" for t
      proof -
        have "rest_len t \<le> j" "rest_len t \<le> k" "j < n" "k < n"
          using that Suc less.prems \<open>n = Suc k\<close> by auto
        then show ?thesis using less.IH[of k t] less.IH[of j t] by simp
      qed
      have "map (star_iter m k) (filter (\<lambda>t. rest_len t < rest_len s) (m s)) =
            map (star_iter m j) (filter (\<lambda>t. rest_len t < rest_len s) (m s))"
        using eq by (intro map_cong refl) auto
      then have "star_iter m (Suc k) s = star_iter m (Suc j) s"
        by (simp only: star_iter.simps)
      then show ?thesis using Suc \<open>n = Suc k\<close> by simp
    qed
  qed
qed

lemma r_star_unfold:
  "r_star m s = concat (map (r_star m) (filter (\<lambda>t. rest_len t < rest_len s) (m s))) @ [s]"
proof (cases "rest_len s")
  case 0
  then show ?thesis by (simp add: r_star_def)
next
  case (Suc n)
  have "map (star_iter m n) (filter (\<lambda>t. rest_len t < rest_len s) (m s)) =
        map (r_star m) (filter (\<lambda>t. rest_len t < rest_len s) (m s))"
    unfolding r_star_def using Suc by (intro map_cong refl star_iter_fuel) auto
  then have "star_iter m (Suc n) s = concat (map (r_star m) (filter (\<lambda>t. rest_len t < rest_len s) (m s))) @ [s]"
    by (simp only: star_iter.simps)
  then show ?thesis using Suc by (simp only: r_star_def[of m s])
qed

lemma r_star_cls_Nil [simp]: "r_star (r_cls p) (b, [], g) = [(b, [], g)]"
  by (subst r_star_unfold) simp

lemma r_star_cls_Cons [simp]:
  "r_star (r_cls p) (b, c # r, g) = (if p c then r_star (r_cls p) (c # b, r, g) else []) @ [(b, c # r, g)]"
  by (subst r_star_unfold) simp

section \<open>Composition\<close>

lemma r_seq_Nil [rx]: "m s = [] \<Longrightarrow> r_seq m n s = []"
  by (simp add: r_seq_def)

lemma r_seq_single [rx]: "m s = [t] \<Longrightarrow> r_seq m n s = n t"
  by (simp add: r_seq_def)

lemma concat_map_map_concat: "concat (map f (concat xss)) = concat (map (\<lambda>xs. concat (map f xs)) xss)"
  by (induction xss) auto

lemma seq_star_unfold:
  "r_seq (r_star m) k s =
     concat (map (r_seq (r_star m) k) (filter (\<lambda>t. rest_len t < rest_len s) (m s))) @ k s"
proof -
  have "concat (map k (r_star m s)) = concat (map k
      (concat (map (r_star m) (filter (\<lambda>t. rest_len t < rest_len s) (m s))) @ [s]))"
    by (subst r_star_unfold) (rule refl)
  then show ?thesis by (simp add: r_seq_def[abs_def] concat_map_map_concat comp_def)
qed

lemma r_seq_assoc: "r_seq (r_seq a b) c = r_seq a (r_seq b c)"
  by (rule ext) (simp add: r_seq_def[abs_def] concat_map_map_concat comp_def)

lemma r_lit_self [simp]: "r_lit w (b, w @ z, g) = [(rev w @ b, z, g)]"
  by (induction w arbitrary: b) auto

lemma r_lit_cases: "r_lit w (b, r, g) = (if prefix w r then [(rev w @ b, drop (length w) r, g)] else [])"
proof (induction w arbitrary: b r)
  case (Cons a w)
  then show ?case by (cases r) auto
qed simp

text \<open>A matcher rejects a class when it cannot start at a character of it.\<close>

definition rejects :: "(char \<Rightarrow> bool) \<Rightarrow> matcher \<Rightarrow> bool" where
  "rejects p m \<longleftrightarrow> (\<forall>b c r g. p c \<longrightarrow> m (b, c # r, g) = [])"

lemma rejectsD: "rejects p m \<Longrightarrow> p c \<Longrightarrow> m (b, c # r, g) = []"
  by (simp add: rejects_def)

lemma rejects_lit [simp]: "\<not> p d \<Longrightarrow> rejects p (r_lit (d # w))"
  by (auto simp: rejects_def)

lemma rejects_eol [simp]: "rejects p r_eol"
  by (simp add: rejects_def)

lemma rejects_seq [simp]: "rejects p m \<Longrightarrow> rejects p (r_seq m n)"
  by (simp add: rejects_def r_seq_def)

lemma rejects_seqs [simp]: "rejects p m \<Longrightarrow> rejects p (r_seqs (m # ms))"
  by simp

lemma rejects_group [simp]: "rejects p m \<Longrightarrow> rejects p (r_group i m)"
  by (simp add: rejects_def)

lemma rejects_cls: "(\<And>c. p c \<Longrightarrow> \<not> q c) \<Longrightarrow> rejects p (r_cls q)"
  by (simp add: rejects_def)

text \<open>A greedy loop over a class, followed by something that cannot start inside the class, takes
  exactly the maximal run.\<close>

lemma star_then:
  assumes "list_all p xs" and "rejects p k" and "z = [] \<or> \<not> p (hd z)"
  shows "r_seq (r_star (r_cls p)) k (b, xs @ z, g) = k (rev xs @ b, z, g)"
  using assms
proof (induction xs arbitrary: b)
  case Nil
  then show ?case by (cases z) (auto simp: r_seq_def)
next
  case (Cons c xs)
  then have "k (b, c # xs @ z, g) = []" by (simp add: rejects_def)
  with Cons show ?case by (simp add: r_seq_def)
qed

lemma plus_then:
  assumes "list_all p xs" "xs \<noteq> []" "rejects p k" "z = [] \<or> \<not> p (hd z)"
  shows "r_seq (r_plus (r_cls p)) k (b, xs @ z, g) = k (rev xs @ b, z, g)"
proof -
  obtain c ys where xs: "xs = c # ys" using assms(2) by (cases xs) auto
  have "r_seq (r_plus (r_cls p)) k (b, xs @ z, g) = r_seq (r_star (r_cls p)) k (c # b, ys @ z, g)"
    using assms(1) xs by (simp add: r_plus_def r_seq_def)
  then show ?thesis using star_then[of p ys k z "c # b" g] assms xs by simp
qed

text \<open>The captured version: the group records the run.\<close>

definition shrinks :: "matcher \<Rightarrow> bool" where
  "shrinks m \<longleftrightarrow> (\<forall>b r g b' r' g'. (b', r', g') \<in> set (m (b, r, g)) \<longrightarrow>
      g' = g \<and> (\<exists>u. r = u @ r' \<and> b' = rev u @ b))"

lemma shrinks_star_cls: "(b', r', g') \<in> set (r_star (r_cls p) (b, r, g)) \<Longrightarrow>
   g' = g \<and> (\<exists>u. r = u @ r' \<and> b' = rev u @ b)"
proof (induction r arbitrary: b)
  case (Cons c r)
  show ?case
  proof (cases "p c \<and> (b', r', g') \<in> set (r_star (r_cls p) (c # b, r, g))")
    case True
    then obtain u where "g' = g" "r = u @ r'" "b' = rev u @ c # b" using Cons.IH by blast
    then show ?thesis by (intro conjI exI[of _ "c # u"]) auto
  next
    case False
    then show ?thesis using Cons.prems by (auto split: if_splits)
  qed
qed simp

lemma shrinks_plus_cls [simp]: "shrinks (r_plus (r_cls p))"
  unfolding shrinks_def
proof (intro allI impI)
  fix b r g b' r' g'
  assume a: "(b', r', g') \<in> set (r_plus (r_cls p) (b, r, g))"
  then obtain c s where r: "r = c # s" "p c" "(b', r', g') \<in> set (r_star (r_cls p) (c # b, s, g))"
    by (cases r) (auto simp: r_plus_def r_seq_def split: if_splits)
  then obtain u where "g' = g" "s = u @ r'" "b' = rev u @ c # b" using shrinks_star_cls by blast
  with r show "g' = g \<and> (\<exists>u. r = u @ r' \<and> b' = rev u @ b)"
    by (intro conjI exI[of _ "c # u"]) auto
qed

lemma group_plus_then:
  assumes "list_all p xs" "xs \<noteq> []" "rejects p k" "z = [] \<or> \<not> p (hd z)"
  shows "r_seq (r_group i (r_plus (r_cls p))) k (b, xs @ z, g) = k (rev xs @ b, z, (i, xs) # g)"
proof -
  define k' where "k' = (\<lambda>(b', r', g'). k (b', r', (i, take (length (xs @ z) - length r') (xs @ z)) # g'))"
  have "rejects p k'" using assms(3) by (auto simp: rejects_def k'_def)
  then have "r_seq (r_plus (r_cls p)) k' (b, xs @ z, g) = k' (rev xs @ b, z, g)"
    using plus_then assms by blast
  moreover have "r_seq (r_group i (r_plus (r_cls p))) k (b, xs @ z, g) =
                 r_seq (r_plus (r_cls p)) k' (b, xs @ z, g)"
    by (simp add: r_seq_def k'_def comp_def case_prod_unfold)
  ultimately show ?thesis by (simp add: k'_def)
qed

section \<open>Anchored patterns\<close>

lemma exec_from_bol_later: "b \<noteq> [] \<Longrightarrow> exec_from (r_seqs (r_bol # ms)) b s = None"
  by (induction s arbitrary: b) (auto simp: r_seq_def)

lemma rx_match_bol:
  "rx_match (r_seqs (r_bol # ms)) s =
     (case r_seqs ms ([], s, []) of [] \<Rightarrow> None | (b, r, g) # _ \<Rightarrow> Some (map_of g))"
proof -
  have e: "r_seqs (r_bol # ms) ([], s, []) = r_seqs ms ([], s, [])"
    by (simp add: r_seq_def)
  show ?thesis
  proof (cases "r_seqs ms ([], s, [])")
    case Nil
    then have "exec_from (r_seqs (r_bol # ms)) [] s = None"
      using e exec_from_bol_later[of _ ms] by (cases s) (auto simp del: r_seqs.simps)
    then show ?thesis using Nil by (simp add: rx_match_def del: r_seqs.simps)
  next
    case (Cons t ts)
    then have "exec_from (r_seqs (r_bol # ms)) [] s = Some ([], t)"
      using e by (cases s) (auto simp del: r_seqs.simps)
    then show ?thesis using Cons by (cases t) (simp add: rx_match_def del: r_seqs.simps)
  qed
qed

section \<open>What a pattern consumes\<close>

text \<open>\<open>consumes p m\<close>: whatever way the matcher goes on, the text it takes is over the class \<open>p\<close>.\<close>

definition consumes :: "(char \<Rightarrow> bool) \<Rightarrow> matcher \<Rightarrow> bool" where
  "consumes p m \<longleftrightarrow> (\<forall>b r g b' r' g'. (b', r', g') \<in> set (m (b, r, g)) \<longrightarrow>
      (\<exists>u. r = u @ r' \<and> list_all p u))"

lemma consumesD:
  "consumes p m \<Longrightarrow> (b', r', g') \<in> set (m (b, r, g)) \<Longrightarrow> \<exists>u. r = u @ r' \<and> list_all p u"
  by (fastforce simp: consumes_def)

lemma consumes_cls [intro]: "(\<And>c. q c \<Longrightarrow> p c) \<Longrightarrow> consumes p (r_cls q)"
  unfolding consumes_def by (intro allI impI, case_tac r) (auto split: if_splits)

lemma consumes_lit [intro]: "list_all p w \<Longrightarrow> consumes p (r_lit w)"
  unfolding consumes_def by (auto simp: r_lit_cases prefix_def split: if_splits)

lemma consumes_bol [intro, simp]: "consumes p r_bol"
  by (auto simp: consumes_def)

lemma consumes_eol [intro, simp]: "consumes p r_eol"
  by (auto simp: consumes_def)

lemma consumes_seq [intro]:
  assumes "consumes p m" "consumes p n"
  shows "consumes p (r_seq m n)"
  unfolding consumes_def
proof (intro allI impI)
  fix b r g b' r' g'
  assume "(b', r', g') \<in> set (r_seq m n (b, r, g))"
  then obtain b1 r1 g1 where "(b1, r1, g1) \<in> set (m (b, r, g))" "(b', r', g') \<in> set (n (b1, r1, g1))"
    by (auto simp: r_seq_def)
  then obtain u v where "r = u @ r1" "list_all p u" "r1 = v @ r'" "list_all p v"
    using assms consumesD by meson
  then show "\<exists>u. r = u @ r' \<and> list_all p u" by (intro exI[of _ "u @ v"]) auto
qed

lemma consumes_id [intro, simp]: "consumes p (\<lambda>s. [s])"
  by (auto simp: consumes_def)

lemma consumes_seqs [intro]: "(\<And>m. m \<in> set ms \<Longrightarrow> consumes p m) \<Longrightarrow> consumes p (r_seqs ms)"
  by (induction ms) auto

lemma consumes_alt [intro]: "consumes p m \<Longrightarrow> consumes p n \<Longrightarrow> consumes p (r_alt m n)"
  unfolding consumes_def r_alt_def by fastforce

lemma consumes_alts [intro]: "(\<And>m. m \<in> set ms \<Longrightarrow> consumes p m) \<Longrightarrow> consumes p (r_alts ms)"
  by (induction ms) (auto simp: consumes_def[of _ "\<lambda>s. []"])

lemma consumes_opt [intro]: "consumes p m \<Longrightarrow> consumes p (r_opt m)"
  unfolding consumes_def r_opt_def by fastforce

lemma consumes_star [intro]:
  assumes "consumes p m"
  shows "consumes p (r_star m)"
proof -
  have "(b', r', g') \<in> set (r_star m (b, r, g)) \<Longrightarrow> \<exists>u. r = u @ r' \<and> list_all p u"
    for b r g b' r' g'
  proof (induction "length r" arbitrary: b r g rule: less_induct)
    case less
    from less.prems consider "(b', r', g') = (b, r, g)"
      | b1 r1 g1 where "(b1, r1, g1) \<in> set (m (b, r, g))" "length r1 < length r"
          "(b', r', g') \<in> set (r_star m (b1, r1, g1))"
      by (subst (asm) r_star_unfold) auto
    then show ?case
    proof cases
      case 2
      then obtain u v where "r = u @ r1" "list_all p u" "r1 = v @ r'" "list_all p v"
        using assms consumesD less.hyps by meson
      then show ?thesis by (intro exI[of _ "u @ v"]) auto
    qed auto
  qed
  then show ?thesis by (auto simp: consumes_def)
qed

lemma consumes_plus [intro]: "consumes p m \<Longrightarrow> consumes p (r_plus m)"
  unfolding r_plus_def by blast

lemma consumes_group [intro]: "consumes p m \<Longrightarrow> consumes p (r_group i m)"
  unfolding consumes_def by fastforce

text \<open>A pattern anchored at both ends that matches says what the whole text is made of.\<close>

lemma anchored_class:
  assumes "rx_test (r_seqs (r_bol # ms @ [r_eol])) s" and "\<And>m. m \<in> set ms \<Longrightarrow> consumes p m"
  shows "list_all p s"
proof -
  have split: "r_seqs (xs @ [r_eol]) = r_seq (r_seqs xs) r_eol" for xs
  proof (induction xs)
    case Nil
    show ?case by (rule ext) (simp add: r_seq_def)
  qed (simp add: r_seq_assoc)
  from assms(1) obtain b r g where "(b, r, g) \<in> set (r_seqs (ms @ [r_eol]) ([], s, []))"
    unfolding rx_test_def rx_match_bol
    by (cases "r_seqs (ms @ [r_eol]) ([], s, [])") fastforce+
  then obtain b' g' where "(b', [], g') \<in> set (r_seqs ms ([], s, []))"
    by (auto simp: split r_seq_def split: if_splits)
  moreover have "consumes p (r_seqs ms)" using assms(2) by blast
  ultimately show ?thesis using consumesD by fastforce
qed

end
