(* ===== verification/JsNumber.thy ===== *)
theory JsNumber
  imports JsString
begin

text \<open>
  JavaScript's \<open>Number\<close>: IEEE 754 double precision. A finite double is the rational it denotes;
  every arithmetic operation computes the exact rational and rounds it to the nearest double, ties
  to even (\<open>rnd\<close>). The two zeros are identified: the modelled code can tell them apart only by the
  sign of an infinite quotient, and it tests every quotient with \<open>Number.isFinite\<close>.
  \<open>Number(s)\<close>, \<open>parseFloat\<close>, \<open>String(x)\<close> and \<open>toFixed\<close> follow ECMA-262.
\<close>

section \<open>Doubles\<close>

datatype jsnum = NaN | PosInf | NegInf | Fin rat

function bitlen :: "int \<Rightarrow> int" where
  "bitlen n = (if n \<le> 0 then 0 else 1 + bitlen (n div 2))"
  by pat_completeness auto
termination
  by (relation "measure nat") auto

declare bitlen.simps [simp del]

definition pow2 :: "int \<Rightarrow> rat" where
  "pow2 e = (if 0 \<le> e then of_int (2 ^ nat e) else 1 / of_int (2 ^ nat (- e)))"

text \<open>The \<open>e\<close> with \<open>2 ^ e \<le> x < 2 ^ (e + 1)\<close> for a positive \<open>x\<close>.\<close>

definition ilog2 :: "rat \<Rightarrow> int" where
  "ilog2 x = (if 1 \<le> x then bitlen \<lfloor>x\<rfloor> - 1 else - bitlen (\<lceil>1 / x\<rceil> - 1))"

definition round_half_even :: "rat \<Rightarrow> int" where
  "round_half_even x = (let f = \<lfloor>x\<rfloor>; r = x - of_int f
     in if r < 1 / 2 then f else if 1 / 2 < r then f + 1 else if even f then f else f + 1)"

definition rnd_abs :: "rat \<Rightarrow> rat" where
  "rnd_abs a = (let q = max (ilog2 a - 52) (- 1074) in of_int (round_half_even (a / pow2 q)) * pow2 q)"

definition rnd :: "rat \<Rightarrow> jsnum" where
  "rnd x = (if x = 0 then Fin 0
            else let v = rnd_abs \<bar>x\<bar>
                 in if 1024 \<le> ilog2 v then (if 0 < x then PosInf else NegInf)
                    else Fin (if 0 < x then v else - v))"

section \<open>Arithmetic\<close>

fun num_neg :: "jsnum \<Rightarrow> jsnum" where
  "num_neg NaN = NaN" | "num_neg PosInf = NegInf" | "num_neg NegInf = PosInf"
| "num_neg (Fin x) = Fin (- x)"

fun num_add :: "jsnum \<Rightarrow> jsnum \<Rightarrow> jsnum" where
  "num_add (Fin x) (Fin y) = rnd (x + y)"
| "num_add NaN _ = NaN"
| "num_add _ NaN = NaN"
| "num_add PosInf NegInf = NaN"
| "num_add NegInf PosInf = NaN"
| "num_add PosInf _ = PosInf"
| "num_add _ PosInf = PosInf"
| "num_add _ _ = NegInf"

definition num_sub :: "jsnum \<Rightarrow> jsnum \<Rightarrow> jsnum" where
  "num_sub a b = num_add a (num_neg b)"

fun num_sign :: "jsnum \<Rightarrow> int" where
  "num_sign NaN = 0" | "num_sign PosInf = 1" | "num_sign NegInf = -1"
| "num_sign (Fin x) = (if x = 0 then 0 else if 0 < x then 1 else -1)"

definition inf_of_sign :: "int \<Rightarrow> jsnum" where
  "inf_of_sign s = (if s = 0 then NaN else if 0 < s then PosInf else NegInf)"

fun num_mul :: "jsnum \<Rightarrow> jsnum \<Rightarrow> jsnum" where
  "num_mul (Fin x) (Fin y) = rnd (x * y)"
| "num_mul NaN _ = NaN"
| "num_mul _ NaN = NaN"
| "num_mul a b = inf_of_sign (num_sign a * num_sign b)"

fun num_div :: "jsnum \<Rightarrow> jsnum \<Rightarrow> jsnum" where
  "num_div (Fin x) (Fin y) =
     (if y = 0 then inf_of_sign (num_sign (Fin x)) else rnd (x / y))"
| "num_div NaN _ = NaN"
| "num_div _ NaN = NaN"
| "num_div (Fin x) _ = Fin 0"
| "num_div a (Fin y) = inf_of_sign (num_sign a * (if y < 0 then -1 else 1))"
| "num_div _ _ = NaN"

fun is_finite :: "jsnum \<Rightarrow> bool" where
  "is_finite (Fin x) = True"
| "is_finite _ = False"

fun is_nan :: "jsnum \<Rightarrow> bool" where
  "is_nan NaN = True"
| "is_nan _ = False"

fun is_integer :: "jsnum \<Rightarrow> bool" where
  "is_integer (Fin x) = (of_int \<lfloor>x\<rfloor> = x)"
| "is_integer _ = False"

text \<open>\<open>a === b\<close>, \<open>a < b\<close>, \<open>a <= b\<close> on numbers.\<close>

definition num_eq :: "jsnum \<Rightarrow> jsnum \<Rightarrow> bool" where
  "num_eq a b \<longleftrightarrow> a = b \<and> a \<noteq> NaN"

fun num_less :: "jsnum \<Rightarrow> jsnum \<Rightarrow> bool" where
  "num_less (Fin x) (Fin y) = (x < y)"
| "num_less NaN _ = False"
| "num_less _ NaN = False"
| "num_less a b = (a \<noteq> b \<and> (a = NegInf \<or> b = PosInf))"

definition num_le :: "jsnum \<Rightarrow> jsnum \<Rightarrow> bool" where
  "num_le a b \<longleftrightarrow> num_less a b \<or> num_eq a b"

fun num_abs :: "jsnum \<Rightarrow> jsnum" where
  "num_abs (Fin x) = Fin \<bar>x\<bar>"
| "num_abs NaN = NaN"
| "num_abs _ = PosInf"

text \<open>\<open>Math.max\<close> on two numbers and \<open>Math.round\<close> (ties towards plus infinity).\<close>

definition num_max :: "jsnum \<Rightarrow> jsnum \<Rightarrow> jsnum" where
  "num_max a b = (if a = NaN \<or> b = NaN then NaN else if num_less a b then b else a)"

fun num_round :: "jsnum \<Rightarrow> jsnum" where
  "num_round (Fin x) = Fin (of_int \<lfloor>x + 1 / 2\<rfloor>)"
| "num_round a = a"

definition num_truthy :: "jsnum \<Rightarrow> bool" where
  "num_truthy a \<longleftrightarrow> a \<noteq> NaN \<and> a \<noteq> Fin 0"

section \<open>Numbers from text\<close>

text \<open>The decimal literals of ECMA-262: digits with an optional fraction, or a fraction, then an
  optional exponent. The scanner gives the exact value and what is left of the text.\<close>

definition pow10 :: "int \<Rightarrow> rat" where
  "pow10 e = (if 0 \<le> e then of_int (10 ^ nat e) else 1 / of_int (10 ^ nat (- e)))"

definition scan_exponent :: "string \<Rightarrow> int \<times> string" where
  "scan_exponent s = (case s of
     c # r \<Rightarrow>
       if c = CHR ''e'' \<or> c = CHR ''E'' then
         let (neg, r1) = (case r of
               d # r' \<Rightarrow> if d = CHR ''-'' then (True, r') else if d = CHR ''+'' then (False, r') else (False, r)
             | [] \<Rightarrow> (False, []));
             ds = takeWhile is_digit r1
         in if ds = [] then (0, s)
            else ((if neg then - int_of_str ds else int_of_str ds), dropWhile is_digit r1)
       else (0, s)
   | [] \<Rightarrow> (0, s))"

definition scan_unsigned :: "string \<Rightarrow> (rat \<times> string) option" where
  "scan_unsigned s =
     (let ip = takeWhile is_digit s; r1 = dropWhile is_digit s;
          (fp, r2) = (case r1 of
              c # r \<Rightarrow> if c = CHR ''.'' \<and> (ip \<noteq> [] \<or> takeWhile is_digit r \<noteq> [])
                       then (takeWhile is_digit r, dropWhile is_digit r) else ([], r1)
            | [] \<Rightarrow> ([], []));
          (e, r3) = scan_exponent r2
      in if ip = [] \<and> fp = [] then None
         else Some (of_int (int_of_str (ip @ fp)) * pow10 (e - int (length fp)), r3))"

definition scan_number :: "string \<Rightarrow> (jsnum \<times> string) option" where
  "scan_number s =
     (let (neg, r) = (case s of
            c # r' \<Rightarrow> if c = CHR ''-'' then (True, r') else if c = CHR ''+'' then (False, r') else (False, s)
          | [] \<Rightarrow> (False, []))
      in if prefix ''Infinity'' r then Some (if neg then NegInf else PosInf, drop 8 r)
         else map_option (\<lambda>(x, r'). (rnd (if neg then - x else x), r')) (scan_unsigned r))"

definition hex_val :: "char \<Rightarrow> int option" where
  "hex_val c = (let n = of_char c :: int in
     if 48 \<le> n \<and> n \<le> 57 then Some (n - 48)
     else if 97 \<le> n \<and> n \<le> 102 then Some (n - 87)
     else if 65 \<le> n \<and> n \<le> 70 then Some (n - 55) else None)"

fun radix_value :: "int \<Rightarrow> int \<Rightarrow> string \<Rightarrow> int option" where
  "radix_value b acc [] = Some acc"
| "radix_value b acc (c # s) =
     (case hex_val c of None \<Rightarrow> None | Some v \<Rightarrow> if v < b then radix_value b (acc * b + v) s else None)"

text \<open>\<open>Number(s)\<close> on a string.\<close>

definition num_of_string :: "string \<Rightarrow> jsnum" where
  "num_of_string s =
     (let t = trim s in
      if t = [] then Fin 0
      else if length t > 2 \<and> hd t = CHR ''0'' \<and> t ! 1 \<in> {CHR ''x'', CHR ''X'', CHR ''o'', CHR ''O'', CHR ''b'', CHR ''B''}
      then (let b = (if t ! 1 \<in> {CHR ''x'', CHR ''X''} then 16
                     else if t ! 1 \<in> {CHR ''o'', CHR ''O''} then 8 else 2)
            in case radix_value b 0 (drop 2 t) of None \<Rightarrow> NaN | Some n \<Rightarrow> rnd (of_int n))
      else case scan_number t of Some (x, []) \<Rightarrow> x | _ \<Rightarrow> NaN)"

definition parse_float :: "string \<Rightarrow> jsnum" where
  "parse_float s = (case scan_number (trim_start s) of Some (x, _) \<Rightarrow> x | None \<Rightarrow> NaN)"

section \<open>Numbers to text\<close>

function ndigits :: "int \<Rightarrow> int" where
  "ndigits n = (if n \<le> 0 then 0 else 1 + ndigits (n div 10))"
  by pat_completeness auto
termination
  by (relation "measure nat") auto

declare ndigits.simps [simp del]

text \<open>The \<open>n\<close> with \<open>10 ^ (n - 1) \<le> a < 10 ^ n\<close> for a positive \<open>a\<close>.\<close>

definition dec_exp :: "rat \<Rightarrow> int" where
  "dec_exp a = (if 1 \<le> a then ndigits \<lfloor>a\<rfloor> else 1 - ndigits (\<lceil>1 / a\<rceil> - 1))"

text \<open>The shortest digits that read back as the number: for a length \<open>k\<close>, the nearest candidate
  with \<open>k\<close> digits, then the second nearest.\<close>

definition try_digits :: "rat \<Rightarrow> int \<Rightarrow> nat \<Rightarrow> int option" where
  "try_digits a n k =
     (let p = pow10 (n - int k); q = a / p; f = \<lfloor>q\<rfloor>; r = q - of_int f;
          (c1, c2) = (if r < 1 / 2 \<or> (r = 1 / 2 \<and> even f) then (f, f + 1) else (f + 1, f))
      in if rnd (of_int c1 * p) = Fin a then Some c1
         else if rnd (of_int c2 * p) = Fin a then Some c2 else None)"

fun shortest :: "rat \<Rightarrow> int \<Rightarrow> nat \<Rightarrow> nat \<Rightarrow> int \<times> nat" where
  "shortest a n k 0 = (\<lfloor>a / pow10 (n - int k)\<rfloor>, k)"
| "shortest a n k (Suc m) = (case try_digits a n k of Some s \<Rightarrow> (s, k) | None \<Rightarrow> shortest a n (Suc k) m)"

definition zeros :: "nat \<Rightarrow> string" where
  "zeros n = replicate n (CHR ''0'')"

definition format_digits :: "string \<Rightarrow> int \<Rightarrow> string" where
  "format_digits ds n =
     (let k = int (length ds) in
      if k \<le> n \<and> n \<le> 21 then ds @ zeros (nat (n - k))
      else if 0 < n \<and> n \<le> 21 then take (nat n) ds @ ''.'' @ drop (nat n) ds
      else if - 6 < n \<and> n \<le> 0 then ''0.'' @ zeros (nat (- n)) @ ds
      else let e = n - 1;
               es = (if e < 0 then ''-'' else ''+'') @ int_str \<bar>e\<bar>
           in if k = 1 then ds @ ''e'' @ es else take 1 ds @ ''.'' @ drop 1 ds @ ''e'' @ es)"

definition abs_str :: "rat \<Rightarrow> string" where
  "abs_str a =
     (let n = dec_exp a; (s, k) = shortest a n 1 17
      in if s = 10 ^ k then format_digits ''1'' (n + 1) else format_digits (int_str s) n)"

fun num_str :: "jsnum \<Rightarrow> string" where
  "num_str NaN = ''NaN''"
| "num_str PosInf = ''Infinity''"
| "num_str NegInf = ''-Infinity''"
| "num_str (Fin x) = (if x = 0 then ''0'' else if 0 < x then abs_str x else CHR ''-'' # abs_str (- x))"

text \<open>\<open>x.toFixed(f)\<close>.\<close>

definition fixed_abs :: "rat \<Rightarrow> nat \<Rightarrow> string" where
  "fixed_abs a f =
     (let n = \<lfloor>a * of_int (10 ^ f) + 1 / 2\<rfloor>; m = int_str n;
          z = (if length m \<le> f then zeros (f + 1 - length m) @ m else m); i = length z - f
      in if f = 0 then m else take i z @ ''.'' @ drop i z)"

fun to_fixed :: "nat \<Rightarrow> jsnum \<Rightarrow> string" where
  "to_fixed f (Fin x) =
     (if of_int (10 ^ 21) \<le> \<bar>x\<bar> then num_str (Fin x)
      else if x < 0 then CHR ''-'' # fixed_abs (- x) f else fixed_abs x f)"
| "to_fixed f a = num_str a"

end
