(* ===== verification/JsValue.thy ===== *)
theory JsValue
  imports JsNumber
begin

text \<open>
  JavaScript values as the console's code handles them: what \<open>JSON.parse\<close> gives and what object
  literals build. An object is the list of its own enumerable string-keyed properties in the order
  in which \<open>Object.keys\<close> lists them: the integer indices in ascending order, then the other keys in
  the order of their creation. Reading a missing property gives \<open>undefined\<close>.
\<close>

section \<open>Values\<close>

datatype jsval =
    JUndef
  | JNull
  | JBool bool
  | JNum jsnum
  | JStr string
  | JArr "jsval list"
  | JObj "(string \<times> jsval) list"

type_synonym jsobj = "(string \<times> jsval) list"

fun truthy :: "jsval \<Rightarrow> bool" where
  "truthy JUndef = False"
| "truthy JNull = False"
| "truthy (JBool b) = b"
| "truthy (JNum n) = num_truthy n"
| "truthy (JStr s) = (s \<noteq> [])"
| "truthy (JArr _) = True"
| "truthy (JObj _) = True"

text \<open>\<open>v == null\<close>, \<open>typeof v === 'object'\<close> (true of \<open>null\<close> and of arrays), \<open>Array.isArray\<close>.\<close>

fun nullish :: "jsval \<Rightarrow> bool" where
  "nullish JUndef = True"
| "nullish JNull = True"
| "nullish _ = False"

fun is_array :: "jsval \<Rightarrow> bool" where
  "is_array (JArr _) = True"
| "is_array _ = False"

text \<open>The test \<open>v && typeof v === 'object' && !Array.isArray(v)\<close>, with the properties.\<close>

fun as_object :: "jsval \<Rightarrow> jsobj option" where
  "as_object (JObj ps) = Some ps"
| "as_object _ = None"

fun as_array :: "jsval \<Rightarrow> jsval list option" where
  "as_array (JArr vs) = Some vs"
| "as_array _ = None"

fun as_string :: "jsval \<Rightarrow> string option" where
  "as_string (JStr s) = Some s"
| "as_string _ = None"

text \<open>\<open>String(v)\<close> and \<open>Number(v)\<close>.\<close>

fun js_string :: "jsval \<Rightarrow> string" and js_elem_strings :: "jsval list \<Rightarrow> string list" where
  "js_string JUndef = ''undefined''"
| "js_string JNull = ''null''"
| "js_string (JBool b) = (if b then ''true'' else ''false'')"
| "js_string (JNum n) = num_str n"
| "js_string (JStr s) = s"
| "js_string (JArr vs) = join '','' (js_elem_strings vs)"
| "js_string (JObj ps) = ''[object Object]''"
| "js_elem_strings [] = []"
| "js_elem_strings (v # vs) = (if nullish v then [] else js_string v) # js_elem_strings vs"

fun js_number :: "jsval \<Rightarrow> jsnum" where
  "js_number JUndef = NaN"
| "js_number JNull = Fin 0"
| "js_number (JBool b) = Fin (if b then 1 else 0)"
| "js_number (JNum n) = n"
| "js_number v = num_of_string (js_string v)"

text \<open>\<open>v || w\<close> and \<open>v ?? w\<close>.\<close>

definition js_or :: "jsval \<Rightarrow> jsval \<Rightarrow> jsval" where
  "js_or v w = (if truthy v then v else w)"

definition js_coalesce :: "jsval \<Rightarrow> jsval \<Rightarrow> jsval" where
  "js_coalesce v w = (if nullish v then w else v)"

section \<open>Objects\<close>

definition is_index :: "string \<Rightarrow> bool" where
  "is_index k \<longleftrightarrow> k \<noteq> [] \<and> list_all is_digit k \<and> int_str (int_of_str k) = k
                  \<and> int_of_str k < 4294967295"

definition obj_get :: "string \<Rightarrow> (string \<times> 'v) list \<Rightarrow> 'v option" where
  "obj_get k ps = map_of ps k"

definition obj_has :: "string \<Rightarrow> (string \<times> 'v) list \<Rightarrow> bool" where
  "obj_has k ps \<longleftrightarrow> k \<in> set (map fst ps)"

text \<open>A new integer index goes in front of the first key that is not a smaller index.\<close>

fun obj_ins_index :: "string \<Rightarrow> 'v \<Rightarrow> (string \<times> 'v) list \<Rightarrow> (string \<times> 'v) list" where
  "obj_ins_index k v [] = [(k, v)]"
| "obj_ins_index k v ((j, w) # ps) =
     (if is_index j \<and> int_of_str j < int_of_str k then (j, w) # obj_ins_index k v ps
      else (k, v) # (j, w) # ps)"

definition obj_set :: "string \<Rightarrow> 'v \<Rightarrow> (string \<times> 'v) list \<Rightarrow> (string \<times> 'v) list" where
  "obj_set k v ps =
     (if obj_has k ps then map (\<lambda>(j, w). if j = k then (j, v) else (j, w)) ps
      else if is_index k then obj_ins_index k v ps
      else ps @ [(k, v)])"

definition obj_del :: "string \<Rightarrow> (string \<times> 'v) list \<Rightarrow> (string \<times> 'v) list" where
  "obj_del k ps = filter (\<lambda>(j, w). j \<noteq> k) ps"

text \<open>An object built by assigning the pairs in order, and the spread \<open>{...a, ...b}\<close>.\<close>

definition obj_spread :: "(string \<times> 'v) list \<Rightarrow> (string \<times> 'v) list \<Rightarrow> (string \<times> 'v) list" where
  "obj_spread a b = fold (\<lambda>(k, v) ps. obj_set k v ps) b a"

definition obj_of :: "(string \<times> 'v) list \<Rightarrow> (string \<times> 'v) list" where
  "obj_of ps = obj_spread [] ps"

text \<open>Reading with a value for a missing property.\<close>

definition obj_or :: "'v \<Rightarrow> string \<Rightarrow> (string \<times> 'v) list \<Rightarrow> 'v" where
  "obj_or d k ps = (case obj_get k ps of Some v \<Rightarrow> v | None \<Rightarrow> d)"

text \<open>\<open>v?.k\<close> on a value.\<close>

definition jget :: "string \<Rightarrow> jsval \<Rightarrow> jsval" where
  "jget k v = (case v of JObj ps \<Rightarrow> (case obj_get k ps of Some w \<Rightarrow> w | None \<Rightarrow> JUndef) | _ \<Rightarrow> JUndef)"

text \<open>\<open>===\<close> on scalars.\<close>

fun strict_eq :: "jsval \<Rightarrow> jsval \<Rightarrow> bool" where
  "strict_eq (JNum a) (JNum b) = num_eq a b"
| "strict_eq a b = (a = b)"

text \<open>\<open>toBoolean\<close> of web/src/helpers/boolean.js.\<close>

definition toBoolean :: "jsval \<Rightarrow> bool" where
  "toBoolean v = (case v of
      JBool b \<Rightarrow> b
    | JNum n \<Rightarrow> num_eq n (Fin 1)
    | JStr s \<Rightarrow> to_lower s = ''true'' \<or> to_lower s = ''1''
    | _ \<Rightarrow> False)"

text \<open>An array is an object with its indices as keys.\<close>

definition array_entries :: "jsval list \<Rightarrow> jsobj" where
  "array_entries vs = map (\<lambda>(i, v). (nat_str i, v)) (enumerate 0 vs)"

text \<open>The own properties of a value that a spread copies.\<close>

definition spread_of :: "jsval \<Rightarrow> jsobj" where
  "spread_of v = (case v of JObj ps \<Rightarrow> ps | JArr vs \<Rightarrow> array_entries vs
     | JStr s \<Rightarrow> array_entries (map (\<lambda>c. JStr [c]) s) | _ \<Rightarrow> [])"

section \<open>The store interface\<close>

text \<open>
  What the clients of an object rely on: reading after writing and after deleting, and that the
  operations keep the keys distinct. The state of several components (toggle maps, option maps)
  is such a store.
\<close>

locale keyed_store =
  fixes get :: "'k \<Rightarrow> 's \<Rightarrow> 'v option"
    and put :: "'k \<Rightarrow> 'v \<Rightarrow> 's \<Rightarrow> 's"
    and del :: "'k \<Rightarrow> 's \<Rightarrow> 's"
    and good :: "'s \<Rightarrow> bool"
  assumes get_put: "get j (put k v s) = (if j = k then Some v else get j s)"
    and get_del: "good s \<Longrightarrow> get j (del k s) = (if j = k then None else get j s)"
    and good_put: "good s \<Longrightarrow> good (put k v s)"
    and good_del: "good s \<Longrightarrow> good (del k s)"
begin

text \<open>Assigning a list of pairs: the last assignment to a key wins.\<close>

lemma get_fold_put:
  "get j (fold (\<lambda>(k, v) s. put k v s) kvs s) =
     (case map_of (rev kvs) j of Some v \<Rightarrow> Some v | None \<Rightarrow> get j s)"
  by (induction kvs arbitrary: s) (auto simp: get_put map_add_def map_of_append split: option.splits)

lemma good_fold_put: "good s \<Longrightarrow> good (fold (\<lambda>(k, v) s. put k v s) kvs s)"
  by (induction kvs arbitrary: s) (auto simp: good_put)

lemma get_put_del: "good s \<Longrightarrow> get j (put k v (del k s)) = get j (put k v s)"
  by (simp add: get_put get_del)

end

section \<open>Objects are a store\<close>

definition obj_ok :: "(string \<times> 'v) list \<Rightarrow> bool" where
  "obj_ok ps \<longleftrightarrow> distinct (map fst ps)"

lemma obj_get_ins_index:
  "k \<notin> set (map fst ps) \<Longrightarrow> obj_get j (obj_ins_index k v ps) = (if j = k then Some v else obj_get j ps)"
  by (induction ps) (auto simp: obj_get_def)

lemma set_obj_ins_index: "set (obj_ins_index k v ps) = insert (k, v) (set ps)"
  by (induction ps) (auto split: if_splits)

lemma obj_get_upd_other:
  "j \<noteq> k \<Longrightarrow> obj_get j (map (\<lambda>(i, w). if i = k then (i, v) else (i, w)) ps) = obj_get j ps"
  unfolding obj_get_def by (induction ps) (auto split: prod.splits)

lemma obj_get_upd_same:
  "k \<in> set (map fst ps) \<Longrightarrow> obj_get k (map (\<lambda>(i, w). if i = k then (i, v) else (i, w)) ps) = Some v"
  unfolding obj_get_def by (induction ps) (auto split: prod.splits)

lemma obj_get_snoc:
  "k \<notin> set (map fst ps) \<Longrightarrow> obj_get j (ps @ [(k, v)]) = (if j = k then Some v else obj_get j ps)"
  unfolding obj_get_def by (induction ps) auto

lemma obj_get_set: "obj_get j (obj_set k v ps) = (if j = k then Some v else obj_get j ps)"
proof (cases "k \<in> set (map fst ps)")
  case True
  then have "obj_set k v ps = map (\<lambda>(i, w). if i = k then (i, v) else (i, w)) ps"
    by (simp only: obj_set_def obj_has_def if_True)
  then show ?thesis using True obj_get_upd_same[of k ps v] obj_get_upd_other[of j k v ps] by (cases "j = k") simp_all
next
  case False
  then have "obj_set k v ps = (if is_index k then obj_ins_index k v ps else ps @ [(k, v)])"
    by (simp only: obj_set_def obj_has_def if_False)
  then show ?thesis using obj_get_ins_index[OF False, of j v] obj_get_snoc[OF False, of j v] by auto
qed

lemma obj_get_del: "obj_get j (obj_del k ps) = (if j = k then None else obj_get j ps)"
  by (induction ps) (auto simp: obj_get_def obj_del_def)

lemma fst_set_ins_index: "fst ` set (obj_ins_index k v ps) = insert k (fst ` set ps)"
  by (simp add: set_obj_ins_index)

lemma obj_ok_ins_index: "obj_ok ps \<Longrightarrow> k \<notin> fst ` set ps \<Longrightarrow> obj_ok (obj_ins_index k v ps)"
proof (induction ps)
  case (Cons p ps)
  obtain j w where p: "p = (j, w)" by force
  then show ?case using Cons by (auto simp: obj_ok_def fst_set_ins_index)
qed (simp add: obj_ok_def)

lemma map_fst_upd: "map fst (map (\<lambda>(i, w). if i = k then (i, v) else (i, w)) ps) = map fst ps"
  by (induction ps) auto

lemma obj_ok_set: "obj_ok ps \<Longrightarrow> obj_ok (obj_set k v ps)"
  using obj_ok_ins_index[of ps k v]
  by (auto simp: obj_set_def obj_has_def obj_ok_def map_fst_upd simp del: map_map)

lemma obj_ok_del: "obj_ok ps \<Longrightarrow> obj_ok (obj_del k ps)"
  by (induction ps) (auto simp: obj_ok_def obj_del_def)

interpretation obj: keyed_store obj_get obj_set obj_del obj_ok
  by unfold_locales (auto simp: obj_get_set obj_get_del obj_ok_set obj_ok_del)

lemma obj_get_spread:
  "obj_get j (obj_spread a b) = (case map_of (rev b) j of Some v \<Rightarrow> Some v | None \<Rightarrow> obj_get j a)"
  unfolding obj_spread_def by (rule obj.get_fold_put)

lemma obj_ok_of: "obj_ok (obj_of ps)"
  unfolding obj_of_def obj_spread_def by (rule obj.good_fold_put) (simp add: obj_ok_def)

lemma jget_obj: "jget k (JObj ps) = (case obj_get k ps of Some w \<Rightarrow> w | None \<Rightarrow> JUndef)"
  by (simp add: jget_def)

text \<open>Assigning distinct keys none of which is an index builds the list as it is.\<close>

lemma obj_set_append:
  "k \<notin> set (map fst ps) \<Longrightarrow> \<not> is_index k \<Longrightarrow> obj_set k v ps = ps @ [(k, v)]"
  by (simp add: obj_set_def obj_has_def)

lemma obj_spread_plain:
  "distinct (map fst (a @ b)) \<Longrightarrow> list_all (\<lambda>(k, v). \<not> is_index k) b \<Longrightarrow> obj_spread a b = a @ b"
proof (induction b arbitrary: a)
  case (Cons p b)
  obtain k v where p: "p = (k, v)" by force
  have "obj_set k v a = a @ [(k, v)]" using Cons.prems p by (intro obj_set_append) auto
  moreover have "obj_spread (a @ [(k, v)]) b = (a @ [(k, v)]) @ b"
    using Cons p by (intro Cons.IH) auto
  ultimately show ?case using p by (simp add: obj_spread_def)
qed (simp add: obj_spread_def)

lemma obj_of_plain:
  "distinct (map fst b) \<Longrightarrow> list_all (\<lambda>(k, v). \<not> is_index k) b \<Longrightarrow> obj_of b = b"
  unfolding obj_of_def using obj_spread_plain[of "[]" b] by simp

end
