(* ===== verification/JsJsonFacts.thy ===== *)
theory JsJsonFacts
  imports JsJson
begin

text \<open>
  The round trip of JSON: what \<open>JSON.stringify\<close> prints, compact or indented, \<open>JSON.parse\<close> reads back
  as the same value. Strings need no hypothesis; for numbers the hypothesis is that the shortest
  decimal form reads back (\<open>num_ok\<close>, decidable by evaluation); objects are in the canonical
  property order.
\<close>

section \<open>Strings\<close>

lemma hex_val_hex_digit:
  assumes "0 \<le> n" "n < 16"
  shows "hex_val (hex_digit n) = Some n"
proof -
  have "n \<in> {0,1,2,3,4,5,6,7,8,9,10,11,12,13,14,15}" using assms by simp presburger
  then show ?thesis
    by (elim insertE emptyE) (simp_all add: hex_digit_def digit_char_def hex_val_def)
qed

lemma hex_val_0: "hex_val (CHR ''0'') = Some 0"
  by (simp add: hex_val_def)

lemma parse_str_escape:
  "parse_str (json_escape c @ t) = map_option (\<lambda>(u, r). (c # u, r)) (parse_str t)"
proof -
  define n where "n = (of_char c :: int)"
  have n0: "0 \<le> n" unfolding n_def by (metis of_nat_of_char of_nat_0_le_iff)
  define sp where "sp = {CHR 0x22, CHR 0x5C, CHR 0x08, CHR 0x0C, CHR 0x0A, CHR 0x0D, CHR 0x09}"
  consider "c \<in> sp" | "c \<notin> sp" "n < 32" | "c \<notin> sp" "\<not> n < 32" by blast
  then show ?thesis
  proof cases
    case 1
    then show ?thesis unfolding sp_def
      by (elim insertE emptyE) (simp_all add: json_escape_def json_unescape_def)
  next
    case 2
    then have esc: "json_escape c = [CHR 0x5C, CHR ''u'', CHR ''0'', CHR ''0'', hex_digit (n div 16), hex_digit (n mod 16)]"
      by (simp add: json_escape_def sp_def n_def Let_def)
    have "16 * (n div 16) + n mod 16 = n" by simp
    then have "unescape_u (CHR ''0'') (CHR ''0'') (hex_digit (n div 16)) (hex_digit (n mod 16)) = Some c"
      using n0 2 by (simp add: unescape_u_def hex_val_0 hex_val_hex_digit) (simp add: n_def)
    then show ?thesis unfolding esc by simp
  next
    case 3
    then have "json_escape c = [c]" by (simp add: json_escape_def sp_def n_def)
    then show ?thesis using 3 by (simp add: sp_def n_def)
  qed
qed

lemma parse_str_escapes: "parse_str (json_escapes s @ CHR 0x22 # r) = Some (s, r)"
  by (induction s) (simp_all add: json_escapes_def parse_str_escape)

section \<open>Layout\<close>

lemma skip_ws_append: "list_all json_ws w \<Longrightarrow> skip_ws (w @ s) = skip_ws s"
  by (simp add: skip_ws_def dropWhile_all)

lemma skip_ws_Cons [simp]: "\<not> json_ws c \<Longrightarrow> skip_ws (c # s) = c # s"
  by (simp add: skip_ws_def)

lemma skip_ws_Nil [simp]: "skip_ws [] = []"
  by (simp add: skip_ws_def)

lemma parse_val_ws: "list_all json_ws w \<Longrightarrow> parse_val (w @ s) = parse_val s"
  by (simp add: parse_val.simps skip_ws_append)

lemma json_ws_concrete [simp]:
  "\<not> json_ws (CHR 0x22)" "\<not> json_ws (CHR '','')" "\<not> json_ws (CHR '']'')" "\<not> json_ws (CHR ''}'')"
  "\<not> json_ws (CHR ''['')" "\<not> json_ws (CHR ''{'')" "\<not> json_ws (CHR '':'')"
  "\<not> json_ws (CHR ''t'')" "\<not> json_ws (CHR ''f'')" "\<not> json_ws (CHR ''n'')"
  "json_ws (CHR '' '')" "json_ws (CHR 0x0A)"
  by (auto simp: json_ws_def)

lemma num_char_not_ws: "num_char c \<Longrightarrow> \<not> json_ws c"
  by (auto simp: num_char_def json_ws_def is_digit_def)

lemma num_char_concrete [simp]:
  "\<not> num_char (CHR '','')" "\<not> num_char (CHR '']'')" "\<not> num_char (CHR ''}'')"
  "\<not> num_char (CHR 0x0A)" "\<not> num_char (CHR '' '')"
  "\<not> num_char (CHR 0x22)" "\<not> num_char (CHR ''['')" "\<not> num_char (CHR ''{'')"
  "\<not> num_char (CHR ''t'')" "\<not> num_char (CHR ''f'')" "\<not> num_char (CHR ''n'')"
  by (auto simp: num_char_def is_digit_def)

text \<open>What may follow a value: nothing, or something that does not prolong a number.\<close>

definition stop :: "string \<Rightarrow> bool" where
  "stop r \<longleftrightarrow> r = [] \<or> \<not> num_char (hd r)"

lemma stop_ws: "list_all json_ws w \<Longrightarrow> \<not> num_char c \<Longrightarrow> stop (w @ c # r)"
  by (cases w) (auto simp: stop_def dest: num_char_not_ws)

section \<open>Values that survive\<close>

definition num_ok :: "jsnum \<Rightarrow> bool" where
  "num_ok n \<longleftrightarrow> is_finite n \<and> list_all num_char (num_str n) \<and> json_number_ok (num_str n)
                \<and> num_of_string (num_str n) = n"

fun json_safe :: "jsval \<Rightarrow> bool" where
  "json_safe JUndef = False"
| "json_safe JNull = True"
| "json_safe (JBool b) = True"
| "json_safe (JNum n) = num_ok n"
| "json_safe (JStr s) = True"
| "json_safe (JArr vs) = list_all json_safe vs"
| "json_safe (JObj ps) = (obj_of ps = ps \<and> list_all (\<lambda>p. json_safe (snd p)) ps)"

text \<open>\<open>reads f v\<close>: the text \<open>f v\<close> starts with a character of a value and is read back as \<open>v\<close>.\<close>

definition reads :: "string \<Rightarrow> jsval \<Rightarrow> bool" where
  "reads t v \<longleftrightarrow> t \<noteq> [] \<and> \<not> json_ws (hd t) \<and> hd t \<noteq> CHR '']'' \<and>
     (\<forall>rest. stop rest \<longrightarrow> parse_val (t @ rest) = Some (v, rest))"

lemma readsD: "reads t v \<Longrightarrow> stop rest \<Longrightarrow> parse_val (t @ rest) = Some (v, rest)"
  by (simp add: reads_def)

lemma reads_elems:
  assumes "vs \<noteq> []" "\<And>v. v \<in> set vs \<Longrightarrow> reads (f v) v"
    "list_all json_ws w0" "list_all json_ws w" "list_all json_ws w1"
  shows "parse_elems (w0 @ join (CHR '','' # w) (map f vs) @ w1 @ CHR '']'' # rest) = Some (vs, rest)"
  using assms
proof (induction vs arbitrary: w0)
  case (Cons v vs)
  show ?case
  proof (cases "vs = []")
    case True
    have "parse_val (w0 @ f v @ w1 @ CHR '']'' # rest) = Some (v, w1 @ CHR '']'' # rest)"
      using Cons.prems by (simp add: parse_val_ws readsD stop_ws)
    then show ?thesis using True Cons.prems by (simp add: parse_elems.simps[of "w0 @ _"] skip_ws_append)
  next
    case False
    define tail where "tail = w @ join (CHR '','' # w) (map f vs) @ w1 @ CHR '']'' # rest"
    have "parse_val (w0 @ f v @ CHR '','' # tail) = Some (v, CHR '','' # tail)"
      using Cons.prems by (simp add: parse_val_ws readsD stop_def)
    moreover have "parse_elems tail = Some (vs, rest)"
      unfolding tail_def using Cons.prems False by (intro Cons.IH) auto
    ultimately have "parse_elems (w0 @ f v @ CHR '','' # tail) = Some (v # vs, rest)"
      by (simp add: parse_elems.simps[of "w0 @ _"])
    then show ?thesis using False by (simp add: join_Cons tail_def)
  qed
qed simp

lemma reads_members:
  assumes "ps \<noteq> []" "\<And>k v. (k, v) \<in> set ps \<Longrightarrow> reads (f v) v"
    "list_all json_ws w0" "list_all json_ws w" "list_all json_ws w1" "list_all json_ws g"
  shows "parse_members (w0 @ join (CHR '','' # w) (map (\<lambda>(k, v). json_quote k @ CHR '':'' # g @ f v) ps)
           @ w1 @ CHR ''}'' # rest) = Some (ps, rest)"
  using assms
proof (induction ps arbitrary: w0)
  case (Cons p ps)
  obtain k v where p: "p = (k, v)" by force
  have key: "parse_str (json_escapes k @ CHR 0x22 # r) = Some (k, r)" for r by (rule parse_str_escapes)
  have rv: "reads (f v) v" using Cons.prems p by auto
  show ?case
  proof (cases "ps = []")
    case True
    have "parse_val (g @ f v @ w1 @ CHR ''}'' # rest) = Some (v, w1 @ CHR ''}'' # rest)"
      using Cons.prems rv by (simp add: parse_val_ws readsD stop_ws)
    then show ?thesis using True Cons.prems p key
      by (simp add: parse_members.simps[of "w0 @ _"] skip_ws_append json_quote_def)
  next
    case False
    define tail where "tail = w @ join (CHR '','' # w)
        (map (\<lambda>(k, v). json_quote k @ CHR '':'' # g @ f v) ps) @ w1 @ CHR ''}'' # rest"
    have "parse_val (g @ f v @ CHR '','' # tail) = Some (v, CHR '','' # tail)"
      using Cons.prems rv by (simp add: parse_val_ws readsD stop_def)
    moreover have "parse_members tail = Some (ps, rest)"
      unfolding tail_def using Cons.prems False by (intro Cons.IH) auto
    ultimately have "parse_members (w0 @ json_quote k @ CHR '':'' # g @ f v @ CHR '','' # tail)
        = Some ((k, v) # ps, rest)"
      using Cons.prems key by (simp add: parse_members.simps[of "w0 @ _"] skip_ws_append json_quote_def)
    then show ?thesis using False p by (simp add: join_Cons tail_def)
  qed
qed simp

section \<open>The round trip\<close>

lemma json_elems_map: "json_elems gap ind vs = map (json_text gap ind) vs"
  by (induction vs) auto

lemma json_members_map:
  "list_all (\<lambda>p. json_safe (snd p)) ps \<Longrightarrow>
   json_members gap ind ps =
     map (\<lambda>(k, v). json_quote k @ CHR '':'' # (if gap = [] then [] else '' '') @ json_text gap ind v) ps"
  by (induction ps) auto

lemma reads_num: "num_ok n \<Longrightarrow> reads (num_str n) (JNum n)"
proof -
  assume ok: "num_ok n"
  then have all: "list_all num_char (num_str n)" and fin: "json_number_ok (num_str n)"
    and rd: "num_of_string (num_str n) = n"
    by (auto simp: num_ok_def)
  have ne: "num_str n \<noteq> []" using fin by (auto simp: json_number_ok_def)
  have hd: "num_char (hd (num_str n))" using all ne by (cases "num_str n") auto
  have take: "takeWhile num_char (num_str n @ rest) = num_str n"
       "dropWhile num_char (num_str n @ rest) = rest" if "stop rest" for rest
  proof -
    have "takeWhile num_char rest = []" "dropWhile num_char rest = rest"
      using that by (cases rest; simp add: stop_def)+
    then show "takeWhile num_char (num_str n @ rest) = num_str n"
       "dropWhile num_char (num_str n @ rest) = rest"
      using all by (simp_all add: takeWhile_all dropWhile_all)
  qed
  have "parse_word (num_str n @ rest) = Some (JNum n, rest)" if "stop rest" for rest
  proof -
    have "\<not> prefix (c # w) (num_str n @ rest)" if "\<not> num_char c" for c w
      using hd ne that by (cases "num_str n") auto
    then show ?thesis using take[OF that] fin rd by (simp add: parse_word_def parse_num_def)
  qed
  moreover obtain c u where cu: "num_str n = c # u" using ne by (cases "num_str n") auto
  moreover have c: "\<not> json_ws c" "c \<noteq> CHR 0x22" "c \<noteq> CHR ''[''" "c \<noteq> CHR ''{''" "c \<noteq> CHR '']''"
    using hd cu num_char_not_ws by auto
  ultimately show ?thesis by (simp add: reads_def parse_val.simps)
qed

lemma reads_wrap_array:
  assumes "\<And>v. v \<in> set vs \<Longrightarrow> reads (f v) v" "list_all json_ws gap" "list_all json_ws ind"
  shows "reads (wrap_items gap ind (CHR ''['') (CHR '']'') (map f vs)) (JArr vs)"
proof (cases "vs = []")
  case True
  then show ?thesis by (simp add: wrap_items_def reads_def parse_val.simps)
next
  case False
  define w where "w = (if gap = [] then [] else CHR 0x0A # ind @ gap)"
  define w1 where "w1 = (if gap = [] then [] else CHR 0x0A # ind)"
  have ws: "list_all json_ws w" "list_all json_ws w1" using assms by (auto simp: w_def w1_def)
  have layout: "wrap_items gap ind (CHR ''['') (CHR '']'') (map f vs) =
      CHR ''['' # w @ join (CHR '','' # w) (map f vs) @ w1 @ [CHR '']'']"
    using False by (simp add: wrap_items_def w_def w1_def)
  have "parse_val (CHR ''['' # w @ join (CHR '','' # w) (map f vs) @ w1 @ CHR '']'' # rest) = Some (JArr vs, rest)"
    for rest
  proof -
    obtain v us where vs: "vs = v # us" using False by (cases vs) auto
    have r: "reads (f v) v" using assms(1) vs by simp
    then obtain c t where f: "f v = c # t" "\<not> json_ws c" "c \<noteq> CHR '']''"
      by (cases "f v") (auto simp: reads_def)
    have "skip_ws (w @ join (CHR '','' # w) (map f vs) @ w1 @ CHR '']'' # rest) =
          join (CHR '','' # w) (map f vs) @ w1 @ CHR '']'' # rest"
      using ws f vs by (simp add: skip_ws_append join_Cons)
    moreover have "hd (join (CHR '','' # w) (map f vs)) = c" "join (CHR '','' # w) (map f vs) \<noteq> []"
      using f vs by (simp_all add: join_Cons)
    ultimately show ?thesis
      using reads_elems[OF False assms(1) ws(1) ws(1) ws(2)] f
      by (cases "join (CHR '','' # w) (map f vs)") (simp_all add: parse_val.simps)
  qed
  then show ?thesis unfolding layout by (simp add: reads_def)
qed

lemma reads_wrap_object:
  assumes "\<And>k v. (k, v) \<in> set ps \<Longrightarrow> reads (f v) v" "list_all json_ws gap" "list_all json_ws ind"
    "obj_of ps = ps" "list_all json_ws g"
  shows "reads (wrap_items gap ind (CHR ''{'') (CHR ''}'')
           (map (\<lambda>(k, v). json_quote k @ CHR '':'' # g @ f v) ps)) (JObj ps)"
proof (cases "ps = []")
  case True
  then show ?thesis by (simp add: wrap_items_def reads_def parse_val.simps)
next
  case False
  let ?items = "map (\<lambda>(k, v). json_quote k @ CHR '':'' # g @ f v) ps"
  define w where "w = (if gap = [] then [] else CHR 0x0A # ind @ gap)"
  define w1 where "w1 = (if gap = [] then [] else CHR 0x0A # ind)"
  have ws: "list_all json_ws w" "list_all json_ws w1" using assms by (auto simp: w_def w1_def)
  have layout: "wrap_items gap ind (CHR ''{'') (CHR ''}'') ?items =
      CHR ''{'' # w @ join (CHR '','' # w) ?items @ w1 @ [CHR ''}'']"
    using False by (simp add: wrap_items_def w_def w1_def)
  obtain k v us where ps: "ps = (k, v) # us" using False by (cases ps) auto
  have "join (CHR '','' # w) ?items \<noteq> [] \<and> hd (join (CHR '','' # w) ?items) = CHR 0x22"
    using ps by (simp add: join_Cons json_quote_def)
  then obtain t where j: "join (CHR '','' # w) ?items = CHR 0x22 # t"
    by (cases "join (CHR '','' # w) ?items") auto
  have "parse_val (CHR ''{'' # w @ join (CHR '','' # w) ?items @ w1 @ CHR ''}'' # rest) = Some (JObj ps, rest)"
    for rest
    using reads_members[OF False assms(1) ws(1) ws(1) ws(2) assms(5)] ws assms(4)
    by (simp add: parse_val.simps skip_ws_append j)
  then show ?thesis unfolding layout by (simp add: reads_def)
qed

lemma reads_json_text:
  "json_safe v \<Longrightarrow> list_all json_ws gap \<Longrightarrow> list_all json_ws ind \<Longrightarrow> reads (json_text gap ind v) v"
proof (induction v arbitrary: ind)
  case (JStr s)
  show ?case by (simp add: reads_def json_quote_def parse_val.simps parse_str_escapes)
next
  case (JNum n)
  then show ?case using reads_num by (simp add: num_ok_def)
next
  case (JArr vs)
  have ih: "reads (json_text gap (ind @ gap) v) v" if "v \<in> set vs" for v
    using that JArr.IH[of v "ind @ gap"] JArr.prems by (auto simp: list_all_iff)
  have "reads (wrap_items gap ind (CHR ''['') (CHR '']'') (map (json_text gap (ind @ gap)) vs)) (JArr vs)"
    using JArr.prems by (intro reads_wrap_array ih) auto
  then show ?case by (simp add: json_elems_map)
next
  case (JObj ps)
  have ih: "reads (json_text gap (ind @ gap) v) v" if "(k, v) \<in> set ps" for k v
  proof -
    have "json_safe v" using JObj.prems that by (force simp: list_all_iff)
    then show ?thesis using that JObj.IH[of "(k, v)" v "ind @ gap"] JObj.prems by simp
  qed
  have "reads (wrap_items gap ind (CHR ''{'') (CHR ''}'')
      (map (\<lambda>(k, v). json_quote k @ CHR '':'' # (if gap = [] then [] else '' '') @ json_text gap (ind @ gap) v) ps)) (JObj ps)"
    using JObj.prems by (intro reads_wrap_object ih) auto
  then show ?case using JObj.prems by (simp add: json_members_map)
qed (simp_all add: reads_def parse_val.simps parse_word_def)

lemma json_parse_reads: "reads t v \<Longrightarrow> json_parse t = Some v"
  using readsD[of t v "[]"] by (simp add: json_parse_def stop_def)

lemma json_parse_stringify: "json_safe v \<Longrightarrow> json_parse (json_stringify v) = Some v"
  by (simp add: json_stringify_def json_parse_reads reads_json_text)

lemma json_parse_pretty: "json_safe v \<Longrightarrow> json_parse (json_pretty v) = Some v"
  by (simp add: json_pretty_def json_parse_reads reads_json_text)

lemma json_parse_quote: "json_parse (json_quote s) = Some (JStr s)"
  using json_parse_stringify[of "JStr s"] by (simp add: json_stringify_def)

section \<open>The codec interface\<close>

text \<open>
  What the editors rely on when they write a value into a text field and read it again later: a
  printer and a reader that agree on the values of a carrier. Instances: the compact and the
  indented form.
\<close>

locale text_codec =
  fixes enc :: "'v \<Rightarrow> string" and dec :: "string \<Rightarrow> 'v option" and carrier :: "'v \<Rightarrow> bool"
  assumes dec_enc: "carrier v \<Longrightarrow> dec (enc v) = Some v"
begin

lemma enc_inj: "carrier v \<Longrightarrow> carrier w \<Longrightarrow> enc v = enc w \<Longrightarrow> v = w"
  by (metis dec_enc option.inject)

lemma dec_all: "list_all carrier vs \<Longrightarrow> map (\<lambda>v. dec (enc v)) vs = map Some vs"
  by (induction vs) (auto simp: dec_enc)

end

interpretation compact: text_codec json_stringify json_parse json_safe
  by unfold_locales (rule json_parse_stringify)

interpretation indented: text_codec json_pretty json_parse json_safe
  by unfold_locales (rule json_parse_pretty)

section \<open>Reading properties of object literals\<close>

lemma jget_Cons: "jget k (JObj ((j, v) # ps)) = (if j = k then v else jget k (JObj ps))"
  by (simp add: jget_def obj_get_def)

lemma jget_Nil [simp]: "jget k (JObj []) = JUndef"
  by (simp add: jget_def obj_get_def)

lemma jget_append:
  "jget k (JObj (ps @ qs)) = (if k \<in> set (map fst ps) then jget k (JObj ps) else jget k (JObj qs))"
proof (induction ps)
  case (Cons p ps)
  then show ?case by (cases p) (simp add: jget_Cons)
qed simp

lemma jget_if: "jget k (JObj (if b then ps else qs)) = (if b then jget k (JObj ps) else jget k (JObj qs))"
  by simp

lemmas jget_simps = jget_Cons jget_append jget_if

definition plain_keys :: "(string \<times> 'v) list \<Rightarrow> bool" where
  "plain_keys ps \<longleftrightarrow> distinct (map fst ps) \<and> list_all (\<lambda>p. \<not> is_index (fst p)) ps"

lemma json_safe_obj:
  "plain_keys ps \<Longrightarrow> list_all (\<lambda>p. json_safe (snd p)) ps \<Longrightarrow> json_safe (JObj ps)"
  using obj_of_plain[of ps] by (simp add: plain_keys_def case_prod_beta')

lemma not_index_letter: "k \<noteq> [] \<Longrightarrow> \<not> is_digit (hd k) \<Longrightarrow> \<not> is_index k"
  by (cases k) (auto simp: is_index_def)

lemma pretty_obj_trimmed: "trim (json_pretty (JObj ps)) = json_pretty (JObj ps) \<and> json_pretty (JObj ps) \<noteq> []"
  by (auto simp: json_pretty_def wrap_items_def trimmed_def js_ws_def intro!: trim_id)

end
