(* ===== verification/RequestRules.thy ===== *)
theory RequestRules
  imports JsRegex JsJsonFacts
begin

text \<open>
  The request-rule language of tiered billing (web/src/pages/Setting/Ratio/components/requestRuleExpr.js):
  conditions on the request (a body parameter, a header, the time of day) grouped under a price
  multiplier, printed as factors \<open>(c1 && c2 ? m : 1)\<close> of the billing expression and parsed back for
  the visual editor. A condition object is a record whose fields are \<open>None\<close> or \<open>JUndef\<close> where the
  object has no such property; the parser's regular expressions are the matchers of \<open>JsRegex\<close>.
\<close>

section \<open>Data\<close>

definition SOURCE_PARAM :: string where "SOURCE_PARAM = ''param''"
definition SOURCE_HEADER :: string where "SOURCE_HEADER = ''header''"
definition SOURCE_TIME :: string where "SOURCE_TIME = ''time''"

definition MATCH_EQ :: string where "MATCH_EQ = ''eq''"
definition MATCH_CONTAINS :: string where "MATCH_CONTAINS = ''contains''"
definition MATCH_GT :: string where "MATCH_GT = ''gt''"
definition MATCH_GTE :: string where "MATCH_GTE = ''gte''"
definition MATCH_LT :: string where "MATCH_LT = ''lt''"
definition MATCH_LTE :: string where "MATCH_LTE = ''lte''"
definition MATCH_EXISTS :: string where "MATCH_EXISTS = ''exists''"
definition MATCH_RANGE :: string where "MATCH_RANGE = ''range''"

lemmas rule_consts = SOURCE_PARAM_def SOURCE_HEADER_def SOURCE_TIME_def MATCH_EQ_def
  MATCH_CONTAINS_def MATCH_GT_def MATCH_GTE_def MATCH_LT_def MATCH_LTE_def MATCH_EXISTS_def
  MATCH_RANGE_def

definition TIME_FUNCS :: "string list" where
  "TIME_FUNCS = [''hour'', ''minute'', ''weekday'', ''month'', ''day'']"

record cond =
  c_source :: "string option"
  c_path :: "string option"
  c_timeFunc :: "string option"
  c_timezone :: "string option"
  c_mode :: "string option"
  c_value :: jsval
  c_rangeStart :: jsval
  c_rangeEnd :: jsval

definition no_cond :: cond where
  "no_cond = \<lparr>c_source = None, c_path = None, c_timeFunc = None, c_timezone = None, c_mode = None,
              c_value = JUndef, c_rangeStart = JUndef, c_rangeEnd = JUndef\<rparr>"

record rule_group =
  conditions :: "cond list"
  multiplier :: string

text \<open>\<open>/^-?(?:\d+\.?\d*|\.\d+)(?:[eE][+-]?\d+)?$/\<close>\<close>

definition re_numeric :: matcher where
  "re_numeric = r_seqs [r_bol,
     r_opt (r_lit ''-''),
     r_alt (r_seqs [r_plus r_digit, r_opt (r_lit ''.''), r_star r_digit])
           (r_seqs [r_lit ''.'', r_plus r_digit]),
     r_opt (r_seqs [r_cls (\<lambda>c. c = CHR ''e'' \<or> c = CHR ''E''),
                    r_opt (r_cls (\<lambda>c. c = CHR ''+'' \<or> c = CHR ''-'')), r_plus r_digit]),
     r_eol]"

definition NUMERIC_LITERAL_REGEX :: "string \<Rightarrow> bool" where
  "NUMERIC_LITERAL_REGEX s = rx_test re_numeric s"

section \<open>Creators\<close>

definition createEmptyCondition :: cond where
  "createEmptyCondition = no_cond\<lparr>c_source := Some SOURCE_PARAM, c_path := Some [], c_mode := Some MATCH_EQ,
     c_value := JStr []\<rparr>"

definition createEmptyTimeCondition :: cond where
  "createEmptyTimeCondition = no_cond\<lparr>c_source := Some SOURCE_TIME, c_timeFunc := Some ''hour'',
     c_timezone := Some ''Asia/Shanghai'', c_mode := Some MATCH_GTE, c_value := JStr [],
     c_rangeStart := JStr [], c_rangeEnd := JStr []\<rparr>"

definition createEmptyRuleGroup :: rule_group where
  "createEmptyRuleGroup = \<lparr>conditions = [createEmptyCondition], multiplier = []\<rparr>"

definition createEmptyTimeRuleGroup :: rule_group where
  "createEmptyTimeRuleGroup = \<lparr>conditions = [createEmptyTimeCondition], multiplier = []\<rparr>"

text \<open>The old rule format: a condition with its multiplier on it.\<close>

record request_rule = cond +
  r_multiplier :: jsval

definition createEmptyRequestRule :: request_rule where
  "createEmptyRequestRule = cond.extend createEmptyCondition (request_rule.fields (JStr []))"

definition createEmptyTimeRule :: request_rule where
  "createEmptyTimeRule = cond.extend createEmptyTimeCondition (request_rule.fields (JStr []))"

text \<open>The \<open>value\<close> fields of the time zone list; the labels are display text.\<close>

definition COMMON_TIMEZONES :: "string list" where
  "COMMON_TIMEZONES = [''Asia/Shanghai'', ''UTC'', ''America/New_York'', ''America/Los_Angeles'', ''America/Chicago'', ''Europe/London'', ''Europe/Berlin'', ''Asia/Tokyo'', ''Asia/Singapore'', ''Asia/Seoul'', ''Australia/Sydney'']"

section \<open>Normalisation\<close>

text \<open>The \<open>value\<close> fields of the option list; the labels are display text.\<close>

definition getRequestRuleMatchOptions :: "string \<Rightarrow> string list" where
  "getRequestRuleMatchOptions source =
     (if source = SOURCE_TIME then [MATCH_EQ, MATCH_GTE, MATCH_LT, MATCH_RANGE]
      else let base = [MATCH_EQ, MATCH_CONTAINS, MATCH_EXISTS] in
           if source = SOURCE_HEADER then base
           else base @ [MATCH_GT, MATCH_GTE, MATCH_LT, MATCH_LTE])"

definition value_text :: "jsval \<Rightarrow> jsval" where
  "value_text v = JStr (if nullish v then [] else js_string v)"

definition str_or :: "string option \<Rightarrow> string \<Rightarrow> string" where
  "str_or x d = (case x of Some s \<Rightarrow> if s = [] then d else s | None \<Rightarrow> d)"

definition pick_mode :: "string list \<Rightarrow> string option \<Rightarrow> string \<Rightarrow> string" where
  "pick_mode opts m d = (case m of Some s \<Rightarrow> if s \<in> set opts then s else d | None \<Rightarrow> d)"

definition norm_source :: "cond \<Rightarrow> string" where
  "norm_source c = (if c_source c = Some SOURCE_TIME then SOURCE_TIME
     else if c_source c = Some SOURCE_HEADER then SOURCE_HEADER else SOURCE_PARAM)"

definition normalizeCondition :: "cond \<Rightarrow> cond" where
  "normalizeCondition c =
     (let source = norm_source c in
      if source = SOURCE_TIME then
        no_cond\<lparr>c_source := Some SOURCE_TIME,
          c_timeFunc := Some (pick_mode TIME_FUNCS (c_timeFunc c) ''hour''),
          c_timezone := Some (str_or (c_timezone c) ''Asia/Shanghai''),
          c_mode := Some (pick_mode (getRequestRuleMatchOptions SOURCE_TIME) (c_mode c) MATCH_GTE),
          c_value := value_text (c_value c),
          c_rangeStart := value_text (c_rangeStart c),
          c_rangeEnd := value_text (c_rangeEnd c)\<rparr>
      else
        no_cond\<lparr>c_source := Some source,
          c_path := Some (str_or (c_path c) []),
          c_mode := Some (pick_mode (getRequestRuleMatchOptions source) (c_mode c) MATCH_EQ),
          c_value := value_text (c_value c)\<rparr>)"

definition normalizeRequestRule :: "request_rule \<Rightarrow> request_rule" where
  "normalizeRequestRule rule =
     cond.extend (normalizeCondition (cond.truncate rule)) (request_rule.fields (value_text (r_multiplier rule)))"

section \<open>Splitting at top level\<close>

text \<open>
  The loops of \<open>splitTopLevelMultiply\<close> and \<open>splitTopLevelAnd\<close> differ in the separator only. \<open>acc\<close>
  is \<open>expr.slice(start, index)\<close> reversed; on a separator the loop variable jumps behind it.
\<close>

definition depth_step :: "char \<Rightarrow> int \<Rightarrow> int" where
  "depth_step c d = (if c = CHR ''('' then d + 1 else if c = CHR '')'' then d - 1 else d)"

function split_loop :: "string \<Rightarrow> int \<Rightarrow> string \<Rightarrow> string \<Rightarrow> string list" where
  "split_loop sep d acc [] = [trim (rev acc)]"
| "split_loop sep d acc (c # s) =
     (let d' = depth_step c d in
      if d' = 0 \<and> prefix sep (c # s)
      then trim (rev acc) # split_loop sep d' [] (drop (length sep - 1) s)
      else split_loop sep d' (c # acc) s)"
  by pat_completeness auto
termination
  by (relation "measure (\<lambda>(sep, d, acc, s). length s)") auto

definition splitTopLevelMultiply :: "string \<Rightarrow> string list" where
  "splitTopLevelMultiply expr = filter (\<lambda>p. p \<noteq> []) (split_loop '' * '' 0 [] expr)"

definition splitTopLevelAnd :: "string \<Rightarrow> string list" where
  "splitTopLevelAnd expr = filter (\<lambda>p. p \<noteq> []) (split_loop '' && '' 0 [] expr)"

section \<open>Literals\<close>

definition parseExprLiteral :: "string \<Rightarrow> jsval" where
  "parseExprLiteral raw =
     (let text = trim raw in
      if text = ''true'' \<or> text = ''false'' then JStr text
      else if NUMERIC_LITERAL_REGEX text then JStr text
      else case json_parse text of Some v \<Rightarrow> v | None \<Rightarrow> JNull)"

definition buildExprLiteral :: "string \<Rightarrow> string \<Rightarrow> string" where
  "buildExprLiteral mode value =
     (let text = trim value in
      if mode = MATCH_CONTAINS then json_quote text
      else if text = ''true'' \<or> text = ''false'' then text
      else if NUMERIC_LITERAL_REGEX text then text
      else json_quote text)"

section \<open>Building\<close>

text \<open>Fields of a normalised condition.\<close>

definition f_str :: "string option \<Rightarrow> string" where
  "f_str x = (case x of Some s \<Rightarrow> s | None \<Rightarrow> [])"

definition f_val :: "jsval \<Rightarrow> string" where
  "f_val v = (case v of JStr s \<Rightarrow> s | _ \<Rightarrow> [])"

definition buildTimeConditionExpr :: "cond \<Rightarrow> string" where
  "buildTimeConditionExpr cond =
     (let n = normalizeCondition cond;
          mode = f_str (c_mode n);
          fn = f_str (c_timeFunc n) @ ''('' @ json_quote (f_str (c_timezone n)) @ '')''
      in if mode = MATCH_RANGE then
           (let s = trim (f_val (c_rangeStart n)); e = trim (f_val (c_rangeEnd n))
            in if \<not> NUMERIC_LITERAL_REGEX s \<or> \<not> NUMERIC_LITERAL_REGEX e then []
               else fn @ '' >= '' @ s @ '' || '' @ fn @ '' < '' @ e)
         else
           (let v = trim (f_val (c_value n))
            in if \<not> NUMERIC_LITERAL_REGEX v then []
               else fn @ '' '' @ (if mode = MATCH_EQ then ''==''
                                  else if mode = MATCH_GTE then ''>=''
                                  else if mode = MATCH_LT then ''<'' else ''=='') @ '' '' @ v))"

definition buildRequestConditionExpr :: "cond \<Rightarrow> string" where
  "buildRequestConditionExpr cond =
     (if c_source cond = Some SOURCE_TIME then buildTimeConditionExpr cond
      else
        let n = normalizeCondition cond;
            path = trim (f_str (c_path n));
            isHeader = (c_source n = Some SOURCE_HEADER);
            mode = f_str (c_mode n);
            value = f_val (c_value n);
            sourceExpr = (if isHeader then ''header('' else ''param('') @ json_quote path @ '')''
        in if path = [] then []
           else if mode = MATCH_EXISTS then
             sourceExpr @ '' != '' @ (if isHeader then [CHR 0x22, CHR 0x22] else ''nil'')
           else if mode = MATCH_CONTAINS then
             (if isHeader then ''has('' @ sourceExpr @ '', '' @ buildExprLiteral mode value @ '')''
              else sourceExpr @ '' != nil && has('' @ sourceExpr @ '', '' @ buildExprLiteral mode value @ '')'')
           else if mode \<in> {MATCH_GT, MATCH_GTE, MATCH_LT, MATCH_LTE} then
             (if \<not> NUMERIC_LITERAL_REGEX (trim value) then []
              else sourceExpr @ '' != nil && '' @ sourceExpr @ '' '' @
                (if mode = MATCH_GT then ''>'' else if mode = MATCH_GTE then ''>=''
                 else if mode = MATCH_LT then ''<'' else ''<='') @ '' '' @ trim value)
           else sourceExpr @ '' == '' @ buildExprLiteral mode value)"

definition buildRuleGroupFactor :: "rule_group \<Rightarrow> string" where
  "buildRuleGroupFactor grp =
     (let m = trim (multiplier grp);
          condExprs = filter (\<lambda>e. e \<noteq> []) (map buildRequestConditionExpr (conditions grp))
      in if \<not> NUMERIC_LITERAL_REGEX m then []
         else if condExprs = [] then []
         else let combined =
                (case condExprs of
                   [e] \<Rightarrow> e
                 | _ \<Rightarrow> join '' && ''
                          (map (\<lambda>e. if str_includes '' || '' e then ''('' @ e @ '')'' else e) condExprs))
              in ''('' @ combined @ '' ? '' @ m @ '' : 1)'')"

definition buildRequestRuleExpr :: "rule_group list \<Rightarrow> string" where
  "buildRequestRuleExpr groups =
     join '' * '' (filter (\<lambda>f. f \<noteq> []) (map buildRuleGroupFactor groups))"

section \<open>Parsing one condition\<close>

abbreviation r_time_func :: matcher where
  "r_time_func \<equiv> r_alts [r_lit ''hour'', r_lit ''minute'', r_lit ''weekday'', r_lit ''month'', r_lit ''day'']"

abbreviation r_nums :: matcher where
  "r_nums \<equiv> r_plus (r_cls cls_num)"

abbreviation r_name :: matcher where
  "r_name \<equiv> r_plus (r_cls cls_not_quote)"

text \<open>\<open>(?:"(?:[^"\\]|\\.)*")\<close>\<close>

definition r_json_str :: matcher where
  "r_json_str = r_seqs [r_lit [CHR 0x22],
     r_star (r_alt (r_cls (\<lambda>c. c \<noteq> CHR 0x22 \<and> c \<noteq> CHR 0x5C))
                   (r_seqs [r_lit [CHR 0x5C], r_cls cls_dot])),
     r_lit [CHR 0x22]]"

text \<open>\<open>F("T") >= S || \1("\2") < E\<close>\<close>

definition re_range_body :: "matcher list" where
  "re_range_body = [r_group 1 r_time_func, r_lit [CHR ''('', CHR 0x22], r_group 2 r_name,
     r_lit (CHR 0x22 # '') >= ''), r_group 3 r_nums, r_lit '' || '', r_back 1,
     r_lit [CHR ''('', CHR 0x22], r_back 2, r_lit (CHR 0x22 # '') < ''), r_group 4 r_nums]"

definition re_range :: matcher where
  "re_range = r_seqs (r_bol # re_range_body @ [r_eol])"

definition re_range_wrapped :: matcher where
  "re_range_wrapped = r_seqs (r_bol # r_lit ''('' # re_range_body @ [r_lit '')'', r_eol])"

definition re_time_simple :: matcher where
  "re_time_simple = r_seqs [r_bol, r_group 1 r_time_func, r_lit [CHR ''('', CHR 0x22], r_group 2 r_name,
     r_lit (CHR 0x22 # '') ''), r_group 3 (r_alts [r_lit ''=='', r_lit ''>='', r_lit ''<'']),
     r_lit '' '', r_group 4 r_nums, r_eol]"

text \<open>\<open>m[i]\<close> of a successful match.\<close>

definition cap :: "(nat \<rightharpoonup> string) \<Rightarrow> nat \<Rightarrow> string" where
  "cap m i = (case m i of Some s \<Rightarrow> s | None \<Rightarrow> [])"

definition range_cond :: "(nat \<rightharpoonup> string) \<Rightarrow> cond" where
  "range_cond m = no_cond\<lparr>c_source := Some SOURCE_TIME, c_timeFunc := Some (cap m 1),
     c_timezone := Some (cap m 2), c_mode := Some MATCH_RANGE, c_value := JStr [],
     c_rangeStart := JStr (cap m 3), c_rangeEnd := JStr (cap m 4)\<rparr>"

definition tryParseTimeCondition :: "string \<Rightarrow> cond option" where
  "tryParseTimeCondition expr =
     (case rx_match re_range expr of
        Some m \<Rightarrow> Some (range_cond m)
      | None \<Rightarrow>
     (case rx_match re_range_wrapped expr of
        Some m \<Rightarrow> Some (range_cond m)
      | None \<Rightarrow>
     (case rx_match re_time_simple expr of
        Some m \<Rightarrow> Some (no_cond\<lparr>c_source := Some SOURCE_TIME, c_timeFunc := Some (cap m 1),
           c_timezone := Some (cap m 2),
           c_mode := Some (if cap m 3 = ''=='' then MATCH_EQ else if cap m 3 = ''>='' then MATCH_GTE
                           else if cap m 3 = ''<'' then MATCH_LT else MATCH_EQ),
           c_value := JStr (cap m 4), c_rangeStart := JStr [], c_rangeEnd := JStr []\<rparr>)
      | None \<Rightarrow> None)))"

definition re_header_exists :: matcher where
  "re_header_exists = r_seqs [r_bol, r_lit (''header('' @ [CHR 0x22]), r_group 1 r_name,
     r_lit (CHR 0x22 # '') != '' @ [CHR 0x22, CHR 0x22]), r_eol]"

definition re_param_exists :: matcher where
  "re_param_exists = r_seqs [r_bol, r_lit (''param('' @ [CHR 0x22]), r_group 1 r_name,
     r_lit (CHR 0x22 # '') != nil''), r_eol]"

definition re_header_has :: matcher where
  "re_header_has = r_seqs [r_bol, r_lit (''has(header('' @ [CHR 0x22]), r_group 1 r_name,
     r_lit (CHR 0x22 # ''), ''), r_group 2 r_json_str, r_lit '')'', r_eol]"

definition re_param_has :: matcher where
  "re_param_has = r_seqs [r_bol, r_lit (''param('' @ [CHR 0x22]), r_group 1 r_name,
     r_lit (CHR 0x22 # '') != nil && has(param('' @ [CHR 0x22]), r_group 2 r_name,
     r_lit (CHR 0x22 # ''), ''), r_group 3 r_json_str, r_lit '')'', r_eol]"

definition re_param_cmp :: matcher where
  "re_param_cmp = r_seqs [r_bol, r_lit (''param('' @ [CHR 0x22]), r_group 1 r_name,
     r_lit (CHR 0x22 # '') != nil && param('' @ [CHR 0x22]), r_group 2 r_name,
     r_lit (CHR 0x22 # '') ''), r_group 3 (r_alts [r_lit ''>'', r_lit ''>='', r_lit ''<'', r_lit ''<='']),
     r_lit '' '', r_group 4 r_nums, r_eol]"

definition re_eq :: matcher where
  "re_eq = r_seqs [r_bol, r_group 1 (r_alts [r_lit ''param'', r_lit ''header'']), r_lit [CHR ''('', CHR 0x22],
     r_group 2 r_name, r_lit (CHR 0x22 # '') == ''), r_group 3 (r_plus (r_cls cls_dot)), r_eol]"

definition plain_cond :: "string \<Rightarrow> string \<Rightarrow> string \<Rightarrow> jsval \<Rightarrow> cond" where
  "plain_cond source path mode v = no_cond\<lparr>c_source := Some source, c_path := Some path,
     c_mode := Some mode, c_value := v\<rparr>"

text \<open>\<open>JSON.parse\<close> of a captured literal throws when an escape in it is malformed: that exception
  leaves \<open>tryParseRequestRuleExpr\<close>, here \<open>Inl ()\<close>.\<close>

definition parse_captured :: "string \<Rightarrow> unit + jsval" where
  "parse_captured s = (case json_parse s of Some v \<Rightarrow> Inr v | None \<Rightarrow> Inl ())"

definition with_value :: "(jsval \<Rightarrow> cond) \<Rightarrow> unit + jsval \<Rightarrow> unit + cond option" where
  "with_value f r = (case r of Inl e \<Rightarrow> Inl e | Inr v \<Rightarrow> Inr (Some (f v)))"

definition parse_eq :: "string \<Rightarrow> unit + cond option" where
  "parse_eq expr =
     (case rx_match re_eq expr of
        Some m \<Rightarrow> (let v = parseExprLiteral (cap m 3)
                   in if v = JNull then Inr None
                      else Inr (Some (plain_cond (cap m 1) (cap m 2) MATCH_EQ (JStr (js_string v)))))
      | None \<Rightarrow> Inr None)"

definition parse_cmp :: "string \<Rightarrow> unit + cond option" where
  "parse_cmp expr =
     (case rx_match re_param_cmp expr of
        Some m \<Rightarrow> (if cap m 1 = cap m 2
          then Inr (Some (plain_cond SOURCE_PARAM (cap m 1)
                 (if cap m 3 = ''>'' then MATCH_GT else if cap m 3 = ''>='' then MATCH_GTE
                  else if cap m 3 = ''<'' then MATCH_LT else MATCH_LTE) (JStr (cap m 4))))
          else parse_eq expr)
      | None \<Rightarrow> parse_eq expr)"

definition parse_param_has :: "string \<Rightarrow> unit + cond option" where
  "parse_param_has expr =
     (case rx_match re_param_has expr of
        Some m \<Rightarrow> (if cap m 1 = cap m 2
          then with_value (plain_cond SOURCE_PARAM (cap m 1) MATCH_CONTAINS) (parse_captured (cap m 3))
          else parse_cmp expr)
      | None \<Rightarrow> parse_cmp expr)"

definition tryParseRequestCondition :: "string \<Rightarrow> unit + cond option" where
  "tryParseRequestCondition expr =
     (case tryParseTimeCondition expr of Some tc \<Rightarrow> Inr (Some tc) | None \<Rightarrow>
     (case rx_match re_header_exists expr of
        Some m \<Rightarrow> Inr (Some (plain_cond SOURCE_HEADER (cap m 1) MATCH_EXISTS (JStr []))) | None \<Rightarrow>
     (case rx_match re_param_exists expr of
        Some m \<Rightarrow> Inr (Some (plain_cond SOURCE_PARAM (cap m 1) MATCH_EXISTS (JStr []))) | None \<Rightarrow>
     (case rx_match re_header_has expr of
        Some m \<Rightarrow> with_value (plain_cond SOURCE_HEADER (cap m 1) MATCH_CONTAINS) (parse_captured (cap m 2))
      | None \<Rightarrow> parse_param_has expr))))"

section \<open>Parsing groups\<close>

text \<open>\<open>/^\((.+) \? ([\d.eE+-]+) : 1\)$/s\<close>\<close>

definition re_factor :: matcher where
  "re_factor = r_seqs [r_bol, r_lit ''('', r_group 1 (r_plus (r_cls (\<lambda>c. True))), r_lit '' ? '',
     r_group 2 r_nums, r_lit '' : 1)'', r_eol]"

fun parse_conds :: "string list \<Rightarrow> unit + cond list option" where
  "parse_conds [] = Inr (Some [])"
| "parse_conds (ap # aps) =
     (case tryParseRequestCondition (trim ap) of
        Inl e \<Rightarrow> Inl e
      | Inr None \<Rightarrow> Inr None
      | Inr (Some c) \<Rightarrow>
          (case parse_conds aps of
             Inr (Some cs) \<Rightarrow> Inr (Some (normalizeCondition c # cs))
           | r \<Rightarrow> r))"

definition tryParseRuleGroupFactor :: "string \<Rightarrow> unit + rule_group option" where
  "tryParseRuleGroupFactor part =
     (case rx_match re_factor part of
        None \<Rightarrow> Inr None
      | Some m \<Rightarrow>
          (case parse_conds (splitTopLevelAnd (cap m 1)) of
             Inl e \<Rightarrow> Inl e
           | Inr None \<Rightarrow> Inr None
           | Inr (Some cs) \<Rightarrow>
               if cs = [] then Inr None
               else Inr (Some \<lparr>conditions = cs, multiplier = cap m 2\<rparr>)))"

fun parse_groups :: "string list \<Rightarrow> unit + rule_group list option" where
  "parse_groups [] = Inr (Some [])"
| "parse_groups (p # ps) =
     (case tryParseRuleGroupFactor p of
        Inl e \<Rightarrow> Inl e
      | Inr None \<Rightarrow> Inr None
      | Inr (Some g) \<Rightarrow>
          (case parse_groups ps of Inr (Some gs) \<Rightarrow> Inr (Some (g # gs)) | r \<Rightarrow> r))"

definition tryParseRequestRuleExpr :: "string \<Rightarrow> unit + rule_group list option" where
  "tryParseRequestRuleExpr expr =
     (let trimmed = trim expr in
      if trimmed = [] then Inr (Some []) else parse_groups (splitTopLevelMultiply trimmed))"

section \<open>The billing expression and its rules\<close>

fun parens_loop :: "int \<Rightarrow> string \<Rightarrow> bool" where
  "parens_loop d [] = (d = 0)"
| "parens_loop d (c # s) =
     (let d' = depth_step c d in if d' = 0 \<and> s \<noteq> [] then False else parens_loop d' s)"

definition hasFullOuterParens :: "string \<Rightarrow> bool" where
  "hasFullOuterParens expr =
     (if expr = [] \<or> hd expr \<noteq> CHR ''('' \<or> last expr \<noteq> CHR '')'' then False else parens_loop 0 expr)"

lemma slice_inner_length: "s \<noteq> [] \<Longrightarrow> length (trim (slice_inner s)) < length s"
proof -
  assume "s \<noteq> []"
  then have "length (slice_inner s) < length s" by (cases s) (auto simp: slice_inner_def)
  then show ?thesis using length_trim[of "slice_inner s"] by simp
qed

function unwrap_loop :: "string \<Rightarrow> string" where
  "unwrap_loop cur = (if hasFullOuterParens cur then unwrap_loop (trim (slice_inner cur)) else cur)"
  by pat_completeness auto
termination
  by (relation "measure length") (auto simp: hasFullOuterParens_def intro!: slice_inner_length split: if_splits)

declare unwrap_loop.simps [simp del]

definition unwrapOuterParens :: "string \<Rightarrow> string" where
  "unwrapOuterParens expr = unwrap_loop (trim expr)"

definition combineBillingExpr :: "string \<Rightarrow> string \<Rightarrow> string" where
  "combineBillingExpr baseExpr requestRuleExpr =
     (let base = trim baseExpr; rules = trim requestRuleExpr
      in if base = [] then []
         else if rules = [] then base
         else ''('' @ base @ '') * '' @ rules)"

text \<open>\<open>Inl ()\<close> is the exception of \<open>JSON.parse\<close> inside \<open>tryParseRequestRuleExpr\<close>.\<close>

definition is_rule_part :: "string \<Rightarrow> unit + bool" where
  "is_rule_part part =
     (case tryParseRequestRuleExpr part of
        Inl e \<Rightarrow> Inl e
      | Inr None \<Rightarrow> Inr False
      | Inr (Some gs) \<Rightarrow> Inr (gs \<noteq> []))"

fun sort_parts :: "string list \<Rightarrow> unit + string list \<times> string list" where
  "sort_parts [] = Inr ([], [])"
| "sort_parts (p # ps) =
     (case is_rule_part p of
        Inl e \<Rightarrow> Inl e
      | Inr b \<Rightarrow>
          (case sort_parts ps of
             Inl e \<Rightarrow> Inl e
           | Inr (rs, bs) \<Rightarrow> Inr (if b then (p # rs, bs) else (rs, p # bs))))"

record split_expr =
  billingExpr :: string
  requestRuleExpr :: string

definition splitBillingExprAndRequestRules :: "string \<Rightarrow> unit + split_expr" where
  "splitBillingExprAndRequestRules expr =
     (let trimmed = trim expr in
      if trimmed = [] then Inr \<lparr>billingExpr = [], requestRuleExpr = []\<rparr>
      else let parts = splitTopLevelMultiply trimmed in
        if length parts \<le> 1 then Inr \<lparr>billingExpr = trimmed, requestRuleExpr = []\<rparr>
        else (case sort_parts parts of
           Inl e \<Rightarrow> Inl e
         | Inr (rs, bs) \<Rightarrow>
             if rs = [] \<or> length bs \<noteq> 1 then Inr \<lparr>billingExpr = trimmed, requestRuleExpr = []\<rparr>
             else Inr \<lparr>billingExpr = unwrapOuterParens (hd bs), requestRuleExpr = join '' * '' rs\<rparr>))"

end
