(* ===== verification/JsNumberFacts.thy ===== *)
theory JsNumberFacts
  imports JsJsonFacts
begin

text \<open>
  Integers in the model's doubles: below \<open>2\<^sup>5\<^sup>3\<close> they are exact, and those of up to fifteen digits are
  printed as their digits and read back.
\<close>

section \<open>Integers are exact\<close>

lemma bitlen_le: "n < 2 ^ k \<Longrightarrow> bitlen n \<le> int k"
proof (induction k arbitrary: n)
  case 0
  then show ?case by (subst bitlen.simps) simp
next
  case (Suc k)
  then have "bitlen (n div 2) \<le> int k" by (intro Suc.IH) auto
  then show ?case by (subst bitlen.simps) simp
qed

lemma bitlen_pos: "0 < n \<Longrightarrow> 1 \<le> bitlen n"
proof -
  have "0 \<le> bitlen m" for m
    by (induction m rule: bitlen.induct) (subst bitlen.simps, simp)
  then show "0 < n \<Longrightarrow> 1 \<le> bitlen n" by (subst bitlen.simps) simp
qed

lemma round_half_even_int [simp]: "round_half_even (of_int m) = m"
  by (simp add: round_half_even_def)

lemma ilog2_int: "0 < n \<Longrightarrow> ilog2 (of_int n) = bitlen n - 1"
  by (simp add: ilog2_def)

lemma rnd_abs_int:
  assumes "0 < n" "n < 2 ^ 53"
  shows "rnd_abs (of_int n) = of_int n"
proof -
  define q where "q = bitlen n - 53"
  have q: "q \<le> 0" "- 1074 \<le> q" using bitlen_le[of n 53] bitlen_pos[of n] assms by (simp_all add: q_def)
  then have m: "max (ilog2 (of_int n) - 52) (- 1074) = q" using assms by (simp add: ilog2_int q_def)
  have p: "pow2 q = 1 / of_int (2 ^ nat (- q))" using q by (cases "q = 0") (simp_all add: pow2_def)
  have d: "(of_int n :: rat) / pow2 q = of_int (n * 2 ^ nat (- q))" by (simp add: p)
  have "rnd_abs (of_int n) = of_int (n * 2 ^ nat (- q)) * pow2 q"
    unfolding rnd_abs_def Let_def m d by (simp only: round_half_even_int)
  also have "\<dots> = of_int n" by (simp add: p)
  finally show ?thesis .
qed

lemma rnd_int:
  assumes "0 \<le> n" "n < 2 ^ 53"
  shows "rnd (of_int n) = Fin (of_int n)"
proof (cases "n = 0")
  case False
  then have "0 < n" using assms by simp
  then show ?thesis using rnd_abs_int[of n] bitlen_le[of n 53] assms
    by (simp add: rnd_def ilog2_int)
qed (simp add: rnd_def)

section \<open>Decimal digits\<close>

lemma ndigits_step: "0 < n \<Longrightarrow> ndigits n = 1 + ndigits (n div 10)"
  by (subst ndigits.simps) simp

lemma ndigits_small: "0 < n \<Longrightarrow> n < 10 \<Longrightarrow> ndigits n = 1"
  using ndigits_step[of n] ndigits.simps[of 0] by simp

lemma ndigits_nonneg: "0 \<le> ndigits n"
  by (induction n rule: ndigits.induct) (subst ndigits.simps, simp)

lemma ndigits_times10: "0 < s \<Longrightarrow> ndigits (10 * s) = 1 + ndigits s"
  by (subst ndigits.simps) simp

lemma ndigits_shift: "0 < s \<Longrightarrow> ndigits (s * 10 ^ i) = ndigits s + int i"
proof (induction i)
  case (Suc i)
  then show ?case using ndigits_times10[of "s * 10 ^ i"] by (simp add: mult.left_commute)
qed simp

lemma ndigits_le: "n < 10 ^ k \<Longrightarrow> ndigits n \<le> int k"
proof (induction k arbitrary: n)
  case 0
  then show ?case by (subst ndigits.simps) simp
next
  case (Suc k)
  then have "ndigits (n div 10) \<le> int k" by (intro Suc.IH) auto
  then show ?case by (subst ndigits.simps) simp
qed

lemma ndigits_lower: "0 < n \<Longrightarrow> 10 ^ (nat (ndigits n) - 1) \<le> n"
proof (induction n rule: ndigits.induct)
  case (1 n)
  show ?case
  proof (cases "n < 10")
    case True
    then have "ndigits n = 1" using 1 by (intro ndigits_small) auto
    then show ?thesis using 1 by simp
  next
    case False
    then have ih: "10 ^ (nat (ndigits (n div 10)) - 1) \<le> n div 10" using 1 by simp
    have pos: "1 \<le> ndigits (n div 10)" using False ndigits_nonneg[of "n div 10 div 10"]
      by (simp add: ndigits_step[of "n div 10"])
    then have "nat (ndigits n) - 1 = Suc (nat (ndigits (n div 10)) - 1)" using 1 ndigits_step[of n] by simp
    then have "10 ^ (nat (ndigits n) - 1) = 10 * 10 ^ (nat (ndigits (n div 10)) - 1)" by simp
    also have "\<dots> \<le> 10 * (n div 10)" using ih by simp
    also have "\<dots> \<le> n" by simp
    finally show ?thesis .
  qed
qed

lemma int_str_step: "10 \<le> n \<Longrightarrow> int_str n = int_str (n div 10) @ [digit_char (n mod 10)]"
  by (subst int_str.simps) simp

lemma int_str_shift: "0 < s \<Longrightarrow> int_str (s * 10 ^ i) = int_str s @ zeros i"
proof (induction i)
  case (Suc i)
  have "0 < s * 10 ^ i" using Suc.prems by (intro mult_pos_pos) simp_all
  then have pos: "1 \<le> s * 10 ^ i" by linarith
  have "int_str (10 * (s * 10 ^ i)) = int_str (s * 10 ^ i) @ [digit_char 0]"
    using pos int_str_step[of "10 * (s * 10 ^ i)"] by simp
  moreover have "digit_char 0 = CHR ''0''" by (simp add: digit_char_def char_of_def)
  ultimately show ?case using Suc by (simp add: zeros_def mult.left_commute replicate_append_same)
qed (simp add: zeros_def)

lemma length_int_str: "0 < n \<Longrightarrow> int (length (int_str n)) = ndigits n"
proof (induction n rule: int_str.induct)
  case (1 n)
  show ?case
  proof (cases "n < 10")
    case True
    then have "ndigits n = 1" using 1 by (intro ndigits_small) auto
    then show ?thesis using True by (subst int_str.simps) simp
  next
    case False
    then show ?thesis using 1 int_str_step[of n] ndigits_step[of n] by simp
  qed
qed

section \<open>Printing integers\<close>

lemma pow10_nonneg: "0 \<le> e \<Longrightarrow> pow10 e = of_int (10 ^ nat e)"
  by (simp add: pow10_def)

lemma try_digits_int:
  assumes N: "0 < N" "N < 10 ^ 15" and k: "1 \<le> k" "int k \<le> ndigits N" and t: "try_digits (of_int N) (ndigits N) k = Some c"
  shows "c * 10 ^ nat (ndigits N - int k) = N"
proof -
  let ?P = "10 ^ nat (ndigits N - int k) :: int"
  let ?f = "\<lfloor>of_int N / of_int ?P :: rat\<rfloor>"
  have P: "0 < ?P" by simp
  have "?P \<le> 10 ^ (nat (ndigits N) - 1)" using k by (intro power_increasing) auto
  then have PN: "?P \<le> N" using ndigits_lower[OF N(1)] by linarith
  have f: "?f = N div ?P" by (rule floor_divide_of_int_eq)
  have c: "c = ?f \<or> c = ?f + 1" and r: "rnd (of_int c * of_int ?P) = Fin (of_int N)"
    using t k pow10_nonneg[of "ndigits N - int k"]
    by (auto simp: try_digits_def Let_def split: if_splits prod.splits)
  have "0 \<le> N div ?P" using N P by (simp add: pos_imp_zdiv_nonneg_iff)
  then have c0: "0 \<le> c * ?P" using c f P by auto
  have "N div ?P * ?P \<le> N" using P by (metis mult.commute mult_div_mod_eq pos_mod_sign le_add_same_cancel1)
  moreover have "c * ?P \<le> N div ?P * ?P + ?P" using c f P by (auto simp: distrib_right)
  ultimately have "c * ?P \<le> N + ?P" by linarith
  then have "c * ?P < 2 ^ 53" using PN N by simp
  then have "rnd (of_int (c * ?P)) = Fin (of_int (c * ?P))" using rnd_int[OF c0] by simp
  then have "(of_int (c * ?P) :: rat) = of_int N" using r by simp
  then show ?thesis by (simp only: of_int_eq_iff)
qed

lemma try_digits_full:
  assumes "0 < N" "N < 10 ^ 15"
  shows "try_digits (of_int N) (ndigits N) (nat (ndigits N)) = Some N"
proof -
  have "pow10 (ndigits N - int (nat (ndigits N))) = 1" using ndigits_nonneg[of N] by (simp add: pow10_def)
  moreover have "rnd (of_int N) = Fin (of_int N)" using assms by (intro rnd_int) auto
  ultimately show ?thesis by (simp add: try_digits_def)
qed

lemma shortest_int:
  assumes "0 < N" "N < 10 ^ 15"
  shows "1 \<le> k \<Longrightarrow> int k \<le> ndigits N \<Longrightarrow> ndigits N < int k + int m \<Longrightarrow>
    \<exists>s j. shortest (of_int N) (ndigits N) k m = (s, j) \<and> int j \<le> ndigits N \<and> s * 10 ^ nat (ndigits N - int j) = N"
proof (induction m arbitrary: k)
  case (Suc m)
  show ?case
  proof (cases "try_digits (of_int N) (ndigits N) k")
    case None
    then have "int k \<noteq> ndigits N" using try_digits_full[OF assms] by (metis nat_int option.distinct(1))
    then show ?thesis using Suc None by simp
  next
    case (Some c)
    then show ?thesis using Suc try_digits_int[OF assms Suc.prems(1,2) Some] by simp
  qed
qed simp

lemma num_str_int:
  assumes "0 \<le> N" "N < 10 ^ 15"
  shows "num_str (Fin (of_int N)) = int_str N"
proof (cases "N = 0")
  case True
  then show ?thesis by (simp add: int_str.simps digit_char_def char_of_def)
next
  case False
  then have N: "0 < N" using assms by simp
  have d: "ndigits N \<le> 15" using ndigits_le[of N 15] assms by simp
  have d1: "1 \<le> ndigits N" using N ndigits_nonneg[of "N div 10"] by (simp add: ndigits_step)
  obtain s j where sj: "shortest (of_int N) (ndigits N) 1 17 = (s, j)" "int j \<le> ndigits N"
      "s * 10 ^ nat (ndigits N - int j) = N"
    using shortest_int[OF N assms(2), of 1 17] d d1 by auto
  have s: "0 < s" using sj(3) N by (metis zero_less_mult_pos2 zero_less_power zero_less_numeral)
  have dj: "ndigits s = int j"
    using ndigits_shift[OF s, of "nat (ndigits N - int j)"] sj by simp
  have "ndigits ((10::int) ^ j) = int j + 1"
    using ndigits_shift[of 1 j] ndigits_small[of 1] by simp
  then have ne: "s \<noteq> 10 ^ j" using dj by auto
  have "format_digits (int_str s) (ndigits N) = int_str s @ zeros (nat (ndigits N - int j))"
    using length_int_str[OF s] dj sj(2) d by (simp add: format_digits_def)
  also have "\<dots> = int_str N" using int_str_shift[OF s] sj(3) by metis
  finally have "abs_str (of_int N) = int_str N"
    using N sj(1) ne by (simp add: abs_str_def dec_exp_def)
  then show ?thesis using N by simp
qed

lemma num_of_string_int:
  assumes "0 \<le> N" "N < 2 ^ 53"
  shows "num_of_string (int_str N) = Fin (of_int N)"
proof -
  note ds = int_str_digits[OF assms(1)]
  obtain c r where cr: "int_str N = c # r" by (cases "int_str N") auto
  have c: "is_digit c" using ds cr by simp
  have t: "trim (int_str N) = int_str N"
    using ds by (intro trim_id not_ws_all_trimmed) (auto simp: list_all_iff digit_not_ws)
  have nx: "int_str N ! 1 \<notin> {CHR ''x'', CHR ''X'', CHR ''o'', CHR ''O'', CHR ''b'', CHR ''B''}"
    if "2 < length (int_str N)"
  proof -
    have "is_digit (int_str N ! 1)" using that ds by (simp add: list_all_length)
    then show ?thesis by (auto simp: is_digit_def)
  qed
  have tw: "takeWhile is_digit (int_str N) = int_str N" "dropWhile is_digit (int_str N) = []"
    using ds by (simp_all add: list_all_iff)
  have su: "scan_unsigned (int_str N) = Some (of_int N, [])"
    using assms by (simp add: scan_unsigned_def tw scan_exponent_def pow10_def)
  have nc: "c \<noteq> CHR ''-''" "c \<noteq> CHR ''+''" "c \<noteq> CHR ''I''" using c by (auto simp: is_digit_def)
  have "scan_number (int_str N) = Some (rnd (of_int N), [])"
    using su nc unfolding scan_number_def cr by simp
  then show ?thesis using nx t rnd_int[OF assms] unfolding num_of_string_def by (auto simp: Let_def)
qed

lemma int_str_hd: "0 < n \<Longrightarrow> hd (int_str n) \<noteq> CHR ''0''"
proof (induction n rule: int_str.induct)
  case (1 n)
  show ?case
  proof (cases "n < 10")
    case True
    have "digit_val (digit_char n) = n" using 1 True by simp
    moreover have "digit_val (digit_char n) = 0" if "digit_char n = CHR ''0''"
      unfolding that by (simp add: digit_val_def)
    ultimately have "digit_char n \<noteq> CHR ''0''" using "1.prems" by linarith
    then show ?thesis using True by (subst int_str.simps) simp
  next
    case False
    then show ?thesis using 1 int_str_step[of n] by simp
  qed
qed

lemma num_ok_int:
  assumes "0 \<le> N" "N < 10 ^ 15"
  shows "num_ok (Fin (of_int N))"
proof -
  note ds = int_str_digits[OF assms(1)]
  have tw: "takeWhile is_digit (int_str N) = int_str N" "dropWhile is_digit (int_str N) = []"
    using ds by (simp_all add: list_all_iff)
  have u: "(case int_str N of c # r \<Rightarrow> if c = CHR ''-'' then r else int_str N | [] \<Rightarrow> []) = int_str N"
    using ds by (cases "int_str N") (auto simp: is_digit_def)
  have lead: "hd (int_str N) = CHR ''0'' \<longrightarrow> length (int_str N) = 1"
  proof (cases "N = 0")
    case True
    then show ?thesis by (simp add: int_str.simps)
  next
    case False
    then show ?thesis using int_str_hd[of N] assms by simp
  qed
  have "json_number_ok (int_str N)"
    unfolding json_number_ok_def Let_def u tw using lead by simp
  moreover have "list_all num_char (int_str N)" using ds by (auto simp: list_all_iff num_char_def)
  ultimately show ?thesis
    unfolding num_ok_def num_str_int[OF assms] using num_of_string_int[of N] assms by simp
qed

end
