(* ===== verification/Pricing.thy ===== *)
theory Pricing
  imports RequestRules JsNumberFacts
begin

text \<open>
  Model pricing, the pure functions of web/src/pages/Setting/Ratio/hooks/useModelPricingEditorState.js: a
  model's stored ratios become prices per million tokens and prices become ratios again. All price fields are
  texts; a number in between is a double (\<open>JsNumber\<close>). Translated texts are values of datatypes. The state of the hook is
  in \<open>PricingState\<close>.
\<close>

section \<open>Constants and data\<close>

definition PAGE_SIZE :: nat where "PAGE_SIZE = 10"
definition DISPLAY_DECIMALS :: nat where "DISPLAY_DECIMALS = 12"
definition SNAP_DECIMALS :: nat where "SNAP_DECIMALS = 8"
definition SNAP_EPSILON :: jsnum where "SNAP_EPSILON = num_of_string ''1e-12''"
definition NUMBER_EPSILON :: jsnum where "NUMBER_EPSILON = Fin (1 / 2 ^ 52)"

record raw_ratios =
  modelRatio :: string
  completionRatio :: string
  cacheRatio :: string
  createCacheRatio :: string
  imageRatio :: string
  audioRatio :: string
  audioCompletionRatio :: string

record model =
  name :: string
  billingMode :: string
  fixedPrice :: string
  inputPrice :: string
  completionPrice :: string
  lockedCompletionRatio :: string
  completionRatioLocked :: bool
  cachePrice :: string
  createCachePrice :: string
  imagePrice :: string
  audioInputPrice :: string
  audioOutputPrice :: string
  m_billingExpr :: string
  m_requestRuleExpr :: string
  rawRatios :: raw_ratios
  hasConflict :: bool

definition EMPTY_RATIOS :: raw_ratios where
  "EMPTY_RATIOS = \<lparr>modelRatio = [], completionRatio = [], cacheRatio = [], createCacheRatio = [], imageRatio = [],
     audioRatio = [], audioCompletionRatio = []\<rparr>"

definition EMPTY_MODEL :: model where
  "EMPTY_MODEL = \<lparr>name = [], billingMode = ''per-token'', fixedPrice = [], inputPrice = [], completionPrice = [],
     lockedCompletionRatio = [], completionRatioLocked = False, cachePrice = [], createCachePrice = [], imagePrice = [],
     audioInputPrice = [], audioOutputPrice = [], m_billingExpr = [], m_requestRuleExpr = [], rawRatios = EMPTY_RATIOS,
     hasConflict = False\<rparr>"

text \<open>\<open>/^(\d+(\.\d*)?|\.\d*)?$/\<close>\<close>

definition re_numeric_input :: matcher where
  "re_numeric_input = r_seqs [r_bol,
     r_opt (r_alt (r_seqs [r_plus r_digit, r_opt (r_seqs [r_lit ''.'', r_star r_digit])])
                  (r_seqs [r_lit ''.'', r_star r_digit])),
     r_eol]"

definition NUMERIC_INPUT_REGEX :: "string \<Rightarrow> bool" where
  "NUMERIC_INPUT_REGEX s = rx_test re_numeric_input s"

section \<open>Numbers\<close>

definition hasValue :: "jsval \<Rightarrow> bool" where
  "hasValue v \<longleftrightarrow> v \<noteq> JStr [] \<and> v \<noteq> JNull \<and> v \<noteq> JUndef \<and> v \<noteq> JBool False"

definition toNumberOrNull :: "jsval \<Rightarrow> jsnum option" where
  "toNumberOrNull v =
     (if \<not> hasValue v \<and> v \<noteq> JNum (Fin 0) then None
      else let num = js_number v in if is_finite num then Some num else None)"

definition toNumericString :: "jsval \<Rightarrow> string" where
  "toNumericString v =
     (if \<not> hasValue v \<and> v \<noteq> JNum (Fin 0) then []
      else let num = js_number v in if is_finite num then num_str num else [])"

definition roundToDecimals :: "jsnum \<Rightarrow> nat \<Rightarrow> jsnum" where
  "roundToDecimals value decimals =
     (let factor = Fin (of_int (10 ^ decimals)) in num_div (num_round (num_mul value factor)) factor)"

definition snap_tolerance :: "jsnum \<Rightarrow> jsnum" where
  "snap_tolerance value = num_max SNAP_EPSILON (num_mul (num_mul (num_abs value) NUMBER_EPSILON) (Fin 8))"

text \<open>The loop from \<open>decimals\<close> with \<open>k\<close> further values to try.\<close>

fun snap_loop :: "jsnum \<Rightarrow> nat \<Rightarrow> nat \<Rightarrow> jsnum" where
  "snap_loop value decimals 0 = value"
| "snap_loop value decimals (Suc k) =
     (let rounded = roundToDecimals value decimals in
      if num_le (num_abs (num_sub value rounded)) (snap_tolerance value) then rounded
      else snap_loop value (Suc decimals) k)"

definition snapFloatDrift :: "jsnum \<Rightarrow> jsnum" where
  "snapFloatDrift value = snap_loop value 0 (SNAP_DECIMALS + 1)"

definition formatNumber :: "jsval \<Rightarrow> string" where
  "formatNumber v = (case toNumberOrNull v of
      None \<Rightarrow> []
    | Some num \<Rightarrow> num_str (parse_float (to_fixed DISPLAY_DECIMALS (snapFloatDrift num))))"

definition toNormalizedNumber :: "jsval \<Rightarrow> jsnum option" where
  "toNormalizedNumber v = (let formatted = formatNumber v in if formatted = [] then None else Some (num_of_string formatted))"

section \<open>Loading a model\<close>

definition parseOptionJSON :: "string option \<Rightarrow> jsobj" where
  "parseOptionJSON rawValue =
     (case rawValue of
        None \<Rightarrow> []
      | Some raw \<Rightarrow>
          if trim raw = [] then []
          else case json_parse raw of
                 Some (JObj ps) \<Rightarrow> ps
               | Some (JArr vs) \<Rightarrow> array_entries vs
               | _ \<Rightarrow> [])"

definition ratioToBasePrice :: "string \<Rightarrow> string" where
  "ratioToBasePrice ratio = (case toNumberOrNull (JStr ratio) of None \<Rightarrow> []
     | Some num \<Rightarrow> formatNumber (JNum (num_mul num (Fin 2))))"

definition normalizeCompletionRatioMeta :: "jsval \<Rightarrow> bool \<times> string" where
  "normalizeCompletionRatioMeta rawMeta =
     (case rawMeta of
        JObj _ \<Rightarrow> (truthy (jget ''locked'' rawMeta), toNumericString (jget ''ratio'' rawMeta))
      | _ \<Rightarrow> (False, []))"

record source_maps =
  sm_ModelPrice :: jsobj
  sm_ModelRatio :: jsobj
  sm_CompletionRatio :: jsobj
  sm_CompletionRatioMeta :: jsobj
  sm_CacheRatio :: jsobj
  sm_CreateCacheRatio :: jsobj
  sm_ImageRatio :: jsobj
  sm_AudioRatio :: jsobj
  sm_AudioCompletionRatio :: jsobj
  sm_ModelBillingMode :: jsobj
  sm_ModelBillingExpr :: jsobj

abbreviation has_text :: "string \<Rightarrow> bool" where
  "has_text s \<equiv> hasValue (JStr s)"

text \<open>\<open>base !== null && hasValue(ratio) ? formatNumber(base * Number(ratio)) : ''\<close>\<close>

definition derived_price :: "jsnum option \<Rightarrow> string \<Rightarrow> string" where
  "derived_price base ratio = (case base of
      Some b \<Rightarrow> if has_text ratio then formatNumber (JNum (num_mul b (num_of_string ratio))) else []
    | None \<Rightarrow> [])"

definition ratio_texts :: "raw_ratios \<Rightarrow> string list" where
  "ratio_texts r = [modelRatio r, completionRatio r, cacheRatio r, createCacheRatio r, imageRatio r, audioRatio r,
     audioCompletionRatio r]"

text \<open>\<open>Inl ()\<close> is an exception: a billing expression that is no string has no \<open>trim\<close>, and splitting a text may throw.\<close>

definition tiered_state :: "string \<Rightarrow> jsval \<Rightarrow> unit + model" where
  "tiered_state nm expr =
     (case (if truthy expr then expr else JStr []) of
        JStr full \<Rightarrow>
          (case splitBillingExprAndRequestRules full of
             Inl e \<Rightarrow> Inl e
           | Inr sp \<Rightarrow> Inr (EMPTY_MODEL\<lparr>name := nm, billingMode := ''tiered_expr'', m_billingExpr := billingExpr sp,
                m_requestRuleExpr := requestRuleExpr sp\<rparr>))
      | _ \<Rightarrow> Inl ())"

definition load_ratios :: "string \<Rightarrow> source_maps \<Rightarrow> raw_ratios" where
  "load_ratios nm maps =
     (let rd = (\<lambda>m. toNumericString (jget nm (JObj m))) in
      \<lparr>modelRatio = rd (sm_ModelRatio maps), completionRatio = rd (sm_CompletionRatio maps),
       cacheRatio = rd (sm_CacheRatio maps), createCacheRatio = rd (sm_CreateCacheRatio maps),
       imageRatio = rd (sm_ImageRatio maps), audioRatio = rd (sm_AudioRatio maps),
       audioCompletionRatio = rd (sm_AudioCompletionRatio maps)\<rparr>)"

definition ratio_state :: "string \<Rightarrow> source_maps \<Rightarrow> model" where
  "ratio_state nm maps =
     (let raw = load_ratios nm maps;
          meta = normalizeCompletionRatioMeta (jget nm (JObj (sm_CompletionRatioMeta maps)));
          locked = fst meta; lockedRatio = snd meta;
          fixed = toNumericString (jget nm (JObj (sm_ModelPrice maps)));
          input = ratioToBasePrice (modelRatio raw);
          base = toNumberOrNull (JStr input);
          audioIn = derived_price base (audioRatio raw)
      in EMPTY_MODEL\<lparr>name := nm, billingMode := (if has_text fixed then ''per-request'' else ''per-token''),
           fixedPrice := fixed, inputPrice := input, completionRatioLocked := locked,
           lockedCompletionRatio := lockedRatio,
           completionPrice := derived_price base (if locked then lockedRatio else completionRatio raw),
           cachePrice := derived_price base (cacheRatio raw),
           createCachePrice := derived_price base (createCacheRatio raw),
           imagePrice := derived_price base (imageRatio raw),
           audioInputPrice := audioIn,
           audioOutputPrice := (if toNumberOrNull (JStr audioIn) \<noteq> None
              then derived_price (Some (num_of_string audioIn)) (audioCompletionRatio raw) else []),
           m_requestRuleExpr := [], rawRatios := raw,
           hasConflict := has_text fixed \<and> list_ex has_text (ratio_texts raw)\<rparr>)"

definition buildModelState :: "string \<Rightarrow> source_maps \<Rightarrow> unit + model" where
  "buildModelState nm maps =
     (if jget nm (JObj (sm_ModelBillingMode maps)) = JStr ''tiered_expr''
      then tiered_state nm (jget nm (JObj (sm_ModelBillingExpr maps)))
      else Inr (ratio_state nm maps))"

section \<open>Warnings and summaries\<close>

definition isBasePricingUnset :: "model \<Rightarrow> bool" where
  "isBasePricingUnset m \<longleftrightarrow> billingMode m \<noteq> ''tiered_expr'' \<and> \<not> has_text (fixedPrice m) \<and> \<not> has_text (inputPrice m)"

datatype warning = ConflictWarning | ExtraRatiosWarning | NeedInputPrice | NeedAudioInputPrice

definition getModelWarnings :: "model option \<Rightarrow> warning list" where
  "getModelWarnings mo =
     (case mo of
        None \<Rightarrow> []
      | Some m \<Rightarrow>
          if billingMode m = ''tiered_expr'' then []
          else let r = rawRatios m;
                   hasDerivedPricing = list_ex has_text [inputPrice m, completionPrice m, cachePrice m, createCachePrice m,
                     imagePrice m, audioInputPrice m, audioOutputPrice m]
               in (if hasConflict m then [ConflictWarning] else [])
                @ (if \<not> has_text (inputPrice m) \<and> list_ex has_text [completionRatio r, cacheRatio r, createCacheRatio r,
                        imageRatio r, audioRatio r, audioCompletionRatio r] then [ExtraRatiosWarning] else [])
                @ (if billingMode m = ''per-token'' \<and> hasDerivedPricing \<and> \<not> has_text (inputPrice m) then [NeedInputPrice] else [])
                @ (if billingMode m = ''per-token'' \<and> has_text (audioOutputPrice m) \<and> \<not> has_text (audioInputPrice m)
                   then [NeedAudioInputPrice] else []))"

text \<open>\<open>(expr.match(/tier\(/g) || []).length\<close>: the matches cannot overlap.\<close>

fun tier_count :: "string \<Rightarrow> nat" where
  "tier_count [] = 0"
| "tier_count (c # s) = (if prefix ''tier('' (c # s) then 1 else 0) + tier_count s"

text \<open>The summary: which text, its number, and whether the request-rule suffix follows.\<close>

datatype summary = ExprBilling | TieredBilling nat | PerRequest string | InputSummary string nat | Unset

definition buildSummaryText :: "model \<Rightarrow> summary \<times> bool" where
  "buildSummaryText m =
     (let suffix = (billingMode m = ''tiered_expr'' \<and> m_requestRuleExpr m \<noteq> []) in
      if billingMode m = ''tiered_expr'' then
        (let n = tier_count (m_billingExpr m) in if m_billingExpr m = [] \<or> n = 0 then (ExprBilling, suffix) else (TieredBilling n, suffix))
      else if billingMode m = ''per-request'' \<and> has_text (fixedPrice m) then (PerRequest (fixedPrice m), suffix)
      else if has_text (inputPrice m) then
        (InputSummary (inputPrice m) (length (filter has_text [completionPrice m, cachePrice m, createCachePrice m, imagePrice m,
           audioInputPrice m, audioOutputPrice m])), suffix)
      else (Unset, suffix))"

datatype price_field = FixedPrice | InputPrice | CompletionPrice | CachePrice | CreateCachePrice | ImagePrice
  | AudioInputPrice | AudioOutputPrice

text \<open>The toggle object; \<open>None\<close> where it has no such property.\<close>

definition buildOptionalFieldToggles :: "model \<Rightarrow> price_field \<Rightarrow> bool option" where
  "buildOptionalFieldToggles m f = (case f of
      CompletionPrice \<Rightarrow> Some (completionRatioLocked m \<or> has_text (completionPrice m))
    | CachePrice \<Rightarrow> Some (has_text (cachePrice m))
    | CreateCachePrice \<Rightarrow> Some (has_text (createCachePrice m))
    | ImagePrice \<Rightarrow> Some (has_text (imagePrice m))
    | AudioInputPrice \<Rightarrow> Some (has_text (audioInputPrice m))
    | AudioOutputPrice \<Rightarrow> Some (has_text (audioOutputPrice m))
    | _ \<Rightarrow> None)"

section \<open>Saving a model\<close>

datatype option_key = KModelPrice | KModelRatio | KCompletionRatio | KCacheRatio | KCreateCacheRatio | KImageRatio
  | KAudioRatio | KAudioCompletionRatio

definition option_keys :: "option_key list" where
  "option_keys = [KModelPrice, KModelRatio, KCompletionRatio, KCacheRatio, KCreateCacheRatio, KImageRatio, KAudioRatio,
     KAudioCompletionRatio]"

type_synonym serialized = "option_key \<Rightarrow> jsnum option"

datatype price_error = MissingInputPrice string | MissingAudioInput string

definition raw_number :: "string \<Rightarrow> jsnum option" where
  "raw_number s = (if has_text s then toNormalizedNumber (JStr s) else None)"

definition price_ratio :: "jsnum option \<Rightarrow> jsnum \<Rightarrow> jsnum option" where
  "price_ratio p base = (case p of None \<Rightarrow> None | Some x \<Rightarrow> toNormalizedNumber (JNum (num_div x base)))"

definition serializeModel :: "model \<Rightarrow> price_error + serialized" where
  "serializeModel m =
     (if billingMode m = ''per-request'' then
        Inr ((\<lambda>_. None)(KModelPrice := raw_number (fixedPrice m)))
      else
        let num = (\<lambda>s. toNumberOrNull (JStr s)); r = rawRatios m;
            completion = num (completionPrice m); cache = num (cachePrice m); createCache = num (createCachePrice m);
            image = num (imagePrice m); audioIn = num (audioInputPrice m); audioOut = num (audioOutputPrice m)
        in case num (inputPrice m) of
             None \<Rightarrow>
               if list_ex (\<lambda>v. v \<noteq> None) [completion, cache, createCache, image, audioIn, audioOut]
               then Inl (MissingInputPrice (name m))
               else Inr ((\<lambda>_. None)(KModelRatio := raw_number (modelRatio r), KCompletionRatio := raw_number (completionRatio r),
                      KCacheRatio := raw_number (cacheRatio r), KCreateCacheRatio := raw_number (createCacheRatio r),
                      KImageRatio := raw_number (imageRatio r), KAudioRatio := raw_number (audioRatio r),
                      KAudioCompletionRatio := raw_number (audioCompletionRatio r)))
           | Some base \<Rightarrow>
               (let res = (\<lambda>_. None)(KModelRatio := toNormalizedNumber (JNum (num_div base (Fin 2))),
                      KCompletionRatio := (if \<not> completionRatioLocked m then price_ratio completion base
                                           else raw_number (completionRatio r)),
                      KCacheRatio := price_ratio cache base, KCreateCacheRatio := price_ratio createCache base,
                      KImageRatio := price_ratio image base, KAudioRatio := price_ratio audioIn base)
                in case audioOut of
                     None \<Rightarrow> Inr res
                   | Some out \<Rightarrow>
                       (case audioIn of
                          Some a \<Rightarrow> if a = Fin 0 then Inl (MissingAudioInput (name m))
                                    else Inr (res(KAudioCompletionRatio := toNormalizedNumber (JNum (num_div out a))))
                        | None \<Rightarrow> Inl (MissingAudioInput (name m)))))"


section \<open>The preview\<close>

datatype row_value = RowText string | RowEmpty | RowLocked string | RowTiers nat string

definition text_or_empty :: "string \<Rightarrow> row_value" where
  "text_or_empty s = (if has_text s then RowText s else RowEmpty)"

definition quotient_row :: "jsnum option \<Rightarrow> jsnum \<Rightarrow> row_value" where
  "quotient_row p base = (case p of None \<Rightarrow> RowEmpty | Some x \<Rightarrow> RowText (formatNumber (JNum (num_div x base))))"

text \<open>\<open>RowLocked s\<close> is the text \<open>s\<close> (or the word for "empty") followed by the note that the backend fixes the ratio.\<close>

definition clip60 :: "string \<Rightarrow> string" where
  "clip60 s = (if 60 < length s then take 60 s @ ''...'' else s)"

definition tiered_rows :: "model \<Rightarrow> (string \<times> row_value) list" where
  "tiered_rows m =
     (let final = combineBillingExpr (m_billingExpr m) (m_requestRuleExpr m); n = tier_count (m_billingExpr m) in
      (''BillingMode'', RowText ''tiered_expr'')
      # (if final = [] then []
         else [(''BillingExpr'', if 0 < n then RowTiers n (clip60 final) else RowText (clip60 final))]))"

definition raw_rows :: "raw_ratios \<Rightarrow> (string \<times> row_value) list" where
  "raw_rows r =
     [(''ModelRatio'', text_or_empty (modelRatio r)), (''CompletionRatio'', text_or_empty (completionRatio r)),
      (''CacheRatio'', text_or_empty (cacheRatio r)), (''CreateCacheRatio'', text_or_empty (createCacheRatio r)),
      (''ImageRatio'', text_or_empty (imageRatio r)), (''AudioRatio'', text_or_empty (audioRatio r)),
      (''AudioCompletionRatio'', text_or_empty (audioCompletionRatio r))]"

definition price_rows :: "model \<Rightarrow> jsnum \<Rightarrow> (string \<times> row_value) list" where
  "price_rows m base =
     (let num = (\<lambda>s. toNumberOrNull (JStr s)) in
      [(''ModelRatio'', RowText (formatNumber (JNum (num_div base (Fin 2))))),
       (''CompletionRatio'', if completionRatioLocked m then RowLocked (lockedCompletionRatio m)
                             else quotient_row (num (completionPrice m)) base),
       (''CacheRatio'', quotient_row (num (cachePrice m)) base),
       (''CreateCacheRatio'', quotient_row (num (createCachePrice m)) base),
       (''ImageRatio'', quotient_row (num (imagePrice m)) base),
       (''AudioRatio'', quotient_row (num (audioInputPrice m)) base),
       (''AudioCompletionRatio'', case num (audioInputPrice m) of
            Some a \<Rightarrow> if a = Fin 0 then RowEmpty else quotient_row (num (audioOutputPrice m)) a
          | None \<Rightarrow> RowEmpty)])"

definition buildPreviewRows :: "model option \<Rightarrow> (string \<times> row_value) list" where
  "buildPreviewRows mo =
     (case mo of
        None \<Rightarrow> []
      | Some m \<Rightarrow>
          if billingMode m = ''tiered_expr'' then tiered_rows m
          else if billingMode m = ''per-request'' then [(''ModelPrice'', text_or_empty (fixedPrice m))]
          else case toNumberOrNull (JStr (inputPrice m)) of
                 None \<Rightarrow> raw_rows (rawRatios m)
               | Some base \<Rightarrow> price_rows m base)"

end
