(* ===== verification/PricingState.thy ===== *)
theory PricingState
  imports Pricing
begin

text \<open>
  The hook \<open>useModelPricingEditorState\<close> of web/src/pages/Setting/Ratio/hooks/useModelPricingEditorState.js: its state,
  its effects and its handlers. An effect runs after the events that change what it depends on: \<open>after_select\<close> after every
  event, \<open>after_models\<close> after the events that set the models. The options and candidate names are the hook's properties;
  \<open>le a b\<close> stands for \<open>a.localeCompare(b) <= 0\<close>, which depends on the browser's locale. The backend's answers are an
  argument of \<open>submit_end\<close>.
\<close>

section \<open>State\<close>

datatype toast = NeedName | NameExists | NeedTemplate | NeedTargets | Applied string nat | Saved
  | SaveFailed string | SerializeFailed price_error

type_synonym toggles = "price_field \<Rightarrow> bool option"
type_synonym pr_options = "string \<Rightarrow> string option"

record pr_state =
  filterMode :: string
  models :: "model list"
  initialVisibleModelNames :: "string list"
  selectedModelName :: string
  selectedModelNames :: "string list"
  searchText :: string
  currentPage :: int
  loading :: bool
  conflictOnly :: bool
  optionalFieldToggles :: "string \<Rightarrow> toggles option"
  toasts :: "toast list"

definition initial_pricing :: "string \<Rightarrow> pr_state" where
  "initial_pricing mode = \<lparr>filterMode = mode, models = [], initialVisibleModelNames = [], selectedModelName = [],
     selectedModelNames = [], searchText = [], currentPage = 1, loading = False, conflictOnly = False,
     optionalFieldToggles = (\<lambda>_. None), toasts = []\<rparr>"

definition toast :: "toast \<Rightarrow> pr_state \<Rightarrow> pr_state" where
  "toast t s = s\<lparr>toasts := toasts s @ [t]\<rparr>"

section \<open>Derived values\<close>

definition visibleModels :: "pr_state \<Rightarrow> model list" where
  "visibleModels s =
     (if filterMode s = ''unset'' then filter (\<lambda>m. name m \<in> set (initialVisibleModelNames s)) (models s) else models s)"

definition filteredModels :: "pr_state \<Rightarrow> model list" where
  "filteredModels s = filter (\<lambda>m. let keyword = to_lower (trim (searchText s)) in
     (if keyword \<noteq> [] then str_includes keyword (to_lower (name m)) else True)
     \<and> (if conflictOnly s then hasConflict m else True)) (visibleModels s)"

text \<open>\<open>slice\<close> with the start and end of page \<open>p\<close>; the pages count from 1.\<close>

definition page_of :: "int \<Rightarrow> 'a list \<Rightarrow> 'a list" where
  "page_of p xs = take PAGE_SIZE (drop (nat (p - 1) * PAGE_SIZE) xs)"

definition pagedData :: "pr_state \<Rightarrow> model list" where
  "pagedData s = page_of (currentPage s) (filteredModels s)"

definition has_name :: "string \<Rightarrow> model list \<Rightarrow> bool" where
  "has_name n ms \<longleftrightarrow> list_ex (\<lambda>m. name m = n) ms"

definition selectedModel :: "pr_state \<Rightarrow> model option" where
  "selectedModel s = find (\<lambda>m. name m = selectedModelName s) (visibleModels s)"

definition selectedWarnings :: "pr_state \<Rightarrow> warning list" where
  "selectedWarnings s = getModelWarnings (selectedModel s)"

definition previewRows :: "pr_state \<Rightarrow> (string \<times> row_value) list" where
  "previewRows s = buildPreviewRows (selectedModel s)"

section \<open>Effects\<close>

definition first_name :: "model list \<Rightarrow> string" where
  "first_name ms = (case ms of [] \<Rightarrow> [] | m # _ \<Rightarrow> name m)"

definition filter_selected :: "pr_state \<Rightarrow> pr_state" where
  "filter_selected s = s\<lparr>selectedModelNames := filter (\<lambda>n. has_name n (visibleModels s)) (selectedModelNames s)\<rparr>"

definition after_select :: "pr_state \<Rightarrow> pr_state" where
  "after_select s =
     (if visibleModels s = [] then s\<lparr>selectedModelName := []\<rparr>
      else if \<not> has_name (selectedModelName s) (visibleModels s)
      then s\<lparr>selectedModelName := name (hd (visibleModels s))\<rparr> else s)"

definition after_models :: "pr_state \<Rightarrow> pr_state" where
  "after_models s = after_select (filter_selected s)"

definition reset_page :: "pr_state \<Rightarrow> pr_state" where
  "reset_page s = s\<lparr>currentPage := 1\<rparr>"

section \<open>Loading the options\<close>

definition source_of :: "pr_options \<Rightarrow> source_maps" where
  "source_of options = \<lparr>
     sm_ModelPrice = parseOptionJSON (options ''ModelPrice''),
     sm_ModelRatio = parseOptionJSON (options ''ModelRatio''),
     sm_CompletionRatio = parseOptionJSON (options ''CompletionRatio''),
     sm_CompletionRatioMeta = parseOptionJSON (options ''CompletionRatioMeta''),
     sm_CacheRatio = parseOptionJSON (options ''CacheRatio''),
     sm_CreateCacheRatio = parseOptionJSON (options ''CreateCacheRatio''),
     sm_ImageRatio = parseOptionJSON (options ''ImageRatio''),
     sm_AudioRatio = parseOptionJSON (options ''AudioRatio''),
     sm_AudioCompletionRatio = parseOptionJSON (options ''AudioCompletionRatio''),
     sm_ModelBillingMode = parseOptionJSON (options ''billing_setting.billing_mode''),
     sm_ModelBillingExpr = parseOptionJSON (options ''billing_setting.billing_expr'')\<rparr>"

definition model_names :: "string list \<Rightarrow> source_maps \<Rightarrow> string list" where
  "model_names candidates maps = js_set (candidates @ concat (map (map fst)
     [sm_ModelPrice maps, sm_ModelRatio maps, sm_CompletionRatio maps, sm_CompletionRatioMeta maps, sm_CacheRatio maps,
      sm_CreateCacheRatio maps, sm_ImageRatio maps, sm_AudioRatio maps, sm_AudioCompletionRatio maps,
      sm_ModelBillingMode maps, sm_ModelBillingExpr maps]))"

text \<open>The stable \<open>sort\<close>.\<close>

fun insert_by :: "('a \<Rightarrow> 'a \<Rightarrow> bool) \<Rightarrow> 'a \<Rightarrow> 'a list \<Rightarrow> 'a list" where
  "insert_by le x [] = [x]"
| "insert_by le x (y # ys) = (if le x y then x # y # ys else y # insert_by le x ys)"

definition sort_by :: "('a \<Rightarrow> 'a \<Rightarrow> bool) \<Rightarrow> 'a list \<Rightarrow> 'a list" where
  "sort_by le xs = foldr (insert_by le) xs []"

definition load_models :: "(string \<Rightarrow> string \<Rightarrow> bool) \<Rightarrow> string list \<Rightarrow> source_maps \<Rightarrow> unit + model list" where
  "load_models le candidates maps =
     (case map_sum_list (\<lambda>n. buildModelState n maps) (model_names candidates maps) of
        Inl e \<Rightarrow> Inl e
      | Inr ms \<Rightarrow> Inr (sort_by (\<lambda>a b. le (name a) (name b)) ms))"

text \<open>\<open>Inl ()\<close>: the effect throws.\<close>

definition load_effect :: "(string \<Rightarrow> string \<Rightarrow> bool) \<Rightarrow> string list \<Rightarrow> pr_options \<Rightarrow> pr_state \<Rightarrow> unit + pr_state" where
  "load_effect le candidates options s =
     (case load_models le candidates (source_of options) of
        Inl e \<Rightarrow> Inl e
      | Inr ms \<Rightarrow>
          let shown = (if filterMode s = ''unset'' then filter isBasePricingUnset ms else ms);
              previous = selectedModelName s
          in Inr (after_models (s\<lparr>models := ms, initialVisibleModelNames := map name shown,
               optionalFieldToggles := fold (\<lambda>m acc. acc(name m \<mapsto> buildOptionalFieldToggles m)) ms (\<lambda>_. None),
               selectedModelName := (if previous \<noteq> [] \<and> has_name previous ms then previous else first_name shown)\<rparr>)))"

section \<open>Editing\<close>

definition upsertModel :: "string \<Rightarrow> (model \<Rightarrow> model) \<Rightarrow> pr_state \<Rightarrow> pr_state" where
  "upsertModel n updater s = s\<lparr>models := upd_by name n updater (models s)\<rparr>"

definition isOptionalFieldEnabled :: "pr_state \<Rightarrow> model option \<Rightarrow> price_field \<Rightarrow> bool option" where
  "isOptionalFieldEnabled s mo f =
     (case mo of
        None \<Rightarrow> Some False
      | Some m \<Rightarrow> (case Option.bind (optionalFieldToggles s (name m)) (\<lambda>t. t f) of
                     Some b \<Rightarrow> Some b
                   | None \<Rightarrow> buildOptionalFieldToggles m f))"

definition set_toggle :: "string \<Rightarrow> price_field \<Rightarrow> bool \<Rightarrow> (string \<Rightarrow> toggles option) \<Rightarrow> string \<Rightarrow> toggles option" where
  "set_toggle n f b tg = tg(n \<mapsto> (case tg n of Some t \<Rightarrow> t | None \<Rightarrow> (\<lambda>_. None))(f \<mapsto> b))"

definition updateOptionalFieldToggle :: "string \<Rightarrow> price_field \<Rightarrow> bool \<Rightarrow> pr_state \<Rightarrow> pr_state" where
  "updateOptionalFieldToggle n f b s = s\<lparr>optionalFieldToggles := set_toggle n f b (optionalFieldToggles s)\<rparr>"

text \<open>\<open>{...model, [field]: v}\<close>\<close>

fun set_price :: "price_field \<Rightarrow> string \<Rightarrow> model \<Rightarrow> model" where
  "set_price FixedPrice v m = m\<lparr>fixedPrice := v\<rparr>"
| "set_price InputPrice v m = m\<lparr>inputPrice := v\<rparr>"
| "set_price CompletionPrice v m = m\<lparr>completionPrice := v\<rparr>"
| "set_price CachePrice v m = m\<lparr>cachePrice := v\<rparr>"
| "set_price CreateCachePrice v m = m\<lparr>createCachePrice := v\<rparr>"
| "set_price ImagePrice v m = m\<lparr>imagePrice := v\<rparr>"
| "set_price AudioInputPrice v m = m\<lparr>audioInputPrice := v\<rparr>"
| "set_price AudioOutputPrice v m = m\<lparr>audioOutputPrice := v\<rparr>"

definition handleOptionalFieldToggle :: "price_field \<Rightarrow> bool \<Rightarrow> pr_state \<Rightarrow> pr_state" where
  "handleOptionalFieldToggle f checked s =
     (case selectedModel s of
        None \<Rightarrow> s
      | Some sel \<Rightarrow>
          let n = name sel; s1 = updateOptionalFieldToggle n f checked s in
          if checked then s1
          else let s2 = upsertModel n (\<lambda>m. let next = set_price f [] m in
                     if f = AudioInputPrice then next\<lparr>audioOutputPrice := []\<rparr> else next) s1
               in after_models (if f = AudioInputPrice
                  then updateOptionalFieldToggle n AudioOutputPrice False (updateOptionalFieldToggle n AudioInputPrice False s2)
                  else s2))"

definition fill_one :: "jsnum \<Rightarrow> string \<Rightarrow> string \<Rightarrow> string" where
  "fill_one base price ratio =
     (if \<not> has_text price \<and> has_text ratio then formatNumber (JNum (num_mul base (num_of_string ratio))) else price)"

definition fillDerivedPricesFromBase :: "model \<Rightarrow> string \<Rightarrow> model" where
  "fillDerivedPricesFromBase m nextInputPrice =
     (case toNumberOrNull (JStr nextInputPrice) of
        None \<Rightarrow> m
      | Some base \<Rightarrow>
          let r = rawRatios m in
          m\<lparr>completionPrice := (if completionRatioLocked m \<and> has_text (lockedCompletionRatio m)
               then formatNumber (JNum (num_mul base (num_of_string (lockedCompletionRatio m))))
               else fill_one base (completionPrice m) (completionRatio r)),
            cachePrice := fill_one base (cachePrice m) (cacheRatio r),
            createCachePrice := fill_one base (createCachePrice m) (createCacheRatio r),
            imagePrice := fill_one base (imagePrice m) (imageRatio r),
            audioInputPrice := fill_one base (audioInputPrice m) (audioRatio r),
            audioOutputPrice := (if \<not> has_text (audioOutputPrice m) \<and> has_text (audioRatio r) \<and> has_text (audioCompletionRatio r)
               then formatNumber (JNum (num_mul (num_mul base (num_of_string (audioRatio r))) (num_of_string (audioCompletionRatio r))))
               else audioOutputPrice m)\<rparr>)"

definition edit_selected :: "(model \<Rightarrow> model) \<Rightarrow> pr_state \<Rightarrow> pr_state" where
  "edit_selected f s = (case selectedModel s of None \<Rightarrow> s | Some sel \<Rightarrow> after_models (upsertModel (name sel) f s))"

definition numeric_edit :: "price_field \<Rightarrow> string \<Rightarrow> model \<Rightarrow> model" where
  "numeric_edit f v m = (let updated = set_price f v m in if f = InputPrice then fillDerivedPricesFromBase updated v else updated)"

definition handleNumericFieldChange :: "price_field \<Rightarrow> string \<Rightarrow> pr_state \<Rightarrow> pr_state" where
  "handleNumericFieldChange f v s = (if NUMERIC_INPUT_REGEX v then edit_selected (numeric_edit f v) s else s)"

definition change_mode :: "string \<Rightarrow> model \<Rightarrow> model" where
  "change_mode v m = (let next = m\<lparr>billingMode := v\<rparr> in
     if v = ''tiered_expr'' \<and> m_billingExpr m = [] then next\<lparr>m_billingExpr := ''tier(\"base\", p * 0 + c * 0)''\<rparr> else next)"

definition handleBillingModeChange :: "string \<Rightarrow> pr_state \<Rightarrow> pr_state" where
  "handleBillingModeChange v s = edit_selected (change_mode v) s"

definition handleBillingExprChange :: "string \<Rightarrow> pr_state \<Rightarrow> pr_state" where
  "handleBillingExprChange e s = edit_selected (\<lambda>m. m\<lparr>m_billingExpr := e\<rparr>) s"

definition handleRequestRuleExprChange :: "string \<Rightarrow> pr_state \<Rightarrow> pr_state" where
  "handleRequestRuleExprChange e s = edit_selected (\<lambda>m. m\<lparr>m_requestRuleExpr := e\<rparr>) s"

section \<open>Adding, deleting and copying\<close>

definition addModel :: "string \<Rightarrow> pr_state \<Rightarrow> pr_state \<times> bool" where
  "addModel modelName s =
     (let trimmedName = trim modelName in
      if trimmedName = [] then (toast NeedName s, False)
      else if has_name trimmedName (models s) then (toast NameExists s, False)
      else let nextModel = EMPTY_MODEL\<lparr>name := trimmedName\<rparr> in
        (after_models (s\<lparr>models := nextModel # models s,
           optionalFieldToggles := (optionalFieldToggles s)(trimmedName \<mapsto> buildOptionalFieldToggles nextModel),
           selectedModelName := trimmedName, currentPage := 1\<rparr>), True))"

definition deleteModel :: "string \<Rightarrow> pr_state \<Rightarrow> pr_state" where
  "deleteModel n s =
     (let nextModels = del_by name n (models s) in
      after_models (s\<lparr>models := nextModels, optionalFieldToggles := (optionalFieldToggles s)(n := None),
        selectedModelNames := filter (\<lambda>item. item \<noteq> n) (selectedModelNames s),
        selectedModelName := (if selectedModelName s = n then first_name nextModels else selectedModelName s)\<rparr>))"

definition copy_pricing :: "model \<Rightarrow> model \<Rightarrow> model" where
  "copy_pricing sel m =
     (let next = m\<lparr>billingMode := billingMode sel, fixedPrice := fixedPrice sel, inputPrice := inputPrice sel,
            completionPrice := completionPrice sel, cachePrice := cachePrice sel, createCachePrice := createCachePrice sel,
            imagePrice := imagePrice sel, audioInputPrice := audioInputPrice sel, audioOutputPrice := audioOutputPrice sel,
            m_billingExpr := m_billingExpr sel, m_requestRuleExpr := m_requestRuleExpr sel\<rparr>
      in if billingMode next = ''per-token'' \<and> completionRatioLocked next \<and> has_text (inputPrice next)
            \<and> has_text (lockedCompletionRatio next)
         then next\<lparr>completionPrice := formatNumber (JNum (num_mul (num_of_string (inputPrice next))
                    (num_of_string (lockedCompletionRatio next))))\<rparr>
         else next)"

definition copy_toggles :: "toggles \<Rightarrow> model option \<Rightarrow> toggles" where
  "copy_toggles src target =
     (let on = (\<lambda>f. src f = Some True) in
      (\<lambda>_. None)(CompletionPrice \<mapsto> (case target of Some m \<Rightarrow> completionRatioLocked m | None \<Rightarrow> False) \<or> on CompletionPrice,
        CachePrice \<mapsto> on CachePrice, CreateCachePrice \<mapsto> on CreateCachePrice, ImagePrice \<mapsto> on ImagePrice,
        AudioInputPrice \<mapsto> on AudioInputPrice, AudioOutputPrice \<mapsto> on AudioInputPrice \<and> on AudioOutputPrice))"

definition applySelectedModelPricing :: "pr_state \<Rightarrow> pr_state \<times> bool" where
  "applySelectedModelPricing s =
     (case selectedModel s of
        None \<Rightarrow> (toast NeedTemplate s, False)
      | Some sel \<Rightarrow>
          let targets = selectedModelNames s in
          if targets = [] then (toast NeedTargets s, False)
          else let src = (case optionalFieldToggles s (name sel) of Some t \<Rightarrow> t | None \<Rightarrow> (\<lambda>_. None)) in
            (after_models (toast (Applied (name sel) (length targets)) (s\<lparr>
               models := map (\<lambda>m. if name m \<in> set targets then copy_pricing sel m else m) (models s),
               optionalFieldToggles := fold (\<lambda>n tg. tg(n \<mapsto> copy_toggles src (find (\<lambda>m. name m = n) (models s))))
                 targets (optionalFieldToggles s)\<rparr>)), True))"

section \<open>Saving\<close>

fun option_name :: "option_key \<Rightarrow> string" where
  "option_name KModelPrice = ''ModelPrice''"
| "option_name KModelRatio = ''ModelRatio''"
| "option_name KCompletionRatio = ''CompletionRatio''"
| "option_name KCacheRatio = ''CacheRatio''"
| "option_name KCreateCacheRatio = ''CreateCacheRatio''"
| "option_name KImageRatio = ''ImageRatio''"
| "option_name KAudioRatio = ''AudioRatio''"
| "option_name KAudioCompletionRatio = ''AudioCompletionRatio''"

record outputs =
  ratio_out :: "option_key \<Rightarrow> jsobj"
  mode_out :: jsobj
  expr_out :: jsobj

definition no_outputs :: outputs where
  "no_outputs = \<lparr>ratio_out = (\<lambda>_. []), mode_out = [], expr_out = []\<rparr>"

definition tiered_output :: "model \<Rightarrow> outputs \<Rightarrow> outputs" where
  "tiered_output m out =
     (let final = combineBillingExpr (m_billingExpr m) (m_requestRuleExpr m) in
      if billingMode m = ''tiered_expr'' \<and> final \<noteq> []
      then out\<lparr>mode_out := obj_set (name m) (JStr ''tiered_expr'') (mode_out out),
               expr_out := obj_set (name m) (JStr final) (expr_out out)\<rparr>
      else out)"

definition ratio_output :: "string \<Rightarrow> serialized \<Rightarrow> outputs \<Rightarrow> outputs" where
  "ratio_output n ser out = out\<lparr>ratio_out := (\<lambda>k. case ser k of
     None \<Rightarrow> ratio_out out k | Some v \<Rightarrow> obj_set n (JNum v) (ratio_out out k))\<rparr>"

fun save_loop :: "model list \<Rightarrow> outputs \<Rightarrow> price_error + outputs" where
  "save_loop [] out = Inr out"
| "save_loop (m # ms) out =
     (let out1 = tiered_output m out in
      case serializeModel m of
        Inr ser \<Rightarrow> save_loop ms (ratio_output (name m) ser out1)
      | Inl e \<Rightarrow> if billingMode m \<noteq> ''tiered_expr'' then Inl e else save_loop ms out1)"

text \<open>The bodies of the PUT requests to \<open>/api/option/\<close>: an option's key and its new text.\<close>

definition requestQueue :: "outputs \<Rightarrow> (string \<times> string) list" where
  "requestQueue out =
     map (\<lambda>k. (option_name k, json_pretty (JObj (ratio_out out k)))) option_keys
     @ [(''billing_setting.billing_mode'', json_pretty (JObj (mode_out out))),
        (''billing_setting.billing_expr'', json_pretty (JObj (expr_out out)))]"

text \<open>The part of \<open>handleSubmit\<close> up to the \<open>await\<close>: the requests sent, and the state.\<close>

definition submit_begin :: "pr_state \<Rightarrow> (string \<times> string) list \<times> pr_state" where
  "submit_begin s =
     (case save_loop (models s) no_outputs of
        Inl e \<Rightarrow> ([], (toast (SerializeFailed e) s)\<lparr>loading := False\<rparr>)
      | Inr out \<Rightarrow> (requestQueue out, s\<lparr>loading := True\<rparr>))"

text \<open>What the awaited promises give: the message of a rejection, or the answers (success, message) and then the message of
  a failure of \<open>refresh\<close>, if it fails.\<close>

datatype save_answer = Rejected string | Replied "(bool \<times> string) list" "string option"

definition submit_end :: "save_answer \<Rightarrow> pr_state \<Rightarrow> pr_state" where
  "submit_end res s =
     (case res of
        Rejected msg \<Rightarrow> toast (SaveFailed msg) s
      | Replied answers refreshed \<Rightarrow>
          (case find (\<lambda>(ok, msg). \<not> ok) answers of
             Some (ok, msg) \<Rightarrow> toast (SaveFailed msg) s
           | None \<Rightarrow> (case refreshed of
                        None \<Rightarrow> toast Saved s
                      | Some msg \<Rightarrow> toast (SaveFailed msg) (toast Saved s))))\<lparr>loading := False\<rparr>"

end
