(* ===== verification/PricingFacts.thy ===== *)
theory PricingFacts
  imports PricingState
begin

text \<open>
  Facts of the pricing functions: how integral prices are shown and read back, what loading and saving a model keeps, when saving
  fails, and that the preview shows what is saved.
\<close>

section \<open>Doubles that hold an integer\<close>

lemma num_mul_int:
  assumes "0 \<le> a * b" "a * b < 2 ^ 53"
  shows "num_mul (Fin (of_int a)) (Fin (of_int b)) = Fin (of_int (a * b))"
  using rnd_int[OF assms] by simp

lemma num_div_int:
  assumes "0 < b" "0 \<le> c" "c < 2 ^ 53"
  shows "num_div (Fin (of_int (b * c))) (Fin (of_int b)) = Fin (of_int c)"
  using rnd_int[OF assms(2,3)] assms by simp

lemma rnd_not_NaN [simp]: "rnd x \<noteq> NaN"
  by (simp add: rnd_def Let_def)

lemma num_mul_pos_not_NaN: "0 < y \<Longrightarrow> a \<noteq> NaN \<Longrightarrow> num_mul a (Fin y) \<noteq> NaN"
  by (cases a) (simp_all add: inf_of_sign_def)

lemma num_le_max: "a \<noteq> NaN \<Longrightarrow> b \<noteq> NaN \<Longrightarrow> num_le a (num_max a b)"
  by (auto simp: num_le_def num_eq_def num_max_def)

lemma num_le_trans_Fin: "num_le (Fin x) a \<Longrightarrow> y \<le> x \<Longrightarrow> num_le (Fin y) a"
  by (cases a) (auto simp: num_le_def num_eq_def)

lemma Fin_pos_cases: "(case a of Fin e \<Rightarrow> 0 < e | _ \<Rightarrow> False) \<Longrightarrow> \<exists>e. a = Fin e \<and> 0 < e"
  by (cases a) auto

lemma SNAP_EPSILON_pos: "\<exists>e. SNAP_EPSILON = Fin e \<and> 0 < e"
  by (rule Fin_pos_cases) code_simp

lemma snap_tolerance_pos: "num_le (Fin 0) (snap_tolerance (Fin v))"
proof -
  obtain e where e: "SNAP_EPSILON = Fin e" "0 < e" using SNAP_EPSILON_pos by blast
  have "num_mul (num_mul (Fin \<bar>v\<bar>) NUMBER_EPSILON) (Fin 8) \<noteq> NaN"
    by (intro num_mul_pos_not_NaN) (simp_all add: NUMBER_EPSILON_def)
  then have "num_le (Fin e) (snap_tolerance (Fin v))"
    using num_le_max[of "Fin e"] by (simp add: snap_tolerance_def e)
  then show ?thesis using e num_le_trans_Fin[of e] by simp
qed

lemma num_sub_self: "num_sub (Fin v) (Fin v) = Fin 0"
  by (simp add: num_sub_def rnd_def)

lemma snap_loop_close:
  "num_le (num_abs (num_sub (Fin v) (snap_loop (Fin v) d k))) (snap_tolerance (Fin v))"
  by (induction k arbitrary: d) (simp_all add: Let_def num_sub_self snap_tolerance_pos)

lemma snap_loop_fixed:
  assumes "roundToDecimals (Fin v) d = Fin v"
  shows "snap_loop (Fin v) d (Suc k) = Fin v"
  using assms by (simp add: Let_def num_sub_self snap_tolerance_pos)

lemma snap_int:
  assumes "0 \<le> N" "N < 2 ^ 53"
  shows "snapFloatDrift (Fin (of_int N)) = Fin (of_int N)"
proof -
  have "\<lfloor>of_int N + 1 / 2 :: rat\<rfloor> = N" by (rule floor_unique) simp_all
  then have "roundToDecimals (Fin (of_int N)) 0 = Fin (of_int N)"
    using rnd_int[OF assms] by (simp add: roundToDecimals_def)
  then show ?thesis unfolding snapFloatDrift_def using snap_loop_fixed by (simp only: Suc_eq_plus1[symmetric])
qed

section \<open>Integral prices as text\<close>

lemma int_of_str_zeros: "int_of_str (s @ zeros k) = int_of_str s * 10 ^ k"
proof (induction k)
  case (Suc k)
  have "s @ zeros (Suc k) = (s @ zeros k) @ [CHR ''0'']" by (simp add: zeros_def replicate_append_same)
  moreover have "digit_val (CHR ''0'') = 0" by (simp add: digit_val_def)
  ultimately show ?case using Suc int_of_str_snoc[of "s @ zeros k" "CHR ''0''"] by simp
qed (simp add: zeros_def)

lemma length_zeros [simp]: "length (zeros k) = k"
  by (simp add: zeros_def)

lemma zeros_digits: "list_all is_digit (zeros k)"
  by (simp add: zeros_def list_all_iff is_digit_def)

lemma fixed_abs_int:
  assumes "0 \<le> N" "0 < f"
  shows "fixed_abs (of_int N) f = int_str N @ ''.'' @ zeros f"
proof -
  have n: "\<lfloor>of_int N * of_int (10 ^ f) + 1 / 2 :: rat\<rfloor> = N * 10 ^ f" by (rule floor_unique) simp_all
  show ?thesis
  proof (cases "N = 0")
    case True
    moreover have "zeros f @ ''0'' = ''0'' @ zeros f" by (simp add: zeros_def replicate_append_same)
    moreover have "int_str 0 = ''0''" by (simp add: int_str.simps digit_char_def char_of_def)
    ultimately show ?thesis using n assms by (simp add: fixed_abs_def Let_def)
  next
    case False
    then have m: "int_str (N * 10 ^ f) = int_str N @ zeros f" using assms by (intro int_str_shift) simp
    have "\<not> length (int_str N @ zeros f) \<le> f" by simp
    then show ?thesis using assms unfolding fixed_abs_def Let_def n m by simp
  qed
qed

lemma parse_float_fixed:
  assumes "0 \<le> N" "N < 2 ^ 53"
  shows "parse_float (int_str N @ ''.'' @ zeros f) = Fin (of_int N)"
proof -
  note ds = int_str_digits[OF assms(1)]
  obtain c r where cr: "int_str N = c # r" by (cases "int_str N") auto
  have c: "is_digit c" using ds cr by simp
  have nd: "\<not> is_digit (CHR ''.'')" by (simp add: is_digit_def)
  have nw: "\<not> js_ws c" using c digit_not_ws by blast
  have tw: "takeWhile is_digit (int_str N @ ''.'' @ zeros f) = int_str N"
    "dropWhile is_digit (int_str N @ ''.'' @ zeros f) = ''.'' @ zeros f"
    using takeWhile_all[OF ds, of "''.'' @ zeros f"] dropWhile_all[OF ds, of "''.'' @ zeros f"] nd by simp_all
  have tz: "takeWhile is_digit (zeros f) = zeros f" "dropWhile is_digit (zeros f) = []"
    using zeros_digits[of f] by (simp_all add: list_all_iff)
  have "of_int (N * 10 ^ f) * pow10 (- int f) = (of_int N :: rat)" by (cases "f = 0") (simp_all add: pow10_def)
  then have su: "scan_unsigned (int_str N @ ''.'' @ zeros f) = Some (of_int N, [])"
    using assms unfolding scan_unsigned_def tw by (simp add: tz scan_exponent_def int_of_str_zeros)
  have nc: "c \<noteq> CHR ''-''" "c \<noteq> CHR ''+''" "c \<noteq> CHR ''I''" using c by (auto simp: is_digit_def)
  have "scan_number (int_str N @ ''.'' @ zeros f) = Some (rnd (of_int N), [])"
    using su nc unfolding scan_number_def cr by simp
  moreover have "trim_start (int_str N @ ''.'' @ zeros f) = int_str N @ ''.'' @ zeros f"
    using nw by (simp add: trim_start_def cr)
  ultimately show ?thesis using rnd_int[OF assms] by (simp add: parse_float_def)
qed

lemma formatNumber_int:
  assumes "toNumberOrNull v = Some (Fin (of_int N))" "0 \<le> N" "N < 10 ^ 15"
  shows "formatNumber v = int_str N"
proof -
  have b: "N < 2 ^ 53" using assms by simp
  have "\<not> (of_int (10 ^ 21) :: rat) \<le> \<bar>of_int N\<bar>" using assms by simp
  moreover have "\<not> (of_int N :: rat) < 0" using assms by simp
  ultimately have "to_fixed DISPLAY_DECIMALS (Fin (of_int N)) = int_str N @ ''.'' @ zeros 12"
    using fixed_abs_int[of N 12] assms unfolding DISPLAY_DECIMALS_def to_fixed.simps by (simp only: if_False)
  then show ?thesis
    using assms snap_int[OF assms(2) b] parse_float_fixed[OF assms(2) b, of 12] num_str_int[OF assms(2,3)]
    by (simp add: formatNumber_def)
qed

lemma toNumberOrNull_Fin [simp]: "toNumberOrNull (JNum (Fin x)) = Some (Fin x)"
  by (simp add: toNumberOrNull_def hasValue_def)

lemma toNumberOrNull_empty [simp]: "toNumberOrNull (JStr []) = None"
  by (simp add: toNumberOrNull_def hasValue_def)

lemma has_text_iff [simp]: "hasValue (JStr s) \<longleftrightarrow> s \<noteq> []"
  by (simp add: hasValue_def)

lemma toNumberOrNull_int:
  "0 \<le> N \<Longrightarrow> N < 2 ^ 53 \<Longrightarrow> toNumberOrNull (JStr (int_str N)) = Some (Fin (of_int N))"
  by (simp add: toNumberOrNull_def num_of_string_int)

lemma format_int: "0 \<le> N \<Longrightarrow> N < 10 ^ 15 \<Longrightarrow> formatNumber (JNum (Fin (of_int N))) = int_str N"
  by (rule formatNumber_int) simp_all

lemma normalized_int: "0 \<le> N \<Longrightarrow> N < 10 ^ 15 \<Longrightarrow> toNormalizedNumber (JNum (Fin (of_int N))) = Some (Fin (of_int N))"
  by (simp add: toNormalizedNumber_def format_int num_of_string_int)

lemma raw_number_int: "0 \<le> N \<Longrightarrow> N < 10 ^ 15 \<Longrightarrow> raw_number (int_str N) = Some (Fin (of_int N))"
  by (simp add: raw_number_def toNormalizedNumber_def formatNumber_int toNumberOrNull_int num_of_string_int)

section \<open>Loading and saving integral ratios\<close>

fun key_map :: "option_key \<Rightarrow> source_maps \<Rightarrow> jsobj" where
  "key_map KModelPrice = sm_ModelPrice"
| "key_map KModelRatio = sm_ModelRatio"
| "key_map KCompletionRatio = sm_CompletionRatio"
| "key_map KCacheRatio = sm_CacheRatio"
| "key_map KCreateCacheRatio = sm_CreateCacheRatio"
| "key_map KImageRatio = sm_ImageRatio"
| "key_map KAudioRatio = sm_AudioRatio"
| "key_map KAudioCompletionRatio = sm_AudioCompletionRatio"

text \<open>A stored integer or nothing, its text and its number.\<close>

definition int_val :: "int option \<Rightarrow> jsval" where
  "int_val x = (case x of None \<Rightarrow> JUndef | Some n \<Rightarrow> JNum (Fin (of_int n)))"

definition int_text :: "int option \<Rightarrow> string" where
  "int_text x = (case x of None \<Rightarrow> [] | Some n \<Rightarrow> int_str n)"

definition int_num :: "int option \<Rightarrow> jsnum option" where
  "int_num x = map_option (\<lambda>n. Fin (of_int n)) x"

definition opt_bound :: "int \<Rightarrow> int option \<Rightarrow> bool" where
  "opt_bound b x \<longleftrightarrow> (case x of None \<Rightarrow> True | Some n \<Rightarrow> 0 \<le> n \<and> n \<le> b)"

lemma numeric_int: "opt_bound 10000 x \<Longrightarrow> toNumericString (int_val x) = int_text x"
  by (cases x) (simp_all add: opt_bound_def int_val_def int_text_def toNumericString_def hasValue_def num_str_int del: num_str.simps)

lemma int_text_num: "opt_bound 10000000000000 x \<Longrightarrow> toNumberOrNull (JStr (int_text x)) = int_num x"
  by (cases x) (simp_all add: opt_bound_def int_text_def int_num_def toNumberOrNull_int)

lemma raw_number_text: "opt_bound 10000 x \<Longrightarrow> raw_number (int_text x) = int_num x"
  by (cases x) (simp_all add: opt_bound_def int_text_def int_num_def raw_number_int, simp add: raw_number_def)

lemma derived_int:
  assumes "opt_bound 10000 x" "0 \<le> b" "b \<le> 1000000000"
  shows "derived_price (Some (Fin (of_int b))) (int_text x) = int_text (map_option ((*) b) x)"
proof (cases x)
  case (Some n)
  then have n: "0 \<le> n" "n \<le> 10000" using assms by (simp_all add: opt_bound_def)
  then have "b * n \<le> 1000000000 * 10000" using assms by (intro mult_mono) auto
  then have bn: "0 \<le> b * n" "b * n < 10 ^ 15" using n assms by simp_all
  then have "num_mul (Fin (of_int b)) (Fin (of_int n)) = Fin (of_int (b * n))" by (intro num_mul_int) simp_all
  then show ?thesis using Some n format_int[OF bn] num_of_string_int[of n] by (simp add: derived_price_def int_text_def)
qed (simp add: derived_price_def int_text_def)

lemma opt_bound_times:
  assumes "opt_bound 10000 x" "0 \<le> b" "b \<le> 1000000000"
  shows "opt_bound 10000000000000 (map_option ((*) b) x)"
proof (cases x)
  case (Some n)
  then have "b * n \<le> 1000000000 * 10000" using assms by (intro mult_mono) (auto simp: opt_bound_def)
  then show ?thesis using Some assms by (simp add: opt_bound_def)
qed (simp add: opt_bound_def)

lemma price_ratio_int:
  assumes "opt_bound 10000 x" "0 < b" "b \<le> 1000000000"
  shows "price_ratio (int_num (map_option ((*) b) x)) (Fin (of_int b)) = int_num x"
proof (cases x)
  case (Some n)
  then have n: "0 \<le> n" "n < 10 ^ 15" "n < 2 ^ 53" using assms by (simp_all add: opt_bound_def)
  have "price_ratio (int_num (map_option ((*) b) x)) (Fin (of_int b))
          = toNormalizedNumber (JNum (num_div (Fin (of_int (b * n))) (Fin (of_int b))))"
    by (simp only: Some price_ratio_def int_num_def option.map option.case)
  then show ?thesis using Some normalized_int[OF n(1,2)] num_div_int[OF assms(2) n(1,3)]
    by (simp only: int_num_def option.map)
qed (simp add: price_ratio_def int_num_def)

text \<open>The fields of a loaded model.\<close>

lemma ratio_state_fields:
  fixes nm maps
  defines "m \<equiv> ratio_state nm maps" and "r \<equiv> load_ratios nm maps"
  shows "name m = nm" "rawRatios m = r" "inputPrice m = ratioToBasePrice (modelRatio r)"
    "fixedPrice m = toNumericString (jget nm (JObj (sm_ModelPrice maps)))"
    "billingMode m = (if fixedPrice m = [] then ''per-token'' else ''per-request'')"
    "completionPrice m = derived_price (toNumberOrNull (JStr (inputPrice m)))
       (if completionRatioLocked m then lockedCompletionRatio m else completionRatio r)"
    "cachePrice m = derived_price (toNumberOrNull (JStr (inputPrice m))) (cacheRatio r)"
    "createCachePrice m = derived_price (toNumberOrNull (JStr (inputPrice m))) (createCacheRatio r)"
    "imagePrice m = derived_price (toNumberOrNull (JStr (inputPrice m))) (imageRatio r)"
    "audioInputPrice m = derived_price (toNumberOrNull (JStr (inputPrice m))) (audioRatio r)"
    "audioOutputPrice m = (if toNumberOrNull (JStr (audioInputPrice m)) \<noteq> None
       then derived_price (Some (num_of_string (audioInputPrice m))) (audioCompletionRatio r) else [])"
  unfolding m_def r_def ratio_state_def Let_def EMPTY_MODEL_def by simp_all

lemma load_ratios_int:
  assumes st: "\<And>k. jget nm (JObj (key_map k maps)) = int_val (r k)" and b: "\<And>k. opt_bound 10000 (r k)"
  shows "load_ratios nm maps = \<lparr>modelRatio = int_text (r KModelRatio), completionRatio = int_text (r KCompletionRatio),
      cacheRatio = int_text (r KCacheRatio), createCacheRatio = int_text (r KCreateCacheRatio),
      imageRatio = int_text (r KImageRatio), audioRatio = int_text (r KAudioRatio),
      audioCompletionRatio = int_text (r KAudioCompletionRatio)\<rparr>"
    "fixedPrice (ratio_state nm maps) = int_text (r KModelPrice)"
  using st[of KModelRatio] st[of KCompletionRatio] st[of KCacheRatio] st[of KCreateCacheRatio] st[of KImageRatio]
    st[of KAudioRatio] st[of KAudioCompletionRatio] st[of KModelPrice]
  by (simp_all add: load_ratios_def ratio_state_fields numeric_int[OF b])

lemma base_price_int:
  assumes "0 \<le> R" "R \<le> 10000"
  shows "ratioToBasePrice (int_str R) = int_str (2 * R)"
proof -
  have "num_mul (Fin (of_int R)) (Fin (of_int 2)) = Fin (of_int (R * 2))" using assms by (intro num_mul_int) simp_all
  then have "formatNumber (JNum (num_mul (Fin (of_int R)) (Fin 2))) = int_str (2 * R)"
    using format_int[of "R * 2"] assms by (simp add: mult.commute)
  moreover have "toNumberOrNull (JStr (int_str R)) = Some (Fin (of_int R))" using assms by (intro toNumberOrNull_int) simp_all
  ultimately show ?thesis by (simp add: ratioToBasePrice_def del: num_mul.simps)
qed

text \<open>The prices a model with integral ratios is loaded with.\<close>

lemma ratio_state_int:
  assumes st: "\<And>k. jget nm (JObj (key_map k maps)) = int_val (r k)" and b: "\<And>k. opt_bound 10000 (r k)"
    and R: "r KModelRatio = Some R" and A: "r KAudioRatio = Some A \<or> r KAudioRatio = None \<and> r KAudioCompletionRatio = None"
  defines "m \<equiv> ratio_state nm maps"
  shows "toNumberOrNull (JStr (inputPrice m)) = Some (Fin (of_int (2 * R)))"
    "\<not> completionRatioLocked m \<Longrightarrow> completionPrice m = int_text (map_option ((*) (2 * R)) (r KCompletionRatio))"
    "cachePrice m = int_text (map_option ((*) (2 * R)) (r KCacheRatio))"
    "createCachePrice m = int_text (map_option ((*) (2 * R)) (r KCreateCacheRatio))"
    "imagePrice m = int_text (map_option ((*) (2 * R)) (r KImageRatio))"
    "audioInputPrice m = int_text (map_option ((*) (2 * R)) (r KAudioRatio))"
    "audioOutputPrice m = int_text (map_option ((*) (2 * R * A)) (r KAudioCompletionRatio))"
proof -
  have nR: "0 \<le> R" "R \<le> 10000" using b[of KModelRatio] R by (simp_all add: opt_bound_def)
  note load = load_ratios_int[OF st b]
  have "inputPrice m = int_str (2 * R)"
    using base_price_int[OF nR] R by (simp add: m_def ratio_state_fields load int_text_def)
  moreover have "toNumberOrNull (JStr (int_str (2 * R))) = Some (Fin (of_int (2 * R)))"
    using nR by (intro toNumberOrNull_int) simp_all
  ultimately show tb: "toNumberOrNull (JStr (inputPrice m)) = Some (Fin (of_int (2 * R)))" by simp
  have dv: "derived_price (Some (Fin (of_int (2 * R)))) (int_text (r k)) = int_text (map_option ((*) (2 * R)) (r k))" for k
    using nR b[of k] by (intro derived_int) auto
  note fields = ratio_state_fields(6-10)[of nm maps, folded m_def, unfolded tb load(1)]
  show "\<not> completionRatioLocked m \<Longrightarrow> completionPrice m = int_text (map_option ((*) (2 * R)) (r KCompletionRatio))"
    using fields(1) by (simp only: raw_ratios.simps dv if_False)
  show "cachePrice m = int_text (map_option ((*) (2 * R)) (r KCacheRatio))"
    "createCachePrice m = int_text (map_option ((*) (2 * R)) (r KCreateCacheRatio))"
    "imagePrice m = int_text (map_option ((*) (2 * R)) (r KImageRatio))"
    using fields(2-4) by (simp_all only: raw_ratios.simps dv)
  show ai: "audioInputPrice m = int_text (map_option ((*) (2 * R)) (r KAudioRatio))"
    using fields(5) by (simp only: raw_ratios.simps dv)
  show "audioOutputPrice m = int_text (map_option ((*) (2 * R * A)) (r KAudioCompletionRatio))"
  proof (cases "r KAudioRatio")
    case None
    then show ?thesis using A ai ratio_state_fields(11)[of nm maps, folded m_def] by (simp add: int_text_def)
  next
    case (Some A')
    then have A': "A' = A" "0 \<le> A" "A \<le> 10000" using A b[of KAudioRatio] by (simp_all add: opt_bound_def)
    have "2 * R * A \<le> 20000 * 10000" using nR A' by (intro mult_mono) auto
    then have ab: "0 \<le> 2 * R * A" "2 * R * A \<le> 1000000000" using nR A' by simp_all
    have "audioInputPrice m = int_str (2 * R * A)" using ai Some A' by (simp add: int_text_def)
    moreover have "toNumberOrNull (JStr (int_str (2 * R * A))) = Some (Fin (of_int (2 * R * A)))"
      "num_of_string (int_str (2 * R * A)) = Fin (of_int (2 * R * A))"
      using ab by (intro toNumberOrNull_int num_of_string_int; simp)+
    ultimately have "audioOutputPrice m = derived_price (Some (Fin (of_int (2 * R * A)))) (int_text (r KAudioCompletionRatio))"
      using ratio_state_fields(11)[of nm maps, folded m_def] load(1) by simp
    also have "\<dots> = int_text (map_option ((*) (2 * R * A)) (r KAudioCompletionRatio))"
      using ab b[of KAudioCompletionRatio] by (intro derived_int) auto
    finally show ?thesis .
  qed
qed

lemma serialize_based:
  assumes "billingMode m \<noteq> ''per-request''" "toNumberOrNull (JStr (inputPrice m)) = Some base"
  shows "serializeModel m =
    (let num = (\<lambda>s. toNumberOrNull (JStr s));
         res = (\<lambda>_. None)(KModelRatio := toNormalizedNumber (JNum (num_div base (Fin 2))),
           KCompletionRatio := (if \<not> completionRatioLocked m then price_ratio (num (completionPrice m)) base
                                else raw_number (completionRatio (rawRatios m))),
           KCacheRatio := price_ratio (num (cachePrice m)) base, KCreateCacheRatio := price_ratio (num (createCachePrice m)) base,
           KImageRatio := price_ratio (num (imagePrice m)) base, KAudioRatio := price_ratio (num (audioInputPrice m)) base)
     in case num (audioOutputPrice m) of
          None \<Rightarrow> Inr res
        | Some out \<Rightarrow>
            (case num (audioInputPrice m) of
               Some a \<Rightarrow> if a = Fin 0 then Inl (MissingAudioInput (name m))
                         else Inr (res(KAudioCompletionRatio := toNormalizedNumber (JNum (num_div out a))))
             | None \<Rightarrow> Inl (MissingAudioInput (name m))))"
  using assms by (simp add: serializeModel_def Let_def)

lemma serialize_priced:
  assumes "billingMode m = ''per-token''" "toNumberOrNull (JStr (inputPrice m)) = Some base"
  shows "serializeModel m =
    (let num = (\<lambda>s. toNumberOrNull (JStr s));
         res = (\<lambda>_. None)(KModelRatio := toNormalizedNumber (JNum (num_div base (Fin 2))),
           KCompletionRatio := (if \<not> completionRatioLocked m then price_ratio (num (completionPrice m)) base
                                else raw_number (completionRatio (rawRatios m))),
           KCacheRatio := price_ratio (num (cachePrice m)) base, KCreateCacheRatio := price_ratio (num (createCachePrice m)) base,
           KImageRatio := price_ratio (num (imagePrice m)) base, KAudioRatio := price_ratio (num (audioInputPrice m)) base)
     in case num (audioOutputPrice m) of
          None \<Rightarrow> Inr res
        | Some out \<Rightarrow>
            (case num (audioInputPrice m) of
               Some a \<Rightarrow> if a = Fin 0 then Inl (MissingAudioInput (name m))
                         else Inr (res(KAudioCompletionRatio := toNormalizedNumber (JNum (num_div out a))))
             | None \<Rightarrow> Inl (MissingAudioInput (name m))))"
  by (rule serialize_based) (simp_all add: assms)

lemma option_key_all: "(\<forall>k. P k) \<longleftrightarrow> list_all P option_keys"
  by (auto simp: option_keys_def intro: option_key.induct)

lemma load_save_int:
  assumes st: "\<And>k. jget nm (JObj (key_map k maps)) = int_val (r k)" and b: "\<And>k. opt_bound 10000 (r k)"
    and P: "r KModelPrice = None" and R: "r KModelRatio = Some R" "0 < R"
    and A: "r KAudioRatio = Some A \<and> 0 < A \<or> r KAudioRatio = None \<and> r KAudioCompletionRatio = None"
  shows "\<exists>ser. serializeModel (ratio_state nm maps) = Inr ser \<and> (\<forall>k. ser k = int_num (r k))"
proof -
  define m where "m = ratio_state nm maps"
  have A': "r KAudioRatio = Some A \<or> r KAudioRatio = None \<and> r KAudioCompletionRatio = None" using A by blast
  note prices = ratio_state_int[OF st b R(1) A', folded m_def]
  have nR: "R \<le> 10000" using b[of KModelRatio] R by (simp add: opt_bound_def)
  have times: "toNumberOrNull (JStr (int_text (map_option ((*) (2 * R)) (r k)))) = int_num (map_option ((*) (2 * R)) (r k))" for k
    using b[of k] nR R by (intro int_text_num opt_bound_times) auto
  have ratio: "price_ratio (int_num (map_option ((*) (2 * R)) (r k))) (Fin (of_int (2 * R))) = int_num (r k)" for k
    using b[of k] nR R by (intro price_ratio_int) auto
  have bm: "billingMode m = ''per-token''"
    using P load_ratios_int(2)[OF st b, folded m_def] by (simp add: m_def ratio_state_fields(5) int_text_def)
  have "num_div (Fin (of_int (2 * R))) (Fin (of_int 2)) = Fin (of_int R)" using R nR by (intro num_div_int) simp_all
  then have half: "toNormalizedNumber (JNum (num_div (Fin (of_int (2 * R))) (Fin 2))) = int_num (r KModelRatio)"
    using R nR normalized_int[of R] by (simp only: of_int_numeral) (simp add: int_num_def)
  have compl: "(if \<not> completionRatioLocked m then price_ratio (toNumberOrNull (JStr (completionPrice m))) (Fin (of_int (2 * R)))
       else raw_number (completionRatio (rawRatios m))) = int_num (r KCompletionRatio)"
    using prices(2) times ratio raw_number_text[OF b] load_ratios_int(1)[OF st b] ratio_state_fields(2)[of nm maps, folded m_def]
    by simp
  let ?res = "(\<lambda>_. None)(KModelRatio := int_num (r KModelRatio), KCompletionRatio := int_num (r KCompletionRatio),
    KCacheRatio := int_num (r KCacheRatio), KCreateCacheRatio := int_num (r KCreateCacheRatio), KImageRatio := int_num (r KImageRatio),
    KAudioRatio := int_num (r KAudioRatio))"
  note ser = serialize_priced[OF bm prices(1), unfolded compl half Let_def prices(3-7) times ratio]
  show ?thesis
  proof (cases "r KAudioCompletionRatio")
    case None
    then have "serializeModel m = Inr ?res" using ser by (simp add: int_text_def)
    then show ?thesis using None P by (auto simp: m_def option_key_all option_keys_def int_num_def)
  next
    case (Some C)
    then have A: "r KAudioRatio = Some A" "0 < A" "A \<le> 10000" using A b[of KAudioRatio] by (auto simp: opt_bound_def)
    have C: "0 \<le> C" "C \<le> 10000" using b[of KAudioCompletionRatio] Some by (auto simp: opt_bound_def)
    have "2 * R * A \<le> 20000 * 10000" using nR R A by (intro mult_mono) auto
    then have ab: "0 < 2 * R * A" "2 * R * A \<le> 1000000000" using R A by simp_all
    have "toNumberOrNull (JStr (int_text (map_option ((*) (2 * R * A)) (r KAudioCompletionRatio))))
            = int_num (map_option ((*) (2 * R * A)) (r KAudioCompletionRatio))"
      using b[of KAudioCompletionRatio] ab by (intro int_text_num opt_bound_times) auto
    moreover have "price_ratio (int_num (map_option ((*) (2 * R * A)) (r KAudioCompletionRatio))) (Fin (of_int (2 * R * A)))
            = int_num (r KAudioCompletionRatio)"
      using b[of KAudioCompletionRatio] ab by (intro price_ratio_int) auto
    ultimately have "serializeModel m = Inr (?res(KAudioCompletionRatio := int_num (r KAudioCompletionRatio)))"
      using ser Some A R by (simp add: int_num_def price_ratio_def)
    then show ?thesis using P by (auto simp: m_def option_key_all option_keys_def int_num_def)
  qed
qed

section \<open>The preview\<close>

text \<open>A shown text as the number it stands for, when prices are set and when only raw ratios are.\<close>

fun shown_number :: "row_value \<Rightarrow> jsnum option" where
  "shown_number (RowText s) = (if s = [] then None else Some (num_of_string s))"
| "shown_number _ = None"

fun shown_raw :: "row_value \<Rightarrow> jsnum option" where
  "shown_raw (RowText s) = toNormalizedNumber (JStr s)"
| "shown_raw _ = None"

lemma shown_quotient: "shown_number (quotient_row p b) = price_ratio p b"
  by (cases p) (simp_all add: quotient_row_def price_ratio_def toNormalizedNumber_def Let_def)

lemma shown_text: "shown_raw (text_or_empty s) = raw_number s"
  by (simp add: text_or_empty_def raw_number_def)

lemma serialize_priced_at:
  assumes "billingMode m = ''per-token''" "toNumberOrNull (JStr (inputPrice m)) = Some base" "serializeModel m = Inr ser"
  shows "ser KModelPrice = None" "ser KModelRatio = toNormalizedNumber (JNum (num_div base (Fin 2)))"
    "ser KCompletionRatio = (if \<not> completionRatioLocked m then price_ratio (toNumberOrNull (JStr (completionPrice m))) base
       else raw_number (completionRatio (rawRatios m)))"
    "ser KCacheRatio = price_ratio (toNumberOrNull (JStr (cachePrice m))) base"
    "ser KCreateCacheRatio = price_ratio (toNumberOrNull (JStr (createCachePrice m))) base"
    "ser KImageRatio = price_ratio (toNumberOrNull (JStr (imagePrice m))) base"
    "ser KAudioRatio = price_ratio (toNumberOrNull (JStr (audioInputPrice m))) base"
    "ser KAudioCompletionRatio = (case toNumberOrNull (JStr (audioInputPrice m)) of
       Some a \<Rightarrow> if a = Fin 0 then None else price_ratio (toNumberOrNull (JStr (audioOutputPrice m))) a | None \<Rightarrow> None)"
proof -
  let ?num = "\<lambda>s. toNumberOrNull (JStr s)"
  define res where "res = (\<lambda>_. None)(KModelRatio := toNormalizedNumber (JNum (num_div base (Fin 2))),
     KCompletionRatio := (if \<not> completionRatioLocked m then price_ratio (?num (completionPrice m)) base
                          else raw_number (completionRatio (rawRatios m))),
     KCacheRatio := price_ratio (?num (cachePrice m)) base, KCreateCacheRatio := price_ratio (?num (createCachePrice m)) base,
     KImageRatio := price_ratio (?num (imagePrice m)) base, KAudioRatio := price_ratio (?num (audioInputPrice m)) base)"
  note ser = assms(3)[unfolded serialize_priced[OF assms(1,2)] Let_def res_def[symmetric]]
  have "ser k = res k" if "k \<noteq> KAudioCompletionRatio" for k
    using ser that by (auto split: option.splits if_split_asm)
  then show "ser KModelPrice = None" "ser KModelRatio = toNormalizedNumber (JNum (num_div base (Fin 2)))"
    "ser KCompletionRatio = (if \<not> completionRatioLocked m then price_ratio (toNumberOrNull (JStr (completionPrice m))) base
       else raw_number (completionRatio (rawRatios m)))"
    "ser KCacheRatio = price_ratio (toNumberOrNull (JStr (cachePrice m))) base"
    "ser KCreateCacheRatio = price_ratio (toNumberOrNull (JStr (createCachePrice m))) base"
    "ser KImageRatio = price_ratio (toNumberOrNull (JStr (imagePrice m))) base"
    "ser KAudioRatio = price_ratio (toNumberOrNull (JStr (audioInputPrice m))) base"
    by (simp_all add: res_def)
  have "res KAudioCompletionRatio = None" by (simp add: res_def)
  then show "ser KAudioCompletionRatio = (case toNumberOrNull (JStr (audioInputPrice m)) of
       Some a \<Rightarrow> if a = Fin 0 then None else price_ratio (toNumberOrNull (JStr (audioOutputPrice m))) a | None \<Rightarrow> None)"
    using ser by (auto simp: price_ratio_def split: option.splits if_split_asm)
qed

lemma price_rows_number:
  assumes "(option_name k, v) \<in> set (price_rows m base)" "k = KCompletionRatio \<longrightarrow> \<not> completionRatioLocked m"
    "billingMode m = ''per-token''" "toNumberOrNull (JStr (inputPrice m)) = Some base" "serializeModel m = Inr ser"
  shows "ser k = shown_number v"
proof -
  note at = serialize_priced_at[OF assms(3-5)]
  note row = assms(1)[unfolded price_rows_def Let_def]
  show ?thesis
  proof (cases k)
    case KModelRatio
    then show ?thesis using row at(2) by (simp add: toNormalizedNumber_def)
  next
    case KAudioCompletionRatio
    then show ?thesis using row at(8) by (simp add: shown_quotient split: option.splits)
  qed (use row at assms(2) in \<open>simp_all add: shown_quotient\<close>)
qed

lemma preview_priced:
  assumes "billingMode m = ''per-token''" "toNumberOrNull (JStr (inputPrice m)) = Some base" "serializeModel m = Inr ser"
    "(option_name k, v) \<in> set (buildPreviewRows (Some m))" "k = KCompletionRatio \<longrightarrow> \<not> completionRatioLocked m"
  shows "ser k = shown_number v"
  using price_rows_number[OF _ assms(5,1-3)] assms by (simp add: buildPreviewRows_def)

lemma preview_raw:
  assumes "billingMode m = ''per-token''" "toNumberOrNull (JStr (inputPrice m)) = None" "serializeModel m = Inr ser"
    "(option_name k, v) \<in> set (buildPreviewRows (Some m))"
  shows "ser k = shown_raw v"
proof -
  have rows: "buildPreviewRows (Some m) = raw_rows (rawRatios m)" using assms(1,2) by (simp add: buildPreviewRows_def)
  show ?thesis using assms(1-4) unfolding rows
    by (cases k) (auto simp: serializeModel_def Let_def raw_rows_def shown_text split: if_splits)
qed

lemma preview_request:
  assumes "billingMode m = ''per-request''" "serializeModel m = Inr ser" "(option_name k, v) \<in> set (buildPreviewRows (Some m))"
  shows "ser k = shown_raw v"
  using assms by (cases k) (auto simp: buildPreviewRows_def serializeModel_def shown_text)

section \<open>Warnings and errors\<close>

definition numeric_or_blank :: "string \<Rightarrow> bool" where
  "numeric_or_blank s \<longleftrightarrow> s = [] \<or> toNumberOrNull (JStr s) \<noteq> None"

lemma serialize_total:
  assumes "billingMode m = ''per-token''" "NeedInputPrice \<notin> set (getModelWarnings (Some m))"
    "NeedAudioInputPrice \<notin> set (getModelWarnings (Some m))"
    "numeric_or_blank (inputPrice m)" "numeric_or_blank (audioInputPrice m)" "toNumberOrNull (JStr (audioInputPrice m)) \<noteq> Some (Fin 0)"
  shows "\<exists>ser. serializeModel m = Inr ser"
proof (cases "toNumberOrNull (JStr (inputPrice m))")
  case None
  then have "inputPrice m = []" using assms(4) by (simp add: numeric_or_blank_def)
  then show ?thesis using assms(1,2) None
    by (auto simp: serializeModel_def Let_def getModelWarnings_def)
next
  case (Some base)
  then have "audioOutputPrice m = [] \<or> (\<exists>a. toNumberOrNull (JStr (audioInputPrice m)) = Some a \<and> a \<noteq> Fin 0)"
    using assms by (auto simp: getModelWarnings_def Let_def numeric_or_blank_def)
  then show ?thesis using serialize_priced[OF assms(1) Some] by (auto simp: Let_def split: option.splits)
qed

lemma num_div_zero: "\<not> is_finite (num_div (Fin x) (Fin 0))"
  by (simp add: inf_of_sign_def)

lemma toNumberOrNull_finite: "toNumberOrNull v = Some x \<Longrightarrow> \<exists>r. x = Fin r"
  by (cases x) (auto simp: toNumberOrNull_def Let_def split: if_splits)

lemma price_ratio_zero: "price_ratio (toNumberOrNull v) (Fin 0) = None"
proof (cases "toNumberOrNull v")
  case (Some x)
  then obtain r where "x = Fin r" using toNumberOrNull_finite by blast
  then have "toNumberOrNull (JNum (num_div x (Fin 0))) = None" using num_div_zero[of r] by (simp add: toNumberOrNull_def)
  then show ?thesis using Some by (simp add: price_ratio_def toNormalizedNumber_def formatNumber_def)
qed (simp add: price_ratio_def)

end
