(* ===== verification/RequestRulesFacts.thy ===== *)
theory RequestRulesFacts
  imports RequestRules
begin

text \<open>
  Lemmas on the request-rule language: what a numeric literal is made of, splitting at top level as
  an interface that both separators implement, and, condition kind by condition kind, that the
  parser reads what the builder prints.
\<close>

section \<open>Numeric literals\<close>

lemma is_digit_cls_num: "is_digit c \<Longrightarrow> cls_num c"
  by (simp add: cls_num_def)

lemma cls_num_concrete [simp]:
  "\<not> cls_num (CHR '' '')" "\<not> cls_num (CHR '')'')" "\<not> cls_num (CHR ''('')" "\<not> cls_num (CHR 0x22)"
  "\<not> cls_num (CHR ''?'')" "\<not> cls_num (CHR '':'')" "\<not> cls_num (CHR ''t'')" "\<not> cls_num (CHR ''f'')"
  "\<not> cls_num (CHR ''|'')" "\<not> cls_num (CHR ''&'')" "\<not> cls_num (CHR ''*'')"
  "cls_num (CHR ''-'')" "cls_num (CHR ''.'')" "cls_num (CHR ''e'')" "cls_num (CHR ''E'')" "cls_num (CHR ''+'')"
  by (simp_all add: cls_num_def is_digit_def)

lemma cls_num_not_ws: "cls_num c \<Longrightarrow> \<not> js_ws c"
  by (auto simp: cls_num_def js_ws_def is_digit_def)

lemma re_numeric_shape: "re_numeric = r_seqs (r_bol # [r_opt (r_lit ''-''),
     r_alt (r_seqs [r_plus r_digit, r_opt (r_lit ''.''), r_star r_digit])
           (r_seqs [r_lit ''.'', r_plus r_digit]),
     r_opt (r_seqs [r_cls (\<lambda>c. c = CHR ''e'' \<or> c = CHR ''E''),
                    r_opt (r_cls (\<lambda>c. c = CHR ''+'' \<or> c = CHR ''-'')), r_plus r_digit])] @ [r_eol])"
  by (simp add: re_numeric_def)

lemma numeric_class: "NUMERIC_LITERAL_REGEX s \<Longrightarrow> list_all cls_num s"
  unfolding NUMERIC_LITERAL_REGEX_def re_numeric_shape
  by (erule anchored_class)
     (auto intro!: consumes_opt consumes_alt consumes_seq consumes_plus consumes_star consumes_lit consumes_cls
           simp: is_digit_cls_num)

lemma numeric_nonempty: "NUMERIC_LITERAL_REGEX s \<Longrightarrow> s \<noteq> []"
proof
  assume "NUMERIC_LITERAL_REGEX s" "s = []"
  then show False
    by (simp add: NUMERIC_LITERAL_REGEX_def re_numeric_def rx_test_def rx_match_def r_seq_def r_opt_def
        r_alt_def r_plus_def)
qed

lemma numeric_trimmed: "NUMERIC_LITERAL_REGEX s \<Longrightarrow> trimmed s"
  using numeric_class by (auto intro!: not_ws_all_trimmed simp: list_all_iff cls_num_not_ws)

lemma numeric_hd_last:
  "NUMERIC_LITERAL_REGEX s \<Longrightarrow> cls_num (hd s) \<and> cls_num (last s)"
  using numeric_class[of s] numeric_nonempty[of s] by (simp add: list_all_iff)

section \<open>Splitting at top level\<close>

text \<open>
  \<open>top_ok m d s\<close>: scanned from depth \<open>d\<close>, the text ends at depth 0 and no blank at depth 0 is followed
  by \<open>m\<close> (or ends the text).
\<close>

fun top_ok :: "char \<Rightarrow> int \<Rightarrow> string \<Rightarrow> bool" where
  "top_ok m d [] = (d = 0)"
| "top_ok m d (c # s) =
     ((depth_step c d = 0 \<and> c = CHR '' '' \<longrightarrow> s \<noteq> [] \<and> hd s \<noteq> m) \<and> top_ok m (depth_step c d) s)"

lemma split_loop_top:
  "top_ok m d p \<Longrightarrow>
   split_loop (CHR '' '' # m # w) d acc (p @ t) = split_loop (CHR '' '' # m # w) 0 (rev p @ acc) t"
proof (induction p arbitrary: d acc)
  case (Cons c p)
  have "\<not> (depth_step c d = 0 \<and> prefix (CHR '' '' # m # w) (c # p @ t))"
    using Cons.prems by (cases p) auto
  then have "split_loop (CHR '' '' # m # w) d acc ((c # p) @ t) =
        split_loop (CHR '' '' # m # w) (depth_step c d) (c # acc) (p @ t)"
    by (simp only: append_Cons split_loop.simps Let_def if_False)
  also have "\<dots> = split_loop (CHR '' '' # m # w) 0 (rev p @ c # acc) t"
    using Cons.prems by (intro Cons.IH) simp
  finally show ?case by simp
qed simp

text \<open>The interface: a splitter with its separator and the parts it is made for.\<close>

locale top_level_split =
  fixes sep :: string and split :: "string \<Rightarrow> string list" and part :: "string \<Rightarrow> bool"
  assumes split_last: "part p \<Longrightarrow> split p = [p]"
    and split_more: "part p \<Longrightarrow> split (p @ sep @ s) = p # split s"
begin

lemma split_join: "ps \<noteq> [] \<Longrightarrow> list_all part ps \<Longrightarrow> split (join sep ps) = ps"
  by (induction ps) (auto simp: join_Cons split_last split_more)

lemma join_inj:
  "ps \<noteq> [] \<Longrightarrow> qs \<noteq> [] \<Longrightarrow> list_all part ps \<Longrightarrow> list_all part qs \<Longrightarrow> join sep ps = join sep qs \<Longrightarrow> ps = qs"
  by (metis split_join)

end

definition top_part :: "char \<Rightarrow> string \<Rightarrow> bool" where
  "top_part m p \<longleftrightarrow> p \<noteq> [] \<and> trimmed p \<and> top_ok m 0 p"

lemma split_loop_last: "top_part m p \<Longrightarrow> split_loop (CHR '' '' # m # w) 0 [] p = [p]"
  using split_loop_top[of m 0 p w "[]" "[]"] by (simp add: top_part_def trim_id)

lemma split_loop_more:
  assumes "top_part m p"
  shows "split_loop (CHR '' '' # m # w) 0 [] (p @ (CHR '' '' # m # w) @ s) =
         p # split_loop (CHR '' '' # m # w) 0 [] s"
proof -
  have "split_loop (CHR '' '' # m # w) 0 [] (p @ (CHR '' '' # m # w) @ s) =
        split_loop (CHR '' '' # m # w) 0 (rev p) ((CHR '' '' # m # w) @ s)"
    using assms split_loop_top[of m 0 p w "[]" "(CHR '' '' # m # w) @ s"] by (simp add: top_part_def)
  also have "\<dots> = p # split_loop (CHR '' '' # m # w) 0 [] s"
    using assms by (simp add: Let_def depth_step_def top_part_def trim_id)
  finally show ?thesis .
qed

interpretation mult: top_level_split "'' * ''" splitTopLevelMultiply "top_part (CHR ''*'')"
  by unfold_locales
    (use split_loop_last[of "CHR ''*''" _ "'' ''"] split_loop_more[of "CHR ''*''" _ "'' ''"]
     in \<open>auto simp: splitTopLevelMultiply_def top_part_def\<close>)

interpretation conj: top_level_split "'' && ''" splitTopLevelAnd "top_part (CHR ''&'')"
  by unfold_locales
    (use split_loop_last[of "CHR ''&''" _ "''& ''"] split_loop_more[of "CHR ''&''" _ "''& ''"]
     in \<open>auto simp: splitTopLevelAnd_def top_part_def\<close>)

section \<open>Depth\<close>

definition no_paren :: "char \<Rightarrow> bool" where
  "no_paren c \<longleftrightarrow> c \<noteq> CHR ''('' \<and> c \<noteq> CHR '')''"

lemma top_ok_inside:
  "list_all no_paren u \<Longrightarrow> d \<noteq> 0 \<Longrightarrow> top_ok m d (u @ t) = top_ok m d t"
  by (induction u) (auto simp: depth_step_def no_paren_def)

lemma top_ok_flat:
  "list_all (\<lambda>c. no_paren c \<and> c \<noteq> m) u \<Longrightarrow> t \<noteq> [] \<Longrightarrow> hd t \<noteq> m \<Longrightarrow> top_ok m 0 (u @ t) = top_ok m 0 t"
proof (induction u)
  case (Cons c u)
  then show ?case by (cases u) (auto simp: depth_step_def no_paren_def)
qed simp

lemma top_ok_flat_end:
  "list_all (\<lambda>c. no_paren c \<and> c \<noteq> m \<and> c \<noteq> CHR '' '') u \<Longrightarrow> top_ok m 0 u"
  by (induction u) (auto simp: depth_step_def no_paren_def)

text \<open>A text is balanced when its depth never drops below the start and returns to it.\<close>

fun bal_from :: "nat \<Rightarrow> string \<Rightarrow> bool" where
  "bal_from d [] = (d = 0)"
| "bal_from d (c # s) =
     (if c = CHR ''('' then bal_from (Suc d) s
      else if c = CHR '')'' then d \<noteq> 0 \<and> bal_from (d - 1) s else bal_from d s)"

definition balanced :: "string \<Rightarrow> bool" where
  "balanced s = bal_from 0 s"

lemma bal_from_append: "bal_from d s \<Longrightarrow> bal_from (d + e) (s @ t) = bal_from e t"
proof (induction s arbitrary: d)
  case (Cons c s)
  show ?case
    using Cons.prems Cons.IH[of "Suc d"] Cons.IH[of "d - 1"] Cons.IH[of d]
    by (cases d) (simp_all split: if_splits)
qed simp

lemma balanced_append: "balanced s \<Longrightarrow> balanced t \<Longrightarrow> balanced (s @ t)"
  using bal_from_append[of 0 s 0 t] by (simp add: balanced_def)

lemma balanced_flat: "list_all no_paren s \<Longrightarrow> balanced s"
  unfolding balanced_def by (induction s) (auto simp: no_paren_def)

lemma bal_from_flat: "list_all no_paren u \<Longrightarrow> bal_from d (u @ t) = bal_from d t"
  by (induction u) (auto simp: no_paren_def)

text \<open>Inside parentheses, a balanced text has no top level at all.\<close>

lemma bal_from_inside:
  "bal_from d s \<Longrightarrow> top_ok m (int d + 1) (s @ CHR '')'' # t) = top_ok m 0 t"
proof (induction s arbitrary: d)
  case (Cons c s)
  have pos: "depth_step c (int d + 1) \<noteq> 0 \<or> c \<noteq> CHR '' ''"
    by (auto simp: depth_step_def)
  consider "c = CHR ''(''" | "c = CHR '')''" | "no_paren c" by (auto simp: no_paren_def)
  then show ?case
  proof cases
    case 1
    then have "top_ok m (int (Suc d) + 1) (s @ CHR '')'' # t) = top_ok m 0 t"
      using Cons by (intro Cons.IH) auto
    then show ?thesis using 1 by (simp add: depth_step_def algebra_simps)
  next
    case 2
    then have "d \<noteq> 0" "bal_from (d - 1) s" using Cons.prems by auto
    then have "top_ok m (int (d - 1) + 1) (s @ CHR '')'' # t) = top_ok m 0 t"
      by (intro Cons.IH)
    then show ?thesis using 2 \<open>d \<noteq> 0\<close> by (simp add: depth_step_def of_nat_diff)
  next
    case 3
    then show ?thesis using Cons pos by (auto simp: no_paren_def depth_step_def)
  qed
qed (simp add: depth_step_def)

lemma top_part_parens: "balanced s \<Longrightarrow> m \<noteq> CHR '')'' \<Longrightarrow> top_part m (''('' @ s @ '')'')"
  using bal_from_inside[of 0 s m "[]"]
  by (simp add: top_part_def balanced_def depth_step_def trimmed_def js_ws_def)

section \<open>Running the patterns on printed conditions\<close>

lemma seq_lit [rx]: "r_seq (r_lit w) n s = (case r_lit w s of [] \<Rightarrow> [] | t # ts \<Rightarrow> n t)"
proof -
  obtain b r g where s: "s = (b, r, g)" by (cases s) auto
  show ?thesis by (cases "prefix w r") (simp_all add: s r_seq_def r_lit_cases)
qed

lemma seq_alts_group [rx]:
  "r_seq (r_group i (r_alts ms)) n (b, r, g) = concat (map n (r_group i (r_alts ms) (b, r, g)))"
  by (simp add: r_seq_def)

lemma seq_back [rx]: "r_seq (r_back i) n (b, r, g) = concat (map n (r_back i (b, r, g)))"
  by (simp add: r_seq_def)

lemma seq_eol [rx]: "r_seq r_eol n (b, r, g) = (if r = [] then n (b, r, g) else [])"
  by (simp add: r_seq_def)

lemma group_plus_end:
  "list_all p xs \<Longrightarrow> xs \<noteq> [] \<Longrightarrow> rejects p k \<Longrightarrow>
   r_seq (r_group i (r_plus (r_cls p))) k (b, xs, g) = k (rev xs @ b, [], (i, xs) # g)"
  using group_plus_then[of p xs k "[]"] by simp

lemma cls_not_quote_concrete [simp]: "\<not> cls_not_quote (CHR 0x22)"
  by (simp add: cls_not_quote_def)

text \<open>Names (paths, time zones) and values that the printed text carries unchanged.\<close>

definition name_char :: "char \<Rightarrow> bool" where
  "name_char c \<longleftrightarrow> c \<notin> {CHR 0x22, CHR 0x5C, CHR ''('', CHR '')'', CHR ''|''} \<and> 32 \<le> (of_char c :: int)"

definition name_ok :: "string \<Rightarrow> bool" where
  "name_ok s \<longleftrightarrow> s \<noteq> [] \<and> trimmed s \<and> list_all name_char s"

definition val_char :: "char \<Rightarrow> bool" where
  "val_char c \<longleftrightarrow> c \<notin> {CHR ''('', CHR '')'', CHR ''&'', CHR ''|''}"

definition val_ok :: "string \<Rightarrow> bool" where
  "val_ok s \<longleftrightarrow> trimmed s \<and> list_all val_char s"

lemma json_escape_name:
  assumes "name_char c"
  shows "json_escape c = [c]"
proof -
  have "c \<noteq> d" if "(of_char d :: int) < 32" for d using assms that by (auto simp: name_char_def)
  then have "c \<noteq> CHR 0x08" "c \<noteq> CHR 0x0C" "c \<noteq> CHR 0x0A" "c \<noteq> CHR 0x0D" "c \<noteq> CHR 0x09"
    by simp_all
  then show ?thesis using assms by (simp add: name_char_def json_escape_def)
qed

lemma json_escapes_name: "list_all name_char s \<Longrightarrow> json_escapes s = s"
  by (induction s) (auto simp: json_escapes_def json_escape_name)

lemma name_quote: "name_ok s \<Longrightarrow> json_quote s = CHR 0x22 # s @ [CHR 0x22]"
  by (simp add: json_quote_def name_ok_def json_escapes_name)

lemma name_not_quote: "name_ok s \<Longrightarrow> list_all cls_not_quote s \<and> s \<noteq> []"
  by (auto simp: name_ok_def name_char_def cls_not_quote_def list_all_iff)

lemma name_no_paren: "name_ok s \<Longrightarrow> list_all no_paren s"
  by (auto simp: name_ok_def name_char_def no_paren_def list_all_iff)

lemma name_trim: "name_ok s \<Longrightarrow> trim s = s"
  by (simp add: name_ok_def trim_id)

text \<open>The inside of a printed string literal: plain characters and two-character escapes.\<close>

inductive toks :: "string \<Rightarrow> bool" where
  toks_Nil: "toks []"
| toks_plain: "toks s \<Longrightarrow> c \<noteq> CHR 0x22 \<Longrightarrow> c \<noteq> CHR 0x5C \<Longrightarrow> toks (c # s)"
| toks_esc: "toks s \<Longrightarrow> cls_dot d \<Longrightarrow> toks (CHR 0x5C # d # s)"

lemma hex_digit_plain:
  assumes "0 \<le> n" "n < 16"
  shows "hex_digit n \<noteq> CHR 0x22 \<and> hex_digit n \<noteq> CHR 0x5C \<and> cls_dot (hex_digit n) \<and> val_char (hex_digit n)"
proof -
  have ne: "hex_digit n \<noteq> c" if "hex_val c = None" for c
    using hex_val_hex_digit[OF assms] that by auto
  show ?thesis by (simp add: cls_dot_def val_char_def ne hex_val_def)
qed

lemma plain_concrete [simp]:
  "cls_dot (CHR 0x5C)" "cls_dot (CHR ''u'')" "cls_dot (CHR ''0'')" "cls_dot (CHR 0x22)"
  "val_char (CHR 0x5C)" "val_char (CHR ''u'')" "val_char (CHR ''0'')" "val_char (CHR 0x22)"
  by (simp_all add: cls_dot_def val_char_def)

lemma json_escape_cases:
  obtains "json_escape c = [c]" "c \<noteq> CHR 0x22" "c \<noteq> CHR 0x5C" "cls_dot c"
  | d where "json_escape c = [CHR 0x5C, d]" "cls_dot d" "val_char d"
  | h i where "json_escape c = [CHR 0x5C, CHR ''u'', CHR ''0'', CHR ''0'', hex_digit h, hex_digit i]"
      "0 \<le> h" "h < 16" "0 \<le> i" "i < 16"
proof -
  let ?n = "of_char c :: int"
  have "0 \<le> ?n" by (metis of_nat_of_char of_nat_0_le_iff)
  then show ?thesis using that
    by (cases "c \<in> {CHR 0x22, CHR 0x5C, CHR 0x08, CHR 0x0C, CHR 0x0A, CHR 0x0D, CHR 0x09}"; cases "?n < 32")
       (auto simp: json_escape_def Let_def cls_dot_def val_char_def)
qed

lemma toks_escape: "toks s \<Longrightarrow> toks (json_escape c @ s)"
  by (cases c rule: json_escape_cases)
     (simp_all add: toks.intros hex_digit_plain)

lemma toks_escapes: "toks (json_escapes s)"
  by (induction s) (auto simp: json_escapes_def intro: toks.intros toks_escape)

lemma dot_escapes: "list_all cls_dot (json_escapes s)"
proof -
  have "list_all cls_dot (json_escape c)" for c
    by (cases c rule: json_escape_cases) (simp_all add: hex_digit_plain)
  then show ?thesis by (induction s) (auto simp: json_escapes_def)
qed

lemma val_escapes: "list_all val_char s \<Longrightarrow> list_all val_char (json_escapes s)"
proof -
  have "val_char c \<Longrightarrow> list_all val_char (json_escape c)" for c
    by (cases c rule: json_escape_cases) (simp_all add: hex_digit_plain)
  then show "list_all val_char s \<Longrightarrow> list_all val_char (json_escapes s)"
    by (induction s) (auto simp: json_escapes_def)
qed

definition r_tok :: matcher where
  "r_tok = r_alt (r_cls (\<lambda>c. c \<noteq> CHR 0x22 \<and> c \<noteq> CHR 0x5C)) (r_seqs [r_lit [CHR 0x5C], r_cls cls_dot])"

lemma r_tok_simps:
  "r_tok (b, CHR 0x22 # r, g) = []"
  "c \<noteq> CHR 0x22 \<Longrightarrow> c \<noteq> CHR 0x5C \<Longrightarrow> r_tok (b, c # r, g) = [(c # b, r, g)]"
  "cls_dot d \<Longrightarrow> r_tok (b, CHR 0x5C # d # r, g) = [(d # CHR 0x5C # b, r, g)]"
  by (simp_all add: r_tok_def r_alt_def r_seq_def)

lemma star_toks:
  assumes "toks u" "rejects (\<lambda>c. c \<noteq> CHR 0x22) k"
  shows "r_seq (r_star r_tok) k (b, u @ CHR 0x22 # z, g) = k (rev u @ b, CHR 0x22 # z, g)"
  using assms(1)
proof (induction u arbitrary: b rule: toks.induct)
  case toks_Nil
  show ?case by (subst seq_star_unfold) (simp add: r_tok_simps)
next
  case (toks_plain s c)
  have "k (b, c # s @ CHR 0x22 # z, g) = []" using assms(2) toks_plain by (simp add: rejects_def)
  then show ?case using toks_plain by (subst seq_star_unfold) (simp add: r_tok_simps)
next
  case (toks_esc s d)
  have "k (b, CHR 0x5C # d # s @ CHR 0x22 # z, g) = []" using assms(2) by (simp add: rejects_def)
  then show ?case using toks_esc by (subst seq_star_unfold) (simp add: r_tok_simps)
qed

lemma json_str_run:
  "r_json_str (b, json_quote s @ z, g) = [(rev (json_quote s) @ b, z, g)]"
proof -
  have "r_json_str (b, json_quote s @ z, g) =
        r_seqs [r_lit [CHR 0x22]] (rev (json_escapes s) @ CHR 0x22 # b, CHR 0x22 # z, g)"
    unfolding r_json_str_def json_quote_def r_tok_def[symmetric]
    using star_toks[OF toks_escapes, of "r_seqs [r_lit [CHR 0x22]]" "CHR 0x22 # b" s z g]
    by (simp add: seq_lit)
  then show ?thesis by (simp add: json_quote_def seq_lit)
qed

lemma seq_json_str [rx]:
  "r_seq (r_group i r_json_str) n (b, json_quote s @ z, g) = n (rev (json_quote s) @ b, z, (i, json_quote s) # g)"
  by (simp add: r_seq_def json_str_run)

section \<open>Printed conditions\<close>


lemma rx_match_seq_bol [rx]:
  "rx_match (r_seq r_bol k) s = (case k ([], s, []) of [] \<Rightarrow> None | (b, r, g) # _ \<Rightarrow> Some (map_of g))"
proof -
  have "r_seqs [r_bol, k] = r_seq r_bol k" by (simp add: r_seq_def[abs_def])
  moreover have "r_seqs [k] = k" by (simp add: r_seq_def[abs_def])
  ultimately show ?thesis using rx_match_bol[of "[k]" s] by simp
qed

definition call :: "string \<Rightarrow> string \<Rightarrow> string" where
  "call f nm = f @ ''('' @ json_quote nm @ '')''"

lemma call_name: "name_ok nm \<Longrightarrow> call f nm = f @ CHR ''('' # CHR 0x22 # nm @ [CHR 0x22, CHR '')'']"
  by (simp add: call_def name_quote)

definition time_cond :: "string \<Rightarrow> string \<Rightarrow> string \<Rightarrow> string \<Rightarrow> string \<Rightarrow> string \<Rightarrow> cond" where
  "time_cond f tz mode v s e = no_cond\<lparr>c_source := Some SOURCE_TIME, c_timeFunc := Some f,
     c_timezone := Some tz, c_mode := Some mode, c_value := JStr v, c_rangeStart := JStr s,
     c_rangeEnd := JStr e\<rparr>"

inductive prints :: "cond \<Rightarrow> string \<Rightarrow> bool" where
  prints_time: "f \<in> set TIME_FUNCS \<Longrightarrow> name_ok tz \<Longrightarrow>
     (mode, op) \<in> {(MATCH_EQ, ''==''), (MATCH_GTE, ''>=''), (MATCH_LT, ''<'')} \<Longrightarrow> NUMERIC_LITERAL_REGEX v \<Longrightarrow>
     prints (time_cond f tz mode v [] []) (call f tz @ '' '' @ op @ '' '' @ v)"
| prints_range: "f \<in> set TIME_FUNCS \<Longrightarrow> name_ok tz \<Longrightarrow> NUMERIC_LITERAL_REGEX s \<Longrightarrow> NUMERIC_LITERAL_REGEX e \<Longrightarrow>
     prints (time_cond f tz MATCH_RANGE [] s e) (call f tz @ '' >= '' @ s @ '' || '' @ call f tz @ '' < '' @ e)"
| prints_exists: "(src, nil) \<in> {(SOURCE_PARAM, ''nil''), (SOURCE_HEADER, [CHR 0x22, CHR 0x22])} \<Longrightarrow> name_ok p \<Longrightarrow>
     prints (plain_cond src p MATCH_EXISTS (JStr [])) (call src p @ '' != '' @ nil)"
| prints_has: "name_ok p \<Longrightarrow> val_ok v \<Longrightarrow>
     prints (plain_cond SOURCE_HEADER p MATCH_CONTAINS (JStr v))
       (''has('' @ call SOURCE_HEADER p @ '', '' @ json_quote v @ '')'')"
| prints_eq: "src \<in> {SOURCE_PARAM, SOURCE_HEADER} \<Longrightarrow> name_ok p \<Longrightarrow> val_ok v \<Longrightarrow>
     prints (plain_cond src p MATCH_EQ (JStr v)) (call src p @ '' == '' @ buildExprLiteral MATCH_EQ v)"

lemmas cond_shapes = time_cond_def plain_cond_def no_cond_def

lemma prints_norm: "prints c e \<Longrightarrow> normalizeCondition c = c"
  by (erule prints.cases)
     (auto simp: cond_shapes normalizeCondition_def norm_source_def rule_consts pick_mode_def str_or_def
        value_text_def getRequestRuleMatchOptions_def TIME_FUNCS_def name_ok_def)

lemma prints_build: "prints c e \<Longrightarrow> buildRequestConditionExpr c = e"
proof (frule prints_norm, erule prints.cases, goal_cases)
  case (1 f tz mode op v)
  then show ?case
    by (auto simp: buildRequestConditionExpr_def buildTimeConditionExpr_def Let_def cond_shapes f_str_def
      f_val_def rule_consts numeric_trimmed trim_id call_def)
next
  case (2 f tz s e)
  then show ?case
    by (simp add: buildRequestConditionExpr_def buildTimeConditionExpr_def Let_def cond_shapes f_str_def
      f_val_def rule_consts numeric_trimmed trim_id call_def)
next
  case (3 src nil p)
  then show ?case
    by (auto simp: buildRequestConditionExpr_def Let_def cond_shapes f_str_def f_val_def rule_consts
      name_trim call_def name_ok_def)
next
  case (4 p v)
  then show ?case
    by (simp add: buildRequestConditionExpr_def Let_def cond_shapes f_str_def f_val_def rule_consts
      name_trim call_def name_ok_def buildExprLiteral_def val_ok_def trim_id)
next
  case (5 src p v)
  then show ?case
    by (auto simp: buildRequestConditionExpr_def Let_def cond_shapes f_str_def f_val_def rule_consts
      name_trim call_def name_ok_def)
qed

lemmas time_patterns = tryParseTimeCondition_def re_range_def re_range_wrapped_def re_time_simple_def
  re_range_body_def
lemmas run_pattern = rx group_plus_then group_plus_end r_alt_def cap_def

lemma prints_time_parse:
  assumes "f \<in> set TIME_FUNCS" "name_ok tz" "NUMERIC_LITERAL_REGEX v"
    "(mode, op) \<in> {(MATCH_EQ, ''==''), (MATCH_GTE, ''>=''), (MATCH_LT, ''<'')}"
  shows "tryParseTimeCondition (call f tz @ '' '' @ op @ '' '' @ v) = Some (time_cond f tz mode v [] [])"
  using assms(1,4) name_not_quote[OF assms(2)] numeric_class[OF assms(3)] numeric_nonempty[OF assms(3)]
  by (auto simp: TIME_FUNCS_def time_patterns call_name[OF assms(2)] run_pattern time_cond_def)

lemma prints_range_parse:
  assumes "f \<in> set TIME_FUNCS" "name_ok tz" "NUMERIC_LITERAL_REGEX s" "NUMERIC_LITERAL_REGEX e"
  defines "txt \<equiv> call f tz @ '' >= '' @ s @ '' || '' @ call f tz @ '' < '' @ e"
  shows "tryParseTimeCondition txt = Some (time_cond f tz MATCH_RANGE [] s e)"
    and "tryParseTimeCondition (''('' @ txt @ '')'') = Some (time_cond f tz MATCH_RANGE [] s e)"
  using assms(1) name_not_quote[OF assms(2)] numeric_class[OF assms(3)] numeric_nonempty[OF assms(3)]
   numeric_class[OF assms(4)] numeric_nonempty[OF assms(4)]
  by (auto simp: TIME_FUNCS_def time_patterns txt_def call_name[OF assms(2)] run_pattern time_cond_def range_cond_def)

lemmas plain_patterns = time_patterns tryParseRequestCondition_def re_header_exists_def re_param_exists_def
  re_header_has_def re_param_has_def re_param_cmp_def re_eq_def rule_consts

lemma prints_exists_parse:
  assumes "(src, nil) \<in> {(SOURCE_PARAM, ''nil''), (SOURCE_HEADER, [CHR 0x22, CHR 0x22])}" "name_ok p"
  shows "tryParseRequestCondition (call src p @ '' != '' @ nil) = Inr (Some (plain_cond src p MATCH_EXISTS (JStr [])))"
  using assms(1) name_not_quote[OF assms(2)]
  by (auto simp: plain_patterns call_name[OF assms(2)] run_pattern)

lemma prints_has_parse:
  assumes "name_ok p"
  shows "tryParseRequestCondition (''has('' @ call SOURCE_HEADER p @ '', '' @ json_quote v @ '')'') =
         Inr (Some (plain_cond SOURCE_HEADER p MATCH_CONTAINS (JStr v)))"
  using name_not_quote[OF assms]
  by (simp add: plain_patterns call_name[OF assms] run_pattern parse_captured_def with_value_def json_parse_quote)

lemma quote_hd_last: "hd (json_quote s) = CHR 0x22" "last (json_quote s) = CHR 0x22" "json_quote s \<noteq> []"
  by (simp_all add: json_quote_def)

lemma quote_not_numeric: "\<not> NUMERIC_LITERAL_REGEX (json_quote s)"
  using numeric_hd_last[of "json_quote s"] by (auto simp: quote_hd_last)

lemma quote_trimmed: "trimmed (json_quote s)"
  by (simp add: trimmed_def quote_hd_last js_ws_def)

lemma quote_dot: "list_all cls_dot (json_quote s)"
  by (simp add: json_quote_def dot_escapes)

text \<open>What a printed literal is, whichever branch \<open>buildExprLiteral\<close> takes.\<close>

lemma cls_num_dot: "cls_num c \<Longrightarrow> cls_dot c \<and> val_char c"
  by (auto simp: cls_num_def cls_dot_def val_char_def is_digit_def)

lemma literal_cases:
  assumes "val_ok v"
  shows "buildExprLiteral MATCH_EQ v = v \<and> (v = ''true'' \<or> v = ''false'' \<or> NUMERIC_LITERAL_REGEX v)
       \<or> buildExprLiteral MATCH_EQ v = json_quote v"
proof -
  have "trim v = v" using assms by (simp add: val_ok_def trim_id)
  then show ?thesis unfolding buildExprLiteral_def Let_def rule_consts by simp
qed

lemma parse_plain_literal:
  assumes "v = ''true'' \<or> v = ''false'' \<or> NUMERIC_LITERAL_REGEX v"
  shows "parseExprLiteral v = JStr v"
proof -
  have "trimmed v" using assms numeric_trimmed[of v] by (auto simp: trimmed_def js_ws_def)
  then have t: "trim v = v" by (rule trim_id)
  show ?thesis unfolding parseExprLiteral_def Let_def t using assms by presburger
qed

lemma parse_quoted_literal: "parseExprLiteral (json_quote v) = JStr v"
proof -
  have "json_quote v \<noteq> ''true'' \<and> json_quote v \<noteq> ''false''" by (simp add: json_quote_def)
  then show ?thesis
    by (simp add: parseExprLiteral_def trim_id quote_trimmed quote_not_numeric json_parse_quote)
qed

lemma literal_parse: "val_ok v \<Longrightarrow> parseExprLiteral (buildExprLiteral MATCH_EQ v) = JStr v"
  using literal_cases[of v] parse_plain_literal[of v] parse_quoted_literal[of v] by auto

lemma plain_literal_text:
  assumes "v = ''true'' \<or> v = ''false'' \<or> NUMERIC_LITERAL_REGEX v"
  shows "list_all cls_dot v \<and> list_all val_char v \<and> v \<noteq> [] \<and> trimmed v"
proof (cases "NUMERIC_LITERAL_REGEX v")
  case True
  then show ?thesis using numeric_class[of v] numeric_nonempty[of v] numeric_trimmed[of v]
    by (simp add: list_all_iff cls_num_dot)
next
  case False
  then show ?thesis using assms by (auto simp: cls_dot_def val_char_def trimmed_def js_ws_def)
qed

lemma literal_text:
  assumes "val_ok v"
  shows "list_all cls_dot (buildExprLiteral MATCH_EQ v)" "list_all val_char (buildExprLiteral MATCH_EQ v)"
    "buildExprLiteral MATCH_EQ v \<noteq> []" "trimmed (buildExprLiteral MATCH_EQ v)"
proof -
  have quoted: "list_all val_char (json_quote v)"
    using assms by (simp add: json_quote_def val_escapes val_ok_def)
  show "list_all cls_dot (buildExprLiteral MATCH_EQ v)" "list_all val_char (buildExprLiteral MATCH_EQ v)"
    "buildExprLiteral MATCH_EQ v \<noteq> []" "trimmed (buildExprLiteral MATCH_EQ v)"
    using literal_cases[OF assms] plain_literal_text[of v] quoted quote_dot[of v] quote_trimmed[of v]
      quote_hd_last(3)[of v] by auto
qed

lemma prints_eq_parse:
  assumes "src \<in> {SOURCE_PARAM, SOURCE_HEADER}" "name_ok p" "val_ok v"
  shows "tryParseRequestCondition (call src p @ '' == '' @ buildExprLiteral MATCH_EQ v) =
         Inr (Some (plain_cond src p MATCH_EQ (JStr v)))"
  using assms(1) name_not_quote[OF assms(2)] literal_text(1,3)[OF assms(3)] literal_parse[OF assms(3)]
  by (auto simp: plain_patterns call_name[OF assms(2)] run_pattern parse_param_has_def parse_cmp_def parse_eq_def
     simp flip: MATCH_EQ_def)

lemmas prints_parse_kinds = prints_time_parse prints_range_parse prints_exists_parse prints_has_parse prints_eq_parse

text \<open>\<open>buildRuleGroupFactor\<close> puts a condition with a disjunction into parentheses when it is one of several.\<close>

definition wrap_or :: "string \<Rightarrow> string" where
  "wrap_or e = (if str_includes '' || '' e then ''('' @ e @ '')'' else e)"

lemma no_or: "CHR ''|'' \<notin> set e \<Longrightarrow> wrap_or e = e"
  by (auto simp: wrap_or_def str_includes_sublist dest: set_mono_sublist)

lemma name_no_bar: "name_ok p \<Longrightarrow> CHR ''|'' \<notin> set (call f p) \<longleftrightarrow> CHR ''|'' \<notin> set f"
  by (auto simp: call_name name_ok_def name_char_def list_all_iff)

lemma numeric_no_bar: "NUMERIC_LITERAL_REGEX v \<Longrightarrow> CHR ''|'' \<notin> set v"
  using numeric_class[of v] by (auto simp: list_all_iff)

lemma val_no_bar: "list_all val_char v \<Longrightarrow> CHR ''|'' \<notin> set v"
  by (auto simp: list_all_iff val_char_def)

lemma prints_wrap:
  assumes "prints c e"
  shows "wrap_or e = e \<or> (wrap_or e = ''('' @ e @ '')'' \<and> tryParseRequestCondition (wrap_or e) = Inr (Some c))"
  using assms
proof cases
  case (prints_time f tz mode op v)
  then have "CHR ''|'' \<notin> set e" by (auto simp: name_no_bar numeric_no_bar TIME_FUNCS_def)
  then show ?thesis by (simp add: no_or)
next
  case (prints_range f tz s e')
  then have "str_includes '' || '' e" unfolding str_includes_sublist sublist_def by (metis append.assoc)
  then show ?thesis using prints_range prints_range_parse(2)[of f tz s e']
    by (simp add: wrap_or_def tryParseRequestCondition_def)
next
  case (prints_exists src nil p)
  then have "CHR ''|'' \<notin> set e" by (auto simp: name_no_bar rule_consts)
  then show ?thesis by (simp add: no_or)
next
  case (prints_has p v)
  then have "CHR ''|'' \<notin> set e"
    using val_no_bar[OF val_escapes[of v]] by (auto simp: name_no_bar rule_consts json_quote_def val_ok_def)
  then show ?thesis by (simp add: no_or)
next
  case (prints_eq src p v)
  then have "CHR ''|'' \<notin> set e"
    using val_no_bar[OF literal_text(2)[of v]] by (auto simp: name_no_bar rule_consts)
  then show ?thesis by (simp add: no_or)
qed

lemma time_first: "tryParseTimeCondition e = Some c \<Longrightarrow> tryParseRequestCondition e = Inr (Some c)"
  by (simp add: tryParseRequestCondition_def)

lemma prints_parse: "prints c e \<Longrightarrow> tryParseRequestCondition e = Inr (Some c)"
  by (erule prints.cases)
     (simp_all only: prints_exists_parse prints_has_parse prints_eq_parse prints_time_parse prints_range_parse
       time_first)

lemma call_balanced: "name_ok p \<Longrightarrow> list_all no_paren f \<Longrightarrow> balanced (call f p)"
  using bal_from_flat[of p 1 "[CHR 0x22, CHR '')'']"] bal_from_flat[of f 0 "CHR ''('' # CHR 0x22 # p @ [CHR 0x22, CHR '')'']"]
  by (simp add: balanced_def call_name name_no_paren)

lemma call_top_ok:
  assumes "name_ok p" "list_all (\<lambda>c. no_paren c \<and> c \<noteq> m) f" "m \<noteq> CHR ''(''"
  shows "top_ok m 0 (call f p @ t) = top_ok m 0 t"
proof -
  have "top_ok m 0 (call f p @ t) = top_ok m 0 (CHR ''('' # CHR 0x22 # p @ CHR 0x22 # CHR '')'' # t)"
    using top_ok_flat[OF assms(2), of "CHR ''('' # CHR 0x22 # p @ CHR 0x22 # CHR '')'' # t"] assms
    by (simp add: call_name)
  also have "\<dots> = top_ok m 1 (p @ CHR 0x22 # CHR '')'' # t)" by (simp add: depth_step_def)
  also have "\<dots> = top_ok m 0 t"
    using top_ok_inside[OF name_no_paren[OF assms(1)], of 1 m] by (simp add: depth_step_def)
  finally show ?thesis .
qed

lemma time_func_plain: "f \<in> set TIME_FUNCS \<Longrightarrow> list_all (\<lambda>c. no_paren c \<and> c \<noteq> CHR ''&'') f \<and> f \<noteq> [] \<and> \<not> js_ws (hd f)"
  by (auto simp: TIME_FUNCS_def no_paren_def js_ws_def)


lemma num_plain: "NUMERIC_LITERAL_REGEX v \<Longrightarrow> list_all (\<lambda>c. no_paren c \<and> c \<noteq> CHR ''&'' \<and> c \<noteq> CHR '' '') v"
  using numeric_class[of v] by (auto simp: list_all_iff no_paren_def)

lemma val_plain: "list_all val_char v \<Longrightarrow> list_all (\<lambda>c. no_paren c \<and> c \<noteq> CHR ''&'') v"
  by (auto simp: list_all_iff val_char_def no_paren_def)

lemma plain_no_paren: "list_all (\<lambda>c. no_paren c \<and> P c) u \<Longrightarrow> list_all no_paren u"
  by (simp add: list_all_iff)

text \<open>The printed text ends in a run without parentheses.\<close>

lemma top_ok_flat_trimmed:
  "list_all (\<lambda>c. no_paren c \<and> c \<noteq> m) u \<Longrightarrow> trimmed u \<Longrightarrow> u \<noteq> [] \<Longrightarrow> top_ok m 0 u"
proof (induction u rule: rev_induct)
  case (snoc c u)
  then have c: "c \<noteq> CHR '' ''" "no_paren c" "c \<noteq> m" "list_all (\<lambda>c. no_paren c \<and> c \<noteq> m) u"
    by (auto simp: trimmed_def)
  have "top_ok m 0 (u @ [c]) = top_ok m 0 [c]" using c by (intro top_ok_flat) auto
  then show ?case using c by (simp add: depth_step_def no_paren_def)
qed simp

lemma tail_ok:
  assumes "list_all (\<lambda>c. no_paren c \<and> c \<noteq> m) (w @ v)" "v \<noteq> []" "trimmed v" 
  shows "top_ok m 0 (w @ v)" "balanced (w @ v)"
proof -
  have "top_ok m 0 (w @ v) = top_ok m 0 v"
    using assms by (intro top_ok_flat) (auto simp: list_all_iff)
  then show "top_ok m 0 (w @ v)" using top_ok_flat_trimmed[of m v] assms by simp
  show "balanced (w @ v)" using assms by (intro balanced_flat) (auto simp: list_all_iff)
qed

definition printed_ok :: "string \<Rightarrow> bool" where
  "printed_ok e \<longleftrightarrow> e \<noteq> [] \<and> trimmed e \<and> balanced e \<and> top_ok (CHR ''&'') 0 e"

lemma printed_okI:
  assumes "name_ok p" "list_all (\<lambda>c. no_paren c \<and> c \<noteq> CHR ''&'') f" "f \<noteq> []" "\<not> js_ws (hd f)"
    and "balanced t" "top_ok (CHR ''&'') 0 t" "t \<noteq> []" "\<not> js_ws (last t)"
  shows "printed_ok (call f p @ t)"
proof -
  have "balanced (call f p @ t)"
    using assms(1,2,5) by (intro balanced_append call_balanced) (auto simp: list_all_iff)
  moreover have "top_ok (CHR ''&'') 0 (call f p @ t)"
    using assms(1,2,6) by (simp add: call_top_ok)
  moreover have "trimmed (call f p @ t)"
    using assms(1,3,4,7,8) by (simp add: trimmed_def call_name)
  ultimately show ?thesis using assms(7) by (simp add: printed_ok_def)
qed

lemma printed_flat:
  assumes "name_ok p" "list_all (\<lambda>c. no_paren c \<and> c \<noteq> CHR ''&'') f" "f \<noteq> []" "\<not> js_ws (hd f)"
    and "list_all (\<lambda>c. no_paren c \<and> c \<noteq> CHR ''&'') (w @ v)" "v \<noteq> []" "trimmed v"
  shows "printed_ok (call f p @ w @ v)"
  using assms tail_ok[OF assms(5,6,7)] by (intro printed_okI) (auto simp: trimmed_def)

lemma source_plain: "src \<in> {SOURCE_PARAM, SOURCE_HEADER} \<Longrightarrow>
  list_all (\<lambda>c. no_paren c \<and> c \<noteq> CHR ''&'') src \<and> src \<noteq> [] \<and> \<not> js_ws (hd src)"
  by (auto simp: rule_consts no_paren_def js_ws_def)

lemma plain_weaken: "list_all (\<lambda>c. no_paren c \<and> c \<noteq> m \<and> Q c) v \<Longrightarrow> list_all (\<lambda>c. no_paren c \<and> c \<noteq> m) v"
  by (simp add: list_all_iff)

lemma no_paren_concrete [simp]: "no_paren (CHR '' '')" "no_paren (CHR ''='')" "no_paren (CHR ''>'')" "no_paren (CHR ''<'')"
  "no_paren (CHR ''!'')" "no_paren (CHR ''n'')" "no_paren (CHR ''i'')" "no_paren (CHR ''l'')" "no_paren (CHR 0x22)"
  "no_paren (CHR ''|'')" "no_paren (CHR '','')"
  by (simp_all add: no_paren_def)

lemma prints_printed: 
  assumes "prints c e" shows "printed_ok e"
  using assms
proof cases
  case (prints_time f tz mode op v)
  have "printed_ok (call f tz @ ('' '' @ op @ '' '') @ v)"
    using prints_time time_func_plain[of f] plain_weaken[OF num_plain[of v]] 
    by (intro printed_flat) (auto simp: numeric_trimmed numeric_nonempty)
  then show ?thesis using prints_time by simp
next
  case (prints_range f tz s e')
  have tail: "printed_ok (call f tz @ '' < '' @ e')"
    using prints_range time_func_plain[of f] plain_weaken[OF num_plain[of e']] 
    by (intro printed_flat) (auto simp: numeric_trimmed numeric_nonempty)
  let ?u = "'' >= '' @ s @ '' || ''"
  have u: "list_all (\<lambda>c. no_paren c \<and> c \<noteq> CHR ''&'') ?u"
    using plain_weaken[OF num_plain[of s]] prints_range by simp
  have "hd (call f tz @ '' < '' @ e') \<noteq> CHR ''&''" using prints_range by (auto simp: call_name TIME_FUNCS_def)
  then have top: "top_ok (CHR ''&'') 0 (?u @ call f tz @ '' < '' @ e')"
    using tail by (subst top_ok_flat[OF u]) (auto simp: printed_ok_def)
  have bal: "balanced (?u @ call f tz @ '' < '' @ e')"
    using tail by (intro balanced_append[OF balanced_flat[OF plain_no_paren[OF u]]]) (simp add: printed_ok_def)
  have "printed_ok (call f tz @ (?u @ call f tz @ '' < '' @ e'))"
    using prints_range time_func_plain[of f] top bal tail
    by (intro printed_okI) (auto simp: printed_ok_def trimmed_def)
  then show ?thesis using prints_range by simp
next
  case (prints_exists src nil p)
  then have "printed_ok (call src p @ '' != '' @ nil)" using source_plain[of src]
    by (intro printed_flat) (auto simp: trimmed_def js_ws_def)
  then show ?thesis using prints_exists by simp
next
  case (prints_has p v)
  have q: "list_all (\<lambda>c. no_paren c \<and> c \<noteq> CHR ''&'') (json_quote v)"
    using val_plain[OF val_escapes[of v]] prints_has by (simp add: json_quote_def val_ok_def)
  have i: "balanced (call SOURCE_HEADER p @ '', '' @ json_quote v)"
    using prints_has q source_plain[of SOURCE_HEADER] plain_no_paren
    by (intro balanced_append call_balanced balanced_flat) (auto simp: list_all_iff)
  have h: "top_ok (CHR ''&'') 0 (''has'' @ ''('' @ (call SOURCE_HEADER p @ '', '' @ json_quote v) @ '')'')"
    using top_part_parens[OF i, of "CHR ''&''"] by (subst top_ok_flat) (auto simp: top_part_def no_paren_def)
  have b: "balanced (''('' @ (call SOURCE_HEADER p @ '', '' @ json_quote v) @ '')'')"
    using bal_from_append[of 0 "call SOURCE_HEADER p @ '', '' @ json_quote v" 1 "'')''"] i by (simp add: balanced_def)
  have "balanced (''has'' @ ''('' @ (call SOURCE_HEADER p @ '', '' @ json_quote v) @ '')'')"
    by (rule balanced_append[OF balanced_flat b]) (simp add: no_paren_def)
  with h show ?thesis using prints_has by (simp add: printed_ok_def trimmed_def js_ws_def)
next
  case (prints_eq src p v)
  then have "printed_ok (call src p @ '' == '' @ buildExprLiteral MATCH_EQ v)"
    using source_plain[of src] literal_text[of v] val_plain[OF literal_text(2)[of v]]
    by (intro printed_flat) auto
  then show ?thesis using prints_eq by simp
qed

end
