(* ===== verification/RequestRulesRoundTrip.thy ===== *)
theory RequestRulesRoundTrip
  imports RequestRulesFacts
begin

text \<open>
  Whole rule expressions (web/src/pages/Setting/Ratio/components/requestRuleExpr.js): which groups the
  text of \<open>buildRequestRuleExpr\<close> carries, that \<open>tryParseRequestRuleExpr\<close> reads them back, that
  \<open>splitBillingExprAndRequestRules\<close> undoes \<open>combineBillingExpr\<close>, and the conditions the parser
  cannot read back.
\<close>

section \<open>Printed groups\<close>

lemma star_any:
  "r_star (r_cls (\<lambda>c. True)) (b, r, g) = map (\<lambda>n. (rev (take n r) @ b, drop n r, g)) (rev [0..<Suc (length r)])"
proof (induction r arbitrary: b)
  case (Cons c r)
  have "[0..<Suc (length (c # r))] = 0 # map Suc [0..<Suc (length r)]" 
    by (simp add: map_Suc_upt upt_conv_Cons del: upt_Suc)
  then show ?case using Cons by (simp add: rev_map del: upt_Suc)
qed simp

lemma group_any:
  "r_group i (r_plus (r_cls (\<lambda>c. True))) (b, r, g) =
     map (\<lambda>n. (rev (take n r) @ b, drop n r, (i, take n r) # g)) (rev [1..<Suc (length r)])"
proof (cases r)
  case (Cons c s)
  have "[1..<Suc (length r)] = map Suc [0..<Suc (length s)]"
    using Cons by (simp add: map_Suc_upt del: upt_Suc)
  then show ?thesis using Cons
    by (auto simp: r_plus_def r_seq_def star_any rev_map simp del: upt_Suc intro!: map_cong)
qed (simp add: r_plus_def r_seq_def)

text \<open>A greedy \<open>.+\<close> stops at the last place where the rest of the pattern matches.\<close>

lemma greedy_last:
  assumes "x \<noteq> []" and "\<And>n b g. 0 < n \<Longrightarrow> k (b, drop n y, g) = []"
  shows "\<exists>ts. r_seq (r_group i (r_plus (r_cls (\<lambda>c. True)))) k (b, x @ y, g) = k (rev x @ b, y, (i, x) # g) @ ts"
proof -
  let ?f = "\<lambda>n. (rev (take n (x @ y)) @ b, drop n (x @ y), (i, take n (x @ y)) # g)"
  have "[1..<Suc (length (x @ y))] = [1..<length x] @ length x # [Suc (length x)..<Suc (length (x @ y))]"
    using assms(1) upt_add_eq_append[of 1 "length x" "Suc (length y)"]
      upt_conv_Cons[of "length x" "Suc (length x + length y)"]
    by (cases x) (simp_all del: upt_Suc)
  moreover have "concat (map (\<lambda>n. k (?f n)) (rev [Suc (length x)..<Suc (length (x @ y))])) = []"
    using assms(2) by (simp del: upt_Suc)
  moreover have "k (?f (length x)) = k (rev x @ b, y, (i, x) # g)" by simp
  ultimately have "r_seq (r_group i (r_plus (r_cls (\<lambda>c. True)))) k (b, x @ y, g) =
      k (rev x @ b, y, (i, x) # g) @ concat (map (\<lambda>n. k (?f n)) (rev [1..<length x]))"
    unfolding r_seq_def group_any by (simp only: map_map comp_def rev_append rev.simps map_append
      concat_append list.map concat.simps append_Nil append_Nil2 append_assoc)
  then show ?thesis by blast
qed

lemma factor_match:
  assumes "x \<noteq> []" "NUMERIC_LITERAL_REGEX m"
  shows "\<exists>g. rx_match re_factor (''('' @ x @ '' ? '' @ m @ '' : 1)'') = Some g \<and> cap g 1 = x \<and> cap g 2 = m"
proof -
  let ?k = "r_seqs [r_lit '' ? '', r_group 2 r_nums, r_lit '' : 1)'', r_eol]"
  let ?y = "'' ? '' @ m @ '' : 1)''"
  have q: "CHR ''?'' \<notin> set (m @ '' : 1)'')" using numeric_class[OF assms(2)] by (auto simp: list_all_iff)
  have "\<not> prefix '' ? '' (drop n ?y)" if "0 < n" for n
  proof (cases "n = 1")
    case False
    then have "set (drop n ?y) \<subseteq> set (CHR '' '' # m @ '' : 1)'')"
      using that by (auto simp: drop_Cons' dest!: in_set_dropD split: if_splits)
    then show ?thesis using q by (auto simp: prefix_def)
  qed simp
  then have "?k (b, drop n ?y, g) = []" if "0 < n" for n b g
    using that by (simp add: seq_lit r_lit_cases)
  then obtain ts where "r_seq (r_group 1 (r_plus (r_cls (\<lambda>c. True)))) ?k ([CHR ''(''], x @ ?y, []) =
     ?k (rev x @ [CHR ''(''], ?y, [(1, x)]) @ ts"
    using greedy_last[OF assms(1), of ?k ?y] by blast
  then show ?thesis
    using numeric_class[OF assms(2)] numeric_nonempty[OF assms(2)]
    by (simp add: re_factor_def rx group_plus_then cap_def)
qed


text \<open>A group the visual editor can hold: a numeric multiplier and conditions in the printable forms.\<close>

definition cond_ok :: "cond \<Rightarrow> bool" where
  "cond_ok c \<longleftrightarrow> normalizeCondition c = c \<and>
     (if c_source c = Some SOURCE_TIME
      then name_ok (f_str (c_timezone c)) \<and>
        (if c_mode c = Some MATCH_RANGE
         then c_value c = JStr [] \<and> NUMERIC_LITERAL_REGEX (f_val (c_rangeStart c)) \<and>
              NUMERIC_LITERAL_REGEX (f_val (c_rangeEnd c))
         else NUMERIC_LITERAL_REGEX (f_val (c_value c)) \<and> c_rangeStart c = JStr [] \<and> c_rangeEnd c = JStr [])
      else name_ok (f_str (c_path c)) \<and>
        (c_mode c = Some MATCH_EXISTS \<and> c_value c = JStr [] \<or>
         c_mode c = Some MATCH_CONTAINS \<and> c_source c = Some SOURCE_HEADER \<and> val_ok (f_val (c_value c)) \<or>
         c_mode c = Some MATCH_EQ \<and> val_ok (f_val (c_value c))))"

definition group_ok :: "rule_group \<Rightarrow> bool" where
  "group_ok grp \<longleftrightarrow> NUMERIC_LITERAL_REGEX (multiplier grp) \<and> conditions grp \<noteq> [] \<and> list_all cond_ok (conditions grp)"

lemma value_text_JStr: "\<exists>s. value_text v = JStr s"
  by (simp add: value_text_def)

lemma pick_mode_in: "d \<in> set opts \<Longrightarrow> pick_mode opts m d \<in> set opts"
  by (auto simp: pick_mode_def split: option.splits)

lemma normal_time:
  assumes "normalizeCondition c = c" "c_source c = Some SOURCE_TIME"
  obtains f tz mode v s e where "c = time_cond f tz mode v s e" "f \<in> set TIME_FUNCS"
    "mode \<in> {MATCH_EQ, MATCH_GTE, MATCH_LT, MATCH_RANGE}"
proof -
  obtain v s e where vse: "value_text (c_value c) = JStr v" "value_text (c_rangeStart c) = JStr s"
      "value_text (c_rangeEnd c) = JStr e" using value_text_JStr by metis
  let ?f = "pick_mode TIME_FUNCS (c_timeFunc c) ''hour''"
  let ?m = "pick_mode (getRequestRuleMatchOptions SOURCE_TIME) (c_mode c) MATCH_GTE"
  have "normalizeCondition c = time_cond ?f (str_or (c_timezone c) ''Asia/Shanghai'') ?m v s e"
    using assms(2) vse by (simp add: normalizeCondition_def norm_source_def time_cond_def)
  moreover have "?f \<in> set TIME_FUNCS" by (rule pick_mode_in) (simp add: TIME_FUNCS_def)
  moreover have "?m \<in> {MATCH_EQ, MATCH_GTE, MATCH_LT, MATCH_RANGE}"
    using pick_mode_in[of MATCH_GTE "getRequestRuleMatchOptions SOURCE_TIME" "c_mode c"]
    by (simp add: getRequestRuleMatchOptions_def)
  ultimately show ?thesis using that assms(1) by metis
qed

lemma normal_plain:
  assumes "normalizeCondition c = c" "c_source c \<noteq> Some SOURCE_TIME"
  obtains src p mode v where "c = plain_cond src p mode (JStr v)" "src \<in> {SOURCE_PARAM, SOURCE_HEADER}"
proof -
  obtain v where v: "value_text (c_value c) = JStr v" using value_text_JStr by metis
  have "normalizeCondition c = plain_cond (norm_source c) (str_or (c_path c) [])
     (pick_mode (getRequestRuleMatchOptions (norm_source c)) (c_mode c) MATCH_EQ) (JStr v)"
    using assms(2) v by (auto simp: normalizeCondition_def norm_source_def plain_cond_def rule_consts Let_def)
  moreover have "norm_source c \<in> {SOURCE_PARAM, SOURCE_HEADER}" using assms(2) by (simp add: norm_source_def)
  ultimately show ?thesis using that assms(1) by metis
qed

lemma shape_fields [simp]:
  "c_source (time_cond f tz mode v s e) = Some SOURCE_TIME" "c_timezone (time_cond f tz mode v s e) = Some tz"
  "c_mode (time_cond f tz mode v s e) = Some mode" "c_value (time_cond f tz mode v s e) = JStr v"
  "c_rangeStart (time_cond f tz mode v s e) = JStr s" "c_rangeEnd (time_cond f tz mode v s e) = JStr e"
  "c_source (plain_cond src p mode x) = Some src" "c_path (plain_cond src p mode x) = Some p"
  "c_mode (plain_cond src p mode x) = Some mode" "c_value (plain_cond src p mode x) = x"
  "f_str (Some p) = p" "f_val (JStr v) = v"
  by (simp_all add: cond_shapes f_str_def f_val_def)

lemma cond_ok_prints:
  assumes "cond_ok c"
  shows "prints c (buildRequestConditionExpr c)"
proof -
  have n: "normalizeCondition c = c" using assms by (simp add: cond_ok_def)
  have "\<exists>e. prints c e"
  proof (cases "c_source c = Some SOURCE_TIME")
    case True
    obtain f tz mode v s e where c: "c = time_cond f tz mode v s e" "f \<in> set TIME_FUNCS"
      "mode \<in> {MATCH_EQ, MATCH_GTE, MATCH_LT, MATCH_RANGE}" using normal_time[OF n True] by metis
    show ?thesis
    proof (cases "mode = MATCH_RANGE")
      case True
      then have "v = []" "name_ok tz" "NUMERIC_LITERAL_REGEX s" "NUMERIC_LITERAL_REGEX e"
        using assms c(1) by (simp_all add: cond_ok_def)
      then show ?thesis using c True prints_range[of f tz s e] by auto
    next
      case False
      then have "name_ok tz" "NUMERIC_LITERAL_REGEX v" "s = []" "e = []"
        using assms c(1) by (simp_all add: cond_ok_def)
      then show ?thesis using c False prints_time[of f tz mode _ v] by blast
    qed
  next
    case False
    obtain src p mode v where c: "c = plain_cond src p mode (JStr v)" "src \<in> {SOURCE_PARAM, SOURCE_HEADER}"
      using normal_plain[OF n False] by metis
    have "name_ok p" "mode = MATCH_EXISTS \<and> v = [] \<or> mode = MATCH_CONTAINS \<and> src = SOURCE_HEADER \<and> val_ok v
        \<or> mode = MATCH_EQ \<and> val_ok v" using assms c False by (auto simp: cond_ok_def)
    then show ?thesis using c prints_exists[of src _ p] prints_has[of p v] prints_eq[of src p v] by blast
  qed
  then show ?thesis using prints_build by blast
qed


definition cond_texts :: "rule_group \<Rightarrow> string list" where
  "cond_texts grp = (let es = map buildRequestConditionExpr (conditions grp)
     in if length es = 1 then es else map wrap_or es)"

lemma wrap_part:
  assumes "prints c e"
  shows "top_part (CHR ''&'') (wrap_or e) \<and> balanced (wrap_or e) \<and> tryParseRequestCondition (wrap_or e) = Inr (Some c)"
proof (cases "wrap_or e = e")
  case True
  then show ?thesis using prints_printed[OF assms] prints_parse[OF assms]
    by (simp add: printed_ok_def top_part_def)
next
  case False
  then have w: "wrap_or e = ''('' @ e @ '')''" "tryParseRequestCondition (wrap_or e) = Inr (Some c)"
    using prints_wrap[OF assms] by auto
  have b: "balanced e" using prints_printed[OF assms] by (simp add: printed_ok_def)
  then have "balanced (''('' @ e @ '')'')"
    using bal_from_append[of 0 e 1 "'')''"] by (simp add: balanced_def)
  then show ?thesis using w top_part_parens[OF b, of "CHR ''&''"] by simp
qed

lemma prints_part: "prints c e \<Longrightarrow> top_part (CHR ''&'') e \<and> balanced e"
  using prints_printed by (simp add: printed_ok_def top_part_def)

lemma parse_conds_map:
  assumes "list_all (\<lambda>c. normalizeCondition c = c \<and> top_part (CHR ''&'') (f c) \<and>
     tryParseRequestCondition (f c) = Inr (Some c)) cs"
  shows "parse_conds (map f cs) = Inr (Some cs)"
  using assms by (induction cs) (auto simp: top_part_def trim_id)

lemma cond_texts_ok:
  assumes "group_ok grp"
  shows "list_all (top_part (CHR ''&'')) (cond_texts grp)" "list_all balanced (cond_texts grp)"
    "parse_conds (cond_texts grp) = Inr (Some (conditions grp))" "cond_texts grp \<noteq> []"
proof -
  let ?f = "\<lambda>c. if length (conditions grp) = 1 then buildRequestConditionExpr c else wrap_or (buildRequestConditionExpr c)"
  have t: "cond_texts grp = map ?f (conditions grp)" by (simp add: cond_texts_def Let_def)
  have ok: "normalizeCondition c = c \<and> top_part (CHR ''&'') (?f c) \<and> balanced (?f c) \<and>
     tryParseRequestCondition (?f c) = Inr (Some c)" if "c \<in> set (conditions grp)" for c
  proof -
    have "prints c (buildRequestConditionExpr c)"
      using that assms by (simp add: group_ok_def list_all_iff cond_ok_prints)
    then show ?thesis using wrap_part prints_part prints_parse prints_norm by auto
  qed
  show "list_all (top_part (CHR ''&'')) (cond_texts grp)" "list_all balanced (cond_texts grp)"
    unfolding t list_all_iff using ok by auto
  show "parse_conds (cond_texts grp) = Inr (Some (conditions grp))"
    unfolding t using ok by (intro parse_conds_map) (auto simp: list_all_iff)
  show "cond_texts grp \<noteq> []" using assms by (simp add: t group_ok_def)
qed

lemma factor_text:
  assumes "group_ok grp"
  shows "buildRuleGroupFactor grp = ''('' @ join '' && '' (cond_texts grp) @ '' ? '' @ multiplier grp @ '' : 1)''"
proof -
  let ?es = "map buildRequestConditionExpr (conditions grp)"
  have "buildRequestConditionExpr c \<noteq> []" if "c \<in> set (conditions grp)" for c
    using that assms prints_part[OF cond_ok_prints[of c]] by (simp add: group_ok_def list_all_iff top_part_def)
  then have f: "filter (\<lambda>e. e \<noteq> []) ?es = ?es" by (auto simp: filter_id_conv)
  have ne: "?es \<noteq> []" using assms by (simp add: group_ok_def)
  have m: "trim (multiplier grp) = multiplier grp" "NUMERIC_LITERAL_REGEX (multiplier grp)"
    using assms by (simp_all add: group_ok_def numeric_trimmed trim_id)
  have "(case ?es of [e] \<Rightarrow> e | _ \<Rightarrow> join '' && '' (map (\<lambda>e. if str_includes '' || '' e then ''('' @ e @ '')'' else e) ?es))
      = join '' && '' (cond_texts grp)"
    using ne by (auto simp: cond_texts_def wrap_or_def[abs_def] Let_def split: list.splits)
  then show ?thesis unfolding buildRuleGroupFactor_def Let_def f using m ne by simp
qed

lemma balanced_join: "balanced sep \<Longrightarrow> list_all balanced ps \<Longrightarrow> balanced (join sep ps)"
  by (induction ps) (auto simp: join_Cons balanced_append balanced_flat)

lemma join_nonempty: "ps \<noteq> [] \<Longrightarrow> hd ps \<noteq> [] \<Longrightarrow> join sep ps \<noteq> []"
  by (cases ps) (auto simp: join_Cons)

lemma factor_ok:
  assumes "group_ok grp"
  shows "top_part (CHR ''*'') (buildRuleGroupFactor grp)"
    and "tryParseRuleGroupFactor (buildRuleGroupFactor grp) = Inr (Some grp)"
proof -
  let ?x = "join '' && '' (cond_texts grp)"
  note ct = cond_texts_ok[OF assms]
  have num: "NUMERIC_LITERAL_REGEX (multiplier grp)" using assms by (simp add: group_ok_def)
  have fm: "list_all no_paren (multiplier grp)" using num_plain[OF num] by (simp add: list_all_iff)
  have "balanced (?x @ '' ? '' @ multiplier grp @ '' : 1'')"
    using ct(2) fm by (intro balanced_append[OF balanced_join] balanced_flat) (simp_all add: balanced_flat no_paren_def)
  from top_part_parens[OF this, of "CHR ''*''"]
  show "top_part (CHR ''*'') (buildRuleGroupFactor grp)" by (simp add: factor_text[OF assms])
  have "?x \<noteq> []" using ct(1,4) by (intro join_nonempty) (auto simp: top_part_def list_all_iff)
  then obtain g where "rx_match re_factor (buildRuleGroupFactor grp) = Some g" "cap g 1 = ?x" "cap g 2 = multiplier grp"
    using factor_match[OF _ num] factor_text[OF assms] by metis
  moreover have "splitTopLevelAnd ?x = cond_texts grp" using ct(1,4) conj.split_join by blast
  ultimately show "tryParseRuleGroupFactor (buildRuleGroupFactor grp) = Inr (Some grp)"
    using ct(3) assms by (simp add: tryParseRuleGroupFactor_def group_ok_def)
qed

lemma parse_groups_factors: "list_all group_ok gs \<Longrightarrow> parse_groups (map buildRuleGroupFactor gs) = Inr (Some gs)"
  by (induction gs) (auto simp: factor_ok)

lemma rules_text:
  assumes "list_all group_ok gs"
  shows "buildRequestRuleExpr gs = join '' * '' (map buildRuleGroupFactor gs)"
proof -
  have "filter (\<lambda>f. f \<noteq> []) (map buildRuleGroupFactor gs) = map buildRuleGroupFactor gs"
    using assms factor_ok(1) by (auto simp: filter_id_conv list_all_iff top_part_def)
  then show ?thesis by (simp add: buildRequestRuleExpr_def)
qed

lemma factors_parts: "list_all group_ok gs \<Longrightarrow> list_all (top_part (CHR ''*'')) (map buildRuleGroupFactor gs)"
  by (simp add: list_all_iff factor_ok(1))

lemma trimmed_join:
  "ps \<noteq> [] \<Longrightarrow> list_all (top_part m) ps \<Longrightarrow> trimmed (join sep ps) \<and> join sep ps \<noteq> []"
proof (induction ps)
  case (Cons p ps)
  then show ?case by (cases "ps = []") (auto simp: join_Cons top_part_def trimmed_def)
qed simp

lemma rules_roundtrip:
  assumes "list_all group_ok gs"
  shows "tryParseRequestRuleExpr (buildRequestRuleExpr gs) = Inr (Some gs)"
proof (cases "gs = []")
  case False
  let ?fs = "map buildRuleGroupFactor gs"
  have t: "trimmed (join '' * '' ?fs)" "join '' * '' ?fs \<noteq> []"
    using trimmed_join[of ?fs] factors_parts[OF assms] False by auto
  have "splitTopLevelMultiply (join '' * '' ?fs) = ?fs"
    using mult.split_join[of ?fs] factors_parts[OF assms] False by simp
  then show ?thesis using t parse_groups_factors[OF assms]
    by (simp add: rules_text[OF assms] tryParseRequestRuleExpr_def trim_id)
qed (simp add: buildRequestRuleExpr_def tryParseRequestRuleExpr_def)

section \<open>Combining and splitting\<close>



lemma parens_loop_inside: "bal_from d s \<Longrightarrow> parens_loop (int d + 1) (s @ '')'')"
proof (induction s arbitrary: d)
  case (Cons c s)
  consider "c = CHR ''(''" | "c = CHR '')''" | "no_paren c" by (auto simp: no_paren_def)
  then show ?case
  proof cases
    case 1
    then have "parens_loop (int (Suc d) + 1) (s @ '')'')" using Cons by (intro Cons.IH) auto
    then show ?thesis using 1 by (simp add: depth_step_def algebra_simps)
  next
    case 2
    then have d: "d \<noteq> 0" "bal_from (d - 1) s" using Cons.prems by auto
    then have "parens_loop (int (d - 1) + 1) (s @ '')'')" by (intro Cons.IH)
    then show ?thesis using 2 d by (simp add: depth_step_def of_nat_diff)
  next
    case 3
    then show ?thesis using Cons by (auto simp: no_paren_def depth_step_def)
  qed
qed (simp add: depth_step_def)

lemma hasFullOuterParens_wrap: "balanced s \<Longrightarrow> hasFullOuterParens (''('' @ s @ '')'')"
  using parens_loop_inside[of 0 s] by (simp add: hasFullOuterParens_def balanced_def depth_step_def)

lemma unwrap_wrap:
  assumes "balanced s" "trimmed s" "\<not> hasFullOuterParens s"
  shows "unwrapOuterParens (''('' @ s @ '')'') = s"
proof -
  have "trim (''('' @ s @ '')'') = ''('' @ s @ '')''" by (rule trim_id) (simp add: trimmed_def js_ws_def)
  moreover have "slice_inner (''('' @ s @ '')'') = s" by (simp add: slice_inner_def)
  ultimately show ?thesis
    using assms hasFullOuterParens_wrap[OF assms(1)] unwrap_loop.simps[of "''('' @ s @ '')''"] unwrap_loop.simps[of s]
    by (simp add: unwrapOuterParens_def trim_id)
qed

lemma unwrap_no_parens: "\<not> hasFullOuterParens (unwrapOuterParens s)"
proof -
  have "\<not> hasFullOuterParens (unwrap_loop t)" for t
  proof (induction t rule: unwrap_loop.induct)
    case (1 cur)
    then show ?case by (cases "hasFullOuterParens cur") (simp_all add: unwrap_loop.simps[of cur])
  qed
  then show ?thesis by (simp add: unwrapOuterParens_def)
qed


section \<open>Parsed groups\<close>

lemma normalize_idem: "normalizeCondition (normalizeCondition c) = normalizeCondition c"
proof -
  have vt: "value_text (value_text v) = value_text v" for v by (simp add: value_text_def)
  have pm: "pick_mode opts (Some (pick_mode opts m d)) d = pick_mode opts m d" for opts m d
    by (auto simp: pick_mode_def split: option.splits)
  have so: "str_or (Some (str_or m d)) d = str_or m d" for m d
    by (auto simp: str_or_def split: option.splits)
  have "norm_source (normalizeCondition c) = norm_source c"
    by (simp add: normalizeCondition_def Let_def norm_source_def no_cond_def rule_consts)
  then show ?thesis
    by (simp add: normalizeCondition_def Let_def vt pm so)
qed

lemma parse_conds_normal: "parse_conds ps = Inr (Some cs) \<Longrightarrow> list_all (\<lambda>c. normalizeCondition c = c) cs"
  by (induction ps arbitrary: cs) (auto simp: normalize_idem split: sum.splits option.splits)

lemma parse_groups_normal:
  "parse_groups ps = Inr (Some gs) \<Longrightarrow>
   list_all (\<lambda>g. conditions g \<noteq> [] \<and> list_all (\<lambda>c. normalizeCondition c = c) (conditions g)) gs"
  by (induction ps arbitrary: gs)
     (auto simp: tryParseRuleGroupFactor_def parse_conds_normal split: sum.splits option.splits if_splits)

section \<open>Numeric comparisons\<close>

text \<open>Numeric comparisons on a body parameter carry a null guard joined by \<open>&&\<close>, which the parser
  splits into a condition of its own.\<close>

definition cmp_modes :: "(string \<times> string) list" where
  "cmp_modes = [(MATCH_GT, ''>''), (MATCH_GTE, ''>=''), (MATCH_LT, ''<''), (MATCH_LTE, ''<='')]"

lemma cmp_build:
  assumes "(mode, op) \<in> set cmp_modes" "name_ok p" "NUMERIC_LITERAL_REGEX v"
  shows "buildRequestConditionExpr (plain_cond SOURCE_PARAM p mode (JStr v)) =
     (call SOURCE_PARAM p @ '' != nil'') @ '' && '' @ (call SOURCE_PARAM p @ '' '' @ op @ '' '' @ v)"
proof -
  have n: "normalizeCondition (plain_cond SOURCE_PARAM p mode (JStr v)) = plain_cond SOURCE_PARAM p mode (JStr v)"
    using assms(1) by (auto simp: cmp_modes_def cond_shapes normalizeCondition_def norm_source_def rule_consts
      pick_mode_def str_or_def value_text_def getRequestRuleMatchOptions_def)
  show ?thesis unfolding buildRequestConditionExpr_def n Let_def
    using assms by (auto simp: cmp_modes_def rule_consts name_trim numeric_trimmed trim_id call_def name_ok_def)
qed

lemma cmp_half_unparsed:
  assumes "(mode, op) \<in> set cmp_modes" "name_ok p" "NUMERIC_LITERAL_REGEX v"
  shows "tryParseRequestCondition (call SOURCE_PARAM p @ '' '' @ op @ '' '' @ v) = Inr None"
  using assms(1) name_not_quote[OF assms(2)]
  by (auto simp: cmp_modes_def plain_patterns call_name[OF assms(2)] run_pattern parse_param_has_def parse_cmp_def
     parse_eq_def)

lemma cmp_group_unparsed:
  assumes "(mode, op) \<in> set cmp_modes" "name_ok p" "NUMERIC_LITERAL_REGEX v" "NUMERIC_LITERAL_REGEX m"
  shows "tryParseRuleGroupFactor (buildRuleGroupFactor \<lparr>conditions = [plain_cond SOURCE_PARAM p mode (JStr v)], multiplier = m\<rparr>)
     = Inr None"
proof -
  let ?a = "call SOURCE_PARAM p @ '' != nil''" and ?b = "call SOURCE_PARAM p @ ('' '' @ op @ '' '') @ v"
  have a: "printed_ok ?a" using prints_printed[OF prints_exists[of SOURCE_PARAM "''nil''" p]] assms(2) by simp
  have b: "printed_ok ?b"
    using assms plain_weaken[OF num_plain[of v]] source_plain[of SOURCE_PARAM]
    by (intro printed_flat) (auto simp: cmp_modes_def numeric_trimmed numeric_nonempty)
  have s: "splitTopLevelAnd (?a @ '' && '' @ ?b) = [?a, ?b]"
    using conj.split_join[of "[?a, ?b]"] a b by (simp add: printed_ok_def top_part_def)
  have p: "parse_conds [?a, ?b] = Inr None"
    using a b cmp_half_unparsed[OF assms(1-3)] prints_exists_parse[of SOURCE_PARAM "''nil''" p] assms(2)
    by (simp add: printed_ok_def trim_id)
  have "buildRuleGroupFactor \<lparr>conditions = [plain_cond SOURCE_PARAM p mode (JStr v)], multiplier = m\<rparr> =
      ''('' @ (?a @ '' && '' @ ?b) @ '' ? '' @ m @ '' : 1)''"
    using cmp_build[OF assms(1-3)] assms(4) a
    by (simp add: buildRuleGroupFactor_def numeric_trimmed trim_id Let_def)
  moreover have "\<exists>g. rx_match re_factor (''('' @ (?a @ '' && '' @ ?b) @ '' ? '' @ m @ '' : 1)'') = Some g \<and>
      cap g 1 = ?a @ '' && '' @ ?b \<and> cap g 2 = m"
    by (rule factor_match) (use assms in simp_all)
  ultimately show ?thesis using s p unfolding tryParseRuleGroupFactor_def by auto
qed

section \<open>Properties\<close>


definition sample_rules :: "rule_group list" where
  "sample_rules =
     [\<lparr>conditions = [time_cond ''hour'' ''Asia/Shanghai'' MATCH_RANGE [] ''21'' ''6'',
                     plain_cond SOURCE_PARAM ''service_tier'' MATCH_EQ (JStr ''fast'')],
       multiplier = ''0.5''\<rparr>,
      \<lparr>conditions = [plain_cond SOURCE_HEADER ''anthropic-beta'' MATCH_CONTAINS (JStr ''fast-mode'')],
       multiplier = ''6''\<rparr>]"

lemma sample_rules_ok: "list_all group_ok sample_rules"
  by code_simp




text \<open>A numeric comparison on a body parameter, printed as one rule group, is not read back: its
  null guard is joined by \<open>&&\<close>, the parser splits there, and the second half is no condition it
  knows. Such a rule reopens as raw text instead of in the visual editor.\<close>

theorem numeric_comparison_not_reread:
  assumes "(mode, op) \<in> set cmp_modes" "name_ok p" "NUMERIC_LITERAL_REGEX v" "NUMERIC_LITERAL_REGEX m"
  shows "tryParseRuleGroupFactor
     (buildRuleGroupFactor \<lparr>conditions = [plain_cond SOURCE_PARAM p mode (JStr v)], multiplier = m\<rparr>) = Inr None"
  using assms by (rule cmp_group_unparsed)

theorem numeric_comparison_not_reread_witness:
  "tryParseRuleGroupFactor
     (buildRuleGroupFactor \<lparr>conditions = [plain_cond SOURCE_PARAM ''max_tokens'' MATCH_GT (JStr ''1000'')],
        multiplier = ''2''\<rparr>) = Inr None"
proof (rule numeric_comparison_not_reread)
  show "(MATCH_GT, ''>'') \<in> set cmp_modes" by (simp add: cmp_modes_def)
qed code_simp+

text \<open>C39. Whatever text is parsed, the groups the editor receives are well formed: each has a condition,
  and every condition is a fixed point of \<open>normalizeCondition\<close>.\<close>

theorem parsed_groups_normal:
  assumes "tryParseRequestRuleExpr s = Inr (Some gs)"
  shows "list_all (\<lambda>g. conditions g \<noteq> [] \<and> list_all (\<lambda>c. normalizeCondition c = c) (conditions g)) gs"
  using assms parse_groups_normal
  by (auto simp: tryParseRequestRuleExpr_def Let_def split: if_splits)

theorem parsed_groups_normal_witness:
  "list_all (\<lambda>g. conditions g \<noteq> [] \<and> list_all (\<lambda>c. normalizeCondition c = c) (conditions g)) sample_rules"
  by (rule parsed_groups_normal[OF rules_roundtrip[OF sample_rules_ok]])

text \<open>C40. \<open>unwrapOuterParens\<close> always ends, leaves no enclosing pair of parentheses, and undoes wrapping
  a balanced expression.\<close>

theorem unwrap_outer_parens:
  "\<not> hasFullOuterParens (unwrapOuterParens s) \<and>
   (balanced s \<and> trimmed s \<and> \<not> hasFullOuterParens s \<longrightarrow> unwrapOuterParens (''('' @ s @ '')'') = s)"
  using unwrap_no_parens unwrap_wrap by auto

theorem unwrap_outer_parens_witness: "unwrapOuterParens ''(p * 2)'' = ''p * 2''"
proof -
  have "balanced ''p * 2'' \<and> trimmed ''p * 2'' \<and> \<not> hasFullOuterParens ''p * 2''" by code_simp
  with unwrap_outer_parens[of "''p * 2''"] show ?thesis by simp
qed

end
