(* ===== verification/PricingSave.thy ===== *)
theory PricingSave
  imports PricingFacts RequestRulesRoundTrip
begin

text \<open>
  What saving sends: \<open>save_loop\<close> as a search for the first model that cannot be saved and a fold over the others, the contents
  of the option maps, and what the next load reads from the texts.
\<close>

section \<open>The loop\<close>

definition saves :: "model \<Rightarrow> bool" where
  "saves m \<longleftrightarrow> billingMode m = ''tiered_expr'' \<or> (case serializeModel m of Inr _ \<Rightarrow> True | Inl _ \<Rightarrow> False)"

definition saved_ratio :: "model \<Rightarrow> option_key \<Rightarrow> jsnum option" where
  "saved_ratio m k = (case serializeModel m of Inr ser \<Rightarrow> ser k | Inl _ \<Rightarrow> None)"

definition saved_expr :: "model \<Rightarrow> string option" where
  "saved_expr m = (let final = combineBillingExpr (m_billingExpr m) (m_requestRuleExpr m) in
     if billingMode m = ''tiered_expr'' \<and> final \<noteq> [] then Some final else None)"

definition save_one :: "model \<Rightarrow> outputs \<Rightarrow> outputs" where
  "save_one m out = ratio_output (name m) (saved_ratio m) (tiered_output m out)"

lemma ratio_output_none: "ratio_output n (\<lambda>_. None) out = out"
  by (simp add: ratio_output_def)

lemma save_loop_fold:
  "save_loop ms out = (case find (\<lambda>m. \<not> saves m) ms of
     Some m \<Rightarrow> Inl (projl (serializeModel m)) | None \<Rightarrow> Inr (fold save_one ms out))"
proof (induction ms arbitrary: out)
  case (Cons m ms)
  show ?case
  proof (cases "serializeModel m")
    case (Inl e)
    then have "saved_ratio m = (\<lambda>_. None)" by (simp add: saved_ratio_def fun_eq_iff)
    then have "save_one m out = tiered_output m out" by (simp add: save_one_def ratio_output_none)
    then show ?thesis using Inl Cons by (auto simp: saves_def Let_def split: option.split)
  next
    case (Inr ser)
    then have "saved_ratio m = ser" by (simp add: saved_ratio_def fun_eq_iff)
    then show ?thesis using Inr Cons by (auto simp: saves_def Let_def save_one_def[of m] split: option.split)
  qed
qed simp

section \<open>The option maps\<close>

lemma tiered_output_eq:
  "tiered_output m out = (case saved_expr m of None \<Rightarrow> out
     | Some e \<Rightarrow> out\<lparr>mode_out := obj_set (name m) (JStr ''tiered_expr'') (mode_out out), expr_out := obj_set (name m) (JStr e) (expr_out out)\<rparr>)"
  by (simp add: tiered_output_def saved_expr_def Let_def)

lemma save_one_out:
  "ratio_out (save_one m out) k = (case saved_ratio m k of None \<Rightarrow> ratio_out out k | Some v \<Rightarrow> obj_set (name m) (JNum v) (ratio_out out k))"
  "mode_out (save_one m out) = (case saved_expr m of None \<Rightarrow> mode_out out | Some e \<Rightarrow> obj_set (name m) (JStr ''tiered_expr'') (mode_out out))"
  "expr_out (save_one m out) = (case saved_expr m of None \<Rightarrow> expr_out out | Some e \<Rightarrow> obj_set (name m) (JStr e) (expr_out out))"
  by (simp_all add: save_one_def ratio_output_def tiered_output_eq split: option.split)

text \<open>One map of the output: every model may contribute one value under its name.\<close>

definition put_all :: "(model \<Rightarrow> jsval option) \<Rightarrow> model list \<Rightarrow> jsobj \<Rightarrow> jsobj" where
  "put_all f ms ps = fold (\<lambda>m ps. case f m of None \<Rightarrow> ps | Some v \<Rightarrow> obj_set (name m) v ps) ms ps"

lemma ratio_out_fold: "ratio_out (fold save_one ms out) k = put_all (\<lambda>m. map_option JNum (saved_ratio m k)) ms (ratio_out out k)"
proof (induction ms arbitrary: out)
  case (Cons m ms)
  then show ?case by (simp add: put_all_def save_one_out split: option.split)
qed (simp add: put_all_def)

lemma mode_out_fold: "mode_out (fold save_one ms out) = put_all (\<lambda>m. map_option (\<lambda>_. JStr ''tiered_expr'') (saved_expr m)) ms (mode_out out)"
proof (induction ms arbitrary: out)
  case (Cons m ms)
  then show ?case by (simp add: put_all_def save_one_out split: option.split)
qed (simp add: put_all_def)

lemma expr_out_fold: "expr_out (fold save_one ms out) = put_all (\<lambda>m. map_option JStr (saved_expr m)) ms (expr_out out)"
proof (induction ms arbitrary: out)
  case (Cons m ms)
  then show ?case by (simp add: put_all_def save_one_out split: option.split)
qed (simp add: put_all_def)

lemma obj_get_put_all:
  "distinct (map name ms) \<Longrightarrow> obj_get n (put_all f ms ps) =
     (case Option.bind (find (\<lambda>m. name m = n) ms) f of Some v \<Rightarrow> Some v | None \<Rightarrow> obj_get n ps)"
proof (induction ms arbitrary: ps)
  case (Cons m ms)
  let ?ps = "case f m of None \<Rightarrow> ps | Some v \<Rightarrow> obj_set (name m) v ps"
  have step: "put_all f (m # ms) ps = put_all f ms ?ps" by (simp add: put_all_def)
  show ?case
  proof (cases "name m = n")
    case True
    then have "find (\<lambda>m. name m = n) ms = None" using Cons.prems by (intro find_key_None) auto
    then show ?thesis using True Cons step by (auto simp: obj_get_set split: option.split)
  next
    case False
    then show ?thesis using Cons step by (auto simp: obj_get_set split: option.split)
  qed
qed (simp add: put_all_def)

lemma plain_keys_set:
  assumes "plain_keys ps" "\<not> is_index k"
  shows "plain_keys (obj_set k v ps)"
proof -
  have "distinct (map fst (obj_set k v ps))" using assms obj_ok_set[of ps k v] by (simp add: plain_keys_def obj_ok_def)
  moreover have "list_all (\<lambda>p. \<not> is_index (fst p)) (obj_set k v ps)"
    using assms by (auto simp: plain_keys_def obj_set_def list_all_iff split: if_splits prod.splits)
  ultimately show ?thesis by (simp add: plain_keys_def)
qed

lemma safe_vals_set:
  "list_all (\<lambda>p. json_safe (snd p)) ps \<Longrightarrow> json_safe v \<Longrightarrow> \<not> is_index k \<Longrightarrow> list_all (\<lambda>p. json_safe (snd p)) (obj_set k v ps)"
  by (auto simp: obj_set_def list_all_iff split: if_splits prod.splits)

lemma put_all_safe:
  assumes "\<forall>m\<in>set ms. \<not> is_index (name m) \<and> (\<forall>v. f m = Some v \<longrightarrow> json_safe v)"
    "plain_keys ps" "list_all (\<lambda>p. json_safe (snd p)) ps"
  shows "json_safe (JObj (put_all f ms ps))"
  using assms
proof (induction ms arbitrary: ps)
  case (Cons m ms)
  let ?ps = "case f m of None \<Rightarrow> ps | Some v \<Rightarrow> obj_set (name m) v ps"
  have "plain_keys ?ps" "list_all (\<lambda>p. json_safe (snd p)) ?ps"
    using Cons.prems plain_keys_set safe_vals_set by (auto split: option.split)
  then have "json_safe (JObj (put_all f ms ?ps))" using Cons.prems by (intro Cons.IH) auto
  then show ?case by (simp add: put_all_def)
next
  case Nil
  then show ?case using json_safe_obj by (simp add: put_all_def)
qed

lemma parseOption_pretty: "json_safe (JObj ps) \<Longrightarrow> parseOptionJSON (Some (json_pretty (JObj ps))) = ps"
  using pretty_obj_trimmed[of ps] indented.dec_enc[of "JObj ps"] by (simp add: parseOptionJSON_def)

section \<open>Reading the saved texts again\<close>

lemma option_name_neq: "option_name k \<noteq> ''billing_setting.billing_mode''" "option_name k \<noteq> ''billing_setting.billing_expr''"
  by (cases k; simp)+

lemma request_lookup:
  "map_of (requestQueue out) (option_name k) = Some (json_pretty (JObj (ratio_out out k)))"
  "map_of (requestQueue out) ''billing_setting.billing_mode'' = Some (json_pretty (JObj (mode_out out)))"
  "map_of (requestQueue out) ''billing_setting.billing_expr'' = Some (json_pretty (JObj (expr_out out)))"
  by (cases k; simp add: requestQueue_def option_keys_def)+

lemma key_map_source: "key_map k (source_of options) = parseOptionJSON (options (option_name k))"
  by (cases k) (simp_all add: source_of_def)

definition num_val :: "jsnum option \<Rightarrow> jsval" where
  "num_val x = (case x of None \<Rightarrow> JUndef | Some v \<Rightarrow> JNum v)"

lemma jget_put_all:
  assumes "distinct (map name ms)" "m \<in> set ms"
  shows "jget (name m) (JObj (put_all f ms [])) = (case f m of None \<Rightarrow> JUndef | Some v \<Rightarrow> v)"
proof -
  have "find (\<lambda>x. name x = name m) ms = Some m"
    using assms by (rule find_key_Some)
  then show ?thesis using obj_get_put_all[OF assms(1), of "name m" f "[]"]
    by (simp add: jget_obj obj_get_def split: option.split)
qed

lemma reload_maps:
  assumes d: "distinct (map name ms)" and m: "m \<in> set ms" and names: "\<forall>m\<in>set ms. \<not> is_index (name m)"
    and nums: "\<forall>m\<in>set ms. \<forall>k x. saved_ratio m k = Some x \<longrightarrow> num_ok x"
  defines "maps \<equiv> source_of (map_of (requestQueue (fold save_one ms no_outputs)))"
  shows "jget (name m) (JObj (key_map k maps)) = num_val (saved_ratio m k)"
    "jget (name m) (JObj (sm_ModelBillingMode maps)) = (case saved_expr m of None \<Rightarrow> JUndef | Some e \<Rightarrow> JStr ''tiered_expr'')"
    "jget (name m) (JObj (sm_ModelBillingExpr maps)) = (case saved_expr m of None \<Rightarrow> JUndef | Some e \<Rightarrow> JStr e)"
proof -
  have pl: "plain_keys []" by (simp add: plain_keys_def)
  have "json_safe (JObj (put_all (\<lambda>m. map_option JNum (saved_ratio m k)) ms []))"
    using names nums pl by (intro put_all_safe) auto
  then have "key_map k maps = put_all (\<lambda>m. map_option JNum (saved_ratio m k)) ms []"
    by (simp add: maps_def key_map_source request_lookup parseOption_pretty ratio_out_fold no_outputs_def)
  then show "jget (name m) (JObj (key_map k maps)) = num_val (saved_ratio m k)"
    using jget_put_all[OF d m] by (simp add: num_val_def split: option.split)
  have "json_safe (JObj (put_all (\<lambda>m. map_option (\<lambda>_. JStr ''tiered_expr'') (saved_expr m)) ms []))"
    using names pl by (intro put_all_safe) auto
  then have "sm_ModelBillingMode maps = put_all (\<lambda>m. map_option (\<lambda>_. JStr ''tiered_expr'') (saved_expr m)) ms []"
    by (simp add: maps_def source_of_def request_lookup parseOption_pretty mode_out_fold no_outputs_def)
  then show "jget (name m) (JObj (sm_ModelBillingMode maps)) = (case saved_expr m of None \<Rightarrow> JUndef | Some e \<Rightarrow> JStr ''tiered_expr'')"
    using jget_put_all[OF d m] by (simp split: option.split)
  have "json_safe (JObj (put_all (\<lambda>m. map_option JStr (saved_expr m)) ms []))"
    using names pl by (intro put_all_safe) auto
  then have "sm_ModelBillingExpr maps = put_all (\<lambda>m. map_option JStr (saved_expr m)) ms []"
    by (simp add: maps_def source_of_def request_lookup parseOption_pretty expr_out_fold no_outputs_def)
  then show "jget (name m) (JObj (sm_ModelBillingExpr maps)) = (case saved_expr m of None \<Rightarrow> JUndef | Some e \<Rightarrow> JStr e)"
    using jget_put_all[OF d m] by (simp split: option.split)
qed

section \<open>Properties of loading and saving\<close>

text \<open>What the next load relies on: the name is no array index, the model can be saved, and its numbers are printed in a form
  that reads back.\<close>

definition savable :: "model \<Rightarrow> bool" where
  "savable m \<longleftrightarrow> \<not> is_index (name m) \<and> saves m \<and>
     list_all (\<lambda>k. case saved_ratio m k of None \<Rightarrow> True | Some x \<Rightarrow> num_ok x) option_keys"

lemma find_unsaved_None: "list_all saves ms \<Longrightarrow> find (\<lambda>m. \<not> saves m) ms = None"
  by (auto simp: find_None_iff list_all_iff)

lemma submit_begin_ok: "list_all saves (models s) \<Longrightarrow> submit_begin s = (requestQueue (fold save_one (models s) no_outputs), s\<lparr>loading := True\<rparr>)"
  by (simp add: submit_begin_def save_loop_fold find_unsaved_None)

lemma savableD: "list_all savable ms \<Longrightarrow> list_all saves ms \<and> (\<forall>m\<in>set ms. \<not> is_index (name m)) \<and>
    (\<forall>m\<in>set ms. \<forall>k x. saved_ratio m k = Some x \<longrightarrow> num_ok x)"
  using option_key_all[of "\<lambda>k. case saved_ratio m k of None \<Rightarrow> True | Some x \<Rightarrow> num_ok x" for m]
  by (fastforce simp: savable_def list_all_iff[of _ ms] split: option.splits)

lemma reload_requests:
  assumes "list_all savable (models s)" "distinct (map name (models s))" "m \<in> set (models s)"
  defines "maps \<equiv> source_of (map_of (fst (submit_begin s)))"
  shows "jget (name m) (JObj (key_map k maps)) = num_val (saved_ratio m k)"
    "jget (name m) (JObj (sm_ModelBillingMode maps)) = (case saved_expr m of None \<Rightarrow> JUndef | Some e \<Rightarrow> JStr ''tiered_expr'')"
    "jget (name m) (JObj (sm_ModelBillingExpr maps)) = (case saved_expr m of None \<Rightarrow> JUndef | Some e \<Rightarrow> JStr e)"
  using reload_maps[OF assms(2,3)] savableD[OF assms(1)] submit_begin_ok[of s] by (simp_all add: maps_def)

text \<open>C2. Save and reload: when all models can be saved, the texts that the save sends, parsed as the next load parses them, hold
  for every model exactly the numbers \<open>serializeModel\<close> computed, nothing where it computed \<open>null\<close>, and the billing mode and
  combined expression of exactly the tiered models with an expression.\<close>

theorem pricing_save_reload:
  assumes "list_all savable (models s)" "distinct (map name (models s))" "m \<in> set (models s)"
  shows "let maps = source_of (map_of (fst (submit_begin s))) in
     (\<forall>k. jget (name m) (JObj (key_map k maps)) = num_val (saved_ratio m k)) \<and>
     jget (name m) (JObj (sm_ModelBillingMode maps)) = (case saved_expr m of None \<Rightarrow> JUndef | Some e \<Rightarrow> JStr ''tiered_expr'') \<and>
     jget (name m) (JObj (sm_ModelBillingExpr maps)) = (case saved_expr m of None \<Rightarrow> JUndef | Some e \<Rightarrow> JStr e)"
  using reload_requests[OF assms] by (simp add: Let_def)

definition sample_priced :: model where
  "sample_priced = EMPTY_MODEL\<lparr>name := ''gpt-4o'', inputPrice := ''30'', completionPrice := ''60''\<rparr>"

definition sample_tiered :: model where
  "sample_tiered = EMPTY_MODEL\<lparr>name := ''claude'', billingMode := ''tiered_expr'', m_billingExpr := ''p * 2.5 + c * 15'',
     m_requestRuleExpr := buildRequestRuleExpr sample_rules\<rparr>"

definition sample_state :: pr_state where
  "sample_state = (initial_pricing ''all'')\<lparr>models := [sample_priced, sample_tiered]\<rparr>"

lemma sample_savable: "list_all savable (models sample_state)"
  by code_simp

lemma sample_distinct: "distinct (map name (models sample_state))"
  by code_simp

lemma sample_in: "sample_priced \<in> set (models sample_state)" "sample_tiered \<in> set (models sample_state)"
  by (simp_all add: sample_state_def)

theorem pricing_save_reload_witness:
  "jget ''gpt-4o'' (JObj (sm_CompletionRatio (source_of (map_of (fst (submit_begin sample_state)))))) = JNum (Fin 2)"
proof -
  have "saved_ratio sample_priced KCompletionRatio = Some (Fin 2)" "name sample_priced = ''gpt-4o''" by code_simp+
  then show ?thesis
    using pricing_save_reload[OF sample_savable sample_distinct sample_in(1)]
    by (auto simp: Let_def num_val_def dest!: spec[of _ KCompletionRatio])
qed



text \<open>C31. All or nothing: the save sends the ten option texts exactly when every model that is not tiered can be serialised;
  otherwise it sends nothing and shows the error of the first such model. A tiered model never blocks the save.\<close>

theorem save_all_or_nothing:
  "(case find (\<lambda>m. \<not> saves m) (models s) of
      Some m \<Rightarrow> billingMode m \<noteq> ''tiered_expr'' \<and> (\<exists>e. serializeModel m = Inl e \<and>
         submit_begin s = ([], s\<lparr>toasts := toasts s @ [SerializeFailed e], loading := False\<rparr>))
    | None \<Rightarrow> (\<exists>reqs. submit_begin s = (reqs, s\<lparr>loading := True\<rparr>) \<and>
         map fst reqs = map option_name option_keys @ [''billing_setting.billing_mode'', ''billing_setting.billing_expr'']))"
proof (cases "find (\<lambda>m. \<not> saves m) (models s)")
  case None
  then show ?thesis by (simp add: submit_begin_def save_loop_fold requestQueue_def)
next
  case (Some m)
  then have "\<not> saves m" by (auto simp: find_Some_iff)
  then obtain e where "serializeModel m = Inl e" "billingMode m \<noteq> ''tiered_expr''" by (auto simp: saves_def split: sum.splits)
  then show ?thesis using Some by (simp add: submit_begin_def save_loop_fold toast_def)
qed

text \<open>Integral ratios survive the price form: a model stored with integral ratios of at most 10000, a positive model
  ratio, no fixed price and no audio completion ratio without a positive audio ratio is shown in prices and serialised to exactly
  the ratios that were stored, also when the backend locks its completion ratio.\<close>

theorem integral_ratios_stable:
  assumes "jget nm (JObj (sm_ModelBillingMode maps)) \<noteq> JStr ''tiered_expr''"
    "\<And>k. jget nm (JObj (key_map k maps)) = int_val (r k)" "\<And>k. opt_bound 10000 (r k)"
    "r KModelPrice = None" "r KModelRatio = Some R" "0 < R"
    "r KAudioRatio = Some A \<and> 0 < A \<or> r KAudioRatio = None \<and> r KAudioCompletionRatio = None"
  shows "\<exists>m ser. buildModelState nm maps = Inr m \<and> serializeModel m = Inr ser \<and> (\<forall>k. ser k = int_num (r k))"
  using load_save_int[OF assms(2-7)] assms(1) by (auto simp: buildModelState_def)

definition sample_maps :: source_maps where
  "sample_maps = \<lparr>sm_ModelPrice = [], sm_ModelRatio = [(''o1'', JNum (Fin 15))], sm_CompletionRatio = [(''o1'', JNum (Fin 4))],
     sm_CompletionRatioMeta = [], sm_CacheRatio = [], sm_CreateCacheRatio = [], sm_ImageRatio = [],
     sm_AudioRatio = [(''o1'', JNum (Fin 20))], sm_AudioCompletionRatio = [(''o1'', JNum (Fin 2))],
     sm_ModelBillingMode = [], sm_ModelBillingExpr = []\<rparr>"

definition sample_ratios :: "option_key \<Rightarrow> int option" where
  "sample_ratios = (\<lambda>_. None)(KModelRatio \<mapsto> 15, KCompletionRatio \<mapsto> 4, KAudioRatio \<mapsto> 20, KAudioCompletionRatio \<mapsto> 2)"

theorem integral_ratios_stable_witness:
  "\<exists>m ser. buildModelState ''o1'' sample_maps = Inr m \<and> serializeModel m = Inr ser \<and> (\<forall>k. ser k = int_num (sample_ratios k))"
proof (rule integral_ratios_stable[where R = 15 and A = 20])
  show "jget ''o1'' (JObj (sm_ModelBillingMode sample_maps)) \<noteq> JStr ''tiered_expr''" by code_simp
  fix k
  show "jget ''o1'' (JObj (key_map k sample_maps)) = int_val (sample_ratios k)"
    by (cases k) (simp_all add: sample_maps_def sample_ratios_def int_val_def jget_def obj_get_def)
  show "opt_bound 10000 (sample_ratios k)" by (cases k) (simp_all add: sample_ratios_def opt_bound_def)
qed (simp_all add: sample_ratios_def)

text \<open>C32. The preview shows what is saved: for a per-token model with an input price, every row of the preview is the number that
  is saved for its option, and an empty row saves nothing; only a locked completion ratio is shown from the backend's data. Without an
  input price, and for a per-request model, the row's text is what is normalised and saved.\<close>

theorem preview_is_saved:
  assumes "serializeModel m = Inr ser" "(option_name k, v) \<in> set (buildPreviewRows (Some m))"
    "k = KCompletionRatio \<longrightarrow> \<not> completionRatioLocked m" "billingMode m \<in> {''per-token'', ''per-request''}"
  shows "ser k = (if billingMode m = ''per-token'' \<and> toNumberOrNull (JStr (inputPrice m)) \<noteq> None then shown_number v else shown_raw v)"
  using assms preview_priced[OF _ _ assms(1,2,3)] preview_raw[OF _ _ assms(1,2)] preview_request[OF _ assms(1,2)]
  by (cases "toNumberOrNull (JStr (inputPrice m))") auto

theorem preview_is_saved_witness:
  "saved_ratio sample_priced KCompletionRatio = shown_number (RowText ''2'')"
proof -
  obtain ser where s: "serializeModel sample_priced = Inr ser" "ser KCompletionRatio = saved_ratio sample_priced KCompletionRatio"
  proof -
    have "(case serializeModel sample_priced of Inr _ \<Rightarrow> True | Inl _ \<Rightarrow> False)" by code_simp
    then show ?thesis by (intro that[of "projr (serializeModel sample_priced)"]) (auto simp: saved_ratio_def split: sum.splits)
  qed
  have "(option_name KCompletionRatio, RowText ''2'') \<in> set (buildPreviewRows (Some sample_priced))"
    "\<not> completionRatioLocked sample_priced" "billingMode sample_priced \<in> {''per-token'', ''per-request''}"
    "billingMode sample_priced = ''per-token''" "toNumberOrNull (JStr (inputPrice sample_priced)) \<noteq> None"
    by code_simp+
  with preview_is_saved[OF s(1), of KCompletionRatio "RowText ''2''"] s(2) show ?thesis by simp
qed

text \<open>The warnings are enough: a per-token model for which neither missing-price warning is shown can be saved, provided its
  input and audio input prices are blank or numbers and the audio input price is not zero.\<close>

theorem unwarned_model_saves:
  assumes "billingMode m = ''per-token''" "NeedInputPrice \<notin> set (getModelWarnings (Some m))"
    "NeedAudioInputPrice \<notin> set (getModelWarnings (Some m))"
    "numeric_or_blank (inputPrice m)" "numeric_or_blank (audioInputPrice m)" "toNumberOrNull (JStr (audioInputPrice m)) \<noteq> Some (Fin 0)"
  shows "\<exists>ser. serializeModel m = Inr ser"
  using assms by (rule serialize_total)

theorem unwarned_model_saves_witness: "\<exists>ser. serializeModel sample_priced = Inr ser"
proof (rule unwarned_model_saves)
  show "billingMode sample_priced = ''per-token''" "NeedInputPrice \<notin> set (getModelWarnings (Some sample_priced))"
    "NeedAudioInputPrice \<notin> set (getModelWarnings (Some sample_priced))" "numeric_or_blank (inputPrice sample_priced)"
    "numeric_or_blank (audioInputPrice sample_priced)" "toNumberOrNull (JStr (audioInputPrice sample_priced)) \<noteq> Some (Fin 0)"
    by code_simp+
qed

text \<open>Loading a tiered model discards its ratios: whatever prices and ratios the options hold for a model whose billing mode
  is the tiered expression, the loaded model serialises to \<open>null\<close> for all eight options, so the next save removes them.\<close>

theorem tiered_load_drops_ratios:
  assumes "jget nm (JObj (sm_ModelBillingMode maps)) = JStr ''tiered_expr''" "buildModelState nm maps = Inr m"
  shows "serializeModel m = Inr (\<lambda>_. None)"
proof -
  obtain b q where "m = EMPTY_MODEL\<lparr>name := nm, billingMode := ''tiered_expr'', m_billingExpr := b, m_requestRuleExpr := q\<rparr>"
    using assms by (auto simp: buildModelState_def tiered_state_def split: sum.splits jsval.splits if_splits)
  then show ?thesis
    by (simp add: serializeModel_def EMPTY_MODEL_def EMPTY_RATIOS_def raw_number_def fun_eq_iff)
qed

theorem tiered_load_drops_ratios_witness:
  "\<exists>m. buildModelState ''o1'' (sample_maps\<lparr>sm_ModelBillingMode := [(''o1'', JStr ''tiered_expr'')],
      sm_ModelBillingExpr := [(''o1'', JStr ''p * 2'')]\<rparr>) = Inr m \<and> serializeModel m = Inr (\<lambda>_. None)"
proof -
  let ?maps = "sample_maps\<lparr>sm_ModelBillingMode := [(''o1'', JStr ''tiered_expr'')], sm_ModelBillingExpr := [(''o1'', JStr ''p * 2'')]\<rparr>"
  have "(case buildModelState ''o1'' ?maps of Inr _ \<Rightarrow> True | Inl _ \<Rightarrow> False)" by code_simp
  then obtain m where m: "buildModelState ''o1'' ?maps = Inr m" by (auto split: sum.splits)
  have "jget ''o1'' (JObj (sm_ModelBillingMode ?maps)) = JStr ''tiered_expr''" by code_simp
  then show ?thesis using tiered_load_drops_ratios m by blast
qed

text \<open>A model with input price zero loses its dependent ratios: every quotient by the input price is infinite or not a
  number, and the save stores nothing for the completion (unless locked), cache, image and audio ratios, without an error.\<close>

theorem zero_price_drops_ratios:
  assumes "billingMode m = ''per-token''" "toNumberOrNull (JStr (inputPrice m)) = Some (Fin 0)" "serializeModel m = Inr ser"
    "k \<in> {KCacheRatio, KCreateCacheRatio, KImageRatio, KAudioRatio} \<or> (k = KCompletionRatio \<and> \<not> completionRatioLocked m)"
  shows "ser k = None"
  using serialize_priced_at(3-7)[OF assms(1-3)] assms(4) by (auto simp: price_ratio_zero)

theorem zero_price_drops_ratios_witness:
  "saved_ratio (EMPTY_MODEL\<lparr>inputPrice := ''0'', completionPrice := ''0''\<rparr>) KCompletionRatio = None"
proof -
  let ?m = "EMPTY_MODEL\<lparr>inputPrice := ''0'', completionPrice := ''0''\<rparr>"
  have a: "billingMode ?m = ''per-token''" "toNumberOrNull (JStr (inputPrice ?m)) = Some (Fin 0)" "\<not> completionRatioLocked ?m"
    by code_simp+
  show ?thesis
    using zero_price_drops_ratios[OF a(1,2), of _ KCompletionRatio] a(3) by (simp add: saved_ratio_def split: sum.split)
qed



end
