(* ===== verification/PricingReach.thy ===== *)
theory PricingReach
  imports PricingSave "HOL-Library.Multiset"
begin

text \<open>
  The pricing page as a state machine: every event of the hook is a step, and in every state reached from the initial one the names
  are distinct, the toggles belong to the models, the selection exists and the ticked models are visible. The table of what a
  save would store is the abstract view that the editing operations refine.
\<close>

section \<open>Steps\<close>

definition BILLING_MODES :: "string list" where
  "BILLING_MODES = [''per-token'', ''per-request'', ''tiered_expr'']"

inductive pr_step :: "(string \<Rightarrow> string \<Rightarrow> bool) \<Rightarrow> pr_state \<Rightarrow> pr_state \<Rightarrow> bool" for le where
  Load: "load_effect le cs opts s = Inr s' \<Longrightarrow> pr_step le s s'"
| LoadCandidates: "load_effect le cs opts s = Inr s' \<Longrightarrow> pr_step le s (reset_page s')"
| Select: "pr_step le s (after_select (s\<lparr>selectedModelName := n\<rparr>))"
| Tick: "set ns \<subseteq> name ` set (visibleModels s) \<Longrightarrow> pr_step le s (s\<lparr>selectedModelNames := ns\<rparr>)"
| Search: "pr_step le s (reset_page (s\<lparr>searchText := t\<rparr>))"
| ConflictOnly: "pr_step le s (reset_page (s\<lparr>conflictOnly := b\<rparr>))"
| Page: "1 \<le> p \<Longrightarrow> pr_step le s (s\<lparr>currentPage := p\<rparr>)"
| Toggle: "pr_step le s (handleOptionalFieldToggle f b s)"
| Numeric: "pr_step le s (handleNumericFieldChange f v s)"
| Mode: "v \<in> set BILLING_MODES \<Longrightarrow> pr_step le s (handleBillingModeChange v s)"
| Expr: "pr_step le s (handleBillingExprChange e s)"
| Rules: "pr_step le s (handleRequestRuleExprChange e s)"
| Add: "pr_step le s (fst (addModel n s))"
| Delete: "pr_step le s (deleteModel n s)"
| Apply: "pr_step le s (fst (applySelectedModelPricing s))"
| SubmitBegin: "pr_step le s (snd (submit_begin s))"
| SubmitEnd: "pr_step le s (submit_end res s)"

inductive pr_reach :: "(string \<Rightarrow> string \<Rightarrow> bool) \<Rightarrow> string \<Rightarrow> pr_state \<Rightarrow> bool" for le fm where
  Init: "pr_reach le fm (initial_pricing fm)"
| Step: "pr_reach le fm s \<Longrightarrow> pr_step le s s' \<Longrightarrow> pr_reach le fm s'"

section \<open>The invariant\<close>

definition pr_base :: "pr_state \<Rightarrow> bool" where
  "pr_base s \<longleftrightarrow> distinct (map name (models s)) \<and> dom (optionalFieldToggles s) = name ` set (models s) \<and>
     (\<forall>m\<in>set (models s). billingMode m \<in> set BILLING_MODES) \<and> 1 \<le> currentPage s"

definition pr_selection :: "pr_state \<Rightarrow> bool" where
  "pr_selection s \<longleftrightarrow> (if visibleModels s = [] then selectedModelName s = [] else selectedModelName s \<in> name ` set (visibleModels s)) \<and>
     set (selectedModelNames s) \<subseteq> name ` set (visibleModels s)"

definition pr_inv :: "pr_state \<Rightarrow> bool" where
  "pr_inv s \<longleftrightarrow> pr_base s \<and> pr_selection s"

lemma has_name_iff: "has_name n ms \<longleftrightarrow> n \<in> name ` set ms"
  by (auto simp: has_name_def list_ex_iff)

lemma visible_cong:
  "filterMode s = filterMode t \<Longrightarrow> models s = models t \<Longrightarrow> initialVisibleModelNames s = initialVisibleModelNames t \<Longrightarrow>
   visibleModels s = visibleModels t"
  by (simp add: visibleModels_def)

lemma visible_upd [simp]:
  "visibleModels (s\<lparr>selectedModelName := n\<rparr>) = visibleModels s" "visibleModels (s\<lparr>selectedModelNames := ns\<rparr>) = visibleModels s"
  "visibleModels (s\<lparr>searchText := t\<rparr>) = visibleModels s" "visibleModels (s\<lparr>conflictOnly := b\<rparr>) = visibleModels s"
  "visibleModels (s\<lparr>currentPage := p\<rparr>) = visibleModels s" "visibleModels (s\<lparr>loading := b\<rparr>) = visibleModels s"
  "visibleModels (s\<lparr>toasts := ts\<rparr>) = visibleModels s" "visibleModels (s\<lparr>optionalFieldToggles := tg\<rparr>) = visibleModels s"
  by (simp_all add: visibleModels_def)

lemma visible_sub: "set (visibleModels s) \<subseteq> set (models s)"
  by (auto simp: visibleModels_def)

lemma after_select_keeps:
  "models (after_select s) = models s" "visibleModels (after_select s) = visibleModels s"
  "optionalFieldToggles (after_select s) = optionalFieldToggles s" "currentPage (after_select s) = currentPage s"
  "selectedModelNames (after_select s) = selectedModelNames s" "toasts (after_select s) = toasts s"
  by (simp_all add: after_select_def)

lemma filter_selected_keeps:
  "models (filter_selected s) = models s" "visibleModels (filter_selected s) = visibleModels s"
  "optionalFieldToggles (filter_selected s) = optionalFieldToggles s" "currentPage (filter_selected s) = currentPage s"
  "toasts (filter_selected s) = toasts s"
  by (simp_all add: filter_selected_def)

lemma after_models_keeps [simp]:
  "models (after_models s) = models s" "visibleModels (after_models s) = visibleModels s"
  "optionalFieldToggles (after_models s) = optionalFieldToggles s" "currentPage (after_models s) = currentPage s"
  "toasts (after_models s) = toasts s"
  by (simp_all add: after_models_def after_select_keeps filter_selected_keeps)

lemma after_select_selection:
  "set (selectedModelNames s) \<subseteq> name ` set (visibleModels s) \<Longrightarrow> pr_selection (after_select s)"
  unfolding pr_selection_def after_select_keeps
  by (cases "visibleModels s") (auto simp: after_select_def has_name_iff)

lemma after_models_selection: "pr_selection (after_models s)"
  unfolding after_models_def by (rule after_select_selection) (auto simp: filter_selected_def has_name_iff)

lemma after_models_inv: "pr_base s \<Longrightarrow> pr_inv (after_models s)"
  by (simp add: pr_inv_def after_models_selection) (simp add: pr_base_def)

lemma selected_in: "selectedModel s = Some m \<Longrightarrow> m \<in> set (models s) \<and> m \<in> set (visibleModels s) \<and> name m = selectedModelName s"
  using visible_sub[of s] by (auto simp: selectedModel_def find_Some_iff)

section \<open>Loading\<close>

lemma map_sum_list_names:
  assumes "map_sum_list (\<lambda>n. buildModelState n maps) ns = Inr ms"
  shows "map name ms = ns \<and> (\<forall>m\<in>set ms. billingMode m \<in> set BILLING_MODES)"
proof -
  have one: "name m = n \<and> billingMode m \<in> set BILLING_MODES" if "buildModelState n maps = Inr m" for n m
    using that by (auto simp: buildModelState_def tiered_state_def ratio_state_fields BILLING_MODES_def split: sum.splits jsval.splits if_splits)
  show ?thesis using assms
  proof (induction ns arbitrary: ms)
    case (Cons n ns)
    then show ?case using one by (auto split: sum.splits)
  qed simp
qed

lemma mset_insert_by: "mset (insert_by le x xs) = add_mset x (mset xs)"
  by (induction xs) auto

lemma mset_sort_by: "mset (sort_by le xs) = mset xs"
  by (induction xs) (simp_all add: sort_by_def mset_insert_by)

lemma set_sort_by [simp]: "set (sort_by le xs) = set xs"
  by (metis mset_sort_by set_mset_mset)

lemma distinct_js_set: "distinct (js_set xs)" "set (js_set xs) = set xs"
  by (simp_all add: js_set_def)

lemma load_models_names:
  assumes "load_models le cs maps = Inr ms"
  shows "distinct (map name ms)" "set (map name ms) = set (model_names cs maps)" "\<forall>m\<in>set ms. billingMode m \<in> set BILLING_MODES"
proof -
  obtain us where us: "map_sum_list (\<lambda>n. buildModelState n maps) (model_names cs maps) = Inr us"
      "ms = sort_by (\<lambda>a b. le (name a) (name b)) us"
    using assms by (auto simp: load_models_def split: sum.splits)
  note names = map_sum_list_names[OF us(1)]
  have "mset (map name ms) = mset (map name us)" using us(2) by (simp add: mset_sort_by)
  then show "distinct (map name ms)" using names distinct_js_set(1) by (metis mset_eq_imp_distinct_iff model_names_def)
  show "set (map name ms) = set (model_names cs maps)" using names us(2) by (metis set_sort_by list.set_map)
  show "\<forall>m\<in>set ms. billingMode m \<in> set BILLING_MODES" using names us(2) by simp
qed

text \<open>The toggles of the page are a store.\<close>

interpretation tog: keyed_store "\<lambda>k m. m k" "\<lambda>k v m. m(k \<mapsto> v)" "\<lambda>k m. m(k := None)" "\<lambda>_. True"
  by unfold_locales auto

lemma dom_fold_toggles: "dom (fold (\<lambda>x acc. acc(key x \<mapsto> val x)) xs tg) = key ` set xs \<union> dom tg"
  by (induction xs arbitrary: tg) auto

lemma load_inv:
  assumes "load_effect le cs opts s = Inr s'" "1 \<le> currentPage s"
  shows "pr_inv s'"
proof -
  obtain ms where ms: "load_models le cs (source_of opts) = Inr ms" using assms by (auto simp: load_effect_def split: sum.splits)
  then show ?thesis using assms load_models_names[OF ms]
    by (auto simp: load_effect_def Let_def pr_base_def dom_fold_toggles intro!: after_models_inv)
qed

section \<open>The events keep the invariant\<close>

text \<open>An update of one model that keeps its name and gives it a known billing mode.\<close>

definition good_edit :: "(model \<Rightarrow> model) \<Rightarrow> bool" where
  "good_edit f \<longleftrightarrow> (\<forall>m. name (f m) = name m \<and> (billingMode m \<in> set BILLING_MODES \<longrightarrow> billingMode (f m) \<in> set BILLING_MODES))"

lemma upd_modes:
  "good_edit f \<Longrightarrow> \<forall>m\<in>set ms. billingMode m \<in> set BILLING_MODES \<Longrightarrow> \<forall>m\<in>set (upd_by name n f ms). billingMode m \<in> set BILLING_MODES"
  by (auto simp: upd_by_def good_edit_def)

lemma names_upd: "good_edit f \<Longrightarrow> map name (upd_by name n f ms) = map name ms"
  by (rule map_key_upd_by) (simp add: good_edit_def)

lemma name_image: "name ` set ms = set (map name ms)"
  by simp

lemma upsert_base: "pr_base s \<Longrightarrow> good_edit f \<Longrightarrow> pr_base (upsertModel n f s)"
  unfolding pr_base_def upsertModel_def name_image using upd_modes[of f "models s" n] by (simp add: names_upd del: set_map)

lemma toggle_base: "pr_base s \<Longrightarrow> n \<in> name ` set (models s) \<Longrightarrow> pr_base (updateOptionalFieldToggle n f b s)"
  by (auto simp: pr_base_def updateOptionalFieldToggle_def set_toggle_def)

lemma toggle_models [simp]: "models (updateOptionalFieldToggle n f b s) = models s"
  by (simp add: updateOptionalFieldToggle_def)

lemma models_upsert [simp]: "name ` set (models (upsertModel n f s)) = name ` set (models s)" if "good_edit f"
  using names_upd[OF that, of n "models s"] by (simp add: upsertModel_def name_image del: set_map)

lemma good_set_price: "good_edit (set_price f v)"
  unfolding good_edit_def by (cases f) simp_all

lemma good_fill: "good_edit (\<lambda>m. fillDerivedPricesFromBase m v)"
  by (auto simp: good_edit_def fillDerivedPricesFromBase_def Let_def split: option.split)

lemma good_numeric: "good_edit (numeric_edit f v)"
  using good_set_price[of f v] good_fill[of v] by (auto simp: good_edit_def numeric_edit_def Let_def)

lemma good_mode: "v \<in> set BILLING_MODES \<Longrightarrow> good_edit (change_mode v)"
  by (auto simp: good_edit_def change_mode_def Let_def)

lemma good_copy: "billingMode sel \<in> set BILLING_MODES \<Longrightarrow> good_edit (copy_pricing sel)"
  by (auto simp: good_edit_def copy_pricing_def Let_def)

lemma edit_inv: "pr_inv s \<Longrightarrow> good_edit f \<Longrightarrow> pr_inv (edit_selected f s)"
  by (auto simp: edit_selected_def pr_inv_def[of s] intro!: after_models_inv upsert_base split: option.split)

lemma toggle_inv:
  assumes "pr_inv s"
  shows "pr_inv (handleOptionalFieldToggle f b s)"
proof (cases "selectedModel s")
  case (Some sel)
  let ?n = "name sel" and ?s1 = "updateOptionalFieldToggle (name sel) f b s"
  let ?g = "\<lambda>m. let next = set_price f [] m in if f = AudioInputPrice then next\<lparr>audioOutputPrice := []\<rparr> else next"
  have n: "?n \<in> name ` set (models s)" using selected_in[OF Some] by blast
  have s1: "pr_base ?s1" using assms n by (simp add: pr_inv_def toggle_base)
  have g: "good_edit ?g" using good_set_price[of f "[]"] by (simp add: good_edit_def Let_def)
  have s2: "pr_base (upsertModel ?n ?g ?s1)" using s1 g by (rule upsert_base)
  have "pr_base (if f = AudioInputPrice
      then updateOptionalFieldToggle ?n AudioOutputPrice False (updateOptionalFieldToggle ?n AudioInputPrice False (upsertModel ?n ?g ?s1))
      else upsertModel ?n ?g ?s1)"
    using s2 n g models_upsert[OF g, of ?n ?s1] by (auto intro!: toggle_base)
  then have "pr_inv (after_models (if f = AudioInputPrice
      then updateOptionalFieldToggle ?n AudioOutputPrice False (updateOptionalFieldToggle ?n AudioInputPrice False (upsertModel ?n ?g ?s1))
      else upsertModel ?n ?g ?s1))" by (rule after_models_inv)
  moreover have "pr_inv ?s1" using s1 assms by (simp add: pr_inv_def pr_selection_def updateOptionalFieldToggle_def)
  ultimately show ?thesis using Some unfolding handleOptionalFieldToggle_def by (cases b) (simp_all only: option.case Let_def if_True if_False)
qed (use assms in \<open>simp add: handleOptionalFieldToggle_def\<close>)

lemma toast_inv: "pr_inv s \<Longrightarrow> pr_inv (toast t s)"
  by (simp add: toast_def pr_inv_def pr_base_def pr_selection_def)

lemma loading_inv: "pr_inv s \<Longrightarrow> pr_inv (s\<lparr>loading := b\<rparr>)"
  by (simp add: pr_inv_def pr_base_def pr_selection_def)

lemma add_inv: "pr_inv s \<Longrightarrow> pr_inv (fst (addModel n s))"
  unfolding addModel_def Let_def
  by (auto simp: toast_inv pr_inv_def[of s] pr_base_def has_name_iff EMPTY_MODEL_def BILLING_MODES_def intro!: after_models_inv)

lemma delete_inv: "pr_inv s \<Longrightarrow> pr_inv (deleteModel n s)"
  unfolding deleteModel_def Let_def
  by (auto simp: pr_inv_def[of s] pr_base_def del_by_def distinct_map_filter intro!: after_models_inv)

lemma apply_inv:
  assumes "pr_inv s"
  shows "pr_inv (fst (applySelectedModelPricing s))"
proof (cases "selectedModel s")
  case (Some sel)
  let ?src = "case optionalFieldToggles s (name sel) of Some t \<Rightarrow> t | None \<Rightarrow> (\<lambda>_. None)"
  let ?ms = "map (\<lambda>m. if name m \<in> set (selectedModelNames s) then copy_pricing sel m else m) (models s)"
  let ?tg = "fold (\<lambda>n tg. tg(n \<mapsto> copy_toggles ?src (find (\<lambda>m. name m = n) (models s)))) (selectedModelNames s) (optionalFieldToggles s)"
  have "billingMode sel \<in> set BILLING_MODES" using assms selected_in[OF Some] by (simp add: pr_inv_def pr_base_def)
  then have good: "good_edit (copy_pricing sel)" by (rule good_copy)
  then have names: "map name ?ms = map name (models s)" by (simp add: good_edit_def)
  have modes: "\<forall>m\<in>set ?ms. billingMode m \<in> set BILLING_MODES"
    using good assms by (auto simp: good_edit_def pr_inv_def pr_base_def)
  have "set (selectedModelNames s) \<subseteq> name ` set (models s)"
    using assms image_mono[OF visible_sub, of name s] unfolding pr_inv_def pr_selection_def by blast
  then have "dom ?tg = name ` set (models s)"
    using assms unfolding dom_fold_toggles[of "\<lambda>n. n"] pr_inv_def pr_base_def by auto
  then have "pr_base (toast (Applied (name sel) (length (selectedModelNames s))) (s\<lparr>models := ?ms, optionalFieldToggles := ?tg\<rparr>))"
    using assms names modes unfolding pr_base_def pr_inv_def name_image toast_def by (simp del: set_map map_map)
  then show ?thesis using Some assms toast_inv
    by (auto simp: applySelectedModelPricing_def Let_def intro: after_models_inv)
qed (use assms toast_inv in \<open>simp add: applySelectedModelPricing_def\<close>)

lemma submit_inv: "pr_inv s \<Longrightarrow> pr_inv (snd (submit_begin s))" "pr_inv s \<Longrightarrow> pr_inv (submit_end r s)"
  by (auto simp: submit_begin_def submit_end_def intro!: loading_inv toast_inv split: sum.split save_answer.split option.split)

lemma step_inv: "pr_step le s s' \<Longrightarrow> pr_inv s \<Longrightarrow> pr_inv s'"
proof (induction rule: pr_step.induct)
  case (Load cs opts s s')
  then show ?case using load_inv[of le cs opts s s'] by (simp add: pr_inv_def pr_base_def)
next
  case (LoadCandidates cs opts s s')
  then have "pr_inv s'" using load_inv[of le cs opts s s'] by (simp add: pr_inv_def pr_base_def)
  then show ?case by (simp add: pr_inv_def pr_base_def pr_selection_def reset_page_def)
next
  case (Select s n)
  then have "pr_selection (after_select (s\<lparr>selectedModelName := n\<rparr>))"
    by (intro after_select_selection) (simp add: pr_inv_def pr_selection_def)
  then show ?case using Select by (simp add: pr_inv_def pr_base_def after_select_keeps)
next
  case (Toggle s f b)
  then show ?case by (rule toggle_inv)
next
  case (Numeric s f v)
  then show ?case using good_numeric edit_inv by (simp add: handleNumericFieldChange_def)
next
  case (Mode v s)
  then show ?case using good_mode edit_inv by (simp add: handleBillingModeChange_def)
next
  case (Expr s e)
  then show ?case by (auto simp: handleBillingExprChange_def good_edit_def intro!: edit_inv)
next
  case (Rules s e)
  then show ?case by (auto simp: handleRequestRuleExprChange_def good_edit_def intro!: edit_inv)
qed (simp_all add: add_inv delete_inv apply_inv submit_inv, simp_all add: pr_inv_def pr_base_def pr_selection_def reset_page_def)

lemma reach_inv: "pr_reach le fm s \<Longrightarrow> pr_inv s"
proof (induction rule: pr_reach.induct)
  case Init
  show ?case by (simp add: initial_pricing_def pr_inv_def pr_base_def pr_selection_def visibleModels_def)
qed (rule step_inv)

section \<open>The table of saved ratios\<close>

text \<open>The abstract view of the page: for every model, what a save stores for it.\<close>

type_synonym table = "string \<Rightarrow> serialized option"

definition price_table :: "pr_state \<Rightarrow> table" where
  "price_table s n = map_option saved_ratio (find (\<lambda>m. name m = n) (models s))"

definition table_edit :: "string \<Rightarrow> serialized \<Rightarrow> table \<Rightarrow> table" where
  "table_edit n r t = t(n \<mapsto> r)"

definition table_add :: "string \<Rightarrow> table \<Rightarrow> table" where
  "table_add n t = (if n = [] \<or> n \<in> dom t then t else t(n \<mapsto> (\<lambda>_. None)))"

definition table_delete :: "string \<Rightarrow> table \<Rightarrow> table" where
  "table_delete n t = t(n := None)"

lemma selected_find:
  assumes "pr_inv s" "selectedModel s = Some sel"
  shows "find (\<lambda>m. name m = name sel) (models s) = Some sel"
  using assms selected_in[OF assms(2)] by (intro find_key_Some) (auto simp: pr_inv_def pr_base_def)

lemma table_delete_refines: "price_table (deleteModel n s) = table_delete n (price_table s)"
  by (auto simp: price_table_def deleteModel_def Let_def table_delete_def find_del_by)

lemma saved_empty: "saved_ratio (EMPTY_MODEL\<lparr>name := n\<rparr>) = (\<lambda>_. None)"
  by (simp add: saved_ratio_def serializeModel_def EMPTY_MODEL_def EMPTY_RATIOS_def raw_number_def fun_eq_iff)

lemma dom_price_table: "dom (price_table s) = name ` set (models s)"
proof -
  have "price_table s n = None \<longleftrightarrow> n \<notin> name ` set (models s)" for n
    unfolding price_table_def option.map_disc_iff by (rule find_key_None_iff)
  then show ?thesis by (auto simp: dom_def)
qed

lemma table_add_refines: "price_table (fst (addModel n s)) = table_add (trim n) (price_table s)"
proof (cases "trim n = [] \<or> has_name (trim n) (models s)")
  case True
  then have "models (fst (addModel n s)) = models s" by (auto simp: addModel_def Let_def toast_def)
  then show ?thesis using True by (auto simp: price_table_def table_add_def dom_price_table has_name_iff fun_eq_iff)
next
  case False
  then have "models (fst (addModel n s)) = EMPTY_MODEL\<lparr>name := trim n\<rparr> # models s" by (simp add: addModel_def Let_def)
  then show ?thesis using False
    by (auto simp: price_table_def[of "fst (addModel n s)"] table_add_def dom_price_table has_name_iff saved_empty fun_eq_iff)
      (simp_all add: price_table_def)
qed

lemma table_edit_refines:
  assumes "pr_inv s" "selectedModel s = Some sel" "good_edit f"
  shows "price_table (edit_selected f s) = table_edit (name sel) (saved_ratio (f sel)) (price_table s)"
  using selected_find[OF assms(1,2)] assms(2,3) find_upd_by[of name f] 
  by (auto simp: price_table_def edit_selected_def upsertModel_def table_edit_def good_edit_def fun_eq_iff)

section \<open>Copying a price\<close>

lemma saved_copy:
  assumes "\<not> completionRatioLocked m" "\<not> completionRatioLocked sel"
    "billingMode sel = ''per-request'' \<or> toNumberOrNull (JStr (inputPrice sel)) \<noteq> None"
  shows "saved_ratio (copy_pricing sel m) = saved_ratio sel"
proof (cases "billingMode sel = ''per-request''")
  case True
  then show ?thesis using assms by (simp add: saved_ratio_def serializeModel_def copy_pricing_def fun_eq_iff)
next
  case False
  then obtain base where b: "toNumberOrNull (JStr (inputPrice sel)) = Some base" using assms by auto
  have "billingMode (copy_pricing sel m) \<noteq> ''per-request''" "toNumberOrNull (JStr (inputPrice (copy_pricing sel m))) = Some base"
    using False b by (simp_all add: copy_pricing_def Let_def)
  note c = serialize_based[OF this]
  show ?thesis
    unfolding saved_ratio_def c serialize_based[OF False b] using assms(1,2)
    by (auto simp: copy_pricing_def Let_def fun_eq_iff split: option.split)
qed

lemma find_map_copy:
  assumes "\<And>m. name (f m) = name m"
  shows "find (\<lambda>m. name m = n) (map (\<lambda>m. if name m \<in> S then f m else m) ms) =
     map_option (\<lambda>m. if n \<in> S then f m else m) (find (\<lambda>m. name m = n) ms)"
  by (induction ms) (auto simp: assms)

section \<open>Pages\<close>

lemma concat_pages: "concat (map (\<lambda>i. take k (drop (i * k) xs)) [0..<n]) = take (n * k) xs"
proof (induction n)
  case (Suc n)
  then show ?case by (simp add: take_add[symmetric] add.commute)
qed simp

section \<open>Order\<close>

lemma sorted_insert_by:
  assumes "\<And>a b. le a b \<or> le b a" "\<And>a b c. le a b \<Longrightarrow> le b c \<Longrightarrow> le a c"
  shows "sorted_wrt le xs \<Longrightarrow> sorted_wrt le (insert_by le x xs)"
proof (induction xs)
  case (Cons y ys)
  have "set (insert_by le x ys) = insert x (set ys)" by (metis mset_insert_by set_mset_add_mset_insert set_mset_mset)
  moreover have "le x z" if "le x y" "z \<in> set ys" for z using assms(2)[OF that(1)] Cons.prems that(2) by simp
  moreover have "le y x" if "\<not> le x y" using assms(1)[of x y] that by blast
  ultimately show ?case using Cons by simp
qed simp

lemma sorted_sort_by:
  assumes "\<And>a b. le a b \<or> le b a" "\<And>a b c. le a b \<Longrightarrow> le b c \<Longrightarrow> le a c"
  shows "sorted_wrt le (sort_by le xs)"
  unfolding sort_by_def
proof (induction xs)
  case (Cons x xs)
  show ?case using sorted_insert_by[of le, OF assms Cons] by simp
qed simp

section \<open>Properties\<close>

text \<open>C3. In every reachable state of the pricing page the model names are distinct, exactly the models have toggle
  entries, billing modes are known, the page number is positive, there is a selected model unless no model is visible, and only visible
  models are ticked for the batch operation.\<close>

theorem pricing_invariant:
  assumes "pr_reach le fm s"
  shows "distinct (map name (models s)) \<and> dom (optionalFieldToggles s) = name ` set (models s) \<and>
    (\<forall>m\<in>set (models s). billingMode m \<in> set BILLING_MODES) \<and> 1 \<le> currentPage s \<and>
    (selectedModel s = None \<longleftrightarrow> visibleModels s = []) \<and> set (selectedModelNames s) \<subseteq> name ` set (visibleModels s)"
proof -
  have inv: "pr_inv s" using assms by (rule reach_inv)
  then have "selectedModel s = None \<longleftrightarrow> visibleModels s = []"
    by (auto simp: pr_inv_def pr_selection_def selectedModel_def find_None_iff split: if_splits)
  then show ?thesis using inv by (simp add: pr_inv_def pr_base_def pr_selection_def)
qed

definition sample_reached :: pr_state where
  "sample_reached = fst (addModel '' gpt-4o '' (initial_pricing ''all''))"

lemma sample_reach: "pr_reach (\<lambda>_ _. True) ''all'' sample_reached"
  unfolding sample_reached_def by (rule pr_reach.Step[OF pr_reach.Init pr_step.Add])

theorem pricing_invariant_witness: "distinct (map name (models sample_reached)) \<and> 1 \<le> currentPage sample_reached"
  using pricing_invariant[OF sample_reach] by blast

text \<open>C29. The page refines the table of saved ratios: deleting a model removes its row, adding a name adds an empty row unless the
  trimmed name is empty or taken, and an accepted numeric input changes exactly the row of the selected model, to what the edited
  model saves.\<close>

theorem pricing_table_refinement:
  assumes "pr_reach le fm s"
  shows "price_table (deleteModel n s) = table_delete n (price_table s) \<and>
    price_table (fst (addModel n s)) = table_add (trim n) (price_table s) \<and>
    (\<forall>sel f v. selectedModel s = Some sel \<and> NUMERIC_INPUT_REGEX v \<longrightarrow>
      price_table (handleNumericFieldChange f v s) = table_edit (name sel) (saved_ratio (numeric_edit f v sel)) (price_table s)) \<and>
    (\<forall>sel. selectedModel s = Some sel \<and> mode \<in> set BILLING_MODES \<longrightarrow>
      price_table (handleBillingModeChange mode s) = table_edit (name sel) (saved_ratio (change_mode mode sel)) (price_table s))"
  using table_delete_refines table_add_refines table_edit_refines[OF reach_inv[OF assms]] good_numeric good_mode
  by (simp add: handleNumericFieldChange_def handleBillingModeChange_def)

theorem pricing_table_refinement_witness:
  "price_table (deleteModel ''gpt-4o'' sample_reached) = table_delete ''gpt-4o'' (price_table sample_reached)"
  using pricing_table_refinement[OF sample_reach, of "''gpt-4o''"] by blast

text \<open>Copying the selected model's price: every ticked model whose completion ratio is not locked saves what the template saves
  (given a fixed price mode or a numeric input price), and the models that are not ticked keep their rows.\<close>

theorem apply_template_rows:
  assumes "pr_reach le fm s" "selectedModel s = Some sel" "selectedModelNames s \<noteq> []" "\<not> completionRatioLocked sel"
    "billingMode sel = ''per-request'' \<or> toNumberOrNull (JStr (inputPrice sel)) \<noteq> None"
  shows "snd (applySelectedModelPricing s) \<and>
    (\<forall>m\<in>set (models s). price_table (fst (applySelectedModelPricing s)) (name m) =
       (if name m \<in> set (selectedModelNames s) then Some (saved_ratio (copy_pricing sel m)) else price_table s (name m)) \<and>
       (\<not> completionRatioLocked m \<longrightarrow> saved_ratio (copy_pricing sel m) = saved_ratio sel))"
proof -
  have inv: "pr_inv s" using assms(1) by (rule reach_inv)
  then have d: "distinct (map name (models s))" by (simp add: pr_inv_def pr_base_def)
  have ms: "models (fst (applySelectedModelPricing s)) =
      map (\<lambda>m. if name m \<in> set (selectedModelNames s) then copy_pricing sel m else m) (models s)"
    and ok: "snd (applySelectedModelPricing s)"
    using assms(2,3) by (simp_all add: applySelectedModelPricing_def Let_def toast_def)
  have nm: "name (copy_pricing sel m) = name m" for m by (simp add: copy_pricing_def Let_def)
  have "price_table (fst (applySelectedModelPricing s)) (name m) =
      (if name m \<in> set (selectedModelNames s) then Some (saved_ratio (copy_pricing sel m)) else price_table s (name m))"
    if "m \<in> set (models s)" for m
    using find_map_copy[OF nm, of "name m" "set (selectedModelNames s)" "models s"] find_key_Some[OF d that]
    by (simp add: price_table_def ms)
  then show ?thesis using ok saved_copy[OF _ assms(4,5)] by blast
qed

definition sample_applied :: pr_state where
  "sample_applied = (handleNumericFieldChange InputPrice ''30'' sample_reached)\<lparr>selectedModelNames := [''gpt-4o'']\<rparr>"

lemma sample_applied_reach: "pr_reach (\<lambda>_ _. True) ''all'' sample_applied"
  unfolding sample_applied_def
proof (rule pr_reach.Step[OF pr_reach.Step[OF sample_reach pr_step.Numeric] pr_step.Tick])
  show "set [''gpt-4o''] \<subseteq> name ` set (visibleModels (handleNumericFieldChange InputPrice ''30'' sample_reached))" by code_simp
qed

theorem apply_template_rows_witness: "snd (applySelectedModelPricing sample_applied)"
proof -
  have "(case selectedModel sample_applied of None \<Rightarrow> False
      | Some sel \<Rightarrow> \<not> completionRatioLocked sel \<and> toNumberOrNull (JStr (inputPrice sel)) \<noteq> None)"
    "selectedModelNames sample_applied \<noteq> []" by code_simp+
  then show ?thesis using apply_template_rows[OF sample_applied_reach] by (auto split: option.splits)
qed

text \<open>Loading: the models are exactly those named by a candidate or a key of some option map, one each, in the order of the
  locale's comparison, each built from the option maps, and each with the toggles that its prices imply.\<close>

theorem load_effect_models:
  assumes "load_effect le cs opts s = Inr s'" "\<And>a b. le a b \<or> le b a" "\<And>a b c. le a b \<Longrightarrow> le b c \<Longrightarrow> le a c"
  shows "sorted_wrt (\<lambda>a b. le (name a) (name b)) (models s') \<and> distinct (map name (models s')) \<and>
    set (map name (models s')) = set (model_names cs (source_of opts)) \<and>
    (\<forall>m\<in>set (models s'). buildModelState (name m) (source_of opts) = Inr m \<and>
       optionalFieldToggles s' (name m) = Some (buildOptionalFieldToggles m))"
proof -
  obtain ms where ms: "load_models le cs (source_of opts) = Inr ms" using assms(1) by (auto simp: load_effect_def split: sum.splits)
  have s': "models s' = ms" "optionalFieldToggles s' = fold (\<lambda>m acc. acc(name m \<mapsto> buildOptionalFieldToggles m)) ms (\<lambda>_. None)"
    using assms(1) ms by (auto simp: load_effect_def Let_def)
  note names = load_models_names[OF ms]
  obtain us where us: "map_sum_list (\<lambda>n. buildModelState n (source_of opts)) (model_names cs (source_of opts)) = Inr us"
      "ms = sort_by (\<lambda>a b. le (name a) (name b)) us"
    using ms by (auto simp: load_models_def split: sum.splits)
  have "sorted_wrt (\<lambda>a b. le (name a) (name b)) ms"
    unfolding us(2) by (rule sorted_sort_by) (use assms(2,3) in blast)+
  moreover have "buildModelState (name m) (source_of opts) = Inr m" if "m \<in> set ms" for m
  proof -
    obtain i where "i < length us" "us ! i = m" using \<open>m \<in> set ms\<close> us(2) by (auto simp: in_set_conv_nth[of _ us])
    then show ?thesis using set_map_sum_list[OF us(1)] map_sum_list_names[OF us(1)] by (metis nth_map)
  qed
  moreover have "optionalFieldToggles s' (name m) = Some (buildOptionalFieldToggles m)" if "m \<in> set ms" for m
  proof -
    let ?kvs = "map (\<lambda>m. (name m, buildOptionalFieldToggles m)) ms"
    have "optionalFieldToggles s' = fold (\<lambda>(k, v) acc. acc(k \<mapsto> v)) ?kvs (\<lambda>_. None)" by (simp add: s'(2) fold_map comp_def)
    moreover have "map_of (rev ?kvs) (name m) = Some (buildOptionalFieldToggles m)"
      using names(1) that by (intro map_of_is_SomeI) (auto simp: rev_map[symmetric] comp_def)
    ultimately show ?thesis using tog.get_fold_put[where j = "name m" and kvs = ?kvs and s = "\<lambda>_. None"] by simp
  qed
  ultimately show ?thesis using names s'(1) by simp
qed

theorem load_effect_models_witness:
  "\<exists>s'. load_effect (\<lambda>a b. length a \<le> length b) [''gpt-4o'', ''o1''] (\<lambda>_. None) (initial_pricing ''all'') = Inr s' \<and>
     set (map name (models s')) = {''gpt-4o'', ''o1''} \<and> distinct (map name (models s'))"
proof -
  let ?load = "load_effect (\<lambda>a b. length a \<le> length b) [''gpt-4o'', ''o1''] (\<lambda>_. None) (initial_pricing ''all'')"
  have b: "buildModelState n (source_of (\<lambda>_. None)) = Inr (ratio_state n (source_of (\<lambda>_. None)))" for n
    by (simp add: buildModelState_def source_of_def parseOptionJSON_def jget_def obj_get_def)
  obtain s' where s': "?load = Inr s'"
    using map_sum_list_total[of _ _ "model_names _ (source_of (\<lambda>_. None))", OF b] by (auto simp: load_effect_def load_models_def Let_def)
  have "set (model_names [''gpt-4o'', ''o1''] (source_of (\<lambda>_. None))) = {''gpt-4o'', ''o1''}"
    by (simp add: model_names_def distinct_js_set source_of_def parseOptionJSON_def)
  moreover have "sorted_wrt (\<lambda>a b. length (name a) \<le> length (name b)) (models s') \<and> distinct (map name (models s')) \<and>
    set (map name (models s')) = set (model_names [''gpt-4o'', ''o1''] (source_of (\<lambda>_. None))) \<and>
    (\<forall>m\<in>set (models s'). buildModelState (name m) (source_of (\<lambda>_. None)) = Inr m \<and>
       optionalFieldToggles s' (name m) = Some (buildOptionalFieldToggles m))"
    by (rule load_effect_models[OF s']) linarith+
  ultimately show ?thesis using s' by (intro exI[of _ s'] conjI) (simp_all only:)
qed

text \<open>The pages partition the filtered models: the pages from the first on, one after the other, are the filtered list.\<close>

theorem pages_partition:
  "concat (map (\<lambda>p. pagedData (s\<lparr>currentPage := int p\<rparr>)) [1..<Suc n]) = take (n * PAGE_SIZE) (filteredModels s)"
proof -
  have f: "filteredModels (s\<lparr>currentPage := p\<rparr>) = filteredModels s" for p by (simp add: filteredModels_def)
  have "[1..<Suc n] = map Suc [0..<n]" by (simp add: map_Suc_upt)
  then have "map (\<lambda>p. pagedData (s\<lparr>currentPage := int p\<rparr>)) [1..<Suc n] = map (\<lambda>i. take PAGE_SIZE (drop (i * PAGE_SIZE) (filteredModels s))) [0..<n]"
    by (simp add: pagedData_def page_of_def f comp_def)
  then show ?thesis by (simp only: concat_pages)
qed

end
