(* ===== verification/TieredPricing.thy ===== *)
theory TieredPricing
  imports RequestRules
begin

text \<open>
  The visual form of tiered billing: web/src/constants/billing.constants.js and the functions of
  web/src/pages/Setting/Ratio/components/TieredPricingEditor.jsx that print a list of price tiers as a billing expression, read such an
  expression back and edit the tiers. A tier's costs are its own cost properties in an object, which may be missing. The label of
  the n-th tier is the argument \<open>lbl\<close>: the source's label is a Chinese text, which the model's alphabet does not have.
\<close>

section \<open>Billing variables\<close>

record billing_var =
  bv_key :: string
  bv_field :: "string option"
  bv_tierField :: "string option"
  bv_side :: string
  bv_isBase :: bool
  bv_isConditionOnly :: bool
  bv_group :: "string option"

definition bvar :: "string \<Rightarrow> string \<Rightarrow> string \<Rightarrow> string \<Rightarrow> string \<Rightarrow> billing_var" where
  "bvar k f tf sd gr = \<lparr>bv_key = k, bv_field = Some f, bv_tierField = Some tf, bv_side = sd, bv_isBase = (gr = []),
     bv_isConditionOnly = False, bv_group = (if gr = [] then None else Some gr)\<rparr>"

definition BILLING_VARS :: "billing_var list" where
  "BILLING_VARS = [
     bvar ''p'' ''inputPrice'' ''input_unit_cost'' ''input'' [],
     bvar ''c'' ''outputPrice'' ''output_unit_cost'' ''output'' [],
     \<lparr>bv_key = ''len'', bv_field = None, bv_tierField = None, bv_side = ''condition'', bv_isBase = False,
      bv_isConditionOnly = True, bv_group = None\<rparr>,
     bvar ''cr'' ''cacheReadPrice'' ''cache_read_unit_cost'' ''input'' ''cache'',
     bvar ''cc'' ''cacheCreatePrice'' ''cache_create_unit_cost'' ''input'' ''cache'',
     bvar ''cc1h'' ''cacheCreate1hPrice'' ''cache_create_1h_unit_cost'' ''input'' ''cache'',
     bvar ''img'' ''imagePrice'' ''image_unit_cost'' ''input'' ''media'',
     bvar ''img_o'' ''imageOutputPrice'' ''image_output_unit_cost'' ''output'' ''media'',
     bvar ''ai'' ''audioInputPrice'' ''audio_input_unit_cost'' ''input'' ''media'',
     bvar ''ao'' ''audioOutputPrice'' ''audio_output_unit_cost'' ''output'' ''media'']"

definition BILLING_VAR_KEYS :: "string list" where
  "BILLING_VAR_KEYS = map bv_key BILLING_VARS"

definition BILLING_PRICING_VARS :: "billing_var list" where
  "BILLING_PRICING_VARS = filter (\<lambda>v. \<not> bv_isConditionOnly v) BILLING_VARS"

definition BILLING_EXTRA_VARS :: "billing_var list" where
  "BILLING_EXTRA_VARS = filter (\<lambda>v. \<not> bv_isBase v \<and> \<not> bv_isConditionOnly v) BILLING_VARS"

definition BILLING_VAR_KEY_TO_FIELD :: "(string \<times> string) list" where
  "BILLING_VAR_KEY_TO_FIELD = List.map_filter (\<lambda>v. map_option (Pair (bv_key v)) (bv_field v)) BILLING_PRICING_VARS"

text \<open>The pairs of a tier's cost property and its variable.\<close>

definition BILLING_CACHE_VAR_MAP :: "(string \<times> string) list" where
  "BILLING_CACHE_VAR_MAP = List.map_filter (\<lambda>v. map_option (\<lambda>f. (f, bv_key v)) (bv_tierField v)) BILLING_EXTRA_VARS"

abbreviation r_costnum :: matcher where "r_costnum \<equiv> r_plus (r_cls cls_num)"

definition BILLING_VAR_REGEX :: matcher where
  "BILLING_VAR_REGEX = r_seqs [r_wordb, r_group 1 (r_alts (map (\<lambda>v. r_lit (bv_key v)) BILLING_PRICING_VARS)),
     r_ws, r_lit ''*'', r_ws, r_group 2 r_costnum]"

definition BILLING_CONDITION_VARS :: "string list" where
  "BILLING_CONDITION_VARS = map bv_key (filter (\<lambda>v. bv_isBase v \<or> bv_isConditionOnly v) BILLING_VARS)"

section \<open>Tiers\<close>

definition OPS :: "string list" where
  "OPS = [''<'', ''<='', ''>'', ''>='']"

definition VAR_OPTIONS :: "string list" where
  "VAR_OPTIONS = [''len'', ''p'', ''c'']"

definition CACHE_MODE_TIMED :: string where "CACHE_MODE_TIMED = ''timed''"
definition CACHE_MODE_GENERIC :: string where "CACHE_MODE_GENERIC = ''generic''"

record tcond =
  tc_var :: string
  tc_op :: string
  tc_value :: jsval

record vtier =
  t_conditions :: "tcond list"
  t_costs :: jsobj
  t_label :: string
  t_cache_mode :: "string option"

definition cost :: "vtier \<Rightarrow> string \<Rightarrow> jsval" where
  "cost t f = jget f (JObj (t_costs t))"

text \<open>\<open>Number(v) || 0\<close>\<close>

definition num_or_zero :: "jsval \<Rightarrow> jsnum" where
  "num_or_zero v = (let n = js_number v in if num_truthy n then n else Fin 0)"

definition unitCostToPrice :: "jsval \<Rightarrow> jsnum" where
  "unitCostToPrice uc = num_or_zero uc"

definition priceToUnitCost :: "jsval \<Rightarrow> jsnum" where
  "priceToUnitCost price = num_or_zero price"

definition getTierCacheMode :: "vtier \<Rightarrow> string" where
  "getTierCacheMode t =
     (if t_cache_mode t = Some CACHE_MODE_TIMED then CACHE_MODE_TIMED
      else if t_cache_mode t = Some CACHE_MODE_GENERIC then CACHE_MODE_GENERIC
      else if num_less (Fin 0) (js_number (cost t ''cache_create_1h_unit_cost'')) then CACHE_MODE_TIMED
      else CACHE_MODE_GENERIC)"

definition normalizeVisualTier :: "vtier \<Rightarrow> vtier" where
  "normalizeVisualTier t = t\<lparr>t_cache_mode := Some (getTierCacheMode t)\<rparr>"

definition base_tier :: "string \<Rightarrow> vtier" where
  "base_tier label = \<lparr>t_conditions = [], t_costs = [(''input_unit_cost'', JNum (Fin 0)), (''output_unit_cost'', JNum (Fin 0))],
     t_label = label, t_cache_mode = Some CACHE_MODE_GENERIC\<rparr>"

definition createDefaultVisualConfig :: "vtier list" where
  "createDefaultVisualConfig = [normalizeVisualTier (base_tier ''base'')]"

definition normalizeVisualConfig :: "vtier list option \<Rightarrow> vtier list" where
  "normalizeVisualConfig config =
     (case config of None \<Rightarrow> createDefaultVisualConfig
      | Some tiers \<Rightarrow> if tiers = [] then createDefaultVisualConfig else map normalizeVisualTier tiers)"

section \<open>Printing\<close>

definition cond_shown :: "tcond \<Rightarrow> bool" where
  "cond_shown c \<longleftrightarrow> tc_var c \<noteq> [] \<and> tc_op c \<noteq> [] \<and> \<not> nullish (tc_value c) \<and> tc_value c \<noteq> JStr []"

definition cond_text :: "tcond \<Rightarrow> string" where
  "cond_text c = tc_var c @ '' '' @ tc_op c @ '' '' @ js_string (tc_value c)"

definition buildConditionStr :: "tcond list \<Rightarrow> string" where
  "buildConditionStr cs = join '' && '' (map cond_text (filter cond_shown cs))"

definition term_text :: "string \<Rightarrow> jsnum \<Rightarrow> string" where
  "term_text v n = v @ '' * '' @ num_str n"

definition extra_terms :: "vtier \<Rightarrow> (string \<times> string) list \<Rightarrow> string list" where
  "extra_terms t vars = List.map_filter (\<lambda>(f, v). let n = num_or_zero (cost t f) in
     if n = Fin 0 then None else Some (term_text v n)) vars"

definition buildTierBodyExpr :: "vtier \<Rightarrow> string" where
  "buildTierBodyExpr t = join '' + '' (term_text ''p'' (num_or_zero (cost t ''input_unit_cost''))
     # term_text ''c'' (num_or_zero (cost t ''output_unit_cost'')) # extra_terms t BILLING_CACHE_VAR_MAP)"

definition tier_text :: "string \<Rightarrow> vtier \<Rightarrow> string" where
  "tier_text label t = ''tier('' @ [CHR 0x22] @ label @ [CHR 0x22] @ '', '' @ buildTierBodyExpr t @ '')''"

fun gen_parts :: "(nat \<Rightarrow> string) \<Rightarrow> nat \<Rightarrow> vtier list \<Rightarrow> string list" where
  "gen_parts lbl i [] = []"
| "gen_parts lbl i (t # ts) =
     (let body = tier_text (if t_label t = [] then lbl (i + 1) else t_label t) t; cond = buildConditionStr (t_conditions t)
      in (if ts \<noteq> [] \<and> cond \<noteq> [] then cond @ '' ? '' @ body else body) # gen_parts lbl (i + 1) ts)"

definition generateExprFromVisualConfig :: "(nat \<Rightarrow> string) \<Rightarrow> vtier list option \<Rightarrow> string" where
  "generateExprFromVisualConfig lbl config =
     (case config of
        None \<Rightarrow> ''p * 0 + c * 0''
      | Some [] \<Rightarrow> ''p * 0 + c * 0''
      | Some [t] \<Rightarrow>
          (let body = tier_text (if t_label t = [] then ''default'' else t_label t) t; cond = buildConditionStr (t_conditions t)
           in if cond \<noteq> [] then cond @ '' ? '' @ body @ '' : p * 0 + c * 0'' else body)
      | Some tiers \<Rightarrow> join '' : '' (gen_parts lbl 0 tiers))"

section \<open>Reading\<close>

text \<open>\<open>/^v\d+:([\s\S]*)$/\<close>\<close>

definition re_version :: matcher where
  "re_version = r_seqs [r_bol, r_lit ''v'', r_plus r_digit, r_lit '':'', r_group 1 (r_star (r_cls (\<lambda>_. True))), r_eol]"

text \<open>\<open>(?:\s*\+\s*VAR\s*\*\s*([\d.eE+-]+))?\<close>, the groups numbered from \<open>i\<close>.\<close>

definition re_opt_term :: "string \<Rightarrow> nat \<Rightarrow> matcher" where
  "re_opt_term v i = r_opt (r_seqs [r_ws, r_lit ''+'', r_ws, r_lit v, r_ws, r_lit ''*'', r_ws, r_group i r_costnum])"

fun re_opt_terms :: "(string \<times> string) list \<Rightarrow> nat \<Rightarrow> matcher list" where
  "re_opt_terms [] i = []"
| "re_opt_terms ((f, v) # vs) i = re_opt_term v i # re_opt_terms vs (Suc i)"

definition re_body :: "nat \<Rightarrow> matcher list" where
  "re_body i = [r_lit ''p'', r_ws, r_lit ''*'', r_ws, r_group i r_costnum, r_ws, r_lit ''+'', r_ws,
     r_lit ''c'', r_ws, r_lit ''*'', r_ws, r_group (Suc i) r_costnum] @ re_opt_terms BILLING_CACHE_VAR_MAP (Suc (Suc i))"

definition re_label :: "nat \<Rightarrow> matcher list" where
  "re_label i = [r_lit (''tier('' @ [CHR 0x22]), r_group i (r_star (r_cls cls_not_quote)), r_lit ([CHR 0x22] @ '',''), r_ws]"

definition re_single :: matcher where
  "re_single = r_seqs (r_bol # re_label 1 @ re_body 2 @ [r_lit '')'', r_eol])"

definition cls_condnum :: "char \<Rightarrow> bool" where
  "cls_condnum c \<longleftrightarrow> is_digit c \<or> c \<in> {CHR ''.'', CHR ''e'', CHR ''E'', CHR ''+''}"

definition re_cond_atom :: matcher where
  "re_cond_atom = r_seqs [r_alts [r_lit ''p'', r_lit ''c'', r_lit ''len''], r_ws,
     r_alts [r_lit ''<'', r_lit ''<='', r_lit ''>'', r_lit ''>=''], r_ws, r_plus (r_cls cls_condnum)]"

definition re_cond_group :: matcher where
  "re_cond_group = r_group 1 (r_seq re_cond_atom (r_star (r_seqs [r_ws, r_lit ''&&'', r_ws, re_cond_atom])))"

definition re_tier :: matcher where
  "re_tier = r_seqs ([r_opt (r_seqs [re_cond_group, r_ws, r_lit ''?'', r_ws])] @ re_label 2 @ re_body 3 @ [r_lit '')''])"

definition re_cond :: matcher where
  "re_cond = r_seqs [r_bol, r_group 1 (r_alts [r_lit ''p'', r_lit ''c'', r_lit ''len'']), r_ws,
     r_group 2 (r_alts [r_lit ''<'', r_lit ''<='', r_lit ''>'', r_lit ''>='']), r_ws, r_group 3 (r_plus (r_cls cls_condnum)), r_eol]"

text \<open>\<open>condStr.split(/\s*&&\s*/)\<close>; the pieces are trimmed afterwards.\<close>

fun split_and :: "string \<Rightarrow> string \<Rightarrow> string list" where
  "split_and acc [] = [rev acc]"
| "split_and acc [c] = [rev (c # acc)]"
| "split_and acc (c # d # s) = (if c = CHR ''&'' \<and> d = CHR ''&'' then rev acc # split_and [] s else split_and (c # acc) (d # s))"

definition parse_conditions :: "string \<Rightarrow> tcond list" where
  "parse_conditions condStr =
     (if condStr = [] then []
      else List.map_filter (\<lambda>cp. map_option (\<lambda>m. \<lparr>tc_var = cap m 1, tc_op = cap m 2, tc_value = JNum (num_of_string (cap m 3))\<rparr>)
             (rx_match re_cond (trim cp))) (split_and [] condStr))"

text \<open>The tier of one match whose label is group \<open>i\<close>.\<close>

fun parsed_extras :: "(nat \<rightharpoonup> string) \<Rightarrow> (string \<times> string) list \<Rightarrow> nat \<Rightarrow> jsobj" where
  "parsed_extras m [] i = []"
| "parsed_extras m ((f, v) # vs) i =
     (case m i of None \<Rightarrow> [] | Some val \<Rightarrow> [(f, JNum (num_of_string val))]) @ parsed_extras m vs (Suc i)"

definition parsed_tier :: "(nat \<rightharpoonup> string) \<Rightarrow> nat \<Rightarrow> tcond list \<Rightarrow> vtier" where
  "parsed_tier m i conds = normalizeVisualTier
     \<lparr>t_conditions = conds,
      t_costs = [(''input_unit_cost'', JNum (num_of_string (cap m (Suc i)))), (''output_unit_cost'', JNum (num_of_string (cap m (i + 2))))]
        @ parsed_extras m BILLING_CACHE_VAR_MAP (i + 3),
      t_label = cap m i, t_cache_mode = None\<rparr>"

definition tryParseVisualConfig :: "(nat \<Rightarrow> string) \<Rightarrow> string \<Rightarrow> vtier list option" where
  "tryParseVisualConfig lbl exprStr0 =
     (if exprStr0 = [] then None
      else let exprStr = (case rx_match re_version exprStr0 of Some m \<Rightarrow> cap m 1 | None \<Rightarrow> exprStr0) in
        case rx_match re_single exprStr of
          Some m \<Rightarrow> Some (normalizeVisualConfig (Some [parsed_tier m 1 []]))
        | None \<Rightarrow>
            let tiers = map (\<lambda>m. parsed_tier m 2 (parse_conditions (cap m 1))) (rx_all re_tier [] exprStr) in
            if tiers = [] then None
            else let cfg = normalizeVisualConfig (Some tiers) in
              if remove_ws (generateExprFromVisualConfig lbl (Some cfg)) \<noteq> remove_ws exprStr then None else Some cfg)"

end
