(* ===== verification/TieredState.thy ===== *)
theory TieredState
  imports TieredPricing
begin

text \<open>
  The editor components of web/src/pages/Setting/Ratio/components/TieredPricingEditor.jsx: the price inputs, the tier list, the rule groups, the
  preset templates and the state of the editor itself. The expression and the rule text belong to the pricing page; the editor reports
  changes to it and reads them back as its properties, so both are part of the state here. The effects run after every event
  (\<open>settle\<close>). \<open>Inl ()\<close> is an exception of splitting or parsing a text.
\<close>

section \<open>Price input\<close>

definition price_text :: "jsnum \<Rightarrow> string" where
  "price_text price = (if price = Fin 0 then [] else num_str price)"

definition initial_price_text :: "jsval \<Rightarrow> string" where
  "initial_price_text unitCost = price_text (unitCostToPrice unitCost)"

text \<open>The effect on a new price from the model; the text stays when it already denotes that price.\<close>

definition price_effect :: "jsnum \<Rightarrow> string \<Rightarrow> string" where
  "price_effect priceFromModel txt =
     (if txt = [] \<and> priceFromModel = Fin 0 then txt
      else if num_of_string txt \<noteq> NaN \<and> num_of_string txt = priceFromModel then txt
      else price_text priceFromModel)"

text \<open>The new text and the unit cost reported to the tier, if any.\<close>

definition price_change :: "string \<Rightarrow> string \<times> jsnum option" where
  "price_change val =
     (if val = [] then (val, Some (Fin 0))
      else let num = num_of_string val in
        if num \<noteq> NaN then (val, Some (priceToUnitCost (JNum num))) else (val, None))"

section \<open>Extended prices\<close>

definition CACHE_FIELDS_TIMED :: "string list" where
  "CACHE_FIELDS_TIMED = [''cache_read_unit_cost'', ''cache_create_unit_cost'', ''cache_create_1h_unit_cost'']"

definition CACHE_FIELDS_GENERIC :: "string list" where
  "CACHE_FIELDS_GENERIC = [''cache_read_unit_cost'', ''cache_create_unit_cost'']"

definition media_fields :: "string list" where
  "media_fields = List.map_filter bv_tierField (filter (\<lambda>v. bv_group v = Some ''media'') BILLING_EXTRA_VARS)"

definition hasAny :: "vtier \<Rightarrow> bool" where
  "hasAny t = list_ex (\<lambda>f. num_less (Fin 0) (js_number (cost t f))) (CACHE_FIELDS_TIMED @ media_fields)"

definition activeFields :: "vtier \<Rightarrow> string list" where
  "activeFields t = (if getTierCacheMode t = CACHE_MODE_TIMED then CACHE_FIELDS_TIMED else CACHE_FIELDS_GENERIC)"

section \<open>The tiers\<close>

text \<open>The patches that the cards pass to \<open>updateTier\<close>.\<close>

datatype tier_patch = PConditions "tcond list" | PLabel string | PCost string jsnum | PCacheMode string

fun apply_patch :: "tier_patch \<Rightarrow> vtier \<Rightarrow> vtier" where
  "apply_patch (PConditions cs) t = t\<lparr>t_conditions := cs\<rparr>"
| "apply_patch (PLabel l) t = t\<lparr>t_label := l\<rparr>"
| "apply_patch (PCost f n) t = t\<lparr>t_costs := obj_set f (JNum n) (t_costs t)\<rparr>"
| "apply_patch (PCacheMode m) t =
     (let t1 = t\<lparr>t_cache_mode := Some m\<rparr> in
      if m = CACHE_MODE_GENERIC then t1\<lparr>t_costs := obj_set ''cache_create_1h_unit_cost'' (JNum (Fin 0)) (t_costs t1)\<rparr> else t1)"

definition updateTier :: "nat \<Rightarrow> tier_patch \<Rightarrow> vtier list option \<Rightarrow> vtier list" where
  "updateTier i p config =
     (let tiers = normalizeVisualConfig config in
      map (\<lambda>(j, t). if j = i then normalizeVisualTier (apply_patch p t) else t) (enumerate 0 tiers))"

definition default_condition :: tcond where
  "default_condition = \<lparr>tc_var = ''len'', tc_op = ''<'', tc_value = JNum (Fin 200000)\<rparr>"

definition addTier :: "(nat \<Rightarrow> string) \<Rightarrow> vtier list option \<Rightarrow> vtier list" where
  "addTier lbl config =
     (let tiers = normalizeVisualConfig config;
          n = length tiers - 1;
          newTiers = (if tiers \<noteq> [] \<and> t_conditions (tiers ! n) = []
                      then tiers[n := (tiers ! n)\<lparr>t_conditions := [default_condition]\<rparr>] else tiers)
      in newTiers @ [base_tier (lbl (length newTiers + 1))])"

text \<open>\<open>filter\<close> by position.\<close>

definition remove_at :: "nat \<Rightarrow> 'a list \<Rightarrow> 'a list" where
  "remove_at i xs = take i xs @ drop (Suc i) xs"

text \<open>\<open>None\<close>: no change is reported.\<close>

definition removeTier :: "nat \<Rightarrow> vtier list option \<Rightarrow> vtier list option" where
  "removeTier i config =
     (let tiers = normalizeVisualConfig config in
      if length tiers \<le> 1 then None
      else let next = remove_at i tiers; n = length next - 1 in
        Some (if next \<noteq> [] then next[n := (next ! n)\<lparr>t_conditions := []\<rparr>] else next))"

definition updateCondition :: "nat \<Rightarrow> tcond \<Rightarrow> vtier \<Rightarrow> tier_patch" where
  "updateCondition ci c t = PConditions (map (\<lambda>(j, d). if j = ci then c else d) (enumerate 0 (t_conditions t)))"

definition removeCondition :: "nat \<Rightarrow> vtier \<Rightarrow> tier_patch" where
  "removeCondition ci t = PConditions (remove_at ci (t_conditions t))"

definition addCondition :: "vtier \<Rightarrow> tier_patch option" where
  "addCondition t =
     (let cs = t_conditions t in
      if 2 \<le> length cs then None
      else let nextVar = (if ''len'' \<in> set (map tc_var cs) then ''c'' else ''len'') in
        Some (PConditions (cs @ [\<lparr>tc_var = nextVar, tc_op = ''<'', tc_value = JNum (Fin 200000)\<rparr>])))"

section \<open>Rule groups\<close>

definition change_source :: "string \<Rightarrow> cond" where
  "change_source value =
     (if value = SOURCE_TIME
      then normalizeCondition (no_cond\<lparr>c_source := Some SOURCE_TIME, c_timeFunc := Some ''hour'',
             c_timezone := Some ''Asia/Shanghai'', c_mode := Some MATCH_GTE\<rparr>)
      else normalizeCondition (no_cond\<lparr>c_source := Some value, c_path := Some [], c_mode := Some MATCH_EQ\<rparr>))"

definition change_match_mode :: "cond \<Rightarrow> string \<Rightarrow> cond" where
  "change_match_mode c mode =
     (let normalized = normalizeCondition c in
      if c_source normalized = Some SOURCE_TIME then normalizeCondition (normalized\<lparr>c_mode := Some mode\<rparr>)
      else normalizeCondition (normalized\<lparr>c_mode := Some mode,
             c_value := (if mode = MATCH_EXISTS then JStr [] else c_value normalized)\<rparr>))"

definition group_update :: "nat \<Rightarrow> cond \<Rightarrow> rule_group \<Rightarrow> rule_group" where
  "group_update ci c grp = grp\<lparr>conditions := map (\<lambda>(j, d). if j = ci then c else d) (enumerate 0 (conditions grp))\<rparr>"

definition group_remove :: "nat \<Rightarrow> rule_group \<Rightarrow> rule_group" where
  "group_remove ci grp =
     (let next = remove_at ci (conditions grp) in
      grp\<lparr>conditions := (if next \<noteq> [] then next else [createEmptyCondition])\<rparr>)"

definition group_add :: "cond \<Rightarrow> rule_group \<Rightarrow> rule_group" where
  "group_add c grp = grp\<lparr>conditions := conditions grp @ [c]\<rparr>"

section \<open>The editor\<close>

record te_state =
  te_expr :: string
  te_rules :: string
  editorMode :: string
  visualConfig :: "vtier list option"
  rawExpr :: string
  requestRuleGroups :: "rule_group list"

definition effectiveExpr :: "(nat \<Rightarrow> string) \<Rightarrow> te_state \<Rightarrow> unit + string" where
  "effectiveExpr lbl s =
     (if editorMode s = ''visual'' then Inr (generateExprFromVisualConfig lbl (visualConfig s))
      else case splitBillingExprAndRequestRules (rawExpr s) of Inl e \<Rightarrow> Inl e | Inr sp \<Rightarrow> Inr (billingExpr sp))"

definition groups_of :: "rule_group list option \<Rightarrow> rule_group list" where
  "groups_of r = (case r of Some gs \<Rightarrow> gs | None \<Rightarrow> [])"

definition canUseVisualRules :: "te_state \<Rightarrow> unit + bool" where
  "canUseVisualRules s = (case tryParseRequestRuleExpr (te_rules s) of Inl e \<Rightarrow> Inl e | Inr r \<Rightarrow> Inr (r \<noteq> None))"

text \<open>The effect on a new rule text.\<close>

definition rules_effect :: "te_state \<Rightarrow> te_state \<Rightarrow> unit + te_state" where
  "rules_effect s0 s =
     (if te_rules s = te_rules s0 then Inr s
      else case tryParseRequestRuleExpr (te_rules s) of Inl e \<Rightarrow> Inl e | Inr r \<Rightarrow> Inr (s\<lparr>requestRuleGroups := groups_of r\<rparr>))"

text \<open>The effect on a new effective expression.\<close>

definition expr_effect :: "(nat \<Rightarrow> string) \<Rightarrow> te_state \<Rightarrow> te_state \<Rightarrow> unit + te_state" where
  "expr_effect lbl s0 s =
     (case (effectiveExpr lbl s0, effectiveExpr lbl s) of
        (Inr e0, Inr e) \<Rightarrow> Inr (if e \<noteq> e0 \<and> e \<noteq> te_expr s then s\<lparr>te_expr := e\<rparr> else s)
      | _ \<Rightarrow> Inl ())"

definition settle :: "(nat \<Rightarrow> string) \<Rightarrow> te_state \<Rightarrow> te_state \<Rightarrow> unit + te_state" where
  "settle lbl s0 s = (case rules_effect s0 s of Inl e \<Rightarrow> Inl e | Inr s1 \<Rightarrow> expr_effect lbl s0 s1)"

text \<open>The effect on a new model, whose expression and rule text are the new properties.\<close>

definition opened :: "(nat \<Rightarrow> string) \<Rightarrow> te_state \<Rightarrow> te_state" where
  "opened lbl s =
     (case tryParseVisualConfig lbl (te_expr s) of
        Some parsed \<Rightarrow> s\<lparr>editorMode := ''visual'', visualConfig := Some parsed, rawExpr := te_expr s\<rparr>
      | None \<Rightarrow> if te_expr s \<noteq> [] then s\<lparr>editorMode := ''raw'', rawExpr := te_expr s, visualConfig := None\<rparr>
                else s\<lparr>editorMode := ''visual'', visualConfig := Some createDefaultVisualConfig, rawExpr := []\<rparr>)"

definition open_model :: "(nat \<Rightarrow> string) \<Rightarrow> string \<Rightarrow> string \<Rightarrow> te_state \<Rightarrow> unit + te_state" where
  "open_model lbl expr rules s0 = settle lbl s0 (opened lbl (s0\<lparr>te_expr := expr, te_rules := rules\<rparr>))"

text \<open>When the editor is mounted, the effects run with the initial state, whose effective expression is the zero price: that text
  is reported to the page in the same round in which the model's expression is opened.\<close>

definition mount_editor :: "(nat \<Rightarrow> string) \<Rightarrow> string \<Rightarrow> string \<Rightarrow> unit + te_state" where
  "mount_editor lbl expr rules =
     (case tryParseRequestRuleExpr rules of
        Inl e \<Rightarrow> Inl e
      | Inr r \<Rightarrow>
          let s0 = \<lparr>te_expr = expr, te_rules = rules, editorMode = ''visual'', visualConfig = None, rawExpr = [],
                    requestRuleGroups = groups_of r\<rparr>
          in expr_effect lbl s0 ((opened lbl s0)\<lparr>te_expr := generateExprFromVisualConfig lbl None\<rparr>))"

definition handleRequestRuleGroupsChange :: "(nat \<Rightarrow> string) \<Rightarrow> rule_group list \<Rightarrow> te_state \<Rightarrow> unit + te_state" where
  "handleRequestRuleGroupsChange lbl nextGroups s =
     settle lbl s (s\<lparr>requestRuleGroups := nextGroups, te_rules := buildRequestRuleExpr nextGroups\<rparr>)"

definition handleVisualChange :: "(nat \<Rightarrow> string) \<Rightarrow> vtier list \<Rightarrow> te_state \<Rightarrow> unit + te_state" where
  "handleVisualChange lbl newConfig s = settle lbl s (s\<lparr>visualConfig := Some newConfig\<rparr>)"

definition handleRawChange :: "(nat \<Rightarrow> string) \<Rightarrow> string \<Rightarrow> te_state \<Rightarrow> unit + te_state" where
  "handleRawChange lbl val s =
     (case splitBillingExprAndRequestRules val of
        Inl e \<Rightarrow> Inl e
      | Inr sp \<Rightarrow> settle lbl s (s\<lparr>rawExpr := val, te_rules := requestRuleExpr sp\<rparr>))"

definition handleModeSwitch :: "(nat \<Rightarrow> string) \<Rightarrow> string \<Rightarrow> te_state \<Rightarrow> unit + te_state" where
  "handleModeSwitch lbl newMode s =
     (if newMode = ''visual'' then
        (case splitBillingExprAndRequestRules (rawExpr s) of
           Inl e \<Rightarrow> Inl e
         | Inr sp \<Rightarrow>
             (case tryParseRequestRuleExpr (requestRuleExpr sp) of
                Inl e \<Rightarrow> Inl e
              | Inr r \<Rightarrow>
                  settle lbl s (s\<lparr>visualConfig := Some (case tryParseVisualConfig lbl (billingExpr sp) of
                       Some parsed \<Rightarrow> parsed | None \<Rightarrow> createDefaultVisualConfig),
                     requestRuleGroups := groups_of r, te_rules := requestRuleExpr sp, editorMode := newMode\<rparr>)))
      else
        let expr = generateExprFromVisualConfig lbl (visualConfig s);
            combined = combineBillingExpr expr (buildRequestRuleExpr (requestRuleGroups s))
        in settle lbl s (s\<lparr>rawExpr := (if combined = [] then expr else combined), editorMode := newMode\<rparr>))"

definition applyPreset :: "(nat \<Rightarrow> string) \<Rightarrow> string \<Rightarrow> rule_group list \<Rightarrow> te_state \<Rightarrow> unit + te_state" where
  "applyPreset lbl expr presetGroups s =
     (let ruleExpr = buildRequestRuleExpr presetGroups;
          combined = combineBillingExpr expr ruleExpr;
          s1 = s\<lparr>rawExpr := (if combined = [] then expr else combined), requestRuleGroups := presetGroups, te_rules := ruleExpr\<rparr>
      in settle lbl s
        (case tryParseVisualConfig lbl expr of
           Some parsed \<Rightarrow> s1\<lparr>visualConfig := Some parsed\<rparr>
         | None \<Rightarrow> s1\<lparr>editorMode := ''raw'', visualConfig := None\<rparr>))"

section \<open>Presets\<close>

record preset =
  ps_key :: string
  ps_expr :: string
  ps_rules :: "rule_group list"

definition preset :: "string \<Rightarrow> string \<Rightarrow> rule_group list \<Rightarrow> preset" where
  "preset k e gs = \<lparr>ps_key = k, ps_expr = e, ps_rules = gs\<rparr>"

text \<open>The presets of all groups in order; the labels are display text.\<close>

definition PRESET_GROUPS :: "preset list" where
  "PRESET_GROUPS = [
     preset ''flat'' ''tier(\"base\", p * 2 + c * 4)'' [],
     preset ''claude-opus'' ''tier(\"base\", p * 5 + c * 25 + cr * 0.5 + cc * 6.25 + cc1h * 10)'' [],
     preset ''gpt-5.4'' ''len <= 272000 ? tier(\"standard\", p * 2.5 + c * 15 + cr * 0.25) : tier(\"long_context\", p * 5 + c * 22.5 + cr * 0.5)'' [],
     preset ''claude-sonnet'' ''len <= 200000 ? tier(\"standard\", p * 3 + c * 15 + cr * 0.3 + cc * 3.75 + cc1h * 6) : tier(\"long_context\", p * 6 + c * 22.5 + cr * 0.6 + cc * 7.5 + cc1h * 12)'' [],
     preset ''qwen3-max'' ''len <= 32000 ? tier(\"short\", p * 1.2 + c * 6 + cr * 0.24 + cc * 1.5) : len <= 128000 ? tier(\"mid\", p * 2.4 + c * 12 + cr * 0.48 + cc * 3) : tier(\"long\", p * 3 + c * 15 + cr * 0.6 + cc * 3.75)'' [],
     preset ''glm-4.5-air'' ''len < 32000 && c < 200 ? tier(\"short_output\", p * 0.8 + c * 2 + cr * 0.16) : len < 32000 && c >= 200 ? tier(\"long_output\", p * 0.8 + c * 6 + cr * 0.16) : tier(\"mid_context\", p * 1.2 + c * 8 + cr * 0.24)'' [],
     preset ''doubao-seed-1.8'' ''len <= 32000 && c <= 200 ? tier(\"discount\", p * 0.8 + c * 2 + cr * 0.16 + cc * 0.17) : len <= 32000 ? tier(\"short\", p * 0.8 + c * 8 + cr * 0.16 + cc * 0.17) : len <= 128000 ? tier(\"mid\", p * 1.2 + c * 16 + cr * 0.16 + cc * 0.17) : tier(\"long\", p * 2.4 + c * 24 + cr * 0.16 + cc * 0.17)'' [],
     preset ''gpt-image-1-mini'' ''tier(\"base\", p * 2 + c * 8 + img * 2.5)'' [],
     preset ''gemini-2.5-flash'' ''tier(\"base\", p * 0.3 + c * 2.5 + cr * 0.03 + ai * 1.0)'' [],
     preset ''gemini-3-pro-image'' ''tier(\"base\", p * 2 + c * 12 + img_o * 120)'' [],
     preset ''qwen3-omni-flash'' ''tier(\"base\", p * 0.43 + c * 3.06 + img * 0.78 + ai * 3.81 + ao * 15.11)'' [],
     preset ''claude-opus-fast'' ''tier(\"base\", p * 5 + c * 25 + cr * 0.5 + cc * 6.25 + cc1h * 10)'' [\<lparr>conditions = [no_cond\<lparr>c_source := Some SOURCE_HEADER, c_path := Some ''anthropic-beta'', c_mode := Some MATCH_CONTAINS, c_value := JStr ''fast-mode-2026-02-01''\<rparr>], multiplier = ''6''\<rparr>],
     preset ''gpt-5.4-tiers'' ''len <= 272000 ? tier(\"standard\", p * 2.5 + c * 15 + cr * 0.25) : tier(\"long_context\", p * 5 + c * 22.5 + cr * 0.5)'' [\<lparr>conditions = [no_cond\<lparr>c_source := Some SOURCE_PARAM, c_path := Some ''service_tier'', c_mode := Some MATCH_EQ, c_value := JStr ''priority''\<rparr>], multiplier = ''2''\<rparr>,
        \<lparr>conditions = [no_cond\<lparr>c_source := Some SOURCE_PARAM, c_path := Some ''service_tier'', c_mode := Some MATCH_EQ, c_value := JStr ''flex''\<rparr>], multiplier = ''0.5''\<rparr>],
     preset ''night-discount'' ''tier(\"base\", p * 3 + c * 15)'' [\<lparr>conditions = [no_cond\<lparr>c_source := Some SOURCE_TIME, c_timeFunc := Some ''hour'', c_timezone := Some ''Asia/Shanghai'', c_mode := Some MATCH_RANGE, c_rangeStart := JStr ''21'', c_rangeEnd := JStr ''6''\<rparr>], multiplier = ''0.5''\<rparr>],
     preset ''weekend-discount'' ''tier(\"base\", p * 3 + c * 15)'' [\<lparr>conditions = [no_cond\<lparr>c_source := Some SOURCE_TIME, c_timeFunc := Some ''weekday'', c_timezone := Some ''Asia/Shanghai'', c_mode := Some MATCH_EQ, c_value := JStr ''0''\<rparr>], multiplier = ''0.8''\<rparr>,
        \<lparr>conditions = [no_cond\<lparr>c_source := Some SOURCE_TIME, c_timeFunc := Some ''weekday'', c_timezone := Some ''Asia/Shanghai'', c_mode := Some MATCH_EQ, c_value := JStr ''6''\<rparr>], multiplier = ''0.8''\<rparr>],
     preset ''new-year-promo'' ''tier(\"base\", p * 3 + c * 15)'' [\<lparr>conditions = [no_cond\<lparr>c_source := Some SOURCE_TIME, c_timeFunc := Some ''month'', c_timezone := Some ''Asia/Shanghai'', c_mode := Some MATCH_EQ, c_value := JStr ''1''\<rparr>,
          no_cond\<lparr>c_source := Some SOURCE_TIME, c_timeFunc := Some ''day'', c_timezone := Some ''Asia/Shanghai'', c_mode := Some MATCH_EQ, c_value := JStr ''1''\<rparr>], multiplier = ''0.5''\<rparr>]]"

section \<open>Estimator fields\<close>

text \<open>\<open>v.field.replace('Price', 'Tokens')\<close>: the first occurrence.\<close>

fun replace_price :: "string \<Rightarrow> string" where
  "replace_price [] = []"
| "replace_price (c # s) = (if prefix ''Price'' (c # s) then ''Tokens'' @ drop 5 (c # s) else c # replace_price s)"

definition EXTRA_ESTIMATOR_FIELDS :: "(string \<times> string) list" where
  "EXTRA_ESTIMATOR_FIELDS = List.map_filter (\<lambda>v. map_option (\<lambda>f. (bv_key v, replace_price f)) (bv_field v)) BILLING_EXTRA_VARS"

definition usesExtra :: "string \<Rightarrow> bool" where
  "usesExtra expr \<longleftrightarrow> expr \<noteq> [] \<and>
     rx_test (r_seqs [r_wordb, r_group 1 (r_alts (map (\<lambda>f. r_lit (fst f)) EXTRA_ESTIMATOR_FIELDS)), r_wordb]) expr"

end
