(* ===== verification/TieredFacts.thy ===== *)
theory TieredFacts
  imports TieredPricing JsNumberFacts
begin

text \<open>
  Reading back what the visual form prints. The patterns are followed by their first choices: \<open>first m s t\<close> says that the matcher
  \<open>m\<close> tries \<open>t\<close> first.
\<close>

section \<open>First choices\<close>

definition first :: "matcher \<Rightarrow> mst \<Rightarrow> mst \<Rightarrow> bool" where
  "first m s t \<longleftrightarrow> (\<exists>ts. m s = t # ts)"

lemma first_single [intro]: "m s = [t] \<Longrightarrow> first m s t"
  by (simp add: first_def)

lemma first_seq: "first m s t \<Longrightarrow> first n t u \<Longrightarrow> first (r_seq m n) s u"
  by (auto simp: first_def r_seq_def)

lemma first_seqs_Nil [simp]: "first (r_seqs []) s t \<longleftrightarrow> t = s"
  by (auto simp: first_def)

lemma first_seqs_Cons: "first m s t \<Longrightarrow> first (r_seqs ms) t u \<Longrightarrow> first (r_seqs (m # ms)) s u"
  using first_seq by simp

lemma r_seqs_append: "r_seqs (ms @ ns) = r_seq (r_seqs ms) (r_seqs ns)"
proof (induction ms)
  case Nil
  show ?case by (rule ext) (simp add: r_seq_def)
qed (simp add: r_seq_assoc)

lemma first_seqs_append: "first (r_seqs ms) s t \<Longrightarrow> first (r_seqs ns) t u \<Longrightarrow> first (r_seqs (ms @ ns)) s u"
  unfolding r_seqs_append by (rule first_seq)

lemma first_lit: "first (r_lit w) (b, w @ z, g) (rev w @ b, z, g)"
  by (rule first_single) simp

lemma first_opt_take: "first m s t \<Longrightarrow> first (r_opt m) s t"
  by (auto simp: first_def r_opt_def)

lemma first_opt_skip: "m s = [] \<Longrightarrow> first (r_opt m) s s"
  by (simp add: first_def r_opt_def)

lemma first_group: "first m (b, r, g) (b', r', g') \<Longrightarrow> first (r_group i m) (b, r, g) (b', r', (i, take (length r - length r') r) # g')"
  by (auto simp: first_def)

lemma first_star_step: "first m s t \<Longrightarrow> rest_len t < rest_len s \<Longrightarrow> first (r_star m) t u \<Longrightarrow> first (r_star m) s u"
  unfolding first_def by (subst r_star_unfold) auto

lemma first_star_stop: "m s = [] \<Longrightarrow> first (r_star m) s s"
  unfolding first_def by (subst r_star_unfold) simp

lemma first_star_cls:
  "list_all p xs \<Longrightarrow> z = [] \<or> \<not> p (hd z) \<Longrightarrow> first (r_star (r_cls p)) (b, xs @ z, g) (rev xs @ b, z, g)"
proof (induction xs arbitrary: b)
  case Nil
  then show ?case by (cases z) (auto simp: first_def)
next
  case (Cons c xs)
  then have "first (r_star (r_cls p)) (c # b, xs @ z, g) (rev xs @ c # b, z, g)" by simp
  then show ?case using Cons.prems by (auto simp: first_def)
qed

lemma first_plus_cls:
  assumes "list_all p xs" "xs \<noteq> []" "z = [] \<or> \<not> p (hd z)"
  shows "first (r_plus (r_cls p)) (b, xs @ z, g) (rev xs @ b, z, g)"
proof -
  obtain c ys where xs: "xs = c # ys" using assms(2) by (cases xs) auto
  have "first (r_star (r_cls p)) (c # b, ys @ z, g) (rev ys @ c # b, z, g)" using assms xs by (intro first_star_cls) auto
  then show ?thesis unfolding r_plus_def using assms(1) xs by (intro first_seq[of "r_cls p" _ "(c # b, ys @ z, g)"]) auto
qed

lemma first_group_plus:
  assumes "list_all p xs" "xs \<noteq> []" "z = [] \<or> \<not> p (hd z)"
  shows "first (r_group i (r_plus (r_cls p))) (b, xs @ z, g) (rev xs @ b, z, (i, xs) # g)"
  using first_group[OF first_plus_cls[OF assms]] by simp

lemma first_group_star:
  assumes "list_all p xs" "z = [] \<or> \<not> p (hd z)"
  shows "first (r_group i (r_star (r_cls p))) (b, xs @ z, g) (rev xs @ b, z, (i, xs) # g)"
  using first_group[OF first_star_cls[OF assms]] by simp

text \<open>Whitespace: one blank before something else, or none.\<close>

lemma ws_blank: "js_ws (CHR '' '')"
  by (simp add: js_ws_def)

lemma first_ws_blank: "z = [] \<or> \<not> js_ws (hd z) \<Longrightarrow> first r_ws (b, CHR '' '' # z, g) (CHR '' '' # b, z, g)"
  using first_star_cls[of js_ws "'' ''" z b g] by (simp add: ws_blank)

lemma first_ws_none: "z = [] \<or> \<not> js_ws (hd z) \<Longrightarrow> first r_ws (b, z, g) (b, z, g)"
  using first_star_cls[of js_ws "[]" z b g] by simp

lemma first_match: "first m s t \<Longrightarrow> \<exists>ts. m s = t # ts"
  by (simp add: first_def)

section \<open>One price term\<close>

definition num_text :: "(char \<Rightarrow> bool) \<Rightarrow> jsnum \<Rightarrow> bool" where
  "num_text p n \<longleftrightarrow> num_str n \<noteq> [] \<and> list_all p (num_str n) \<and> num_of_string (num_str n) = n"

abbreviation price_num :: "jsnum \<Rightarrow> bool" where "price_num \<equiv> num_text cls_num"

definition re_term :: "string \<Rightarrow> nat \<Rightarrow> matcher list" where
  "re_term v i = [r_lit v, r_ws, r_lit ''*'', r_ws, r_group i r_costnum]"

definition re_plus :: "matcher list" where
  "re_plus = [r_ws, r_lit ''+'', r_ws]"

lemma price_char_not_ws: "cls_num c \<Longrightarrow> \<not> js_ws c"
  by (auto simp: cls_num_def js_ws_def is_digit_def)

lemma first_star_lit: "first (r_lit ''*'') (b, CHR ''*'' # z, g) (CHR ''*'' # b, z, g)"
  by (rule first_single) simp

lemma first_term:
  assumes "price_num n" "z = [] \<or> \<not> cls_num (hd z)"
  shows "first (r_seqs (re_term v i)) (b, term_text v n @ z, g) (rev (term_text v n) @ b, z, (i, num_str n) # g)"
proof -
  have x: "num_str n \<noteq> []" "list_all cls_num (num_str n)" using assms(1) by (simp_all add: num_text_def)
  then have nw: "\<not> js_ws (hd (num_str n @ z))" using price_char_not_ws by (cases "num_str n") auto
  have "first (r_seqs [r_group i r_costnum]) (b', num_str n @ z, g) (rev (num_str n) @ b', z, (i, num_str n) # g)" for b'
    by (rule first_seqs_Cons[OF first_group_plus[OF x(2,1) assms(2)]]) (simp only: first_seqs_Nil)
  then have "first (r_seqs [r_ws, r_group i r_costnum]) (b', CHR '' '' # num_str n @ z, g)
      (rev (num_str n) @ CHR '' '' # b', z, (i, num_str n) # g)" for b'
    using nw by (intro first_seqs_Cons[OF first_ws_blank]) auto
  then have "first (r_seqs [r_lit ''*'', r_ws, r_group i r_costnum]) (b', CHR ''*'' # CHR '' '' # num_str n @ z, g)
      (rev (num_str n) @ CHR '' '' # CHR ''*'' # b', z, (i, num_str n) # g)" for b'
    by (intro first_seqs_Cons[OF first_star_lit])
  then have "first (r_seqs [r_ws, r_lit ''*'', r_ws, r_group i r_costnum]) (b', CHR '' '' # CHR ''*'' # CHR '' '' # num_str n @ z, g)
      (rev (num_str n) @ CHR '' '' # CHR ''*'' # CHR '' '' # b', z, (i, num_str n) # g)" for b'
    by (intro first_seqs_Cons[OF first_ws_blank]) (auto simp: js_ws_def)
  then show ?thesis unfolding re_term_def term_text_def
    using first_seqs_Cons[OF first_lit, of "[r_ws, r_lit ''*'', r_ws, r_group i r_costnum]"] by simp
qed

lemma first_plus:
  assumes "z \<noteq> []" "\<not> js_ws (hd z)"
  shows "first (r_seqs re_plus) (b, '' + '' @ z, g) (rev '' + '' @ b, z, g)"
proof -
  have "first (r_seqs [r_ws]) (b', CHR '' '' # z, g) (CHR '' '' # b', z, g)" for b'
    using assms by (intro first_seqs_Cons[OF first_ws_blank]) auto
  then have "first (r_seqs [r_lit ''+'', r_ws]) (b', CHR ''+'' # CHR '' '' # z, g) (CHR '' '' # CHR ''+'' # b', z, g)" for b'
    by (intro first_seqs_Cons[of "r_lit ''+''" _ "(CHR ''+'' # b', CHR '' '' # z, g)"]) (auto simp: first_def)
  then have "first (r_seqs [r_ws, r_lit ''+'', r_ws]) (b, CHR '' '' # CHR ''+'' # CHR '' '' # z, g)
      (CHR '' '' # CHR ''+'' # CHR '' '' # b, z, g)"
    by (intro first_seqs_Cons[OF first_ws_blank]) (auto simp: js_ws_def)
  then show ?thesis by (simp add: re_plus_def)
qed

section \<open>The terms of a tier\<close>

definition extra_text :: "vtier \<Rightarrow> (string \<times> string) list \<Rightarrow> string" where
  "extra_text t vars = concat (map (\<lambda>(f, v). let n = num_or_zero (cost t f) in if n = Fin 0 then [] else '' + '' @ term_text v n) vars)"

fun extra_caps :: "vtier \<Rightarrow> (string \<times> string) list \<Rightarrow> nat \<Rightarrow> (nat \<times> string) list" where
  "extra_caps t [] i = []"
| "extra_caps t ((f, v) # vs) i = extra_caps t vs (Suc i) @
     (let n = num_or_zero (cost t f) in if n = Fin 0 then [] else [(i, num_str n)])"

text \<open>No variable is confused with a later one: where it is a prefix, the later name goes on with something else than a blank or a
  star.\<close>

definition apart :: "string \<Rightarrow> string \<Rightarrow> bool" where
  "apart v w \<longleftrightarrow> prefix v w \<longrightarrow> (let r = drop (length v) w in r \<noteq> [] \<and> \<not> js_ws (hd r) \<and> hd r \<noteq> CHR ''*'')"

fun vars_apart :: "(string \<times> string) list \<Rightarrow> bool" where
  "vars_apart [] = True"
| "vars_apart ((f, v) # vs) = (v \<noteq> [] \<and> list_all (\<lambda>c. \<not> js_ws c) v \<and> list_all (\<lambda>(g, w). apart v w) vs \<and> vars_apart vs)"

lemma plus_all:
  assumes "y \<noteq> []" "\<not> js_ws (hd y)"
  shows "r_seqs re_plus (b, '' + '' @ y, g) = [(rev '' + '' @ b, y, g), (rev '' +'' @ b, CHR '' '' # y, g)]"
  using assms by (cases y) (simp_all add: re_plus_def r_seq_def ws_blank, simp_all add: js_ws_def)

lemma prefix_blank:
  assumes "prefix v (w @ CHR '' '' # y)" "list_all (\<lambda>c. \<not> js_ws c) v"
  shows "prefix v w"
proof (rule ccontr)
  assume "\<not> prefix v w"
  then have "prefix (w @ [CHR '' '']) v" using assms(1) by (auto simp: prefix_append prefix_Cons)
  then show False using assms(2) by (auto simp: prefix_def ws_blank)
qed

text \<open>A term of another variable is not taken.\<close>

lemma term_other:
  assumes "apart v w" "list_all (\<lambda>c. \<not> js_ws c) v"
  shows "r_seqs (re_term v i) (b, term_text w n @ z, g) = []"
proof (cases "prefix v w")
  case True
  then obtain r where w: "w = v @ r" by (auto simp: prefix_def)
  then obtain c r' where r: "r = c # r'" "\<not> js_ws c" "c \<noteq> CHR ''*''"
    using assms(1) by (cases r) (auto simp: apart_def)
  show ?thesis unfolding re_term_def term_text_def w r(1) using r(2) r(3)[symmetric] by (simp add: r_seq_def)
next
  case False
  then have "\<not> prefix v (w @ CHR '' '' # y)" for y using prefix_blank assms(2) by blast
  then show ?thesis unfolding re_term_def term_text_def by (simp add: r_seq_def r_lit_cases)
qed

lemma term_blank: "v \<noteq> [] \<Longrightarrow> list_all (\<lambda>c. \<not> js_ws c) v \<Longrightarrow> r_seqs (re_term v i) (b, CHR '' '' # z, g) = []"
  by (cases v) (auto simp: re_term_def r_seq_def ws_blank)

lemma opt_term_eq: "re_opt_term v i = r_opt (r_seqs (re_plus @ re_term v i))"
  by (simp add: re_opt_term_def re_plus_def re_term_def)

lemma hd_term: "w \<noteq> [] \<Longrightarrow> list_all (\<lambda>c. \<not> js_ws c) w \<Longrightarrow> term_text w n \<noteq> [] \<and> \<not> js_ws (hd (term_text w n @ z))"
  by (cases w) (auto simp: term_text_def)

lemma opt_term_skip_other:
  assumes "apart v w" "v \<noteq> []" "list_all (\<lambda>c. \<not> js_ws c) v" "w \<noteq> []" "list_all (\<lambda>c. \<not> js_ws c) w"
  shows "first (re_opt_term v i) (b, '' + '' @ term_text w n @ z, g) (b, '' + '' @ term_text w n @ z, g)"
  unfolding opt_term_eq
proof (rule first_opt_skip)
  have "r_seqs re_plus (b, '' + '' @ (term_text w n @ z), g) =
      [(rev '' + '' @ b, term_text w n @ z, g), (rev '' +'' @ b, CHR '' '' # (term_text w n @ z), g)]"
    using hd_term[OF assms(4,5), of n z] by (intro plus_all) auto
  then show "r_seqs (re_plus @ re_term v i) (b, '' + '' @ term_text w n @ z, g) = []"
    unfolding r_seqs_append r_seq_def[of "r_seqs re_plus"] using term_other[OF assms(1,3)] term_blank[OF assms(2,3)] by simp
qed

lemma opt_term_skip_end:
  assumes "c \<noteq> CHR ''+''" "\<not> js_ws c"
  shows "first (re_opt_term v i) (b, c # z, g) (b, c # z, g)"
  unfolding re_opt_term_def using assms by (intro first_opt_skip) (simp add: r_seq_def)

lemma opt_term_take:
  assumes "price_num n" "z = [] \<or> \<not> cls_num (hd z)" "w \<noteq> []" "list_all (\<lambda>c. \<not> js_ws c) w"
  shows "first (re_opt_term w i) (b, '' + '' @ term_text w n @ z, g) (rev ('' + '' @ term_text w n) @ b, z, (i, num_str n) # g)"
proof -
  have "first (r_seqs re_plus) (b, '' + '' @ (term_text w n @ z), g) (rev '' + '' @ b, term_text w n @ z, g)"
    using hd_term[OF assms(3,4), of n z] by (intro first_plus) auto
  then show ?thesis unfolding opt_term_eq
    using first_seqs_append[OF _ first_term[OF assms(1,2), of w i "rev '' + '' @ b" g]] by (intro first_opt_take) simp
qed

text \<open>All optional terms.\<close>

definition terminated :: "string \<Rightarrow> bool" where
  "terminated z \<longleftrightarrow> z \<noteq> [] \<and> \<not> cls_num (hd z) \<and> hd z \<noteq> CHR ''+'' \<and> \<not> js_ws (hd z)"

lemma extra_text_Cons: "extra_text t ((f, v) # vs) =
   (let n = num_or_zero (cost t f) in if n = Fin 0 then [] else '' + '' @ term_text v n) @ extra_text t vs"
  by (simp add: extra_text_def)

lemma extra_text_start:
  "vars_apart vs \<Longrightarrow> (extra_text t vs = []) \<or> (\<exists>f w z. (f, w) \<in> set vs \<and> w \<noteq> [] \<and> list_all (\<lambda>c. \<not> js_ws c) w \<and>
     extra_text t vs = '' + '' @ term_text w (num_or_zero (cost t f)) @ z)"
proof (induction vs)
  case (Cons p vs)
  obtain f v where p: "p = (f, v)" by force
  show ?case
  proof (cases "num_or_zero (cost t f) = Fin 0")
    case True
    then have "extra_text t (p # vs) = extra_text t vs" by (simp add: p extra_text_Cons)
    then show ?thesis using Cons p by (metis list.set_intros(2) vars_apart.simps(2))
  next
    case False
    then have "extra_text t (p # vs) = '' + '' @ term_text v (num_or_zero (cost t f)) @ extra_text t vs"
      by (simp add: p extra_text_Cons Let_def)
    then show ?thesis using Cons.prems p by (metis list.set_intros(1) vars_apart.simps(2))
  qed
qed (simp add: extra_text_def)

lemma first_opt_terms:
  assumes "vars_apart vs" "\<And>f v. (f, v) \<in> set vs \<Longrightarrow> price_num (num_or_zero (cost t f))" "terminated z"
  shows "first (r_seqs (re_opt_terms vs i)) (b, extra_text t vs @ z, g) (rev (extra_text t vs) @ b, z, extra_caps t vs i @ g)"
  using assms
proof (induction vs arbitrary: i b g rule: vars_apart.induct)
  case (2 f v vs)
  have v: "v \<noteq> []" "list_all (\<lambda>c. \<not> js_ws c) v" "list_all (\<lambda>(g, w). apart v w) vs" "vars_apart vs" using "2.prems" by simp_all
  have tail: "extra_text t vs @ z = [] \<or> \<not> cls_num (hd (extra_text t vs @ z))"
    using extra_text_start[OF v(4), of t] "2.prems"(3) by (auto simp: terminated_def cls_num_def is_digit_def)
  have ih: "first (r_seqs (re_opt_terms vs (Suc i))) (b', extra_text t vs @ z, g')
      (rev (extra_text t vs) @ b', z, extra_caps t vs (Suc i) @ g')" for b' g'
    using "2.prems" v(4) by (intro "2.IH") auto
  show ?case
  proof (cases "num_or_zero (cost t f) = Fin 0")
    case True
    have "first (re_opt_term v i) (b, extra_text t vs @ z, g) (b, extra_text t vs @ z, g)"
      using extra_text_start[OF v(4), of t]
    proof (elim disjE exE conjE)
      assume "extra_text t vs = []"
      then show ?thesis using "2.prems"(3) opt_term_skip_end[of "hd z" v i b "tl z" g] by (simp add: terminated_def)
    next
      fix f' w y
      assume w: "(f', w) \<in> set vs" "w \<noteq> []" "list_all (\<lambda>c. \<not> js_ws c) w"
        "extra_text t vs = '' + '' @ term_text w (num_or_zero (cost t f')) @ y"
      then have "apart v w" using v(3) by (auto simp: list_all_iff)
      then show ?thesis using opt_term_skip_other[OF _ v(1,2) w(2,3), of i b "num_or_zero (cost t f')" "y @ z" g] w(4) by simp
    qed
    then show ?thesis using first_seqs_Cons[OF _ ih] True
      by (simp add: extra_text_Cons Let_def del: r_seqs.simps)
  next
    case False
    have "price_num (num_or_zero (cost t f))" using "2.prems"(2)[of f v] by simp
    then have "first (re_opt_term v i) (b, '' + '' @ term_text v (num_or_zero (cost t f)) @ extra_text t vs @ z, g)
        (rev ('' + '' @ term_text v (num_or_zero (cost t f))) @ b, extra_text t vs @ z, (i, num_str (num_or_zero (cost t f))) # g)"
      using tail v by (intro opt_term_take) auto
    then show ?thesis using first_seqs_Cons[OF _ ih] False
      by (simp add: extra_text_Cons Let_def del: r_seqs.simps)
  qed
qed (simp add: extra_text_def del: r_seqs.simps)

section \<open>A tier\<close>

lemma cache_vars: "BILLING_CACHE_VAR_MAP = [(''cache_read_unit_cost'', ''cr''), (''cache_create_unit_cost'', ''cc''),
    (''cache_create_1h_unit_cost'', ''cc1h''), (''image_unit_cost'', ''img''), (''image_output_unit_cost'', ''img_o''),
    (''audio_input_unit_cost'', ''ai''), (''audio_output_unit_cost'', ''ao'')]"
  by code_simp

lemma cache_vars_apart: "vars_apart BILLING_CACHE_VAR_MAP"
  by code_simp

definition cost_fields :: "string list" where
  "cost_fields = [''input_unit_cost'', ''output_unit_cost''] @ map fst BILLING_CACHE_VAR_MAP"

definition prices_ok :: "vtier \<Rightarrow> bool" where
  "prices_ok t \<longleftrightarrow> list_all (\<lambda>f. price_num (num_or_zero (cost t f))) cost_fields"

lemma join_terms: "join sep (x # y # zs) = x @ sep @ y @ concat (map ((@) sep) zs)"
  by (induction zs arbitrary: x y) simp_all

lemma extra_terms_text: "concat (map ((@) '' + '') (extra_terms t vars)) = extra_text t vars"
proof (induction vars)
  case (Cons p vars)
  obtain f v where p: "p = (f, v)" by force
  have "extra_terms t (p # vars) = (let n = num_or_zero (cost t f) in if n = Fin 0 then [] else [term_text v n]) @ extra_terms t vars"
    by (simp add: p extra_terms_def List.map_filter_simps Let_def)
  then show ?case using Cons by (simp add: p extra_text_Cons Let_def)
qed (simp add: extra_terms_def extra_text_def List.map_filter_simps)

lemma body_text:
  "buildTierBodyExpr t = term_text ''p'' (num_or_zero (cost t ''input_unit_cost'')) @ '' + ''
     @ term_text ''c'' (num_or_zero (cost t ''output_unit_cost'')) @ extra_text t BILLING_CACHE_VAR_MAP"
  unfolding buildTierBodyExpr_def join_terms extra_terms_text ..

definition body_caps :: "vtier \<Rightarrow> nat \<Rightarrow> (nat \<times> string) list" where
  "body_caps t i = extra_caps t BILLING_CACHE_VAR_MAP (Suc (Suc i)) @
     [(Suc i, num_str (num_or_zero (cost t ''output_unit_cost''))), (i, num_str (num_or_zero (cost t ''input_unit_cost'')))]"

lemma re_body_eq: "re_body i = re_term ''p'' i @ re_plus @ re_term ''c'' (Suc i) @ re_opt_terms BILLING_CACHE_VAR_MAP (Suc (Suc i))"
  by (simp add: re_body_def re_term_def re_plus_def)

lemma first_body:
  assumes "prices_ok t" "terminated z"
  shows "first (r_seqs (re_body i)) (b, buildTierBodyExpr t @ z, g) (rev (buildTierBodyExpr t) @ b, z, body_caps t i @ g)"
proof -
  let ?x = "term_text ''p'' (num_or_zero (cost t ''input_unit_cost''))" and ?y = "term_text ''c'' (num_or_zero (cost t ''output_unit_cost''))"
  let ?e = "extra_text t BILLING_CACHE_VAR_MAP" and ?nx = "num_str (num_or_zero (cost t ''input_unit_cost''))"
  let ?ny = "num_str (num_or_zero (cost t ''output_unit_cost''))"
  have pn: "price_num (num_or_zero (cost t f))" if "f \<in> set cost_fields" for f
    using assms(1) that by (simp add: prices_ok_def list_all_iff)
  have tail: "?e @ z = [] \<or> \<not> cls_num (hd (?e @ z))"
    using extra_text_start[OF cache_vars_apart, of t] assms(2) by (auto simp: terminated_def cls_num_def is_digit_def)
  have "first (r_seqs (re_opt_terms BILLING_CACHE_VAR_MAP (Suc (Suc i)))) (b', ?e @ z, g')
      (rev ?e @ b', z, extra_caps t BILLING_CACHE_VAR_MAP (Suc (Suc i)) @ g')" for b' g'
    using cache_vars_apart assms(2) by (intro first_opt_terms pn) (force simp: cost_fields_def)+
  moreover have "first (r_seqs (re_term ''c'' (Suc i))) (b', ?y @ ?e @ z, g') (rev ?y @ b', ?e @ z, (Suc i, ?ny) # g')" for b' g'
    using tail by (intro first_term pn) (simp_all add: cost_fields_def)
  moreover have "first (r_seqs re_plus) (b', '' + '' @ ?y @ ?e @ z, g') (rev '' + '' @ b', ?y @ ?e @ z, g')" for b' g'
    using hd_term[of "''c''" _ "?e @ z"] by (intro first_plus) (auto simp: term_text_def js_ws_def)
  moreover have "first (r_seqs (re_term ''p'' i)) (b', ?x @ '' + '' @ ?y @ ?e @ z, g') (rev ?x @ b', '' + '' @ ?y @ ?e @ z, (i, ?nx) # g')" for b' g'
    by (intro first_term pn) (simp_all add: cost_fields_def cls_num_def is_digit_def)
  ultimately have "first (r_seqs (re_body i)) (b, ?x @ '' + '' @ ?y @ ?e @ z, g)
      (rev ?e @ rev ?y @ rev '' + '' @ rev ?x @ b, z, extra_caps t BILLING_CACHE_VAR_MAP (Suc (Suc i)) @ (Suc i, ?ny) # (i, ?nx) # g)"
    unfolding re_body_eq by (intro first_seqs_append)
  then show ?thesis by (simp add: body_text body_caps_def)
qed

definition quote_free :: "string \<Rightarrow> bool" where
  "quote_free s \<longleftrightarrow> list_all cls_not_quote s"

lemma first_label:
  assumes "quote_free l" "z \<noteq> []" "\<not> js_ws (hd z)"
  shows "first (r_seqs (re_label i)) (b, ''tier('' @ [CHR 0x22] @ l @ [CHR 0x22] @ '', '' @ z, g)
     (rev (''tier('' @ [CHR 0x22] @ l @ [CHR 0x22] @ '', '') @ b, z, (i, l) # g)"
proof -
  have 1: "first (r_seqs [r_ws]) (b', CHR '' '' # z, g') (CHR '' '' # b', z, g')" for b' g'
    using assms by (intro first_seqs_Cons[OF first_ws_blank]) auto
  have 2: "first (r_seqs [r_lit ([CHR 0x22] @ '',''), r_ws]) (b', ([CHR 0x22] @ '','') @ CHR '' '' # z, g')
      (CHR '' '' # rev ([CHR 0x22] @ '','') @ b', z, g')" for b' g'
    by (rule first_seqs_Cons[OF first_lit 1])
  have 3: "first (r_group i (r_star (r_cls cls_not_quote))) (b', l @ ([CHR 0x22] @ '','') @ CHR '' '' # z, g')
      (rev l @ b', ([CHR 0x22] @ '','') @ CHR '' '' # z, (i, l) # g')" for b' g'
    using assms(1) by (intro first_group_star) (simp_all add: quote_free_def cls_not_quote_def)
  have "first (r_seqs (re_label i)) (b, (''tier('' @ [CHR 0x22]) @ l @ ([CHR 0x22] @ '','') @ CHR '' '' # z, g)
     (CHR '' '' # rev ([CHR 0x22] @ '','') @ rev l @ rev (''tier('' @ [CHR 0x22]) @ b, z, (i, l) # g)"
    unfolding re_label_def by (rule first_seqs_Cons[OF first_lit first_seqs_Cons[OF 3 2]])
  then show ?thesis by simp
qed

definition tier_caps :: "string \<Rightarrow> vtier \<Rightarrow> nat \<Rightarrow> (nat \<times> string) list" where
  "tier_caps l t i = body_caps t (Suc i) @ [(i, l)]"

lemma body_start: "\<exists>r. buildTierBodyExpr t = CHR ''p'' # r"
  by (simp add: body_text term_text_def)

lemma first_tier:
  assumes "prices_ok t" "quote_free l"
  shows "first (r_seqs (re_label i @ re_body (Suc i) @ [r_lit '')''])) (b, tier_text l t @ z, g)
     (rev (tier_text l t) @ b, z, tier_caps l t i @ g)"
proof -
  obtain r where r: "buildTierBodyExpr t = CHR ''p'' # r" using body_start by blast
  have 1: "first (r_seqs (re_label i)) (b, ''tier('' @ [CHR 0x22] @ l @ [CHR 0x22] @ '', '' @ (buildTierBodyExpr t @ '')'' @ z), g)
     (rev (''tier('' @ [CHR 0x22] @ l @ [CHR 0x22] @ '', '') @ b, buildTierBodyExpr t @ '')'' @ z, (i, l) # g)"
    using r by (intro first_label assms) (simp_all add: js_ws_def)
  have 2: "first (r_seqs (re_body (Suc i))) (b', buildTierBodyExpr t @ '')'' @ z, g')
      (rev (buildTierBodyExpr t) @ b', '')'' @ z, body_caps t (Suc i) @ g')" for b' g'
    using assms(1) by (intro first_body) (simp_all add: terminated_def cls_num_def is_digit_def js_ws_def)
  have 3: "first (r_seqs [r_lit '')'']) (b', '')'' @ z, g') (rev '')'' @ b', z, g')" for b' g'
    by (rule first_seqs_Cons[OF first_lit]) (simp only: first_seqs_Nil)
  show ?thesis using first_seqs_append[OF 1 first_seqs_append[OF 2 3]] by (simp add: tier_text_def tier_caps_def del: r_seqs.simps)
qed

end
