(* ===== verification/TieredRoundTrip.thy ===== *)
theory TieredRoundTrip
  imports TieredFacts
begin

text \<open>
  The expression that the visual form prints for its tiers is read back as the same tiers.
\<close>

section \<open>The captured tier\<close>

definition canon_extras :: "vtier \<Rightarrow> (string \<times> string) list \<Rightarrow> jsobj" where
  "canon_extras t vs = concat (map (\<lambda>(f, v). let n = num_or_zero (cost t f) in if n = Fin 0 then [] else [(f, JNum n)]) vs)"

definition canon_tier :: "vtier \<Rightarrow> vtier" where
  "canon_tier t = normalizeVisualTier
     \<lparr>t_conditions = t_conditions t,
      t_costs = [(''input_unit_cost'', JNum (num_or_zero (cost t ''input_unit_cost''))),
                 (''output_unit_cost'', JNum (num_or_zero (cost t ''output_unit_cost'')))] @ canon_extras t BILLING_CACHE_VAR_MAP,
      t_label = t_label t, t_cache_mode = None\<rparr>"

lemma extra_caps_keys: "(j, x) \<in> set (extra_caps t vs i) \<Longrightarrow> i \<le> j"
proof (induction vs arbitrary: i)
  case (Cons p vs)
  obtain f v where p: "p = (f, v)" by force
  then show ?case using Cons.prems Cons.IH[of "Suc i"] by (auto simp: Let_def split: if_splits)
qed simp

lemma extra_caps_before: "j < i \<Longrightarrow> map_of (extra_caps t vs i @ g) j = map_of g j"
proof -
  assume "j < i"
  then have "map_of (extra_caps t vs i) j = None" using extra_caps_keys[of j _ t vs i] by (fastforce simp: map_of_eq_None_iff)
  then show ?thesis by (simp add: map_add_def)
qed

lemma parsed_extras_caps:
  assumes "\<And>j. i \<le> j \<Longrightarrow> map_of g j = None" "\<And>f v. (f, v) \<in> set vs \<Longrightarrow> price_num (num_or_zero (cost t f))"
  shows "parsed_extras (map_of (extra_caps t vs i @ g)) vs i = canon_extras t vs"
  using assms
proof (induction vs arbitrary: i g)
  case (Cons p vs)
  obtain f v where p: "p = (f, v)" by force
  let ?n = "num_or_zero (cost t f)"
  let ?x = "if ?n = Fin 0 then [] else [(i, num_str ?n)]"
  have caps: "extra_caps t (p # vs) i @ g = extra_caps t vs (Suc i) @ (?x @ g)" by (simp add: p Let_def)
  have "map_of (extra_caps t (p # vs) i @ g) i = map_of (?x @ g) i" unfolding caps by (rule extra_caps_before) simp
  then have here: "map_of (extra_caps t (p # vs) i @ g) i = (if ?n = Fin 0 then None else Some (num_str ?n))" using Cons.prems(1) by simp
  have "parsed_extras (map_of (extra_caps t vs (Suc i) @ (?x @ g))) vs (Suc i) = canon_extras t vs"
    using Cons.prems by (intro Cons.IH) (auto simp: Suc_le_eq)
  moreover have "num_of_string (num_str ?n) = ?n" using Cons.prems(2)[of f v] by (simp add: p num_text_def)
  ultimately show ?case using here caps by (simp add: p canon_extras_def Let_def)
qed (simp add: canon_extras_def)

lemma parsed_tier_caps:
  assumes "prices_ok t" "\<And>j. i \<le> j \<Longrightarrow> map_of g j = None"
  shows "parsed_tier (map_of (tier_caps (t_label t) t i @ g)) i (t_conditions t) = canon_tier t"
proof -
  let ?ic = "num_or_zero (cost t ''input_unit_cost'')" and ?oc = "num_or_zero (cost t ''output_unit_cost'')"
  let ?g = "[(i + 2, num_str ?oc), (Suc i, num_str ?ic), (i, t_label t)] @ g"
  let ?m = "map_of (tier_caps (t_label t) t i @ g)"
  have pn: "price_num (num_or_zero (cost t f))" if "f \<in> set cost_fields" for f
    using assms(1) that by (simp add: prices_ok_def list_all_iff)
  have caps: "tier_caps (t_label t) t i @ g = extra_caps t BILLING_CACHE_VAR_MAP (i + 3) @ ?g"
    by (simp add: tier_caps_def body_caps_def numeral_3_eq_3)
  have "?m j = map_of ?g j" if "j < i + 3" for j unfolding caps using that by (rule extra_caps_before)
  then have low: "cap ?m i = t_label t" "cap ?m (Suc i) = num_str ?ic" "cap ?m (i + 2) = num_str ?oc" by (simp_all add: cap_def)
  have "parsed_extras ?m BILLING_CACHE_VAR_MAP (i + 3) = canon_extras t BILLING_CACHE_VAR_MAP"
    unfolding caps using assms(2) by (intro parsed_extras_caps pn) (auto simp: cost_fields_def image_iff, force)
  moreover have "num_of_string (num_str ?ic) = ?ic" "num_of_string (num_str ?oc) = ?oc"
    using pn[of "''input_unit_cost''"] pn[of "''output_unit_cost''"] by (simp_all add: cost_fields_def num_text_def)
  ultimately show ?thesis using low by (simp add: parsed_tier_def canon_tier_def)
qed

lemma num_or_zero_idem: "num_or_zero (JNum (num_or_zero x)) = num_or_zero x"
  by (simp add: num_or_zero_def Let_def)

lemma canon_extras_get: "map_of (canon_extras t vs) f =
   (if f \<in> fst ` set vs \<and> num_or_zero (cost t f) \<noteq> Fin 0 then Some (JNum (num_or_zero (cost t f))) else None)"
proof (induction vs)
  case (Cons p vs)
  obtain f' v where p: "p = (f', v)" by force
  then show ?case using Cons by (auto simp: canon_extras_def Let_def map_add_def split: option.split)
qed (simp add: canon_extras_def)

lemma num_or_zero_undef: "num_or_zero JUndef = Fin 0"
  by (simp add: num_or_zero_def num_truthy_def)

lemma canon_fields [simp]: "t_conditions (canon_tier t) = t_conditions t" "t_label (canon_tier t) = t_label t"
  by (simp_all add: canon_tier_def normalizeVisualTier_def)

lemma canon_costs: "t_costs (canon_tier t) = [(''input_unit_cost'', JNum (num_or_zero (cost t ''input_unit_cost''))),
     (''output_unit_cost'', JNum (num_or_zero (cost t ''output_unit_cost'')))] @ canon_extras t BILLING_CACHE_VAR_MAP"
  by (simp add: canon_tier_def normalizeVisualTier_def)

lemma extra_field: "(f, v) \<in> set BILLING_CACHE_VAR_MAP \<Longrightarrow> f \<in> set cost_fields"
  by (force simp: cost_fields_def)

lemma canon_cost:
  assumes "f \<in> set cost_fields"
  shows "num_or_zero (cost (canon_tier t) f) = num_or_zero (cost t f)"
proof -
  have "cost (canon_tier t) f = (case map_of (t_costs (canon_tier t)) f of Some w \<Rightarrow> w | None \<Rightarrow> JUndef)"
    by (simp add: cost_def jget_obj obj_get_def)
  then show ?thesis using assms unfolding canon_costs
    by (auto simp: canon_extras_get num_or_zero_idem num_or_zero_undef cost_fields_def)
qed

lemma normalize_tier_idem: "normalizeVisualTier (normalizeVisualTier t) = normalizeVisualTier t"
  by (simp add: normalizeVisualTier_def getTierCacheMode_def)

lemma normalize_canon [simp]: "normalizeVisualTier (canon_tier t) = canon_tier t"
  by (simp add: canon_tier_def normalize_tier_idem)

lemma body_canon: "buildTierBodyExpr (canon_tier t) = buildTierBodyExpr t"
proof -
  have "extra_text (canon_tier t) BILLING_CACHE_VAR_MAP = extra_text t BILLING_CACHE_VAR_MAP"
    unfolding extra_text_def by (intro arg_cong[of _ _ concat] map_cong refl) (auto simp: canon_cost extra_field split: prod.split)
  then show ?thesis by (simp add: body_text canon_cost cost_fields_def)
qed

lemma tier_text_canon: "tier_text l (canon_tier t) = tier_text l t"
  by (simp add: tier_text_def body_canon)

section \<open>Conditions\<close>

definition tcond_ok :: "tcond \<Rightarrow> bool" where
  "tcond_ok c \<longleftrightarrow> tc_var c \<in> set VAR_OPTIONS \<and> tc_op c \<in> set OPS \<and>
     (case tc_value c of JNum n \<Rightarrow> num_text cls_condnum n | _ \<Rightarrow> False)"

lemma tcond_okE:
  assumes "tcond_ok c"
  obtains n where "tc_value c = JNum n" "num_text cls_condnum n" "tc_var c = ''len'' \<or> tc_var c = ''p'' \<or> tc_var c = ''c''"
    "tc_op c = ''<'' \<or> tc_op c = ''<='' \<or> tc_op c = ''>'' \<or> tc_op c = ''>=''"
  using assms by (cases "tc_value c") (auto simp: tcond_ok_def VAR_OPTIONS_def OPS_def)

lemma condnum_not_ws: "cls_condnum c \<Longrightarrow> \<not> js_ws c"
  by (auto simp: cls_condnum_def js_ws_def is_digit_def)

abbreviation r_vars :: matcher where "r_vars \<equiv> r_alts [r_lit ''p'', r_lit ''c'', r_lit ''len'']"
abbreviation r_ops :: matcher where "r_ops \<equiv> r_alts [r_lit ''<'', r_lit ''<='', r_lit ''>'', r_lit ''>='']"

lemma first_vars:
  "v = ''len'' \<or> v = ''p'' \<or> v = ''c'' \<Longrightarrow> first r_vars (b, v @ CHR '' '' # z, g) (rev v @ b, CHR '' '' # z, g)"
  by (rule first_single) (auto simp: r_alt_def)

text \<open>The alternative \<open><\<close> is tried before \<open><=\<close> and fails at the equals sign.\<close>

definition stops_eq :: "matcher \<Rightarrow> bool" where
  "stops_eq k \<longleftrightarrow> (\<forall>b z g. k (b, CHR ''='' # z, g) = [])"

lemma first_ops:
  assumes "w = ''<'' \<or> w = ''<='' \<or> w = ''>'' \<or> w = ''>=''" "stops_eq k" "first k (rev w @ b, CHR '' '' # z, g) u"
  shows "first (r_seq r_ops k) (b, w @ CHR '' '' # z, g) u"
  using assms by (auto simp: r_seq_def r_alt_def stops_eq_def first_def)

lemma first_group_ops:
  assumes "w = ''<'' \<or> w = ''<='' \<or> w = ''>'' \<or> w = ''>=''" "stops_eq k" "first k (rev w @ b, CHR '' '' # z, (i, w) # g) u"
  shows "first (r_seq (r_group i r_ops) k) (b, w @ CHR '' '' # z, g) u"
  using assms by (auto simp: r_seq_def r_alt_def stops_eq_def first_def)

lemma stops_eq_num: "stops_eq (r_seqs (r_ws # r_plus (r_cls cls_condnum) # ms))" "stops_eq (r_seqs (r_ws # r_group i (r_plus (r_cls cls_condnum)) # ms))"
  by (simp_all add: stops_eq_def r_seq_def r_plus_def js_ws_def cls_condnum_def is_digit_def)

lemma num_hd: "num_text cls_condnum n \<Longrightarrow> num_str n @ z \<noteq> [] \<and> \<not> js_ws (hd (num_str n @ z))"
  using condnum_not_ws by (cases "num_str n") (auto simp: num_text_def)

lemma first_atom:
  assumes "tcond_ok c" "z = [] \<or> \<not> cls_condnum (hd z)"
  shows "first re_cond_atom (b, cond_text c @ z, g) (rev (cond_text c) @ b, z, g)"
  using assms(1)
proof (rule tcond_okE)
  fix n assume n: "tc_value c = JNum n" "num_text cls_condnum n" "tc_var c = ''len'' \<or> tc_var c = ''p'' \<or> tc_var c = ''c''"
    "tc_op c = ''<'' \<or> tc_op c = ''<='' \<or> tc_op c = ''>'' \<or> tc_op c = ''>=''"
  let ?x = "num_str n" and ?v = "tc_var c" and ?w = "tc_op c"
  have x: "?x \<noteq> []" "list_all cls_condnum ?x" using n(2) by (simp_all add: num_text_def)
  have 1: "first (r_seqs [r_plus (r_cls cls_condnum)]) (b', ?x @ z, g) (rev ?x @ b', z, g)" for b'
    by (rule first_seqs_Cons[OF first_plus_cls[OF x(2,1) assms(2)]]) (simp only: first_seqs_Nil)
  have 2: "first (r_seqs [r_ws, r_plus (r_cls cls_condnum)]) (b', CHR '' '' # ?x @ z, g) (rev ?x @ CHR '' '' # b', z, g)" for b'
    using num_hd[OF n(2), of z] by (intro first_seqs_Cons[OF first_ws_blank 1]) auto
  have 3: "first (r_seqs [r_ops, r_ws, r_plus (r_cls cls_condnum)]) (b', ?w @ CHR '' '' # ?x @ z, g) (rev ?x @ CHR '' '' # rev ?w @ b', z, g)" for b'
    unfolding r_seqs.simps(2)[of r_ops] by (rule first_ops[OF n(4) stops_eq_num(1) 2])
  have nw: "\<not> js_ws (hd (?w @ y))" for y using n(4) by (auto simp: js_ws_def)
  have 4: "first (r_seqs [r_ws, r_ops, r_ws, r_plus (r_cls cls_condnum)]) (b', CHR '' '' # ?w @ CHR '' '' # ?x @ z, g)
      (rev ?x @ CHR '' '' # rev ?w @ CHR '' '' # b', z, g)" for b'
    using nw by (intro first_seqs_Cons[OF first_ws_blank 3]) auto
  have "first re_cond_atom (b, ?v @ CHR '' '' # ?w @ CHR '' '' # ?x @ z, g) (rev ?x @ CHR '' '' # rev ?w @ CHR '' '' # rev ?v @ b, z, g)"
    unfolding re_cond_atom_def by (rule first_seqs_Cons[OF first_vars[OF n(3)] 4])
  then show ?thesis by (simp add: cond_text_def n(1))
qed

definition and_text :: "tcond list \<Rightarrow> string" where
  "and_text cs = concat (map (\<lambda>c. '' && '' @ cond_text c) cs)"

definition re_and :: matcher where
  "re_and = r_seqs [r_ws, r_lit ''&&'', r_ws, re_cond_atom]"

lemma cond_text_start: "tcond_ok c \<Longrightarrow> cond_text c @ z \<noteq> [] \<and> \<not> js_ws (hd (cond_text c @ z)) \<and> hd (cond_text c @ z) \<in> {CHR ''p'', CHR ''c'', CHR ''l''}"
  by (erule tcond_okE) (auto simp: cond_text_def js_ws_def)

lemma first_and:
  assumes "tcond_ok c" "z = [] \<or> \<not> cls_condnum (hd z)"
  shows "first re_and (b, '' && '' @ cond_text c @ z, g) (rev ('' && '' @ cond_text c) @ b, z, g)"
proof -
  have 1: "first (r_seqs [re_cond_atom]) (b', cond_text c @ z, g) (rev (cond_text c) @ b', z, g)" for b'
    by (rule first_seqs_Cons[OF first_atom[OF assms]]) (simp only: first_seqs_Nil)
  have 2: "first (r_seqs [r_ws, re_cond_atom]) (b', CHR '' '' # cond_text c @ z, g) (rev (cond_text c) @ CHR '' '' # b', z, g)" for b'
    using cond_text_start[OF assms(1), of z] by (intro first_seqs_Cons[OF first_ws_blank 1]) auto
  have 3: "first (r_seqs [r_lit ''&&'', r_ws, re_cond_atom]) (b', ''&&'' @ CHR '' '' # cond_text c @ z, g)
      (rev (cond_text c) @ CHR '' '' # rev ''&&'' @ b', z, g)" for b'
    by (rule first_seqs_Cons[OF first_lit 2])
  have "first re_and (b, CHR '' '' # ''&&'' @ CHR '' '' # cond_text c @ z, g) (rev (cond_text c) @ CHR '' '' # rev ''&&'' @ CHR '' '' # b, z, g)"
    unfolding re_and_def by (rule first_seqs_Cons[OF first_ws_blank 3]) (simp add: js_ws_def)
  then show ?thesis by simp
qed

lemma and_stop: "re_and (b, '' ? '' @ z, g) = []"
  by (simp add: re_and_def r_seq_def js_ws_def)

lemma and_text_hd: "z = '' ? '' @ y \<Longrightarrow> \<not> cls_condnum (hd (and_text cs @ z))"
  by (cases cs) (auto simp: and_text_def cls_condnum_def is_digit_def)

lemma first_and_star:
  "list_all tcond_ok cs \<Longrightarrow> first (r_star re_and) (b, and_text cs @ '' ? '' @ z, g) (rev (and_text cs) @ b, '' ? '' @ z, g)"
proof (induction cs arbitrary: b)
  case Nil
  then show ?case using first_star_stop[of re_and, OF and_stop] by (simp add: and_text_def)
next
  case (Cons c cs)
  let ?z = "and_text cs @ '' ? '' @ z"
  have one: "first re_and (b, '' && '' @ cond_text c @ ?z, g) (rev ('' && '' @ cond_text c) @ b, ?z, g)"
    using Cons.prems and_text_hd[of "'' ? '' @ z" z cs] by (intro first_and) auto
  have more: "first (r_star re_and) (rev ('' && '' @ cond_text c) @ b, ?z, g) (rev (and_text cs) @ rev ('' && '' @ cond_text c) @ b, '' ? '' @ z, g)"
    using Cons by simp
  have "first (r_star re_and) (b, '' && '' @ cond_text c @ ?z, g) (rev (and_text cs) @ rev ('' && '' @ cond_text c) @ b, '' ? '' @ z, g)"
    by (rule first_star_step[OF one _ more]) simp
  then show ?case by (simp add: and_text_def)
qed

lemma cond_str: "list_all tcond_ok (c # cs) \<Longrightarrow> buildConditionStr (c # cs) = cond_text c @ and_text cs"
proof -
  assume ok: "list_all tcond_ok (c # cs)"
  have "tcond_ok d \<Longrightarrow> cond_shown d" for d by (erule tcond_okE) (auto simp: cond_shown_def)
  then have "filter cond_shown (c # cs) = c # cs" using ok by (auto simp: list_all_iff intro!: filter_True)
  moreover have "join '' && '' (x # xs) = x @ concat (map ((@) '' && '') xs)" for x xs by (induction xs arbitrary: x) simp_all
  ultimately show ?thesis by (simp add: buildConditionStr_def and_text_def comp_def)
qed

lemma first_cond_group:
  assumes "list_all tcond_ok cs" "cs \<noteq> []"
  shows "first re_cond_group (b, buildConditionStr cs @ '' ? '' @ z, g) (rev (buildConditionStr cs) @ b, '' ? '' @ z, (1, buildConditionStr cs) # g)"
proof -
  obtain c cs' where cs: "cs = c # cs'" using assms(2) by (cases cs) auto
  have "first (r_seq re_cond_atom (r_star re_and)) (b, cond_text c @ and_text cs' @ '' ? '' @ z, g)
      (rev (and_text cs') @ rev (cond_text c) @ b, '' ? '' @ z, g)"
    using assms(1) cs and_text_hd[of "'' ? '' @ z" z cs'] by (intro first_seq[OF first_atom first_and_star]) auto
  from first_group[OF this, of 1] show ?thesis
    unfolding re_cond_group_def re_and_def[symmetric] using cond_str assms(1) cs by simp
qed

section \<open>Reading the conditions back\<close>

lemma first_group_vars:
  "v = ''len'' \<or> v = ''p'' \<or> v = ''c'' \<Longrightarrow> first (r_group i r_vars) (b, v @ CHR '' '' # z, g) (rev v @ b, CHR '' '' # z, (i, v) # g)"
  using first_group[OF first_vars[of v b z g], of i] by simp

lemma re_cond_reads:
  assumes "tcond_ok c"
  shows "\<exists>m. rx_match re_cond (cond_text c) = Some m \<and> cap m 1 = tc_var c \<and> cap m 2 = tc_op c \<and> JNum (num_of_string (cap m 3)) = tc_value c"
  using assms
proof (rule tcond_okE)
  fix n assume n: "tc_value c = JNum n" "num_text cls_condnum n" "tc_var c = ''len'' \<or> tc_var c = ''p'' \<or> tc_var c = ''c''"
    "tc_op c = ''<'' \<or> tc_op c = ''<='' \<or> tc_op c = ''>'' \<or> tc_op c = ''>=''"
  let ?x = "num_str n" and ?v = "tc_var c" and ?w = "tc_op c"
  have x: "?x \<noteq> []" "list_all cls_condnum ?x" using n(2) by (simp_all add: num_text_def)
  have 0: "first (r_seqs [r_eol]) (b', [], g') (b', [], g')" for b' g'
    by (rule first_seqs_Cons[of r_eol _ "(b', [], g')"]) (auto simp: first_def)
  have 1: "first (r_seqs [r_group 3 (r_plus (r_cls cls_condnum)), r_eol]) (b', ?x @ [], g') (rev ?x @ b', [], (3, ?x) # g')" for b' g'
    by (rule first_seqs_Cons[OF first_group_plus[OF x(2,1)] 0]) simp
  have 2: "first (r_seqs [r_ws, r_group 3 (r_plus (r_cls cls_condnum)), r_eol]) (b', CHR '' '' # ?x @ [], g') (rev ?x @ CHR '' '' # b', [], (3, ?x) # g')" for b' g'
    using num_hd[OF n(2), of "[]"] by (intro first_seqs_Cons[OF first_ws_blank 1]) auto
  have 3: "first (r_seqs [r_group 2 r_ops, r_ws, r_group 3 (r_plus (r_cls cls_condnum)), r_eol]) (b', ?w @ CHR '' '' # ?x @ [], g')
      (rev ?x @ CHR '' '' # rev ?w @ b', [], (3, ?x) # (2, ?w) # g')" for b' g'
    unfolding r_seqs.simps(2)[of "r_group 2 r_ops"] by (rule first_group_ops[OF n(4) stops_eq_num(2) 2])
  have nw: "\<not> js_ws (hd (?w @ y))" for y using n(4) by (auto simp: js_ws_def)
  have 4: "first (r_seqs [r_ws, r_group 2 r_ops, r_ws, r_group 3 (r_plus (r_cls cls_condnum)), r_eol]) (b', CHR '' '' # ?w @ CHR '' '' # ?x @ [], g')
      (rev ?x @ CHR '' '' # rev ?w @ CHR '' '' # b', [], (3, ?x) # (2, ?w) # g')" for b' g'
    using nw by (intro first_seqs_Cons[OF first_ws_blank 3]) auto
  have "first (r_seqs [r_group 1 r_vars, r_ws, r_group 2 r_ops, r_ws, r_group 3 (r_plus (r_cls cls_condnum)), r_eol])
      ([], ?v @ CHR '' '' # ?w @ CHR '' '' # ?x @ [], []) (rev ?x @ CHR '' '' # rev ?w @ CHR '' '' # rev ?v @ [], [], [(3, ?x), (2, ?w), (1, ?v)])"
    by (rule first_seqs_Cons[OF first_group_vars[OF n(3)] 4])
  then have "rx_match re_cond (cond_text c) = Some (map_of [(3, ?x), (2, ?w), (1, ?v)])"
    unfolding re_cond_def rx_match_bol cond_text_def n(1) by (auto dest!: first_match simp del: r_seqs.simps)
  then show ?thesis using n(1,2) by (simp add: cap_def num_text_def)
qed

lemma split_and_plain: "CHR ''&'' \<notin> set x \<Longrightarrow> split_and acc x = [rev acc @ x]"
  by (induction acc x rule: split_and.induct) auto

lemma split_and_cut: "CHR ''&'' \<notin> set x \<Longrightarrow> split_and acc (x @ ''&&'' @ y) = (rev acc @ x) # split_and [] y"
proof (induction x arbitrary: acc)
  case (Cons a x)
  then show ?case by (cases x) auto
qed simp

lemma cond_text_no_amp: "tcond_ok c \<Longrightarrow> CHR ''&'' \<notin> set (cond_text c)"
proof (erule tcond_okE)
  fix n assume n: "tc_value c = JNum n" "num_text cls_condnum n" "tc_var c = ''len'' \<or> tc_var c = ''p'' \<or> tc_var c = ''c''"
    "tc_op c = ''<'' \<or> tc_op c = ''<='' \<or> tc_op c = ''>'' \<or> tc_op c = ''>=''"
  have "CHR ''&'' \<notin> set (num_str n)" using n(2) by (auto simp: num_text_def list_all_iff cls_condnum_def is_digit_def)
  then show ?thesis using n(1,3,4) by (auto simp: cond_text_def)
qed

lemma cond_text_trim: "tcond_ok c \<Longrightarrow> trimmed (cond_text c)"
proof (erule tcond_okE)
  fix n assume n: "tc_value c = JNum n" "num_text cls_condnum n" "tc_var c = ''len'' \<or> tc_var c = ''p'' \<or> tc_var c = ''c''"
  have "num_str n \<noteq> []" "\<not> js_ws (last (num_str n))" using n(2) condnum_not_ws by (auto simp: num_text_def list_all_iff)
  then show ?thesis using n(1,3) by (auto simp: trimmed_def cond_text_def js_ws_def)
qed

lemma trim_around:
  assumes "trimmed x" "x \<noteq> []" "list_all js_ws u" "list_all js_ws v"
  shows "trim (u @ x @ v) = x"
proof -
  have s: "dropWhile js_ws (u @ x @ v) = x @ v" using assms by (auto simp: dropWhile_all trimmed_def dropWhile_none)
  have "dropWhile js_ws (rev (x @ v)) = rev x"
    using assms dropWhile_all[of js_ws "rev v" "rev x"] by (auto simp: trimmed_def hd_rev dropWhile_none)
  then show ?thesis using s by (simp add: trim_def trim_start_def)
qed

lemma ws_no_amp: "list_all js_ws u \<Longrightarrow> CHR ''&'' \<notin> set u"
  by (induction u) (auto simp: js_ws_def)

lemma split_conditions:
  "list_all tcond_ok (c # cs) \<Longrightarrow> list_all js_ws u \<Longrightarrow> map trim (split_and [] (u @ cond_text c @ and_text cs)) = map cond_text (c # cs)"
proof (induction cs arbitrary: c u)
  case Nil
  then have "CHR ''&'' \<notin> set (u @ cond_text c)" using cond_text_no_amp[of c] ws_no_amp[of u] by simp
  then show ?case using Nil cond_text_trim[of c] cond_text_start[of c "[]"] trim_around[of "cond_text c" u "[]"]
    by (simp add: and_text_def split_and_plain)
next
  case (Cons d cs)
  have na: "CHR ''&'' \<notin> set (u @ cond_text c @ '' '')" using Cons.prems cond_text_no_amp[of c] ws_no_amp[of u] by simp
  have "u @ cond_text c @ and_text (d # cs) = (u @ cond_text c @ '' '') @ ''&&'' @ '' '' @ cond_text d @ and_text cs"
    by (simp add: and_text_def)
  then have "split_and [] (u @ cond_text c @ and_text (d # cs)) = (u @ cond_text c @ '' '') # split_and [] ('' '' @ cond_text d @ and_text cs)"
    using split_and_cut[OF na, of "[]"] by simp
  moreover have "trim (u @ cond_text c @ '' '') = cond_text c"
    using Cons.prems cond_text_trim[of c] cond_text_start[of c "[]"] by (intro trim_around) (auto simp: ws_blank)
  moreover have "map trim (split_and [] ('' '' @ cond_text d @ and_text cs)) = map cond_text (d # cs)"
    using Cons.prems by (intro Cons.IH) (auto simp: ws_blank)
  ultimately show ?case by simp
qed

lemma map_filter_Some: "(\<And>x. x \<in> set xs \<Longrightarrow> f (h x) = Some x) \<Longrightarrow> List.map_filter f (map h xs) = xs"
  by (induction xs) (simp_all add: List.map_filter_simps)

lemma parse_conditions_text:
  assumes "list_all tcond_ok cs"
  shows "parse_conditions (buildConditionStr cs) = cs"
proof (cases cs)
  case Nil
  then show ?thesis by (simp add: parse_conditions_def buildConditionStr_def)
next
  case (Cons c cs')
  let ?f = "\<lambda>s. map_option (\<lambda>m. \<lparr>tc_var = cap m 1, tc_op = cap m 2, tc_value = JNum (num_of_string (cap m 3))\<rparr>) (rx_match re_cond s)"
  have str: "buildConditionStr cs = cond_text c @ and_text cs'" using cond_str assms Cons by simp
  have "?f (cond_text d) = Some d" if "d \<in> set cs" for d
    using re_cond_reads[of d] assms that by (cases d) (auto simp: list_all_iff)
  then have "List.map_filter ?f (map cond_text cs) = cs" by (rule map_filter_Some)
  moreover have "map trim (split_and [] (buildConditionStr cs)) = map cond_text cs"
    using split_conditions[of c cs' "[]"] assms Cons str by simp
  moreover have "List.map_filter (\<lambda>s. ?f (trim s)) xs = List.map_filter ?f (map trim xs)" for xs
    by (simp add: List.map_filter_def comp_def filter_map)
  moreover have "buildConditionStr cs \<noteq> []" using str cond_text_start[of c "[]"] assms Cons by auto
  ultimately show ?thesis by (simp add: parse_conditions_def)
qed

section \<open>Matching the tiers\<close>

definition tier_ok :: "vtier \<Rightarrow> bool" where
  "tier_ok t \<longleftrightarrow> prices_ok t \<and> t_label t \<noteq> [] \<and> quote_free (t_label t) \<and> list_all tcond_ok (t_conditions t)"

definition part :: "vtier \<Rightarrow> string" where
  "part t = (if t_conditions t = [] then [] else buildConditionStr (t_conditions t) @ '' ? '') @ tier_text (t_label t) t"

definition part_caps :: "vtier \<Rightarrow> (nat \<times> string) list" where
  "part_caps t = tier_caps (t_label t) t 2 @ (if t_conditions t = [] then [] else [(1, buildConditionStr (t_conditions t))])"

definition re_cond_prefix :: "matcher list" where
  "re_cond_prefix = [re_cond_group, r_ws, r_lit ''?'', r_ws]"

lemma re_tier_eq: "re_tier = r_seqs ([r_opt (r_seqs re_cond_prefix)] @ (re_label 2 @ re_body (Suc 2) @ [r_lit '')'']))"
  by (simp add: re_tier_def re_cond_prefix_def numeral_3_eq_3 numeral_2_eq_2)

lemma tier_text_Cons: "tier_text l t = CHR ''t'' # tl (tier_text l t)"
  by (simp add: tier_text_def)

lemma cond_group_other: "c \<notin> {CHR ''p'', CHR ''c'', CHR ''l''} \<Longrightarrow> re_cond_group (b, c # z, g) = []"
  by (auto simp: re_cond_group_def re_cond_atom_def r_seq_def r_alt_def)

text \<open>A pattern of a tier behind the optional condition.\<close>

lemma first_prefixed:
  assumes ok: "list_all tcond_ok (t_conditions t)"
    and tier: "\<And>b' g. first (r_seqs ms) (b', tier_text (t_label t) t @ z, g) (rev (tier_text (t_label t) t) @ b', z, tc @ g)"
  shows "first (r_seqs ([r_opt (r_seqs re_cond_prefix)] @ ms)) (b, part t @ z, [])
    (rev (part t) @ b, z, tc @ (if t_conditions t = [] then [] else [(1, buildConditionStr (t_conditions t))]))"
proof -
  let ?x = "tier_text (t_label t) t" and ?c = "buildConditionStr (t_conditions t)"
  show ?thesis
  proof (cases "t_conditions t = []")
    case True
    have "re_cond_group (b, ?x @ z, []) = []" by (subst tier_text_Cons) (simp add: cond_group_other)
    then have "r_seqs re_cond_prefix (b, ?x @ z, []) = []" by (simp add: re_cond_prefix_def r_seq_def)
    then have skip: "first (r_seqs [r_opt (r_seqs re_cond_prefix)]) (b, ?x @ z, []) (b, ?x @ z, [])"
      by (intro first_seqs_Cons[OF first_opt_skip]) (simp_all only: first_seqs_Nil)
    then show ?thesis using first_seqs_append[OF skip tier] True by (simp add: part_def del: r_seqs.simps)
  next
    case False
    have 1: "first (r_seqs [r_ws]) (b', CHR '' '' # ?x @ z, g) (CHR '' '' # b', ?x @ z, g)" for b' g
      by (rule first_seqs_Cons[OF first_ws_blank]) (simp_all only: first_seqs_Nil, simp add: tier_text_def js_ws_def)
    have 2: "first (r_seqs [r_lit ''?'', r_ws]) (b', ''?'' @ CHR '' '' # ?x @ z, g) (CHR '' '' # rev ''?'' @ b', ?x @ z, g)" for b' g
      by (rule first_seqs_Cons[OF first_lit 1])
    have 3: "first (r_seqs [r_ws, r_lit ''?'', r_ws]) (b', CHR '' '' # ''?'' @ CHR '' '' # ?x @ z, g) (CHR '' '' # rev ''?'' @ CHR '' '' # b', ?x @ z, g)" for b' g
      by (rule first_seqs_Cons[OF first_ws_blank 2]) (simp add: js_ws_def)
    have "first (r_seqs re_cond_prefix) (b, ?c @ '' ? '' @ ?x @ z, []) (CHR '' '' # rev ''?'' @ CHR '' '' # rev ?c @ b, ?x @ z, [(1, ?c)])"
      unfolding re_cond_prefix_def using first_seqs_Cons[OF first_cond_group[OF ok False] , of "[r_ws, r_lit ''?'', r_ws]"] 3
      by (simp del: r_seqs.simps)
    then have taken: "first (r_seqs [r_opt (r_seqs re_cond_prefix)]) (b, ?c @ '' ? '' @ ?x @ z, []) (CHR '' '' # rev ''?'' @ CHR '' '' # rev ?c @ b, ?x @ z, [(1, ?c)])"
      by (intro first_seqs_Cons[OF first_opt_take]) (simp_all only: first_seqs_Nil)
    then show ?thesis using first_seqs_append[OF taken tier] False by (simp add: part_def del: r_seqs.simps)
  qed
qed

lemma first_part:
  assumes "tier_ok t"
  shows "first re_tier (b, part t @ z, []) (rev (part t) @ b, z, part_caps t)"
  unfolding re_tier_eq part_caps_def
  using assms by (intro first_prefixed first_tier) (simp_all add: tier_ok_def)

lemma exec_first: "first m (b, s, []) t \<Longrightarrow> exec_from m b s = Some (b, t)"
  by (cases s) (auto simp: first_def)

lemma re_tier_other: "c \<notin> {CHR ''p'', CHR ''c'', CHR ''l'', CHR ''t''} \<Longrightarrow> re_tier (b, c # z, g) = []"
  unfolding re_tier_eq re_cond_prefix_def re_label_def by (auto simp: r_seq_def r_opt_def cond_group_other)

lemma rx_all_Some:
  "exec_from m b s = Some (b0, b', r, g) \<Longrightarrow> length r < length s \<Longrightarrow> rx_all m b s = map_of g # rx_all m b' r"
  by (subst rx_all.simps) simp

lemma rx_all_None: "exec_from m b s = None \<Longrightarrow> rx_all m b s = []"
  by (subst rx_all.simps) simp

lemma re_tier_Nil: "re_tier (b, [], g) = []"
  unfolding re_tier_eq re_cond_prefix_def re_label_def
  by (simp add: r_seq_def r_opt_def re_cond_group_def re_cond_atom_def r_alt_def)

lemma part_len: "0 < length (part t)"
  by (simp add: part_def tier_text_def)

text \<open>What a pattern promises that reads printed tiers one after the other: it takes a whole tier with its condition, starts nowhere in the
  separators, and finds nothing in the zero branch of a single conditional tier.\<close>

locale tier_scan =
  fixes scan :: matcher and caps :: "vtier \<Rightarrow> (nat \<times> string) list"
  assumes scan_part: "tier_ok t \<Longrightarrow> first scan (b, part t @ z, []) (rev (part t) @ b, z, caps t)"
    and scan_other: "c \<notin> {CHR ''p'', CHR ''c'', CHR ''l'', CHR ''t''} \<Longrightarrow> scan (b, c # z, g) = []"
    and scan_nil: "scan (b, [], g) = []"
    and scan_zero: "exec_from scan b '' : p * 0 + c * 0'' = None"
begin

lemma scan_sep: "exec_from scan b ('' : '' @ s) = exec_from scan (rev '' : '' @ b) s"
  by (simp add: scan_other)

lemma scan_pre:
  assumes "tier_ok t" "pre = [] \<or> pre = '' : ''"
  shows "\<exists>b0. exec_from scan b (pre @ part t @ z) = Some (b0, rev (part t) @ rev pre @ b, z, caps t)"
  using exec_first[OF scan_part[OF assms(1)]] assms(2) scan_sep by auto

lemma scan_parts:
  "list_all tier_ok ts \<Longrightarrow> ts \<noteq> [] \<Longrightarrow> pre = [] \<or> pre = '' : '' \<Longrightarrow>
   rx_all scan b (pre @ join '' : '' (map part ts)) = map (\<lambda>t. map_of (caps t)) ts"
proof (induction ts arbitrary: b pre)
  case (Cons t ts)
  have ok: "tier_ok t" using Cons.prems by simp
  note prems3 = Cons.prems(3) and prems = Cons.prems and IH = Cons.IH
  show ?case
  proof (cases ts)
    case Nil
    obtain b0 where "exec_from scan b (pre @ part t @ []) = Some (b0, rev (part t) @ rev pre @ b, [], caps t)"
      using scan_pre[OF ok Cons.prems(3), of b "[]"] by blast
    then show ?thesis using part_len[of t] rx_all_Some[of scan b "pre @ part t"] rx_all_None[of scan _ "[]"] Nil
      by (simp add: scan_nil)
  next
    case (Cons u us)
    then have j: "join '' : '' (map part (t # ts)) = part t @ '' : '' @ join '' : '' (map part ts)" by simp
    obtain b0 where "exec_from scan b (pre @ part t @ '' : '' @ join '' : '' (map part ts)) =
        Some (b0, rev (part t) @ rev pre @ b, '' : '' @ join '' : '' (map part ts), caps t)"
      using scan_pre[OF ok prems3, of b "'' : '' @ join '' : '' (map part ts)"] by blast
    moreover have "rx_all scan b' ('' : '' @ join '' : '' (map part ts)) = map (\<lambda>t. map_of (caps t)) ts" for b'
      using prems Cons by (intro IH) auto
    ultimately show ?thesis using part_len[of t] unfolding j by (subst rx_all_Some) auto
  qed
qed simp

lemma scan_single_cond:
  assumes "tier_ok t"
  shows "rx_all scan [] (part t @ '' : p * 0 + c * 0'') = [map_of (caps t)]"
proof -
  obtain b0 where "exec_from scan [] (part t @ '' : p * 0 + c * 0'') = Some (b0, rev (part t) @ [], '' : p * 0 + c * 0'', caps t)"
    using scan_pre[OF assms, of "[]" "[]" "'' : p * 0 + c * 0''"] by auto
  then show ?thesis using part_len[of t] by (subst rx_all_Some) (auto simp: rx_all_None[OF scan_zero])
qed

end

lemma zero_tail [simp]: "exec_from re_tier b '' : p * 0 + c * 0'' = None"
  unfolding re_tier_eq re_cond_prefix_def re_label_def
  by (simp add: r_seq_def r_opt_def re_cond_group_def re_cond_atom_def r_alt_def js_ws_def)

interpretation form_tiers: tier_scan re_tier part_caps
  by unfold_locales (erule first_part | erule re_tier_other | rule re_tier_Nil | rule zero_tail)+

section \<open>Whole configurations\<close>

definition config_ok :: "vtier list \<Rightarrow> bool" where
  "config_ok ts \<longleftrightarrow> ts \<noteq> [] \<and> list_all tier_ok ts \<and> list_all (\<lambda>t. t_conditions t \<noteq> []) (butlast ts) \<and>
     (2 \<le> length ts \<longrightarrow> t_conditions (last ts) = [])"

lemma cond_str_empty: "list_all tcond_ok cs \<Longrightarrow> buildConditionStr cs = [] \<longleftrightarrow> cs = []"
proof (cases cs)
  case (Cons c cs')
  then show "list_all tcond_ok cs \<Longrightarrow> ?thesis" using cond_str[of c cs'] cond_text_start[of c "[]"] by auto
qed (simp add: buildConditionStr_def)

lemma gen_parts_part:
  "list_all tier_ok ts \<Longrightarrow> ts \<noteq> [] \<Longrightarrow> t_conditions (last ts) = [] \<Longrightarrow> gen_parts lbl i ts = map part ts"
proof (induction ts arbitrary: i)
  case (Cons t ts)
  have ok: "tier_ok t" using Cons.prems by simp
  then have c: "buildConditionStr (t_conditions t) = [] \<longleftrightarrow> t_conditions t = []" using cond_str_empty by (simp add: tier_ok_def)
  show ?case
  proof (cases "ts = []")
    case True
    then show ?thesis using Cons.prems ok by (simp add: part_def tier_ok_def Let_def)
  next
    case False
    then show ?thesis using Cons ok c by (simp add: part_def tier_ok_def Let_def)
  qed
qed simp

lemma generate_multi:
  assumes "config_ok ts" "2 \<le> length ts"
  shows "generateExprFromVisualConfig lbl (Some ts) = join '' : '' (map part ts)"
proof -
  obtain t u us where ts: "ts = t # u # us" using assms(2) by (cases ts; cases "tl ts") auto
  have "gen_parts lbl 0 ts = map part ts" using assms by (intro gen_parts_part) (auto simp: config_ok_def)
  then show ?thesis by (simp add: generateExprFromVisualConfig_def ts)
qed

lemma generate_single:
  assumes "tier_ok t"
  shows "generateExprFromVisualConfig lbl (Some [t]) = part t @ (if t_conditions t = [] then [] else '' : p * 0 + c * 0'')"
  using assms cond_str_empty[of "t_conditions t"] by (auto simp: generateExprFromVisualConfig_def part_def tier_ok_def Let_def)

context tier_scan
begin

lemma scan_generated:
  assumes "config_ok ts"
  shows "rx_all scan [] (generateExprFromVisualConfig lbl (Some ts)) = map (\<lambda>t. map_of (caps t)) ts"
proof (cases "2 \<le> length ts")
  case True
  have "list_all tier_ok ts" "ts \<noteq> []" using assms by (simp_all add: config_ok_def)
  then show ?thesis using scan_parts[of ts "[]" "[]"] by (simp add: generate_multi[OF assms True])
next
  case False
  then obtain t where t: "ts = [t]" using assms by (cases ts; cases "tl ts") (auto simp: config_ok_def)
  then have ok: "tier_ok t" using assms by (simp add: config_ok_def)
  show ?thesis
    using scan_single_cond[OF ok] scan_parts[of "[t]" "[]" "[]"] ok by (simp add: t generate_single[OF ok])
qed

end

lemma canon_ok: "config_ok ts \<Longrightarrow> config_ok (map canon_tier ts)"
proof -
  have "tier_ok t \<Longrightarrow> tier_ok (canon_tier t)" for t
    by (simp add: tier_ok_def prices_ok_def list_all_iff canon_cost)
  moreover have "t_conditions (last (map canon_tier ts)) = t_conditions (last ts)" if "ts \<noteq> []" using that by (simp add: last_map)
  ultimately show "config_ok ts \<Longrightarrow> config_ok (map canon_tier ts)"
    by (auto simp: config_ok_def list_all_iff map_butlast[symmetric])
qed

lemma part_canon: "part (canon_tier t) = part t"
  by (simp add: part_def tier_text_canon)

lemma generate_canon:
  assumes "config_ok ts"
  shows "generateExprFromVisualConfig lbl (Some (map canon_tier ts)) = generateExprFromVisualConfig lbl (Some ts)"
proof (cases "2 \<le> length ts")
  case True
  then show ?thesis using generate_multi[OF assms] generate_multi[OF canon_ok[OF assms]] by (simp add: part_canon comp_def)
next
  case False
  then obtain t where t: "ts = [t]" using assms by (cases ts; cases "tl ts") (auto simp: config_ok_def)
  then have "tier_ok t" "tier_ok (canon_tier t)" using assms canon_ok[OF assms] by (simp_all add: config_ok_def)
  then show ?thesis using generate_single by (simp add: t part_canon)
qed

lemma parsed_parts:
  assumes "list_all tier_ok ts"
  shows "map (\<lambda>m. parsed_tier m 2 (parse_conditions (cap m 1))) (map (\<lambda>t. map_of (part_caps t)) ts) = map canon_tier ts"
proof -
  have "parsed_tier (map_of (part_caps t)) 2 (parse_conditions (cap (map_of (part_caps t)) 1)) = canon_tier t" if "tier_ok t" for t
  proof -
    let ?g = "if t_conditions t = [] then [] else [(1, buildConditionStr (t_conditions t))]"
    have "map_of (part_caps t) 1 = map_of ?g 1"
      unfolding part_caps_def tier_caps_def body_caps_def by (simp add: extra_caps_before del: map_of_append)
    then have "cap (map_of (part_caps t)) 1 = buildConditionStr (t_conditions t)"
      by (cases "t_conditions t = []") (simp_all add: cap_def buildConditionStr_def)
    moreover have "parse_conditions (buildConditionStr (t_conditions t)) = t_conditions t"
      using that by (intro parse_conditions_text) (simp add: tier_ok_def)
    moreover have "parsed_tier (map_of (tier_caps (t_label t) t 2 @ ?g)) 2 (t_conditions t) = canon_tier t"
      using that by (intro parsed_tier_caps) (auto simp: tier_ok_def)
    ultimately show ?thesis by (simp only: part_caps_def)
  qed
  then show ?thesis using assms by (auto simp: list_all_iff)
qed

lemma not_version: "c \<noteq> CHR ''v'' \<Longrightarrow> rx_match re_version (c # s) = None"
  unfolding re_version_def rx_match_bol by (auto simp: r_seq_def)

lemma not_single: "c \<noteq> CHR ''t'' \<Longrightarrow> rx_match re_single (c # s) = None"
  unfolding re_single_def rx_match_bol re_label_def by (auto simp: r_seq_def)

lemma single_match:
  assumes "tier_ok t" "t_conditions t = []"
  shows "\<exists>m. rx_match re_single (part t) = Some m \<and> parsed_tier m 1 [] = canon_tier t"
proof -
  have "first (r_seqs (re_label 1 @ re_body (Suc 1) @ [r_lit '')''])) ([], part t @ [], []) (rev (part t) @ [], [], tier_caps (t_label t) t 1 @ [])"
    using first_tier[of t "t_label t" 1 "[]" "[]" "[]"] assms by (simp add: part_def tier_ok_def del: r_seqs.simps)
  moreover have "first (r_seqs [r_eol]) (b', [], g') (b', [], g')" for b' g'
    by (rule first_seqs_Cons[of r_eol _ "(b', [], g')"]) (auto simp: first_def)
  ultimately have "first (r_seqs ((re_label 1 @ re_body (Suc 1) @ [r_lit '')'']) @ [r_eol])) ([], part t @ [], []) (rev (part t) @ [], [], tier_caps (t_label t) t 1 @ [])"
    by (rule first_seqs_append)
  then have "rx_match re_single (part t) = Some (map_of (tier_caps (t_label t) t 1 @ []))"
    unfolding re_single_def rx_match_bol by (auto dest!: first_match simp: numeral_2_eq_2 simp del: r_seqs.simps)
  moreover have "parsed_tier (map_of (tier_caps (t_label t) t 1 @ [])) 1 (t_conditions t) = canon_tier t"
    using assms by (intro parsed_tier_caps) (simp_all add: tier_ok_def)
  ultimately show ?thesis using assms(2) by simp
qed

lemma part_hd:
  assumes "tier_ok t"
  shows "\<exists>c r. part t = c # r \<and> c \<noteq> CHR ''v'' \<and> (t_conditions t \<noteq> [] \<longrightarrow> c \<noteq> CHR ''t'')"
proof (cases "t_conditions t")
  case Nil
  then show ?thesis by (simp add: part_def tier_text_def)
next
  case (Cons c cs)
  then have "tcond_ok c" "buildConditionStr (t_conditions t) = cond_text c @ and_text cs"
    using assms cond_str by (simp_all add: tier_ok_def)
  then show ?thesis using Cons cond_text_start[of c "[]"] by (cases "cond_text c") (auto simp: part_def)
qed

lemma parse_multi:
  assumes "s \<noteq> []" "rx_match re_version s = None" "rx_match re_single s = None"
    "map (\<lambda>m. parsed_tier m 2 (parse_conditions (cap m 1))) (rx_all re_tier [] s) = ts" "ts \<noteq> []"
    "remove_ws (generateExprFromVisualConfig lbl (Some (normalizeVisualConfig (Some ts)))) = remove_ws s"
  shows "tryParseVisualConfig lbl s = Some (normalizeVisualConfig (Some ts))"
  using assms(1,5,6) unfolding tryParseVisualConfig_def assms(2,3) Let_def option.case assms(4) by simp

lemma parse_generated:
  assumes "config_ok ts"
  shows "tryParseVisualConfig lbl (generateExprFromVisualConfig lbl (Some ts)) = Some (map canon_tier ts)"
proof -
  let ?s = "generateExprFromVisualConfig lbl (Some ts)"
  have norm: "normalizeVisualConfig (Some (map canon_tier ts)) = map canon_tier ts"
    using assms by (simp add: normalizeVisualConfig_def config_ok_def)
  obtain t ts' where ts: "ts = t # ts'" using assms by (cases ts) (auto simp: config_ok_def)
  have ok: "tier_ok t" "list_all tier_ok ts" using assms ts by (simp_all add: config_ok_def)
  have many: "tryParseVisualConfig lbl ?s = Some (map canon_tier ts)"
    if c: "t_conditions t \<noteq> []" and s: "?s = part t @ y" and all: "rx_all re_tier [] ?s = map (\<lambda>t. map_of (part_caps t)) ts" for y
  proof -
    obtain c r where cr: "part t = c # r" "c \<noteq> CHR ''v''" "c \<noteq> CHR ''t''" using part_hd[OF ok(1)] c by auto
    have "rx_match re_version ?s = None" "rx_match re_single ?s = None" "?s \<noteq> []"
      using cr s not_version[OF cr(2)] not_single[OF cr(3)] by simp_all
    then show ?thesis using parse_multi[of ?s "map canon_tier ts" lbl] all parsed_parts[OF ok(2)] norm generate_canon[OF assms, of lbl] ts
      by simp
  qed
  show ?thesis
  proof (cases ts')
    case Nil
    show ?thesis
    proof (cases "t_conditions t = []")
      case True
      obtain c r where cr: "part t = c # r" "c \<noteq> CHR ''v''" using part_hd[OF ok(1)] by auto
      obtain m where m: "rx_match re_single (part t) = Some m" "parsed_tier m 1 [] = canon_tier t" using single_match[OF ok(1) True] by blast
      have "rx_match re_version (part t) = None" using cr not_version by simp
      then show ?thesis using generate_single[OF ok(1), of lbl] m True ts Nil cr(1) norm
        by (simp add: tryParseVisualConfig_def Let_def)
    next
      case False
      then show ?thesis using many[of "'' : p * 0 + c * 0''"] generate_single[OF ok(1), of lbl] form_tiers.scan_single_cond[OF ok(1)] ts Nil by simp
    qed
  next
    case (Cons u us)
    then have g: "?s = join '' : '' (map part ts)" using assms ts by (intro generate_multi) auto
    moreover have "join '' : '' (map part ts) = part t @ '' : '' @ join '' : '' (map part (u # us))" by (simp add: ts Cons)
    moreover have "t_conditions t \<noteq> []" using assms ts Cons by (simp add: config_ok_def)
    ultimately show ?thesis using many form_tiers.scan_parts[OF ok(2), of "[]" "[]"] ts by simp
  qed
qed

end
