(* ===== verification/TieredReach.thy ===== *)
theory TieredReach
  imports TieredState TieredRoundTrip RequestRulesRoundTrip
begin

text \<open>
  The editor of tiered billing: printed tiers read back, the page's expression follows the editor, and what happens to rule groups
  that are not complete yet.
\<close>

section \<open>Steps\<close>

inductive te_step :: "(nat \<Rightarrow> string) \<Rightarrow> te_state \<Rightarrow> te_state \<Rightarrow> bool" for lbl where
  Groups: "handleRequestRuleGroupsChange lbl gs s = Inr s' \<Longrightarrow> te_step lbl s s'"
| Visual: "handleVisualChange lbl cfg s = Inr s' \<Longrightarrow> te_step lbl s s'"
| Raw: "handleRawChange lbl val s = Inr s' \<Longrightarrow> te_step lbl s s'"
| Switch: "handleModeSwitch lbl mode s = Inr s' \<Longrightarrow> te_step lbl s s'"
| Preset: "applyPreset lbl expr gs s = Inr s' \<Longrightarrow> te_step lbl s s'"

inductive te_reach :: "(nat \<Rightarrow> string) \<Rightarrow> te_state \<Rightarrow> bool" for lbl where
  Mount: "mount_editor lbl expr rules = Inr s \<Longrightarrow> te_reach lbl s"
| Step: "te_reach lbl s \<Longrightarrow> te_step lbl s s' \<Longrightarrow> te_reach lbl s'"

definition in_sync :: "(nat \<Rightarrow> string) \<Rightarrow> te_state \<Rightarrow> bool" where
  "in_sync lbl s \<longleftrightarrow> effectiveExpr lbl s = Inr (te_expr s)"

lemma effective_upd [simp]:
  "effectiveExpr lbl (s\<lparr>te_expr := e\<rparr>) = effectiveExpr lbl s" "effectiveExpr lbl (s\<lparr>requestRuleGroups := gs\<rparr>) = effectiveExpr lbl s"
  "effectiveExpr lbl (s\<lparr>te_rules := r\<rparr>) = effectiveExpr lbl s"
  by (simp_all add: effectiveExpr_def)

lemma expr_effect_sync:
  "expr_effect lbl s0 s = Inr s' \<Longrightarrow> effectiveExpr lbl s0 = Inr e0 \<Longrightarrow> te_expr s = e0 \<Longrightarrow> in_sync lbl s'"
  by (auto simp: expr_effect_def in_sync_def split: sum.splits if_splits)

lemma settle_sync:
  assumes "settle lbl s0 s = Inr s'" "in_sync lbl s0" "te_expr s = te_expr s0"
  shows "in_sync lbl s'"
proof -
  obtain s1 where s1: "rules_effect s0 s = Inr s1" "expr_effect lbl s0 s1 = Inr s'" using assms(1) by (auto simp: settle_def split: sum.splits)
  then have "te_expr s1 = te_expr s0" using assms(3) by (auto simp: rules_effect_def split: if_splits sum.splits)
  then show ?thesis using expr_effect_sync[OF s1(2)] assms(2) by (simp add: in_sync_def)
qed

lemma step_sync: "te_step lbl s s' \<Longrightarrow> in_sync lbl s \<Longrightarrow> in_sync lbl s'"
proof (induction rule: te_step.induct)
  case (Raw val s s')
  then show ?case by (auto simp: handleRawChange_def split: sum.splits intro: settle_sync)
next
  case (Switch mode s s')
  then show ?case by (auto simp: handleModeSwitch_def Let_def split: sum.splits if_splits intro: settle_sync)
next
  case (Preset expr gs s s')
  then show ?case by (auto simp: applyPreset_def Let_def split: option.splits intro: settle_sync)
qed (auto simp: handleRequestRuleGroupsChange_def handleVisualChange_def intro: settle_sync)

lemma mount_sync: "mount_editor lbl expr rules = Inr s \<Longrightarrow> in_sync lbl s"
  by (auto simp: mount_editor_def Let_def effectiveExpr_def split: sum.splits intro!: expr_effect_sync)

lemma reach_sync: "te_reach lbl s \<Longrightarrow> in_sync lbl s"
  by (induction rule: te_reach.induct) (auto intro: mount_sync step_sync)

section \<open>Incomplete rule groups\<close>

lemma build_complete: "buildRequestRuleExpr (filter (\<lambda>g. buildRuleGroupFactor g \<noteq> []) gs) = buildRequestRuleExpr gs"
proof -
  have "filter (\<lambda>e. e \<noteq> []) (map buildRuleGroupFactor (filter (\<lambda>g. buildRuleGroupFactor g \<noteq> []) gs)) = filter (\<lambda>e. e \<noteq> []) (map buildRuleGroupFactor gs)"
    by (induction gs) auto
  then show ?thesis by (simp add: buildRequestRuleExpr_def)
qed

lemma no_multiplier: "trim (multiplier grp) = [] \<Longrightarrow> buildRuleGroupFactor grp = []"
proof -
  have "\<not> NUMERIC_LITERAL_REGEX []" by code_simp
  then show "trim (multiplier grp) = [] \<Longrightarrow> ?thesis" by (simp add: buildRuleGroupFactor_def)
qed

lemma groups_change:
  assumes "list_all (\<lambda>g. group_ok g \<or> buildRuleGroupFactor g = []) gs" "buildRequestRuleExpr gs \<noteq> te_rules s" "in_sync lbl s"
  shows "\<exists>s'. handleRequestRuleGroupsChange lbl gs s = Inr s' \<and> te_rules s' = buildRequestRuleExpr gs \<and> te_expr s' = te_expr s \<and>
     requestRuleGroups s' = filter (\<lambda>g. buildRuleGroupFactor g \<noteq> []) gs"
proof -
  let ?gs = "filter (\<lambda>g. buildRuleGroupFactor g \<noteq> []) gs"
  have "list_all group_ok ?gs" using assms(1) by (auto simp: list_all_iff)
  then have "tryParseRequestRuleExpr (buildRequestRuleExpr gs) = Inr (Some ?gs)" using rules_roundtrip[of ?gs] build_complete[of gs] by simp
  then show ?thesis using assms(2,3)
    by (simp add: handleRequestRuleGroupsChange_def settle_def rules_effect_def groups_of_def expr_effect_def in_sync_def)
qed

section \<open>Properties\<close>

definition same_tier :: "vtier \<Rightarrow> vtier \<Rightarrow> bool" where
  "same_tier t u \<longleftrightarrow> t_label u = t_label t \<and> t_conditions u = t_conditions t \<and>
     list_all (\<lambda>f. num_or_zero (cost u f) = num_or_zero (cost t f)) cost_fields"

text \<open>C25. The tiers of the visual form survive their expression: for any list of tiers with labels without quotes, printable prices and
  conditions that compare \<open>len\<close>, \<open>p\<close> or \<open>c\<close> with a number, all but the last with a condition and the last of several without one, parsing
  the generated expression gives tiers with the same labels, conditions and prices, which print the same expression again.\<close>

theorem visual_tiers_roundtrip:
  assumes "config_ok ts"
  shows "\<exists>us. tryParseVisualConfig lbl (generateExprFromVisualConfig lbl (Some ts)) = Some us \<and> list_all2 same_tier ts us \<and>
     generateExprFromVisualConfig lbl (Some us) = generateExprFromVisualConfig lbl (Some ts)"
proof (intro exI conjI)
  show "tryParseVisualConfig lbl (generateExprFromVisualConfig lbl (Some ts)) = Some (map canon_tier ts)"
    using assms by (rule parse_generated)
  show "list_all2 same_tier ts (map canon_tier ts)"
    by (auto simp: list_all2_conv_all_nth same_tier_def list_all_iff canon_cost)
  show "generateExprFromVisualConfig lbl (Some (map canon_tier ts)) = generateExprFromVisualConfig lbl (Some ts)"
    using assms by (rule generate_canon)
qed

definition sample_tiers :: "vtier list" where
  "sample_tiers =
     [\<lparr>t_conditions = [\<lparr>tc_var = ''len'', tc_op = ''<='', tc_value = JNum (Fin 200)\<rparr>, \<lparr>tc_var = ''c'', tc_op = ''<'', tc_value = JNum (Fin 5)\<rparr>],
       t_costs = [(''input_unit_cost'', JNum (Fin 3)), (''output_unit_cost'', JNum (Fin 15)), (''cache_create_1h_unit_cost'', JNum (Fin 6))],
       t_label = ''standard'', t_cache_mode = Some ''timed''\<rparr>,
      \<lparr>t_conditions = [], t_costs = [(''input_unit_cost'', JNum (Fin 6)), (''output_unit_cost'', JNum (Fin 22))],
       t_label = ''long_context'', t_cache_mode = None\<rparr>]"

lemma sample_tiers_ok: "config_ok sample_tiers"
  by code_simp

theorem visual_tiers_roundtrip_witness:
  "\<exists>us. tryParseVisualConfig (\<lambda>_. ''x'') (generateExprFromVisualConfig (\<lambda>_. ''x'') (Some sample_tiers)) = Some us \<and> list_all2 same_tier sample_tiers us"
  using visual_tiers_roundtrip[OF sample_tiers_ok] by blast



text \<open>Incomplete rule groups vanish: whenever a change of the rule groups changes the rule text, the groups that print nothing (an
  empty multiplier, no complete condition) are gone from the editor afterwards, and only the complete ones stay.\<close>

theorem incomplete_rule_groups_dropped:
  assumes "te_reach lbl s" "list_all (\<lambda>g. group_ok g \<or> buildRuleGroupFactor g = []) gs" "buildRequestRuleExpr gs \<noteq> te_rules s"
  shows "\<exists>s'. handleRequestRuleGroupsChange lbl gs s = Inr s' \<and> te_rules s' = buildRequestRuleExpr gs \<and> te_expr s' = te_expr s \<and>
     requestRuleGroups s' = filter (\<lambda>g. buildRuleGroupFactor g \<noteq> []) gs"
  using groups_change[OF assms(2,3) reach_sync[OF assms(1)]] .

theorem incomplete_rule_groups_dropped_witness:
  "\<exists>s s'. mount_editor (\<lambda>_. ''x'') [] [] = Inr s \<and>
     handleRequestRuleGroupsChange (\<lambda>_. ''x'') (createEmptyRuleGroup # sample_rules) s = Inr s' \<and>
     requestRuleGroups s' = filter (\<lambda>g. buildRuleGroupFactor g \<noteq> []) (createEmptyRuleGroup # sample_rules) \<and> createEmptyRuleGroup \<notin> set (requestRuleGroups s')"
proof -
  have "(case mount_editor (\<lambda>_. ''x'') [] [] of Inr s \<Rightarrow> te_rules s = [] | Inl _ \<Rightarrow> False)" by code_simp
  then obtain s where s: "mount_editor (\<lambda>_. ''x'') [] [] = Inr s" "te_rules s = []" by (auto split: sum.splits)
  have e: "buildRuleGroupFactor createEmptyRuleGroup = []" by (rule no_multiplier) code_simp
  have "list_all (\<lambda>g. group_ok g \<or> buildRuleGroupFactor g = []) (createEmptyRuleGroup # sample_rules)"
    using sample_rules_ok e by (simp add: list_all_iff)
  moreover have "buildRequestRuleExpr (createEmptyRuleGroup # sample_rules) \<noteq> te_rules s" unfolding s(2) by code_simp
  ultimately obtain s' where "handleRequestRuleGroupsChange (\<lambda>_. ''x'') (createEmptyRuleGroup # sample_rules) s = Inr s'"
      "requestRuleGroups s' = filter (\<lambda>g. buildRuleGroupFactor g \<noteq> []) (createEmptyRuleGroup # sample_rules)"
    using incomplete_rule_groups_dropped[OF te_reach.Mount[OF s(1)]] by blast
  then show ?thesis using s(1) e by auto
qed

section \<open>Two flaws\<close>

text \<open>A single tier is read without the check that the regenerated text is the same: a price that is not a number is read as such,
  and printed as zero.\<close>

lemma single_tier_price_lost:
  "(case tryParseVisualConfig lbl ''tier(\"base\", p * 2-1 + c * 4)'' of
      Some cfg \<Rightarrow> generateExprFromVisualConfig lbl (Some cfg) = ''tier(\"base\", p * 0 + c * 4)'' | None \<Rightarrow> False)"
  by code_simp

text \<open>A tier without conditions in front of another one is printed without a question mark: the expression is not well formed.\<close>

lemma unconditional_tier_not_last:
  assumes "t_conditions t = []" "t_label t \<noteq> []" "t_label u \<noteq> []"
  shows "generateExprFromVisualConfig lbl (Some [t, u]) = tier_text (t_label t) t @ '' : '' @ tier_text (t_label u) u"
  using assms by (simp add: generateExprFromVisualConfig_def buildConditionStr_def Let_def)

end
