(* ===== verification/StatusCodes.thy ===== *)
theory StatusCodes
  imports JsJson "HOL-Library.Product_Lexorder" "HOL-Library.Char_ord" "HOL-Library.List_Lexorder"
begin

text \<open>
  HTTP status code settings: the rule lists of web/src/helpers/statusCodeRules.js (\<open>401,500-503\<close>,
  parsed, merged and normalised) and the guard of
  web/src/components/table/channels/modals/statusCodeRiskGuard.js, which finds the entries of a
  channel's status-code mapping that are invalid or that redirect a gateway timeout. The full-width comma
  that \<open>parseHttpStatusCodeRules\<close> replaces is outside the alphabet of the model, so that step is the
  identity here.
\<close>

section \<open>Rule lists\<close>

record range =
  r_start :: int
  r_end :: int

record code_rules =
  cr_ok :: bool
  cr_ranges :: "range list"
  cr_tokens :: "string list"
  cr_normalized :: string
  cr_invalid :: "string list"

definition isNumber :: "string \<Rightarrow> bool" where
  "isNumber s \<longleftrightarrow> s \<noteq> [] \<and> list_all is_digit s"

text \<open>\<open>parseInt\<close> gives the nearest double; it is exact up to \<open>2\<^sup>5\<^sup>3\<close>, and a larger number, finite or
  not, fails the bound 599 like the exact one.\<close>

definition parseToken :: "string \<Rightarrow> range option" where
  "parseToken token =
     (let cleaned = remove_char (CHR '' '') (trim token) in
      if cleaned = [] then None
      else if CHR ''-'' \<in> set cleaned then
        (case split_char (CHR ''-'') cleaned of
           [a, b] \<Rightarrow>
             if \<not> isNumber a \<or> \<not> isNumber b then None
             else let start = int_of_str a; ende = int_of_str b
                  in if start > ende then None
                     else if start < 100 \<or> ende > 599 then None
                     else Some \<lparr>r_start = start, r_end = ende\<rparr>
         | _ \<Rightarrow> None)
      else if \<not> isNumber cleaned then None
      else let code = int_of_str cleaned
           in if code < 100 \<or> code > 599 then None else Some \<lparr>r_start = code, r_end = code\<rparr>)"

text \<open>The loop of \<open>mergeRanges\<close>: \<open>lst\<close> is the entry that is still extended.\<close>

fun merge_loop :: "range \<Rightarrow> range list \<Rightarrow> range list" where
  "merge_loop lst [] = [lst]"
| "merge_loop lst (current # rest) =
     (if r_start current \<le> r_end lst + 1
      then merge_loop (lst\<lparr>r_end := max (r_end lst) (r_end current)\<rparr>) rest
      else lst # merge_loop current rest)"

definition sort_ranges :: "range list \<Rightarrow> range list" where
  "sort_ranges = sort_key (\<lambda>r. (r_start r, r_end r))"

definition mergeRanges :: "range list \<Rightarrow> range list" where
  "mergeRanges ranges = (case sort_ranges ranges of [] \<Rightarrow> [] | r # rs \<Rightarrow> merge_loop r rs)"

definition range_token :: "range \<Rightarrow> string" where
  "range_token r = (if r_start r = r_end r then int_str (r_start r)
                    else int_str (r_start r) @ ''-'' @ int_str (r_end r))"

definition rule_segments :: "string \<Rightarrow> string list" where
  "rule_segments raw = filter (\<lambda>s. s \<noteq> []) (map trim (split_char (CHR '','') raw))"

definition parseHttpStatusCodeRules :: "string \<Rightarrow> code_rules" where
  "parseHttpStatusCodeRules input =
     (let raw = trim input in
      if raw = [] then \<lparr>cr_ok = True, cr_ranges = [], cr_tokens = [], cr_normalized = [], cr_invalid = []\<rparr>
      else let segments = rule_segments raw;
               ranges = List.map_filter parseToken segments;
               invalidTokens = filter (\<lambda>s. parseToken s = None) segments
           in if invalidTokens \<noteq> []
              then \<lparr>cr_ok = False, cr_ranges = [], cr_tokens = [], cr_normalized = raw, cr_invalid = invalidTokens\<rparr>
              else let merged = mergeRanges ranges; tokens = map range_token merged
                   in \<lparr>cr_ok = True, cr_ranges = merged, cr_tokens = tokens,
                       cr_normalized = join '','' tokens, cr_invalid = []\<rparr>)"

section \<open>Merging\<close>

definition range_ok :: "range \<Rightarrow> bool" where
  "range_ok r \<longleftrightarrow> 100 \<le> r_start r \<and> r_start r \<le> r_end r \<and> r_end r \<le> 599"

definition covers :: "range list \<Rightarrow> int set" where
  "covers rs = (\<Union>r \<in> set rs. {r_start r..r_end r})"

text \<open>Canonical form: valid ranges in ascending order with a gap between neighbours.\<close>

fun canonical :: "range list \<Rightarrow> bool" where
  "canonical [] = True"
| "canonical [r] = range_ok r"
| "canonical (r # q # rs) = (range_ok r \<and> r_end r + 1 < r_start q \<and> canonical (q # rs))"

lemma parseToken_ok: "parseToken s = Some r \<Longrightarrow> range_ok r"
  by (auto simp: parseToken_def range_ok_def Let_def split: if_splits list.splits)

fun starts_from :: "range \<Rightarrow> range list \<Rightarrow> bool" where
  "starts_from r [] = True"
| "starts_from r (q # rs) = (r_start r \<le> r_start q \<and> starts_from q rs)"

lemma starts_from_mono: "starts_from r rs \<Longrightarrow> r_start r' = r_start r \<Longrightarrow> starts_from r' rs"
  by (cases rs) auto

lemma starts_from_skip: "starts_from r (q # rs) \<Longrightarrow> starts_from r rs"
  by (cases rs) auto

lemma merge_loop_hd: "r_start (hd (merge_loop r rs)) = r_start r \<and> merge_loop r rs \<noteq> []"
  by (induction r rs rule: merge_loop.induct) auto

lemma canonical_Cons:
  "range_ok r \<Longrightarrow> canonical rs \<Longrightarrow> (rs \<noteq> [] \<longrightarrow> r_end r + 1 < r_start (hd rs)) \<Longrightarrow> canonical (r # rs)"
  by (cases rs) auto

lemma merge_loop_canonical:
  "range_ok r \<Longrightarrow> list_all range_ok rs \<Longrightarrow> canonical (merge_loop r rs)"
proof (induction r rs rule: merge_loop.induct)
  case (2 l c rest)
  show ?case
  proof (cases "r_start c \<le> r_end l + 1")
    case True
    have "range_ok (l\<lparr>r_end := max (r_end l) (r_end c)\<rparr>)" using 2 by (auto simp: range_ok_def)
    then show ?thesis using 2 True by simp
  next
    case False
    then show ?thesis using 2 merge_loop_hd[of c rest] by (auto intro!: canonical_Cons)
  qed
qed simp

lemma merge_loop_covers:
  "range_ok r \<Longrightarrow> list_all range_ok rs \<Longrightarrow> starts_from r rs \<Longrightarrow> covers (merge_loop r rs) = covers (r # rs)"
proof (induction r rs rule: merge_loop.induct)
  case (2 l c rest)
  show ?case
  proof (cases "r_start c \<le> r_end l + 1")
    case True
    let ?l = "l\<lparr>r_end := max (r_end l) (r_end c)\<rparr>"
    have "range_ok ?l" using 2 by (auto simp: range_ok_def)
    moreover have "starts_from ?l rest"
      using 2(5) starts_from_skip[of l c rest] starts_from_mono[of l rest ?l] by simp
    ultimately have "covers (merge_loop ?l rest) = covers (?l # rest)" using 2 True by simp
    moreover have "covers (?l # rest) = covers (l # c # rest)"
      using 2 True by (auto simp: covers_def range_ok_def max_def)
    ultimately show ?thesis using True by simp
  next
    case False
    then show ?thesis using 2 by (auto simp: covers_def)
  qed
qed simp

lemma set_sort_ranges [simp]: "set (sort_ranges rs) = set rs"
  by (simp add: sort_ranges_def)

lemma sorted_starts: "sorted (map (\<lambda>r. (r_start r, r_end r)) (r # rs)) \<Longrightarrow> starts_from r rs"
  by (induction rs arbitrary: r) auto

lemma sort_ranges_starts: "sort_ranges rs = q # qs \<Longrightarrow> starts_from q qs"
  using sorted_starts[of q qs] sorted_sort_key[of "\<lambda>r. (r_start r, r_end r)" rs] by (simp add: sort_ranges_def)

lemma merge_canonical: "list_all range_ok rs \<Longrightarrow> canonical (mergeRanges rs)"
proof (cases "sort_ranges rs")
  case (Cons q qs)
  assume ok: "list_all range_ok rs"
  then have "list_all range_ok (q # qs)" using set_sort_ranges[of rs] Cons by (simp add: list_all_iff)
  then show ?thesis using Cons by (simp add: mergeRanges_def merge_loop_canonical)
qed (simp add: mergeRanges_def)

lemma merge_covers: "list_all range_ok rs \<Longrightarrow> covers (mergeRanges rs) = covers rs"
proof (cases "sort_ranges rs")
  case Nil
  then have "rs = []" using set_sort_ranges[of rs] by simp
  then show ?thesis using Nil by (simp add: mergeRanges_def)
next
  case (Cons q qs)
  assume ok: "list_all range_ok rs"
  then have q: "list_all range_ok (q # qs)" using set_sort_ranges[of rs] Cons by (simp add: list_all_iff)
  have "covers (mergeRanges rs) = covers (q # qs)"
    using q merge_loop_covers[of q qs] sort_ranges_starts[OF Cons] Cons by (simp add: mergeRanges_def)
  also have "\<dots> = covers rs" using set_sort_ranges[of rs] Cons by (simp add: covers_def)
  finally show ?thesis .
qed

text \<open>A canonical list is left as it is.\<close>

lemma merge_loop_id: "canonical (r # rs) \<Longrightarrow> merge_loop r rs = r # rs"
  by (induction rs arbitrary: r) auto

lemma canonical_tl: "canonical (r # rs) \<Longrightarrow> canonical rs"
  by (cases rs) auto

lemma canonical_sorted: "canonical rs \<Longrightarrow> sorted (map (\<lambda>r. (r_start r, r_end r)) rs)"
proof (induction rs)
  case (Cons r rs)
  then show ?case
  proof (cases rs)
    case (Cons q qs)
    then have "(r_start r, r_end r) \<le> (r_start q, r_end q)"
      using Cons.prems \<open>canonical (r # rs)\<close> by (auto simp: range_ok_def)
    then show ?thesis using Cons \<open>canonical (r # rs)\<close> Cons.IH canonical_tl[of r rs] by fastforce
  qed simp
qed simp

lemma merge_id: "canonical rs \<Longrightarrow> mergeRanges rs = rs"
  using canonical_sorted[of rs] merge_loop_id
  by (auto simp: mergeRanges_def sort_ranges_def sort_key_id_if_sorted sorted_sort_id split: list.splits)


section \<open>Tokens\<close>

lemma digits_plain:
  assumes "0 \<le> n"
  shows "CHR ''-'' \<notin> set (int_str n)" "CHR '','' \<notin> set (int_str n)" "CHR '' '' \<notin> set (int_str n)"
    "list_all (\<lambda>c. \<not> js_ws c) (int_str n)" "isNumber (int_str n)"
  using int_str_digits[OF assms] digit_not_ws
  by (auto simp: list_all_iff is_digit_def isNumber_def)

lemma range_token_plain:
  assumes "range_ok r"
  shows "range_token r \<noteq> []" "trimmed (range_token r)" "CHR '','' \<notin> set (range_token r)"
    "remove_char (CHR '' '') (range_token r) = range_token r"
proof -
  have n: "0 \<le> r_start r" "0 \<le> r_end r" using assms by (auto simp: range_ok_def)
  note d = digits_plain[OF n(1)] digits_plain[OF n(2)]
  show "range_token r \<noteq> []" by (simp add: range_token_def)
  show "trimmed (range_token r)"
    using d by (intro not_ws_all_trimmed) (simp add: range_token_def js_ws_def)
  show "CHR '','' \<notin> set (range_token r)" using d by (simp add: range_token_def)
  have "CHR '' '' \<notin> set (range_token r)" using d by (simp add: range_token_def)
  then show "remove_char (CHR '' '') (range_token r) = range_token r"
    unfolding remove_char_def by (simp add: filter_id_conv) blast
qed

lemma parse_range_token:
  assumes "range_ok r"
  shows "parseToken (range_token r) = Some r"
proof -
  have n: "0 \<le> r_start r" "0 \<le> r_end r" using assms by (auto simp: range_ok_def)
  note d = digits_plain[OF n(1)] digits_plain[OF n(2)]
  have c: "remove_char (CHR '' '') (trim (range_token r)) = range_token r"
    using range_token_plain[OF assms] by (simp add: trim_id)
  show ?thesis
  proof (cases "r_start r = r_end r")
    case True
    then have "range_token r = int_str (r_start r)" by (simp add: range_token_def)
    then show ?thesis using c d n assms True unfolding parseToken_def Let_def
      by (simp add: range_ok_def)
  next
    case False
    then have t: "range_token r = int_str (r_start r) @ CHR ''-'' # int_str (r_end r)" by (simp add: range_token_def)
    have "split_char (CHR ''-'') (range_token r) = [int_str (r_start r), int_str (r_end r)]"
      using d(1,6) by (simp add: t split_char_append split_char_none)
    then show ?thesis using c d n assms unfolding parseToken_def Let_def c
      by (simp add: t range_ok_def)
  qed
qed

lemma canonical_range_ok: "canonical rs \<Longrightarrow> list_all range_ok rs"
  by (induction rs rule: canonical.induct) auto

lemma segments_join:
  assumes "rs \<noteq> []" "list_all range_ok rs"
  shows "rule_segments (join '','' (map range_token rs)) = map range_token rs"
proof -
  have "split_char (CHR '','') (join '','' (map range_token rs)) = map range_token rs"
    using assms range_token_plain(3) by (intro split_char_join) (auto simp: list_all_iff)
  moreover have "map trim (map range_token rs) = map range_token rs"
    using assms range_token_plain(2) by (auto simp: list_all_iff trim_id)
  moreover have "filter (\<lambda>s. s \<noteq> []) (map range_token rs) = map range_token rs"
    using assms range_token_plain(1) by (auto simp: list_all_iff filter_id_conv)
  ultimately show ?thesis by (simp only: rule_segments_def)
qed

lemma map_filter_tokens: "list_all range_ok rs \<Longrightarrow> List.map_filter parseToken (map range_token rs) = rs"
  by (induction rs) (auto simp: List.map_filter_def parse_range_token)

lemma trimmed_tokens: "rs \<noteq> [] \<Longrightarrow> list_all range_ok rs \<Longrightarrow>
   trimmed (join '','' (map range_token rs)) \<and> join '','' (map range_token rs) \<noteq> []"
proof (induction rs)
  case (Cons r rs)
  then show ?case using range_token_plain(1,2)[of r]
    by (cases "rs = []") (auto simp: join_Cons trimmed_def)
qed simp

lemma rules_ranges_ok:
  "list_all range_ok (List.map_filter parseToken ss)"
  by (induction ss) (auto simp: List.map_filter_def parseToken_ok)

section \<open>Properties of the rule lists\<close>

text \<open>C35. For every input, the ranges that \<open>parseHttpStatusCodeRules\<close> delivers are in canonical form: valid
  (100 to 599, start not above end), ascending, and separated, so no two touch or overlap.\<close>

theorem status_ranges_canonical: "canonical (cr_ranges (parseHttpStatusCodeRules s))"
  using merge_canonical[OF rules_ranges_ok] by (simp add: parseHttpStatusCodeRules_def Let_def)

text \<open>Merging neither adds nor loses a status code: when the input is accepted, the codes covered by the
  delivered ranges are exactly those named by the segments of the input.\<close>

theorem status_ranges_cover:
  assumes "cr_ok (parseHttpStatusCodeRules s)"
  shows "covers (cr_ranges (parseHttpStatusCodeRules s)) =
     (\<Union>t \<in> set (rule_segments (trim s)). case parseToken t of Some r \<Rightarrow> {r_start r..r_end r} | None \<Rightarrow> {})"
proof (cases "trim s = []")
  case True
  then show ?thesis by (simp add: parseHttpStatusCodeRules_def rule_segments_def covers_def)
next
  case False
  have "covers (List.map_filter parseToken ts) =
      (\<Union>t \<in> set ts. case parseToken t of Some r \<Rightarrow> {r_start r..r_end r} | None \<Rightarrow> {})" for ts
    by (induction ts) (auto simp: List.map_filter_def covers_def split: option.splits)
  then show ?thesis
    using False assms merge_covers[OF rules_ranges_ok]
    by (simp add: parseHttpStatusCodeRules_def Let_def split: if_splits)
qed

theorem status_ranges_cover_witness:
  "covers (cr_ranges (parseHttpStatusCodeRules ''500-503, 401,502-504'')) = {401} \<union> {500..504}"
proof -
  have ok: "cr_ok (parseHttpStatusCodeRules ''500-503, 401,502-504'')" by code_simp
  let ?a = "\<lparr>r_start = 500, r_end = 503\<rparr>" and ?b = "\<lparr>r_start = 401, r_end = 401\<rparr>"
    and ?c = "\<lparr>r_start = 502, r_end = 504\<rparr>"
  have t: "rule_segments (trim ''500-503, 401,502-504'') = [range_token ?a, range_token ?b, range_token ?c]"
    by code_simp
  have p: "parseToken (range_token ?a) = Some ?a" "parseToken (range_token ?b) = Some ?b"
    "parseToken (range_token ?c) = Some ?c" by (rule parse_range_token; simp add: range_ok_def)+
  have "covers (cr_ranges (parseHttpStatusCodeRules ''500-503, 401,502-504'')) = {500..503} \<union> ({401..401} \<union> {502..504})"
    unfolding status_ranges_cover[OF ok] t list.set SUP_insert p option.case range.simps by simp
  also have "\<dots> = {401} \<union> {500..504}" by auto
  finally show ?thesis .
qed

text \<open>The normalised text is a fixed point: parsing it again gives the very same result, so saving and
  reloading the setting changes nothing.\<close>

theorem status_rules_normalized_fixed:
  assumes "cr_ok (parseHttpStatusCodeRules s)"
  shows "parseHttpStatusCodeRules (cr_normalized (parseHttpStatusCodeRules s)) = parseHttpStatusCodeRules s"
proof -
  define rs where "rs = cr_ranges (parseHttpStatusCodeRules s)"
  have can: "canonical rs"
    unfolding rs_def using merge_canonical[OF rules_ranges_ok] by (simp add: parseHttpStatusCodeRules_def Let_def)
  have p: "parseHttpStatusCodeRules s = \<lparr>cr_ok = True, cr_ranges = rs, cr_tokens = map range_token rs,
      cr_normalized = join '','' (map range_token rs), cr_invalid = []\<rparr>"
    using assms by (simp add: rs_def parseHttpStatusCodeRules_def Let_def split: if_splits)
  show ?thesis
  proof (cases "rs = []")
    case True
    then show ?thesis unfolding p by (simp add: parseHttpStatusCodeRules_def)
  next
    case False
    have ok: "list_all range_ok rs" by (rule canonical_range_ok[OF can])
    have "filter (\<lambda>s. parseToken s = None) (map range_token rs) = []"
      using ok by (auto simp: filter_empty_conv list_all_iff parse_range_token)
    then show ?thesis unfolding p code_rules.simps
      using trimmed_tokens[OF False ok] segments_join[OF False ok] map_filter_tokens[OF ok] merge_id[OF can]
      by (simp add: parseHttpStatusCodeRules_def trim_id Let_def)
  qed
qed

theorem status_rules_normalized_fixed_witness:
  "parseHttpStatusCodeRules (cr_normalized (parseHttpStatusCodeRules ''503, 500 - 502,401'')) =
   parseHttpStatusCodeRules ''503, 500 - 502,401''"
  by (rule status_rules_normalized_fixed) code_simp

section \<open>The mapping guard\<close>

definition NON_REDIRECTABLE_STATUS_CODES :: "int list" where
  "NON_REDIRECTABLE_STATUS_CODES = [504, 524]"

text \<open>\<open>/^[1-5]\d{2}$/\<close>\<close>

definition code_text :: "string \<Rightarrow> bool" where
  "code_text s \<longleftrightarrow> (case s of [a, b, c] \<Rightarrow> is_digit a \<and> 1 \<le> digit_val a \<and> digit_val a \<le> 5 \<and> is_digit b \<and> is_digit c
                   | _ \<Rightarrow> False)"

definition parseStatusCodeKey :: "string \<Rightarrow> int option" where
  "parseStatusCodeKey rawKey =
     (let normalized = trim rawKey in if code_text normalized then Some (int_of_str normalized) else None)"

definition parseStatusCodeMappingTarget :: "jsval \<Rightarrow> int option" where
  "parseStatusCodeMappingTarget rawValue =
     (case rawValue of
        JNum (Fin r) \<Rightarrow>
          if r \<in> \<int> then (if 100 \<le> r \<and> r \<le> 599 then Some \<lfloor>r\<rfloor> else None) else None
      | JStr s \<Rightarrow>
          (let normalized = trim s in
           if \<not> code_text normalized then None
           else let code = int_of_str normalized in if 100 \<le> code \<and> code \<le> 599 then Some code else None)
      | _ \<Rightarrow> None)"

text \<open>The parsed mapping, \<open>[]\<close> for every early return of the two collectors.\<close>

definition mapping_entries :: "string \<Rightarrow> jsobj" where
  "mapping_entries s =
     (if trim s = [] then []
      else case json_parse s of
             Some v \<Rightarrow> (case as_object v of Some ps \<Rightarrow> ps | None \<Rightarrow> [])
           | None \<Rightarrow> [])"

text \<open>The two interpolated parts of each message \<open>`${rawKey} \<rightarrow> ${rawValue}`\<close>.\<close>

definition collectInvalidStatusCodeEntries :: "string \<Rightarrow> (string \<times> string) list" where
  "collectInvalidStatusCodeEntries statusCodeMappingStr =
     map (\<lambda>(k, v). (k, js_string v))
       (filter (\<lambda>(k, v). parseStatusCodeKey k = None \<or> parseStatusCodeMappingTarget v = None)
          (mapping_entries statusCodeMappingStr))"

definition risky_message :: "string \<times> jsval \<Rightarrow> string option" where
  "risky_message e =
     (case (parseStatusCodeKey (fst e), parseStatusCodeMappingTarget (snd e)) of
        (Some fromCode, Some toCode) \<Rightarrow>
          if fromCode \<notin> set NON_REDIRECTABLE_STATUS_CODES then None
          else if fromCode = toCode then None
          else Some (int_str fromCode @ '' -> '' @ int_str toCode)
      | _ \<Rightarrow> None)"

text \<open>\<open>Array.from(new Set(xs)).sort()\<close> orders the distinct messages by code units.\<close>

definition collectDisallowedStatusCodeRedirects :: "string \<Rightarrow> string list" where
  "collectDisallowedStatusCodeRedirects statusCodeMappingStr =
     sort (remdups (List.map_filter risky_message (mapping_entries statusCodeMappingStr)))"

definition collectNewDisallowedStatusCodeRedirects :: "string \<Rightarrow> string \<Rightarrow> string list" where
  "collectNewDisallowedStatusCodeRedirects original current =
     (let currentRisky = collectDisallowedStatusCodeRedirects current in
      if currentRisky = [] then []
      else let originalRisky = collectDisallowedStatusCodeRedirects original
           in filter (\<lambda>m. m \<notin> set originalRisky) currentRisky)"

section \<open>Properties of the guard\<close>

lemma map_filter_set: "set (List.map_filter f xs) = {y. \<exists>x \<in> set xs. f x = Some y}"
  by (force simp: List.map_filter_def)

lemma int_str_inj: "0 \<le> m \<Longrightarrow> 0 \<le> n \<Longrightarrow> int_str m = int_str n \<longleftrightarrow> m = n"
  by (metis int_of_str_int_str)

lemma digit_val_range:
  assumes "is_digit c"
  shows "0 \<le> digit_val c \<and> digit_val c \<le> 9"
proof -
  have "(of_char c :: int) = int (of_char c)" by (rule of_nat_of_char[symmetric])
  then show ?thesis using assms unfolding is_digit_def digit_val_def by linarith
qed

lemma code_text_bounds:
  assumes "code_text s"
  shows "100 \<le> int_of_str s \<and> int_of_str s \<le> 599"
proof -
  obtain a b c where s: "s = [a, b, c]" "is_digit a" "1 \<le> digit_val a" "digit_val a \<le> 5" "is_digit b" "is_digit c"
    using assms by (auto simp: code_text_def split: list.splits)
  then show ?thesis using digit_val_range[of b] digit_val_range[of c] by (simp add: int_of_str_def)
qed

lemma key_bounds: "parseStatusCodeKey k = Some n \<Longrightarrow> 100 \<le> n \<and> n \<le> 599"
  using code_text_bounds by (auto simp: parseStatusCodeKey_def Let_def split: if_splits)

lemma target_bounds: "parseStatusCodeMappingTarget v = Some n \<Longrightarrow> 100 \<le> n \<and> n \<le> 599"
  by (auto simp: parseStatusCodeMappingTarget_def Let_def le_floor_iff floor_le_iff split: jsval.splits jsnum.splits if_splits)

lemma risky_iff:
  "m \<in> set (collectDisallowedStatusCodeRedirects s) \<longleftrightarrow>
   (\<exists>k v a b. (k, v) \<in> set (mapping_entries s) \<and> parseStatusCodeKey k = Some a \<and>
      parseStatusCodeMappingTarget v = Some b \<and> a \<in> {504, 524} \<and> a \<noteq> b \<and> m = int_str a @ '' -> '' @ int_str b)"
proof -
  have "risky_message e = Some m \<longleftrightarrow> (\<exists>a b. parseStatusCodeKey (fst e) = Some a \<and>
      parseStatusCodeMappingTarget (snd e) = Some b \<and> a \<in> {504, 524} \<and> a \<noteq> b \<and> m = int_str a @ '' -> '' @ int_str b)"
    for e by (cases "parseStatusCodeKey (fst e)"; cases "parseStatusCodeMappingTarget (snd e)")
      (auto simp: risky_message_def NON_REDIRECTABLE_STATUS_CODES_def)
  then show ?thesis
    by (simp add: collectDisallowedStatusCodeRedirects_def map_filter_set Bex_def)
qed

text \<open>C38. The guard is exact: it reports \<open>a -> b\<close> precisely when the mapping has an entry whose key reads as the
  timeout code \<open>a\<close> (504 or 524) and whose valid target \<open>b\<close> (100 to 599) differs from it.\<close>

theorem disallowed_redirects_exact:
  "m \<in> set (collectDisallowedStatusCodeRedirects s) \<longleftrightarrow>
   (\<exists>k v a b. (k, v) \<in> set (mapping_entries s) \<and> parseStatusCodeKey k = Some a \<and>
      parseStatusCodeMappingTarget v = Some b \<and> a \<in> {504, 524} \<and> b \<in> {100..599} \<and> a \<noteq> b \<and>
      m = int_str a @ '' -> '' @ int_str b)"
  unfolding risky_iff using target_bounds by fastforce

text \<open>Confirmation is asked for exactly the redirects that an edit adds: they are listed once, in order, and
  none is listed just when every risky redirect of the new mapping was in the old one; an unchanged
  mapping never asks.\<close>

theorem new_disallowed_redirects:
  "set (collectNewDisallowedStatusCodeRedirects old new) =
     set (collectDisallowedStatusCodeRedirects new) - set (collectDisallowedStatusCodeRedirects old)
   \<and> sorted (collectNewDisallowedStatusCodeRedirects old new)
   \<and> distinct (collectNewDisallowedStatusCodeRedirects old new)
   \<and> collectNewDisallowedStatusCodeRedirects old old = []"
proof -
  have new: "collectNewDisallowedStatusCodeRedirects x y =
      filter (\<lambda>m. m \<notin> set (collectDisallowedStatusCodeRedirects x)) (collectDisallowedStatusCodeRedirects y)" for x y
    by (simp add: collectNewDisallowedStatusCodeRedirects_def Let_def)
  have "sorted (collectDisallowedStatusCodeRedirects new)" "distinct (collectDisallowedStatusCodeRedirects new)"
    by (simp_all add: collectDisallowedStatusCodeRedirects_def)
  then show ?thesis unfolding new
    using sorted_filter[of "\<lambda>x. x"] by (auto simp: filter_empty_conv)
qed

end
