(* ===== verification/ParamOverride.thy ===== *)
theory ParamOverride
  imports JsJsonFacts
begin

text \<open>
  The parameter-override editor of a channel, its data and pure functions
  (web/src/components/table/channels/modals/ParamOverrideEditorModal.jsx, top level): operations with
  conditions, the drafts behind the value fields of \<open>return_error\<close> and \<open>prune_objects\<close>, reading a
  stored override, validating operations and printing them as JSON. The state of the component and its
  handlers are in \<open>ParamOverrideState\<close>.

  A local identifier \<open>param_override_<time>_<seed>\<close> is the value of the counter \<open>localIdSeed\<close> in it:
  the counter never repeats, so two identifiers are equal just when these numbers are. Functions that
  draw identifiers take the counter and return it. \<open>None\<close> is the \<open>TypeError\<close> of reading a property of
  \<open>null\<close>. Translated texts are constructors of \<open>op_error\<close>.
\<close>

section \<open>Modes\<close>

definition OPERATION_MODE_VALUES :: "string list" where
  "OPERATION_MODE_VALUES = [''set'', ''delete'', ''append'', ''prepend'', ''copy'', ''move'', ''replace'',
     ''regex_replace'', ''trim_prefix'', ''trim_suffix'', ''ensure_prefix'', ''ensure_suffix'', ''trim_space'',
     ''to_lower'', ''to_upper'', ''return_error'', ''prune_objects'', ''pass_headers'', ''sync_fields'',
     ''set_header'', ''delete_header'', ''copy_header'', ''move_header'']"

definition CONDITION_MODE_VALUES :: "string list" where
  "CONDITION_MODE_VALUES = [''full'', ''prefix'', ''suffix'', ''contains'', ''gt'', ''gte'', ''lt'', ''lte'']"

record mode_meta =
  m_path :: bool
  m_pathOptional :: bool
  m_value :: bool
  m_keepOrigin :: bool
  m_from :: bool
  m_to :: bool
  m_pathAlias :: bool

definition no_meta :: mode_meta where
  "no_meta = \<lparr>m_path = False, m_pathOptional = False, m_value = False, m_keepOrigin = False,
              m_from = False, m_to = False, m_pathAlias = False\<rparr>"

definition MODE_META :: "(string \<times> mode_meta) list" where
  "MODE_META =
    [(''delete'', no_meta\<lparr>m_path := True\<rparr>),
     (''set'', no_meta\<lparr>m_path := True, m_value := True, m_keepOrigin := True\<rparr>),
     (''append'', no_meta\<lparr>m_path := True, m_value := True, m_keepOrigin := True\<rparr>),
     (''prepend'', no_meta\<lparr>m_path := True, m_value := True, m_keepOrigin := True\<rparr>),
     (''copy'', no_meta\<lparr>m_from := True, m_to := True\<rparr>),
     (''move'', no_meta\<lparr>m_from := True, m_to := True\<rparr>),
     (''replace'', no_meta\<lparr>m_path := True, m_from := True\<rparr>),
     (''regex_replace'', no_meta\<lparr>m_path := True, m_from := True\<rparr>),
     (''trim_prefix'', no_meta\<lparr>m_path := True, m_value := True\<rparr>),
     (''trim_suffix'', no_meta\<lparr>m_path := True, m_value := True\<rparr>),
     (''ensure_prefix'', no_meta\<lparr>m_path := True, m_value := True\<rparr>),
     (''ensure_suffix'', no_meta\<lparr>m_path := True, m_value := True\<rparr>),
     (''trim_space'', no_meta\<lparr>m_path := True\<rparr>),
     (''to_lower'', no_meta\<lparr>m_path := True\<rparr>),
     (''to_upper'', no_meta\<lparr>m_path := True\<rparr>),
     (''return_error'', no_meta\<lparr>m_value := True\<rparr>),
     (''prune_objects'', no_meta\<lparr>m_pathOptional := True, m_value := True\<rparr>),
     (''pass_headers'', no_meta\<lparr>m_value := True, m_keepOrigin := True\<rparr>),
     (''sync_fields'', no_meta\<lparr>m_from := True, m_to := True\<rparr>),
     (''set_header'', no_meta\<lparr>m_path := True, m_value := True, m_keepOrigin := True\<rparr>),
     (''delete_header'', no_meta\<lparr>m_path := True\<rparr>),
     (''copy_header'', no_meta\<lparr>m_from := True, m_to := True, m_keepOrigin := True, m_pathAlias := True\<rparr>),
     (''move_header'', no_meta\<lparr>m_from := True, m_to := True, m_keepOrigin := True, m_pathAlias := True\<rparr>)]"

text \<open>\<open>MODE_META[mode] || MODE_META.set\<close>\<close>

definition mode_meta_of :: "string \<Rightarrow> mode_meta" where
  "mode_meta_of mode = (case map_of MODE_META mode of Some m \<Rightarrow> m
     | None \<Rightarrow> no_meta\<lparr>m_path := True, m_value := True, m_keepOrigin := True\<rparr>)"

definition VALUE_REQUIRED_MODES :: "string list" where
  "VALUE_REQUIRED_MODES = [''trim_prefix'', ''trim_suffix'', ''ensure_prefix'', ''ensure_suffix'',
     ''set_header'', ''return_error'', ''prune_objects'', ''pass_headers'']"

definition FROM_REQUIRED_MODES :: "string list" where
  "FROM_REQUIRED_MODES = [''copy'', ''move'', ''replace'', ''regex_replace'', ''copy_header'',
     ''move_header'', ''sync_fields'']"

definition TO_REQUIRED_MODES :: "string list" where
  "TO_REQUIRED_MODES = [''copy'', ''move'', ''copy_header'', ''move_header'', ''sync_fields'']"

section \<open>Templates\<close>

definition LEGACY_TEMPLATE :: jsval where
  "LEGACY_TEMPLATE = JObj [(''temperature'', JNum (Fin 0)), (''max_tokens'', JNum (Fin 1000))]"

definition OPERATION_TEMPLATE :: jsval where
  "OPERATION_TEMPLATE = JObj [(''operations'', JArr [JObj [(''description'',
     JStr ''Set default temperature for openai/* models.''), (''path'', JStr ''temperature''),
     (''mode'', JStr ''set''), (''value'', JNum (num_of_string ''0.7'')), (''conditions'',
     JArr [JObj [(''path'', JStr ''model''), (''mode'', JStr ''prefix''), (''value'',
     JStr ''openai/'')]]), (''logic'', JStr ''AND'')]])]"

definition HEADER_PASSTHROUGH_TEMPLATE :: jsval where
  "HEADER_PASSTHROUGH_TEMPLATE = JObj [(''operations'', JArr [JObj [(''description'',
     JStr ''Pass through X-Request-Id header to upstream.''), (''mode'', JStr ''pass_headers''),
     (''value'', JArr [JStr ''X-Request-Id'']), (''keep_origin'', JBool True)]])]"

definition GEMINI_IMAGE_4K_TEMPLATE :: jsval where
  "GEMINI_IMAGE_4K_TEMPLATE = JObj [(''operations'', JArr [JObj [(''description'',
     JStr ''Set imageSize to 4K when model contains gemini/image and ends with 4k.''), (''mode'',
     JStr ''set''), (''path'', JStr ''generationConfig.imageConfig.imageSize''), (''value'',
     JStr ''4K''), (''conditions'', JArr [JObj [(''path'', JStr ''original_model''), (''mode'',
     JStr ''contains''), (''value'', JStr ''gemini'')], JObj [(''path'', JStr ''original_model''),
     (''mode'', JStr ''contains''), (''value'', JStr ''image'')], JObj [(''path'',
     JStr ''original_model''), (''mode'', JStr ''suffix''), (''value'', JStr ''4k'')]]), (''logic'',
     JStr ''AND'')]])]"

definition AWS_BEDROCK_ANTHROPIC_COMPAT_TEMPLATE :: jsval where
  "AWS_BEDROCK_ANTHROPIC_COMPAT_TEMPLATE = JObj [(''operations'', JArr [JObj [(''description'',
     JStr ''Normalize anthropic-beta header tokens for Bedrock compatibility.''), (''mode'',
     JStr ''set_header''), (''path'', JStr ''anthropic-beta''), (''value'',
     JObj [(''advanced-tool-use-2025-11-20'', JStr ''tool-search-tool-2025-10-19''), (''bash_20241022'',
     JNull), (''bash_20250124'', JNull), (''code-execution-2025-08-25'', JNull),
     (''compact-2026-01-12'', JStr ''compact-2026-01-12''), (''computer-use-2025-01-24'',
     JStr ''computer-use-2025-01-24''), (''computer-use-2025-11-24'', JStr ''computer-use-2025-11-24''),
     (''context-1m-2025-08-07'', JStr ''context-1m-2025-08-07''), (''context-management-2025-06-27'',
     JStr ''context-management-2025-06-27''), (''effort-2025-11-24'', JNull), (''fast-mode-2026-02-01'',
     JNull), (''files-api-2025-04-14'', JNull), (''fine-grained-tool-streaming-2025-05-14'', JNull),
     (''interleaved-thinking-2025-05-14'', JStr ''interleaved-thinking-2025-05-14''),
     (''mcp-client-2025-11-20'', JNull), (''mcp-client-2025-04-04'', JNull),
     (''mcp-servers-2025-12-04'', JNull), (''output-128k-2025-02-19'', JNull),
     (''structured-output-2024-03-01'', JNull), (''prompt-caching-scope-2026-01-05'', JNull),
     (''skills-2025-10-02'', JNull), (''structured-outputs-2025-11-13'', JNull),
     (''text_editor_20241022'', JNull), (''text_editor_20250124'', JNull),
     (''token-efficient-tools-2025-02-19'', JNull), (''tool-search-tool-2025-10-19'',
     JStr ''tool-search-tool-2025-10-19''), (''web-fetch-2025-09-10'', JNull),
     (''web-search-2025-03-05'', JNull), (''oauth-2025-04-20'', JNull)])], JObj [(''description'',
     JStr ''Remove all tools[*].custom.input_examples before upstream relay.''), (''mode'',
     JStr ''delete''), (''path'', JStr ''tools.*.custom.input_examples'')]])]"

text \<open>web/src/constants/channel-affinity-template.constants.js\<close>

definition buildPassHeadersTemplate :: "string list \<Rightarrow> jsval" where
  "buildPassHeadersTemplate headers = JObj [(''operations'', JArr [JObj [(''mode'', JStr ''pass_headers''),
     (''value'', JArr (map JStr headers)), (''keep_origin'', JBool True)]])]"

definition CODEX_CLI_HEADER_PASSTHROUGH_HEADERS :: "string list" where
  "CODEX_CLI_HEADER_PASSTHROUGH_HEADERS = [''Originator'', ''Session_id'', ''User-Agent'',
     ''X-Codex-Beta-Features'', ''X-Codex-Turn-Metadata'']"

definition CLAUDE_CLI_HEADER_PASSTHROUGH_HEADERS :: "string list" where
  "CLAUDE_CLI_HEADER_PASSTHROUGH_HEADERS = [''X-Stainless-Arch'', ''X-Stainless-Lang'', ''X-Stainless-Os'',
     ''X-Stainless-Package-Version'', ''X-Stainless-Retry-Count'', ''X-Stainless-Runtime'',
     ''X-Stainless-Runtime-Version'', ''X-Stainless-Timeout'', ''User-Agent'', ''X-App'', ''Anthropic-Beta'',
     ''Anthropic-Dangerous-Direct-Browser-Access'', ''Anthropic-Version'']"

definition CODEX_CLI_HEADER_PASSTHROUGH_TEMPLATE :: jsval where
  "CODEX_CLI_HEADER_PASSTHROUGH_TEMPLATE = buildPassHeadersTemplate CODEX_CLI_HEADER_PASSTHROUGH_HEADERS"

definition CLAUDE_CLI_HEADER_PASSTHROUGH_TEMPLATE :: jsval where
  "CLAUDE_CLI_HEADER_PASSTHROUGH_TEMPLATE = buildPassHeadersTemplate CLAUDE_CLI_HEADER_PASSTHROUGH_HEADERS"

record preset =
  p_group :: string
  p_kind :: string
  p_payload :: jsval

definition TEMPLATE_PRESET_CONFIG :: "(string \<times> preset) list" where
  "TEMPLATE_PRESET_CONFIG =
    [(''operations_default'', \<lparr>p_group = ''basic'', p_kind = ''operations'', p_payload = OPERATION_TEMPLATE\<rparr>),
     (''legacy_default'', \<lparr>p_group = ''basic'', p_kind = ''legacy'', p_payload = LEGACY_TEMPLATE\<rparr>),
     (''pass_headers_auth'', \<lparr>p_group = ''scenario'', p_kind = ''operations'', p_payload = HEADER_PASSTHROUGH_TEMPLATE\<rparr>),
     (''gemini_image_4k'', \<lparr>p_group = ''scenario'', p_kind = ''operations'', p_payload = GEMINI_IMAGE_4K_TEMPLATE\<rparr>),
     (''claude_cli_headers_passthrough'',
        \<lparr>p_group = ''scenario'', p_kind = ''operations'', p_payload = CLAUDE_CLI_HEADER_PASSTHROUGH_TEMPLATE\<rparr>),
     (''codex_cli_headers_passthrough'',
        \<lparr>p_group = ''scenario'', p_kind = ''operations'', p_payload = CODEX_CLI_HEADER_PASSTHROUGH_TEMPLATE\<rparr>),
     (''aws_bedrock_anthropic_beta_override'',
        \<lparr>p_group = ''scenario'', p_kind = ''operations'', p_payload = AWS_BEDROCK_ANTHROPIC_COMPAT_TEMPLATE\<rparr>)]"

section \<open>Value texts\<close>

definition toValueText :: "jsval \<Rightarrow> string" where
  "toValueText value = (case value of JUndef \<Rightarrow> [] | JStr s \<Rightarrow> s | _ \<Rightarrow> json_stringify value)"

definition parseLooseValue :: "string \<Rightarrow> jsval" where
  "parseLooseValue raw =
     (if trim raw = [] then JStr []
      else case json_parse raw of Some v \<Rightarrow> v | None \<Rightarrow> JStr raw)"

text \<open>\<open>String(item ?? '').trim()\<close>\<close>

definition item_text :: "jsval \<Rightarrow> string" where
  "item_text v = trim (if nullish v then [] else js_string v)"

definition parsePassHeaderNames :: "jsval \<Rightarrow> string list" where
  "parsePassHeaderNames rawValue =
     (case rawValue of
        JArr items \<Rightarrow> filter (\<lambda>s. s \<noteq> []) (map item_text items)
      | JObj ps \<Rightarrow>
          (case jget ''headers'' rawValue of
             JArr items \<Rightarrow> filter (\<lambda>s. s \<noteq> []) (map item_text items)
           | _ \<Rightarrow>
               if jget ''header'' rawValue \<noteq> JUndef
               then (let single = item_text (jget ''header'' rawValue) in if single \<noteq> [] then [single] else [])
               else [])
      | JStr s \<Rightarrow> filter (\<lambda>s. s \<noteq> []) (map trim (split_char (CHR '','') s))
      | _ \<Rightarrow> [])"

section \<open>The return_error draft\<close>

record error_draft =
  ed_message :: string
  ed_statusCode :: jsval
  ed_code :: string
  ed_type :: string
  ed_skipRetry :: bool
  ed_simpleMode :: bool

text \<open>\<open>Number.isInteger(n) && n >= 100 && n <= 599 ? n : 400\<close>\<close>

definition status_or_400 :: "jsnum \<Rightarrow> jsval" where
  "status_or_400 n = (case n of
      Fin r \<Rightarrow> if r \<in> \<int> \<and> 100 \<le> r \<and> r \<le> 599 then JNum n else JNum (Fin 400)
    | _ \<Rightarrow> JNum (Fin 400))"

definition error_defaults :: error_draft where
  "error_defaults = \<lparr>ed_message = [], ed_statusCode = JNum (Fin 400), ed_code = [], ed_type = [],
                     ed_skipRetry = True, ed_simpleMode = True\<rparr>"

definition parseReturnErrorDraft :: "string \<Rightarrow> error_draft" where
  "parseReturnErrorDraft valueText =
     (let raw = trim valueText in
      if raw = [] then error_defaults
      else case json_parse raw of
        Some (JObj ps) \<Rightarrow>
          (let parsed = JObj ps;
               statusRaw = (if jget ''status_code'' parsed \<noteq> JUndef then jget ''status_code'' parsed
                            else jget ''status'' parsed)
           in \<lparr>ed_message = trim (js_string (js_or (js_or (jget ''message'' parsed) (jget ''msg'' parsed)) (JStr []))),
               ed_statusCode = status_or_400 (js_number statusRaw),
               ed_code = trim (js_string (js_or (jget ''code'' parsed) (JStr []))),
               ed_type = trim (js_string (js_or (jget ''type'' parsed) (JStr []))),
               ed_skipRetry = (jget ''skip_retry'' parsed \<noteq> JBool False),
               ed_simpleMode = False\<rparr>)
      | _ \<Rightarrow> error_defaults\<lparr>ed_message := raw, ed_simpleMode := True\<rparr>)"

definition buildReturnErrorValueText :: "error_draft \<Rightarrow> string" where
  "buildReturnErrorValueText draft =
     (let message = trim (ed_message draft) in
      if ed_simpleMode draft then message
      else let code = trim (ed_code draft); type = trim (ed_type draft)
           in json_stringify (JObj
                ([(''message'', JStr message), (''status_code'', status_or_400 (js_number (ed_statusCode draft)))]
                 @ (if code \<noteq> [] then [(''code'', JStr code)] else [])
                 @ (if type \<noteq> [] then [(''type'', JStr type)] else [])
                 @ (if \<not> ed_skipRetry draft then [(''skip_retry'', JBool False)] else []))))"

section \<open>Conditions and the prune_objects draft\<close>

record op_cond =
  oc_id :: nat
  oc_path :: string
  oc_mode :: string
  oc_value_text :: string
  oc_invert :: bool
  oc_pass_missing_key :: bool

definition str_prop :: "string \<Rightarrow> jsval \<Rightarrow> string" where
  "str_prop k v = (case jget k v of JStr s \<Rightarrow> s | _ \<Rightarrow> [])"

definition mode_prop :: "string list \<Rightarrow> string \<Rightarrow> jsval \<Rightarrow> string" where
  "mode_prop modes d v = (case jget ''mode'' v of JStr s \<Rightarrow> if s \<in> set modes then s else d | _ \<Rightarrow> d)"

definition cond_of :: "jsval \<Rightarrow> nat \<Rightarrow> op_cond" where
  "cond_of v n = \<lparr>oc_id = n, oc_path = str_prop ''path'' v, oc_mode = mode_prop CONDITION_MODE_VALUES ''full'' v,
     oc_value_text = toValueText (jget ''value'' v), oc_invert = (jget ''invert'' v = JBool True),
     oc_pass_missing_key = (jget ''pass_missing_key'' v = JBool True)\<rparr>"

definition normalizePruneRule :: "jsval \<Rightarrow> nat \<Rightarrow> op_cond \<times> nat" where
  "normalizePruneRule rule n = (cond_of rule n, Suc n)"

fun prune_rules :: "jsval list \<Rightarrow> nat \<Rightarrow> op_cond list \<times> nat" where
  "prune_rules [] n = ([], n)"
| "prune_rules (v # vs) n =
     (let (r, n1) = normalizePruneRule v n; (rs, n2) = prune_rules vs n1 in (r # rs, n2))"

record prune_draft =
  pd_simpleMode :: bool
  pd_typeText :: string
  pd_logic :: string
  pd_recursive :: bool
  pd_rules :: "op_cond list"

definition prune_defaults :: prune_draft where
  "prune_defaults = \<lparr>pd_simpleMode = True, pd_typeText = [], pd_logic = ''AND'', pd_recursive = True, pd_rules = []\<rparr>"

definition where_rule :: "string \<times> jsval \<Rightarrow> jsval" where
  "where_rule e = JObj [(''path'', JStr (fst e)), (''mode'', JStr ''full''), (''value'', snd e)]"

text \<open>The arguments of \<open>normalizePruneRule\<close> in the order of the calls.\<close>

definition prune_rule_sources :: "jsval \<Rightarrow> jsval list" where
  "prune_rule_sources parsed =
     (case jget ''where'' parsed of JObj ps \<Rightarrow> map where_rule ps | _ \<Rightarrow> [])
     @ (case jget ''conditions'' parsed of
          JArr items \<Rightarrow> filter (\<lambda>v. case v of JObj _ \<Rightarrow> True | JArr _ \<Rightarrow> True | _ \<Rightarrow> False) items
        | JObj ps \<Rightarrow> map where_rule ps
        | _ \<Rightarrow> [])"

definition logic_is :: "string \<Rightarrow> string \<Rightarrow> jsval \<Rightarrow> bool" where
  "logic_is w d v = (to_upper (js_string (js_or v (JStr d))) = w)"

definition parsePruneObjectsDraft :: "string \<Rightarrow> nat \<Rightarrow> prune_draft \<times> nat" where
  "parsePruneObjectsDraft valueText n =
     (let raw = trim valueText in
      if raw = [] then (prune_defaults, n)
      else case json_parse raw of
        None \<Rightarrow> (prune_defaults\<lparr>pd_typeText := raw\<rparr>, n)
      | Some parsed \<Rightarrow>
          (case parsed of
             JStr s \<Rightarrow> (prune_defaults\<lparr>pd_typeText := trim s\<rparr>, n)
           | JObj _ \<Rightarrow>
               (let (rules, n') = prune_rules (prune_rule_sources parsed) n;
                    typeText = (if jget ''type'' parsed = JUndef then [] else trim (js_string (jget ''type'' parsed)));
                    hasAdvancedFields = (jget ''logic'' parsed \<noteq> JUndef \<or> jget ''recursive'' parsed \<noteq> JUndef \<or>
                       jget ''where'' parsed \<noteq> JUndef \<or> jget ''conditions'' parsed \<noteq> JUndef)
                in (\<lparr>pd_simpleMode = \<not> hasAdvancedFields, pd_typeText = typeText,
                     pd_logic = (if logic_is ''OR'' ''AND'' (jget ''logic'' parsed) then ''OR'' else ''AND''),
                     pd_recursive = (jget ''recursive'' parsed \<noteq> JBool False), pd_rules = rules\<rparr>, n'))
           | _ \<Rightarrow> (prune_defaults\<lparr>pd_typeText := item_text parsed\<rparr>, n)))"

definition prune_condition :: "op_cond \<Rightarrow> jsval" where
  "prune_condition rule = JObj
     ([(''path'', JStr (trim (oc_path rule))),
       (''mode'', JStr (if oc_mode rule \<in> set CONDITION_MODE_VALUES then oc_mode rule else ''full''))]
      @ (let valueRaw = trim (oc_value_text rule)
         in if valueRaw \<noteq> [] then [(''value'', parseLooseValue valueRaw)] else [])
      @ (if oc_invert rule then [(''invert'', JBool True)] else [])
      @ (if oc_pass_missing_key rule then [(''pass_missing_key'', JBool True)] else []))"

definition buildPruneObjectsValueText :: "prune_draft \<Rightarrow> string" where
  "buildPruneObjectsValueText draft =
     (let typeText = trim (pd_typeText draft) in
      if pd_simpleMode draft then typeText
      else let conditions = map prune_condition (filter (\<lambda>r. trim (oc_path r) \<noteq> []) (pd_rules draft));
               payload = (if typeText \<noteq> [] then [(''type'', JStr typeText)] else [])
                 @ (if logic_is ''OR'' ''AND'' (JStr (pd_logic draft)) then [(''logic'', JStr ''OR'')] else [])
                 @ (if \<not> pd_recursive draft then [(''recursive'', JBool False)] else [])
                 @ (if conditions \<noteq> [] then [(''conditions'', JArr conditions)] else [])
           in if typeText = [] \<and> conditions = []
              then json_stringify (JObj [(''logic'', JStr ''AND'')])
              else json_stringify (JObj payload))"

section \<open>Synchronisation targets\<close>

definition parseSyncTargetSpec :: "string \<Rightarrow> string \<times> string" where
  "parseSyncTargetSpec spec =
     (let raw = trim spec in
      if raw = [] then (''json'', [])
      else case index_of (CHR '':'') raw of
             None \<Rightarrow> (''json'', raw)
           | Some idx \<Rightarrow>
               (let pre = to_lower (trim (take idx raw)); key = trim (drop (idx + 1) raw)
                in if pre = ''header'' then (''header'', key) else (''json'', key)))"

definition buildSyncTargetSpec :: "string \<Rightarrow> string \<Rightarrow> string" where
  "buildSyncTargetSpec type key =
     (let normalizedType = (if type = ''header'' then ''header'' else ''json''); normalizedKey = trim key
      in if normalizedKey = [] then [] else normalizedType @ '':'' @ normalizedKey)"

section \<open>Operations\<close>

record operation =
  op_id :: nat
  op_description :: string
  op_path :: string
  op_mode :: string
  op_value_text :: string
  op_keep_origin :: bool
  op_from :: string
  op_to :: string
  op_logic :: string
  op_conditions :: "op_cond list"

definition normalizeCondition :: "jsval \<Rightarrow> nat \<Rightarrow> (op_cond \<times> nat) option" where
  "normalizeCondition condition n = (if condition = JNull then None else Some (cond_of condition n, Suc n))"

definition createDefaultCondition :: "nat \<Rightarrow> op_cond \<times> nat" where
  "createDefaultCondition n = (cond_of (JObj []) n, Suc n)"

text \<open>\<open>xs.map(f)\<close> for a function that draws identifiers and may throw.\<close>

fun map_ids :: "('a \<Rightarrow> nat \<Rightarrow> ('b \<times> nat) option) \<Rightarrow> 'a list \<Rightarrow> nat \<Rightarrow> ('b list \<times> nat) option" where
  "map_ids f [] n = Some ([], n)"
| "map_ids f (x # xs) n =
     (case f x n of
        None \<Rightarrow> None
      | Some (y, n1) \<Rightarrow>
          (case map_ids f xs n1 of None \<Rightarrow> None | Some (ys, n2) \<Rightarrow> Some (y # ys, n2)))"

definition normalizeOperation :: "jsval \<Rightarrow> nat \<Rightarrow> (operation \<times> nat) option" where
  "normalizeOperation v n =
     (if v = JNull then None
      else case (case jget ''conditions'' v of
                   JArr items \<Rightarrow> map_ids normalizeCondition items (Suc n)
                 | _ \<Rightarrow> Some ([], Suc n)) of
             None \<Rightarrow> None
           | Some (cs, n') \<Rightarrow>
               Some (\<lparr>op_id = n, op_description = str_prop ''description'' v, op_path = str_prop ''path'' v,
                      op_mode = mode_prop OPERATION_MODE_VALUES ''set'' v,
                      op_value_text = toValueText (jget ''value'' v),
                      op_keep_origin = (jget ''keep_origin'' v = JBool True),
                      op_from = str_prop ''from'' v, op_to = str_prop ''to'' v,
                      op_logic = (if logic_is ''AND'' ''OR'' (jget ''logic'' v) then ''AND'' else ''OR''),
                      op_conditions = cs\<rparr>, n'))"

definition createDefaultOperation :: "nat \<Rightarrow> operation \<times> nat" where
  "createDefaultOperation n =
     (\<lparr>op_id = n, op_description = [], op_path = [], op_mode = ''set'', op_value_text = [],
       op_keep_origin = False, op_from = [], op_to = [], op_logic = ''OR'', op_conditions = []\<rparr>, Suc n)"

lemma createDefaultOperation_is: "normalizeOperation (JObj [(''mode'', JStr ''set'')]) n = Some (createDefaultOperation n)"
  by (simp add: normalizeOperation_def createDefaultOperation_def jget_def obj_get_def str_prop_def mode_prop_def
      OPERATION_MODE_VALUES_def toValueText_def logic_is_def js_or_def to_upper_def upper_char_def)

text \<open>\<open>arr.splice(i, 0, x)\<close>; positions of drop targets.\<close>

datatype position = Before | After

definition insert_at :: "nat \<Rightarrow> 'a \<Rightarrow> 'a list \<Rightarrow> 'a list" where
  "insert_at i x xs = take i xs @ x # drop i xs"

fun find_index :: "('a \<Rightarrow> bool) \<Rightarrow> 'a list \<Rightarrow> nat option" where
  "find_index P [] = None"
| "find_index P (x # xs) = (if P x then Some 0 else map_option Suc (find_index P xs))"

text \<open>An identifier that is the empty string is \<open>None\<close>.\<close>

definition reorderOperations :: "operation list \<Rightarrow> nat option \<Rightarrow> nat option \<Rightarrow> position \<Rightarrow> operation list" where
  "reorderOperations ops sourceId targetId pos =
     (case (sourceId, targetId) of
        (Some s, Some t) \<Rightarrow>
          if s = t then ops
          else (case find_index (\<lambda>x. op_id x = s) ops of
                  None \<Rightarrow> ops
                | Some i \<Rightarrow>
                    (let nxt = take i ops @ drop (Suc i) ops; moved = ops ! i
                     in case find_index (\<lambda>x. op_id x = t) nxt of
                          None \<Rightarrow> ops
                        | Some j \<Rightarrow> insert_at (if pos = After then j + 1 else j) moved nxt))
      | _ \<Rightarrow> ops)"

text \<open>The summary line: its number, the label of the mode and the field shown (\<open>label\<close> stands for the
  table of Chinese mode labels, whose characters are outside the alphabet).\<close>

definition first_text :: "string list \<Rightarrow> string" where
  "first_text xs = (case filter (\<lambda>s. s \<noteq> []) xs of [] \<Rightarrow> ''-'' | s # _ \<Rightarrow> s)"

definition getOperationSummary :: "(string \<Rightarrow> string) \<Rightarrow> operation \<Rightarrow> nat \<Rightarrow> nat \<times> string \<times> string" where
  "getOperationSummary label opn index =
     (let mode = (if op_mode opn = [] then ''set'' else op_mode opn);
          path = trim (op_path opn); from = trim (op_from opn); to = trim (op_to opn)
      in (index + 1, label mode,
          if mode = ''sync_fields'' then first_text [from, to] else first_text [path, from, to]))"

definition getOperationModeTagColor :: "string \<Rightarrow> string" where
  "getOperationModeTagColor mode =
     (if str_includes ''header'' mode then ''cyan''
      else if str_includes ''replace'' mode \<or> str_includes ''trim'' mode then ''violet''
      else if str_includes ''copy'' mode \<or> str_includes ''move'' mode then ''blue''
      else if str_includes ''error'' mode \<or> str_includes ''prune'' mode then ''red''
      else if str_includes ''sync'' mode then ''green''
      else ''grey'')"

section \<open>Opening a stored override\<close>

datatype edit_mode = EVisual | EJson
datatype visual_mode = VOperations | VLegacy

definition verifyJSON :: "string \<Rightarrow> bool" where
  "verifyJSON s \<longleftrightarrow> json_parse s \<noteq> None"

record initial_state =
  is_editMode :: edit_mode
  is_visualMode :: visual_mode
  is_legacyValue :: string
  is_operations :: "operation list"
  is_jsonText :: string
  is_jsonError :: bool

definition operations_of :: "jsval list \<Rightarrow> nat \<Rightarrow> (operation list \<times> nat) option" where
  "operations_of items n =
     (if items \<noteq> [] then map_ids normalizeOperation items n
      else let (d, n') = createDefaultOperation n in Some ([d], n'))"

definition parseInitialState :: "string \<Rightarrow> nat \<Rightarrow> (initial_state \<times> nat) option" where
  "parseInitialState text n =
     (let trimmed = trim text; (d, n') = createDefaultOperation n in
      if trimmed = [] then
        Some (\<lparr>is_editMode = EVisual, is_visualMode = VOperations, is_legacyValue = [], is_operations = [d],
               is_jsonText = [], is_jsonError = False\<rparr>, n')
      else case json_parse trimmed of
        None \<Rightarrow>
          Some (\<lparr>is_editMode = EJson, is_visualMode = VOperations, is_legacyValue = [], is_operations = [d],
                 is_jsonText = text, is_jsonError = True\<rparr>, n')
      | Some parsed \<Rightarrow>
          (let pretty = json_pretty parsed in
           case parsed of
             JObj _ \<Rightarrow>
               (case jget ''operations'' parsed of
                  JArr items \<Rightarrow>
                    (case operations_of items n of
                       None \<Rightarrow> None
                     | Some (ops, n2) \<Rightarrow>
                         Some (\<lparr>is_editMode = EVisual, is_visualMode = VOperations, is_legacyValue = [],
                                is_operations = ops, is_jsonText = pretty, is_jsonError = False\<rparr>, n2))
                | _ \<Rightarrow>
                    Some (\<lparr>is_editMode = EVisual, is_visualMode = VLegacy, is_legacyValue = pretty,
                           is_operations = [d], is_jsonText = pretty, is_jsonError = False\<rparr>, n'))
           | _ \<Rightarrow>
               Some (\<lparr>is_editMode = EJson, is_visualMode = VOperations, is_legacyValue = [], is_operations = [d],
                      is_jsonText = pretty, is_jsonError = False\<rparr>, n')))"

section \<open>Checking and printing operations\<close>

definition cond_touched :: "op_cond \<Rightarrow> bool" where
  "cond_touched c \<longleftrightarrow> trim (oc_path c) \<noteq> [] \<or> trim (oc_value_text c) \<noteq> [] \<or> oc_mode c \<noteq> ''full'' \<or>
     oc_invert c \<or> oc_pass_missing_key c"

definition isOperationBlank :: "operation \<Rightarrow> bool" where
  "isOperationBlank opn \<longleftrightarrow>
     op_mode opn = ''set'' \<and> trim (op_path opn) = [] \<and> trim (op_from opn) = [] \<and> trim (op_to opn) = [] \<and>
     trim (op_value_text opn) = [] \<and> \<not> op_keep_origin opn \<and> \<not> list_ex cond_touched (op_conditions opn)"

definition buildConditionPayload :: "op_cond \<Rightarrow> jsval option" where
  "buildConditionPayload c =
     (let path = trim (oc_path c) in
      if path = [] then None
      else Some (JObj
        ([(''path'', JStr path), (''mode'', JStr (if oc_mode c = [] then ''full'' else oc_mode c)),
          (''value'', parseLooseValue (oc_value_text c))]
         @ (if oc_invert c then [(''invert'', JBool True)] else [])
         @ (if oc_pass_missing_key c then [(''pass_missing_key'', JBool True)] else []))))"

datatype op_problem =
    MissingPath | MissingFrom | MissingTo | MissingValue | ReturnErrorMessage | PruneEmpty
  | PruneNoCondition | HeadersMissing | HeadersInvalid

text \<open>A message names the line, from 1.\<close>

datatype op_error = OpError nat op_problem

definition return_error_problem :: "string \<Rightarrow> op_problem option" where
  "return_error_problem vt =
     (let raw = trim vt in
      if raw = [] then Some MissingValue
      else case json_parse raw of
        Some (JObj ps) \<Rightarrow>
          if trim (js_string (js_or (jget ''message'' (JObj ps)) (JStr []))) = [] then Some ReturnErrorMessage else None
      | _ \<Rightarrow> None)"

definition prune_problem :: "string \<Rightarrow> op_problem option" where
  "prune_problem vt =
     (let raw = trim vt in
      if raw = [] then Some PruneEmpty
      else case json_parse raw of
        Some (JObj ps) \<Rightarrow>
          (let parsed = JObj ps;
               hasType = (jget ''type'' parsed \<noteq> JUndef \<and> trim (js_string (jget ''type'' parsed)) \<noteq> []);
               hasWhere = (case jget ''where'' parsed of JObj qs \<Rightarrow> qs \<noteq> [] | _ \<Rightarrow> False);
               hasConditionsArray = (case jget ''conditions'' parsed of JArr vs \<Rightarrow> vs \<noteq> [] | _ \<Rightarrow> False);
               hasConditionsObject = (case jget ''conditions'' parsed of JObj qs \<Rightarrow> qs \<noteq> [] | _ \<Rightarrow> False)
           in if \<not> hasType \<and> \<not> hasWhere \<and> \<not> hasConditionsArray \<and> \<not> hasConditionsObject
              then Some PruneNoCondition else None)
      | _ \<Rightarrow> None)"

definition headers_problem :: "string \<Rightarrow> op_problem option" where
  "headers_problem vt =
     (let raw = trim vt in
      if raw = [] then Some HeadersMissing
      else if parsePassHeaderNames (parseLooseValue raw) = [] then Some HeadersInvalid else None)"

definition operation_problem :: "operation \<Rightarrow> op_problem option" where
  "operation_problem opn =
     (let mode = (if op_mode opn = [] then ''set'' else op_mode opn); meta = mode_meta_of mode;
          pathValue = trim (op_path opn); fromValue = trim (op_from opn); toValue = trim (op_to opn);
          valueText = trim (op_value_text opn)
      in if m_path meta \<and> pathValue = [] then Some MissingPath
         else if mode \<in> set FROM_REQUIRED_MODES \<and> fromValue = [] \<and> \<not> (m_pathAlias meta \<and> pathValue \<noteq> []) then Some MissingFrom
         else if mode \<in> set TO_REQUIRED_MODES \<and> toValue = [] \<and> \<not> (m_pathAlias meta \<and> pathValue \<noteq> []) then Some MissingTo
         else if m_from meta \<and> fromValue = [] then Some MissingFrom
         else if m_to meta \<and> toValue = [] then Some MissingTo
         else if mode \<in> set VALUE_REQUIRED_MODES \<and> valueText = [] then Some MissingValue
         else if mode = ''return_error'' then return_error_problem (op_value_text opn)
         else if mode = ''prune_objects'' then prune_problem (op_value_text opn)
         else if mode = ''pass_headers'' then headers_problem (op_value_text opn)
         else None)"

fun validate_from :: "nat \<Rightarrow> operation list \<Rightarrow> op_error option" where
  "validate_from line [] = None"
| "validate_from line (opn # ops) =
     (case operation_problem opn of Some p \<Rightarrow> Some (OpError line p) | None \<Rightarrow> validate_from (line + 1) ops)"

definition validateOperations :: "operation list \<Rightarrow> op_error option" where
  "validateOperations ops = validate_from 1 ops"

definition operation_payload :: "operation \<Rightarrow> jsval" where
  "operation_payload opn =
     (let mode = (if op_mode opn = [] then ''set'' else op_mode opn); meta = mode_meta_of mode;
          description = trim (op_description opn);
          pathValue = trim (op_path opn); fromValue = trim (op_from opn); toValue = trim (op_to opn);
          base = [(''mode'', JStr mode)]
            @ (if description \<noteq> [] then [(''description'', JStr description)] else [])
            @ (if m_path meta \<or> m_pathOptional meta \<and> pathValue \<noteq> [] then [(''path'', JStr pathValue)] else [])
            @ (if m_value meta then [(''value'', parseLooseValue (op_value_text opn))] else [])
            @ (if m_keepOrigin meta \<and> op_keep_origin opn then [(''keep_origin'', JBool True)] else [])
            @ (if m_from meta then [(''from'', JStr fromValue)] else [])
            @ (if m_to meta \<or> toValue \<noteq> [] then [(''to'', JStr toValue)] else []);
          aliased = (if m_pathAlias meta \<and> \<not> truthy (jget ''from'' (JObj base)) \<and> pathValue \<noteq> []
                     then obj_set ''from'' (JStr pathValue) base else base);
          aliased2 = (if m_pathAlias meta \<and> \<not> truthy (jget ''to'' (JObj aliased)) \<and> pathValue \<noteq> []
                      then obj_set ''to'' (JStr pathValue) aliased else aliased);
          conditions = List.map_filter buildConditionPayload (op_conditions opn)
      in JObj (aliased2 @
           (if conditions \<noteq> []
            then [(''conditions'', JArr conditions), (''logic'', JStr (if op_logic opn = ''AND'' then ''AND'' else ''OR''))]
            else [])))"

text \<open>\<open>Inl\<close> is the thrown validation message.\<close>

definition buildOperationsJson :: "operation list \<Rightarrow> bool \<Rightarrow> op_error + string" where
  "buildOperationsJson ops validate =
     (let filteredOps = filter (\<lambda>x. \<not> isOperationBlank x) ops in
      if filteredOps = [] then Inr []
      else case (if validate then validateOperations filteredOps else None) of
             Some e \<Rightarrow> Inl e
           | None \<Rightarrow> Inr (json_pretty (JObj [(''operations'', JArr (map operation_payload filteredOps))])))"

end
