(* ===== verification/ParamOverrideFacts.thy ===== *)
theory ParamOverrideFacts
  imports ParamOverride JsNumberFacts "HOL-Library.Multiset"
begin

text \<open>
  Properties of the pure part of the parameter-override editor: the drafts and specifications round
  trip, reordering is a permutation that puts the operation where it was dropped, validation finds the
  first faulty operation, and an override that was saved opens again as the operations it was built from.
\<close>

section \<open>The return_error draft\<close>

lemma status_or_400_int:
  "\<exists>n \<ge> 100. n \<le> 599 \<and> status_or_400 x = JNum (Fin (of_int n))"
proof (cases x)
  case (Fin r)
  show ?thesis
  proof (cases "r \<in> \<int> \<and> 100 \<le> r \<and> r \<le> 599")
    case True
    then obtain n where "r = of_int n" by (auto elim: Ints_cases)
    then show ?thesis using True Fin by (auto simp: status_or_400_def intro!: exI[of _ n])
  next
    case False
    then show ?thesis using Fin by (auto simp: status_or_400_def intro!: exI[of _ 400])
  qed
qed (auto simp: status_or_400_def intro!: exI[of _ 400])

lemma status_safe: "json_safe (status_or_400 x)"
  using status_or_400_int[of x] num_ok_int by force

lemma status_idem: "status_or_400 (js_number (status_or_400 x)) = status_or_400 x"
  by (auto simp: status_or_400_def split: jsnum.splits)

definition error_payload :: "error_draft \<Rightarrow> jsobj" where
  "error_payload draft =
     [(''message'', JStr (trim (ed_message draft))), (''status_code'', status_or_400 (js_number (ed_statusCode draft)))]
     @ (if trim (ed_code draft) \<noteq> [] then [(''code'', JStr (trim (ed_code draft)))] else [])
     @ (if trim (ed_type draft) \<noteq> [] then [(''type'', JStr (trim (ed_type draft)))] else [])
     @ (if \<not> ed_skipRetry draft then [(''skip_retry'', JBool False)] else [])"

lemma error_payload_safe: "json_safe (JObj (error_payload d))"
  by (rule json_safe_obj)
     (auto simp: error_payload_def plain_keys_def status_safe is_index_def is_digit_def)

lemma build_error_advanced: "\<not> ed_simpleMode d \<Longrightarrow> buildReturnErrorValueText d = json_stringify (JObj (error_payload d))"
  by (simp add: buildReturnErrorValueText_def error_payload_def Let_def)

lemma stringify_obj_trimmed: "trim (json_stringify (JObj ps)) = json_stringify (JObj ps) \<and> json_stringify (JObj ps) \<noteq> []"
  by (auto simp: json_stringify_def wrap_items_def trimmed_def js_ws_def intro!: trim_id)

lemma js_or_status: "js_or (status_or_400 x) w = status_or_400 x \<and> status_or_400 x \<noteq> JUndef"
  using status_or_400_int[of x] by (auto simp: js_or_def num_truthy_def)

lemma parse_error_built:
  assumes "\<not> ed_simpleMode d"
  shows "parseReturnErrorDraft (buildReturnErrorValueText d) =
     d\<lparr>ed_message := trim (ed_message d), ed_statusCode := status_or_400 (js_number (ed_statusCode d)),
       ed_code := trim (ed_code d), ed_type := trim (ed_type d)\<rparr>"
proof -
  have p: "json_parse (json_stringify (JObj (error_payload d))) = Some (JObj (error_payload d))"
    by (rule compact.dec_enc[OF error_payload_safe])
  show ?thesis
    unfolding build_error_advanced[OF assms] parseReturnErrorDraft_def Let_def p
    using stringify_obj_trimmed[of "error_payload d"] p assms js_or_status[of "js_number (ed_statusCode d)"]
      status_idem[of "js_number (ed_statusCode d)"]
    by (auto simp: error_payload_def jget_simps js_or_def)
qed


section \<open>Synchronisation targets\<close>

lemma index_of_append: "c \<notin> set p \<Longrightarrow> index_of c (p @ c # s) = Some (length p)"
  by (induction p) auto

lemma sync_roundtrip:
  assumes "trim key \<noteq> []" "type \<in> {''json'', ''header''}"
  shows "parseSyncTargetSpec (buildSyncTargetSpec type key) = (type, trim key)"
proof -
  let ?k = "trim key"
  have b: "buildSyncTargetSpec type key = type @ CHR '':'' # ?k"
    using assms by (auto simp: buildSyncTargetSpec_def Let_def)
  have t: "trim (type @ CHR '':'' # ?k) = type @ CHR '':'' # ?k"
    using assms trimmed_trim[of key] by (intro trim_id) (auto simp: trimmed_def js_ws_def)
  have i: "index_of (CHR '':'') (type @ CHR '':'' # ?k) = Some (length type)"
    using assms by (intro index_of_append) auto
  have l: "to_lower (trim type) = type" using assms
    by (auto simp: trim_id trimmed_def js_ws_def to_lower_def lower_char_def)
  show ?thesis unfolding b parseSyncTargetSpec_def t Let_def i using l assms by auto
qed

section \<open>Reordering\<close>

lemma find_index_Some:
  "find_index P xs = Some i \<Longrightarrow> i < length xs \<and> P (xs ! i) \<and> (\<forall>j < i. \<not> P (xs ! j))"
proof (induction xs arbitrary: i)
  case (Cons x xs)
  then show ?case
    by (cases i) (auto split: if_splits simp: less_Suc_eq_0_disj)
qed simp

lemma find_index_None: "find_index P xs = None \<longleftrightarrow> (\<forall>x \<in> set xs. \<not> P x)"
  by (induction xs) auto

lemma insert_at_mset [simp]: "mset (insert_at i x xs) = add_mset x (mset xs)"
  unfolding insert_at_def by (simp add: union_commute) (metis add_mset_add_single append_take_drop_id mset_append union_commute)

lemma remove_nth_mset: "i < length xs \<Longrightarrow> add_mset (xs ! i) (mset (take i xs @ drop (Suc i) xs)) = mset xs"
  by (metis append_take_drop_id Cons_nth_drop_Suc mset.simps(2) mset_append union_mset_add_mset_right)

lemma reorder_mset: "mset (reorderOperations ops s t pos) = mset ops"
  unfolding reorderOperations_def
  by (auto simp: Let_def remove_nth_mset[simplified] dest!: find_index_Some split: option.splits)

lemma reorder_ids: "mset (map op_id (reorderOperations ops s t pos)) = mset (map op_id ops)"
  by (simp add: reorder_mset)

definition others :: "nat \<Rightarrow> operation list \<Rightarrow> operation list" where
  "others i ops = filter (\<lambda>x. op_id x \<noteq> i) ops"

lemma others_insert_at: "op_id x = s \<Longrightarrow> others s (insert_at i x xs) = others s xs"
  unfolding others_def insert_at_def by simp (metis append_take_drop_id filter_append)

lemma others_remove:
  assumes "i < length ops" "op_id (ops ! i) = s"
  shows "others s (take i ops @ drop (Suc i) ops) = others s ops"
  using assms unfolding others_def
  by (metis (mono_tags, lifting) append_take_drop_id Cons_nth_drop_Suc filter.simps(2) filter_append)

lemma reorder_others: "others s (reorderOperations ops (Some s) t pos) = others s ops"
  unfolding reorderOperations_def
  by (auto simp: Let_def others_insert_at others_remove dest!: find_index_Some split: option.splits)


lemma remove_is_others:
  assumes "distinct (map op_id ops)" "i < length ops" "op_id (ops ! i) = s"
  shows "take i ops @ drop (Suc i) ops = others s ops"
proof -
  have o: "ops = take i ops @ ops ! i # drop (Suc i) ops" using assms(2) by (metis append_take_drop_id Cons_nth_drop_Suc)
  then have "distinct (map op_id (take i ops) @ s # map op_id (drop (Suc i) ops))"
    using assms(1,3) by (metis map_append list.simps(9))
  then have "\<forall>x \<in> set (take i ops @ drop (Suc i) ops). op_id x \<noteq> s" by auto
  then have "others s (take i ops @ drop (Suc i) ops) = take i ops @ drop (Suc i) ops"
    by (simp add: others_def filter_id_conv)
  then show ?thesis using others_remove[OF assms(2,3)] by simp
qed

lemma reorder_places:
  assumes "distinct (map op_id ops)" "s \<noteq> t" "s \<in> op_id ` set ops" "t \<in> op_id ` set ops"
  obtains pre post x y where "others s ops = pre @ y # post" "op_id x = s" "op_id y = t" "x \<in> set ops"
    "reorderOperations ops (Some s) (Some t) pos = pre @ (if pos = After then [y, x] else [x, y]) @ post"
proof -
  obtain i where i: "find_index (\<lambda>x. op_id x = s) ops = Some i"
    using assms(3) find_index_None[of "\<lambda>x. op_id x = s" ops] by (cases "find_index (\<lambda>x. op_id x = s) ops") auto
  note si = find_index_Some[OF i]
  have nxt: "take i ops @ drop (Suc i) ops = others s ops" using remove_is_others[OF assms(1)] si by blast
  have "t \<in> op_id ` set (others s ops)" using assms(2,4) by (auto simp: others_def)
  then obtain j where j: "find_index (\<lambda>x. op_id x = t) (others s ops) = Some j"
    using find_index_None[of "\<lambda>x. op_id x = t" "others s ops"]
    by (cases "find_index (\<lambda>x. op_id x = t) (others s ops)") auto
  note sj = find_index_Some[OF j]
  let ?n = "others s ops"
  have d: "?n = take j ?n @ ?n ! j # drop (Suc j) ?n" using sj by (metis append_take_drop_id Cons_nth_drop_Suc)
  have r: "reorderOperations ops (Some s) (Some t) pos = insert_at (if pos = After then j + 1 else j) (ops ! i) ?n"
    using assms(2) i j nxt by (simp add: reorderOperations_def Let_def)
  have "insert_at j (ops ! i) ?n = take j ?n @ [ops ! i, ?n ! j] @ drop (Suc j) ?n"
    using sj by (simp add: insert_at_def Cons_nth_drop_Suc)
  moreover have "insert_at (j + 1) (ops ! i) ?n = take j ?n @ [?n ! j, ops ! i] @ drop (Suc j) ?n"
    using sj by (simp add: insert_at_def take_Suc_conv_app_nth)
  ultimately have "reorderOperations ops (Some s) (Some t) pos =
     take j ?n @ (if pos = After then [?n ! j, ops ! i] else [ops ! i, ?n ! j]) @ drop (Suc j) ?n"
    using r by simp
  then show ?thesis using that[OF d, of "ops ! i"] si sj by auto
qed

section \<open>Validation\<close>

lemma validate_from_None: "validate_from l ops = None \<longleftrightarrow> list_all (\<lambda>x. operation_problem x = None) ops"
  by (induction ops arbitrary: l) (auto split: option.splits)



section \<open>Value texts\<close>

lemma stringify_hd: "json_safe v \<Longrightarrow> json_stringify v \<noteq> [] \<and> \<not> js_ws (hd (json_stringify v))"
proof (cases v)
  case (JNum n)
  assume "json_safe v"
  then have n: "is_finite n" "list_all num_char (num_str n)" "json_number_ok (num_str n)"
    using JNum by (auto simp: num_ok_def)
  then have "num_str n \<noteq> []" by (auto simp: json_number_ok_def)
  moreover have "\<not> js_ws c" if "num_char c" for c using that by (auto simp: num_char_def is_digit_def js_ws_def)
  ultimately show ?thesis using n JNum by (cases "num_str n") (auto simp: json_stringify_def)
qed (auto simp: json_stringify_def json_quote_def wrap_items_def js_ws_def)

lemma stringify_trim_nonempty: "json_safe v \<Longrightarrow> trim (json_stringify v) \<noteq> []"
  using stringify_hd[of v] by (cases "json_stringify v") (auto simp: trim_Nil_iff)

lemma loose_stringify: "json_safe v \<Longrightarrow> parseLooseValue (json_stringify v) = v"
  using stringify_trim_nonempty[of v] by (simp add: parseLooseValue_def compact.dec_enc)

lemma value_text_roundtrip:
  assumes "json_safe v"
  shows "parseLooseValue (toValueText v) = v \<longleftrightarrow>
     (case v of JStr s \<Rightarrow> s = [] \<or> (trim s \<noteq> [] \<and> json_parse s \<in> {None, Some (JStr s)}) | _ \<Rightarrow> True)"
proof (cases v)
  case (JStr s)
  then show ?thesis by (auto simp: toValueText_def parseLooseValue_def split: option.splits)
qed (use assms loose_stringify[of v] in \<open>simp_all add: toValueText_def\<close>)


section \<open>Saving and opening\<close>

text \<open>What an operation becomes when it is saved and opened again.\<close>

definition reopened_cond :: "op_cond \<Rightarrow> nat \<Rightarrow> op_cond" where
  "reopened_cond c n = c\<lparr>oc_id := n, oc_path := trim (oc_path c),
     oc_value_text := toValueText (parseLooseValue (oc_value_text c))\<rparr>"

fun reopened_conds :: "op_cond list \<Rightarrow> nat \<Rightarrow> op_cond list \<times> nat" where
  "reopened_conds [] n = ([], n)"
| "reopened_conds (c # cs) n =
     (if trim (oc_path c) = [] then reopened_conds cs n
      else let (ds, n') = reopened_conds cs (Suc n) in (reopened_cond c n # ds, n'))"

definition reopened_op :: "operation \<Rightarrow> nat \<Rightarrow> operation \<times> nat" where
  "reopened_op x n =
     (let meta = mode_meta_of (op_mode x); (cs, n') = reopened_conds (op_conditions x) (Suc n)
      in (\<lparr>op_id = n, op_description = trim (op_description x),
           op_path = (if m_path meta \<or> m_pathOptional meta then trim (op_path x) else []),
           op_mode = op_mode x,
           op_value_text = (if m_value meta then toValueText (parseLooseValue (op_value_text x)) else []),
           op_keep_origin = (m_keepOrigin meta \<and> op_keep_origin x),
           op_from = (if m_from meta then trim (op_from x) else []), op_to = trim (op_to x),
           op_logic = (if cs \<noteq> [] \<and> op_logic x = ''AND'' then ''AND'' else ''OR''), op_conditions = cs\<rparr>, n'))"

fun reopened_ops :: "operation list \<Rightarrow> nat \<Rightarrow> operation list \<times> nat" where
  "reopened_ops [] n = ([], n)"
| "reopened_ops (x # xs) n = (let (y, n1) = reopened_op x n; (ys, n2) = reopened_ops xs n1 in (y # ys, n2))"

definition cond_savable :: "op_cond \<Rightarrow> bool" where
  "cond_savable c \<longleftrightarrow> oc_mode c \<in> set CONDITION_MODE_VALUES \<and> json_safe (parseLooseValue (oc_value_text c))"

definition op_savable :: "operation \<Rightarrow> bool" where
  "op_savable x \<longleftrightarrow> op_mode x \<in> set OPERATION_MODE_VALUES \<and> json_safe (parseLooseValue (op_value_text x)) \<and>
     list_all cond_savable (op_conditions x)"

text \<open>Optional entries of an object literal.\<close>

lemma fst_opt: "map fst (if b then [(k, v)] else []) = (if b then [k] else [])"
  by simp

lemma distinct_opt: "distinct ((if b then [k] else []) @ ks) \<longleftrightarrow> (b \<longrightarrow> k \<notin> set ks) \<and> distinct ks"
  by auto

lemma set_opt: "k \<in> set (if b then [j] else []) \<longleftrightarrow> b \<and> k = j"
  by auto

lemma list_all_opt: "list_all P (if b then [p] else []) \<longleftrightarrow> (b \<longrightarrow> P p)"
  by simp

lemma jget_opt: "jget k (JObj ((if b then [(j, v)] else []) @ ps)) = (if b \<and> j = k then v else jget k (JObj ps))"
  by (simp add: jget_Cons)

lemma jget_opt_end: "jget k (JObj (if b then [(j, v)] else [])) = (if b \<and> j = k then v else JUndef)"
  by (simp add: jget_Cons)

lemmas opt_simps = fst_opt distinct_opt set_opt list_all_opt jget_opt jget_opt_end

lemma cond_payload_safe:
  assumes "cond_savable c" "buildConditionPayload c = Some v"
  shows "json_safe v"
proof -
  have v: "v = JObj ([(''path'', JStr (trim (oc_path c))), (''mode'', JStr (if oc_mode c = [] then ''full'' else oc_mode c)),
          (''value'', parseLooseValue (oc_value_text c))]
         @ (if oc_invert c then [(''invert'', JBool True)] else [])
         @ (if oc_pass_missing_key c then [(''pass_missing_key'', JBool True)] else []))"
    using assms(2) by (simp add: buildConditionPayload_def Let_def split: if_splits)
  show ?thesis unfolding v
    by (rule json_safe_obj) (use assms(1) in \<open>auto simp: plain_keys_def cond_savable_def is_index_def is_digit_def\<close>)
qed

lemma cond_payload_reopened:
  assumes "cond_savable c" "buildConditionPayload c = Some v"
  shows "normalizeCondition v n = Some (reopened_cond c n, Suc n)"
proof -
  have "oc_mode c \<in> set CONDITION_MODE_VALUES" "oc_mode c \<noteq> []"
    using assms(1) by (auto simp: cond_savable_def CONDITION_MODE_VALUES_def)
  then show ?thesis using assms(2)
    by (auto simp: buildConditionPayload_def Let_def normalizeCondition_def cond_of_def str_prop_def mode_prop_def
       jget_Cons jget_append reopened_cond_def split: if_splits)
qed

lemma conds_reopened:
  "list_all cond_savable cs \<Longrightarrow>
   map_ids normalizeCondition (List.map_filter buildConditionPayload cs) n = Some (reopened_conds cs n)"
proof (induction cs arbitrary: n)
  case (Cons c cs)
  show ?case
  proof (cases "buildConditionPayload c")
    case None
    then have "trim (oc_path c) = []" by (simp add: buildConditionPayload_def Let_def split: if_splits)
    then show ?thesis using None Cons by (simp add: List.map_filter_def)
  next
    case (Some v)
    then have "trim (oc_path c) \<noteq> []" by (auto simp: buildConditionPayload_def Let_def)
    then show ?thesis using Some Cons cond_payload_reopened[OF _ Some, of n]
      by (simp add: List.map_filter_def split: prod.splits)
  qed
qed (simp add: List.map_filter_def)

lemma conds_reopened_Nil: "fst (reopened_conds cs n) = [] \<longleftrightarrow> List.map_filter buildConditionPayload cs = []"
proof (induction cs arbitrary: n)
  case (Cons c cs)
  show ?case using Cons[of n]
    by (auto simp: List.map_filter_def buildConditionPayload_def Let_def split: prod.splits if_splits)
qed (simp add: List.map_filter_def)


definition payload_base :: "operation \<Rightarrow> jsobj" where
  "payload_base x =
     (let meta = mode_meta_of (op_mode x)
      in [(''mode'', JStr (op_mode x))]
         @ (if trim (op_description x) \<noteq> [] then [(''description'', JStr (trim (op_description x)))] else [])
         @ (if m_path meta \<or> m_pathOptional meta \<and> trim (op_path x) \<noteq> [] then [(''path'', JStr (trim (op_path x)))] else [])
         @ (if m_value meta then [(''value'', parseLooseValue (op_value_text x))] else [])
         @ (if m_keepOrigin meta \<and> op_keep_origin x then [(''keep_origin'', JBool True)] else [])
         @ (if m_from meta then [(''from'', JStr (trim (op_from x)))] else [])
         @ (if m_to meta \<or> trim (op_to x) \<noteq> [] then [(''to'', JStr (trim (op_to x)))] else []))"

definition payload_conds :: "operation \<Rightarrow> jsobj" where
  "payload_conds x =
     (let cs = List.map_filter buildConditionPayload (op_conditions x)
      in if cs \<noteq> []
         then [(''conditions'', JArr cs), (''logic'', JStr (if op_logic x = ''AND'' then ''AND'' else ''OR''))]
         else [])"

lemma alias_fields: "m_pathAlias (mode_meta_of mode) \<Longrightarrow> m_from (mode_meta_of mode) \<and> m_to (mode_meta_of mode)"
  by (auto simp: mode_meta_of_def MODE_META_def no_meta_def split: if_splits)

lemma problem_fields:
  assumes "operation_problem x = None" "op_mode x \<noteq> []"
  shows "m_from (mode_meta_of (op_mode x)) \<Longrightarrow> trim (op_from x) \<noteq> []"
    and "m_to (mode_meta_of (op_mode x)) \<Longrightarrow> trim (op_to x) \<noteq> []"
  using assms by (auto simp: operation_problem_def Let_def split: if_splits)

lemma payload_shape:
  assumes "operation_problem x = None" "op_mode x \<noteq> []"
  shows "operation_payload x = JObj (payload_base x @ payload_conds x)"
proof -
  let ?m = "mode_meta_of (op_mode x)"
  have f: "truthy (jget ''from'' (JObj (payload_base x)))" if "m_pathAlias ?m"
    using problem_fields[OF assms] alias_fields[OF that] by (simp add: payload_base_def Let_def jget_Cons opt_simps)
  have t: "truthy (jget ''to'' (JObj (payload_base x)))" if "m_pathAlias ?m"
    using problem_fields[OF assms] alias_fields[OF that] by (simp add: payload_base_def Let_def jget_Cons opt_simps)
  have "operation_payload x =
     (let aliased = (if m_pathAlias ?m \<and> \<not> truthy (jget ''from'' (JObj (payload_base x))) \<and> trim (op_path x) \<noteq> []
                     then obj_set ''from'' (JStr (trim (op_path x))) (payload_base x) else payload_base x);
          aliased2 = (if m_pathAlias ?m \<and> \<not> truthy (jget ''to'' (JObj aliased)) \<and> trim (op_path x) \<noteq> []
                      then obj_set ''to'' (JStr (trim (op_path x))) aliased else aliased)
      in JObj (aliased2 @ payload_conds x))"
    unfolding operation_payload_def payload_base_def payload_conds_def Let_def by (simp only: assms(2) if_False)
  also have "\<dots> = JObj (payload_base x @ payload_conds x)" using f t unfolding Let_def by auto
  finally show ?thesis .
qed

fun opts :: "(bool \<times> string \<times> 'v) list \<Rightarrow> (string \<times> 'v) list" where
  "opts [] = []"
| "opts ((b, p) # xs) = (if b then [p] else []) @ opts xs"

lemma opts_append: "opts (xs @ ys) = opts xs @ opts ys"
  by (induction xs rule: opts.induct) auto

lemma opts_sub: "set (opts xs) \<subseteq> set (map snd xs)"
  by (induction xs rule: opts.induct) auto

lemma opts_plain: "plain_keys (map snd xs) \<Longrightarrow> plain_keys (opts xs)"
proof -
  have "distinct (map fst (map snd xs)) \<Longrightarrow> distinct (map fst (opts xs))"
  proof (induction xs rule: opts.induct)
    case (2 b p xs)
    then show ?case using opts_sub[of xs] by (cases b) force+
  qed simp
  moreover have "list_all P (map snd xs) \<Longrightarrow> list_all P (opts xs)" for P
    using opts_sub[of xs] unfolding list_all_iff by blast
  ultimately show "plain_keys (map snd xs) \<Longrightarrow> plain_keys (opts xs)" unfolding plain_keys_def by blast
qed

lemma payload_keys: "plain_keys (payload_base x @ payload_conds x)"
proof -
  let ?m = "mode_meta_of (op_mode x)" and ?cs = "List.map_filter buildConditionPayload (op_conditions x)"
  let ?b = "[(True, ''mode'', JStr (op_mode x)),
      (trim (op_description x) \<noteq> [], ''description'', JStr (trim (op_description x))),
      (m_path ?m \<or> m_pathOptional ?m \<and> trim (op_path x) \<noteq> [], ''path'', JStr (trim (op_path x))),
      (m_value ?m, ''value'', parseLooseValue (op_value_text x)),
      (m_keepOrigin ?m \<and> op_keep_origin x, ''keep_origin'', JBool True),
      (m_from ?m, ''from'', JStr (trim (op_from x))),
      (m_to ?m \<or> trim (op_to x) \<noteq> [], ''to'', JStr (trim (op_to x)))]"
  let ?k = "[(?cs \<noteq> [], ''conditions'', JArr ?cs),
      (?cs \<noteq> [], ''logic'', JStr (if op_logic x = ''AND'' then ''AND'' else ''OR''))]"
  have "payload_conds x = opts ?k" by (simp add: payload_conds_def Let_def)
  moreover have "payload_base x = opts ?b"
    unfolding payload_base_def Let_def by (simp only: opts.simps append_Nil append_Cons if_True append_Nil2)
  ultimately have "payload_base x @ payload_conds x = opts (?b @ ?k)" by (simp only: opts_append)
  moreover have "plain_keys (map snd (?b @ ?k))" by (simp add: plain_keys_def is_index_def is_digit_def)
  ultimately show ?thesis using opts_plain by metis
qed

lemma payload_safe:
  assumes "op_savable x"
  shows "json_safe (JObj (payload_base x @ payload_conds x))"
proof (rule json_safe_obj[OF payload_keys])
  have "json_safe (JArr (List.map_filter buildConditionPayload (op_conditions x)))"
    using assms cond_payload_safe by (fastforce simp: op_savable_def list_all_iff List.map_filter_def)
  then show "list_all (\<lambda>p. json_safe (snd p)) (payload_base x @ payload_conds x)"
    using assms by (simp add: payload_base_def payload_conds_def Let_def op_savable_def)
qed

lemma payload_reopened:
  assumes "operation_problem x = None" "op_savable x"
  shows "normalizeOperation (operation_payload x) n = Some (reopened_op x n)"
proof -
  have mode: "op_mode x \<in> set OPERATION_MODE_VALUES" "op_mode x \<noteq> []"
    using assms(2) by (auto simp: op_savable_def OPERATION_MODE_VALUES_def)
  let ?v = "JObj (payload_base x @ payload_conds x)"
  let ?cs = "List.map_filter buildConditionPayload (op_conditions x)"
  note g = payload_base_def payload_conds_def Let_def jget_Cons jget_Nil opt_simps append_assoc jget_if
  have c: "jget ''conditions'' ?v = (if ?cs \<noteq> [] then JArr ?cs else JUndef)"
    and l: "jget ''logic'' ?v = (if ?cs \<noteq> [] then JStr (if op_logic x = ''AND'' then ''AND'' else ''OR'') else JUndef)"
    and d: "jget ''description'' ?v = (if trim (op_description x) \<noteq> [] then JStr (trim (op_description x)) else JUndef)"
    and m: "jget ''mode'' ?v = JStr (op_mode x)"
    by (simp_all add: g)
  have "(case jget ''conditions'' ?v of JArr items \<Rightarrow> map_ids normalizeCondition items (Suc n) | _ \<Rightarrow> Some ([], Suc n)) =
      Some (reopened_conds (op_conditions x) (Suc n))"
  proof (cases "?cs = []")
    case True
    then have "map_ids normalizeCondition [] (Suc n) = Some (reopened_conds (op_conditions x) (Suc n))"
      using conds_reopened[of "op_conditions x" "Suc n"] assms(2) by (simp add: op_savable_def)
    then show ?thesis using True by (simp add: c)
  next
    case False
    then show ?thesis using conds_reopened[of "op_conditions x" "Suc n"] assms(2) by (simp add: c op_savable_def)
  qed
  moreover have "logic_is ''AND'' ''OR'' (jget ''logic'' ?v) \<longleftrightarrow> ?cs \<noteq> [] \<and> op_logic x = ''AND''"
    unfolding l logic_is_def js_or_def by (simp add: to_upper_def upper_char_def)
  moreover have "str_prop ''path'' ?v = (if m_path (mode_meta_of (op_mode x)) \<or> m_pathOptional (mode_meta_of (op_mode x))
       then trim (op_path x) else [])"
    "toValueText (jget ''value'' ?v) = (if m_value (mode_meta_of (op_mode x)) then toValueText (parseLooseValue (op_value_text x)) else [])"
    "str_prop ''from'' ?v = (if m_from (mode_meta_of (op_mode x)) then trim (op_from x) else [])"
    "str_prop ''to'' ?v = trim (op_to x)"
    "(jget ''keep_origin'' ?v = JBool True) = (m_keepOrigin (mode_meta_of (op_mode x)) \<and> op_keep_origin x)"
    by (auto simp: g str_prop_def toValueText_def)
  moreover have "str_prop ''description'' ?v = trim (op_description x)" "mode_prop OPERATION_MODE_VALUES ''set'' ?v = op_mode x"
    using mode unfolding str_prop_def mode_prop_def d m by auto
  moreover obtain cs n' where "reopened_conds (op_conditions x) (Suc n) = (cs, n')" by force
  ultimately show ?thesis
    unfolding payload_shape[OF assms(1) mode(2)] normalizeOperation_def reopened_op_def Let_def
    using conds_reopened_Nil[of "op_conditions x" "Suc n"] by simp
qed

lemma payloads_reopened:
  "list_all (\<lambda>x. operation_problem x = None \<and> op_savable x) xs \<Longrightarrow>
   map_ids normalizeOperation (map operation_payload xs) n = Some (reopened_ops xs n)"
  by (induction xs arbitrary: n) (auto simp: payload_reopened split: prod.splits)

lemma save_open:
  assumes "xs \<noteq> []" "list_all (\<lambda>x. operation_problem x = None \<and> op_savable x) xs"
  defines "txt \<equiv> json_pretty (JObj [(''operations'', JArr (map operation_payload xs))])"
  shows "parseInitialState txt n = Some (\<lparr>is_editMode = EVisual, is_visualMode = VOperations, is_legacyValue = [],
     is_operations = fst (reopened_ops xs n), is_jsonText = txt, is_jsonError = False\<rparr>, snd (reopened_ops xs n))"
proof -
  let ?v = "JObj [(''operations'', JArr (map operation_payload xs))]"
  have "json_safe (operation_payload x)" if "x \<in> set xs" for x
  proof -
    have "operation_problem x = None" "op_savable x" "op_mode x \<noteq> []"
      using that assms(2) by (auto simp: list_all_iff op_savable_def OPERATION_MODE_VALUES_def)
    then show ?thesis using payload_shape payload_safe by simp
  qed
  then have "json_safe ?v"
    by (intro json_safe_obj) (auto simp: plain_keys_def is_index_def is_digit_def list_all_iff)
  then have p: "json_parse txt = Some ?v" unfolding txt_def by (rule indented.dec_enc)
  have "operations_of (map operation_payload xs) n = Some (reopened_ops xs n)"
    using assms(1) payloads_reopened[OF assms(2)] by (simp add: operations_of_def)
  then show ?thesis
    using p pretty_obj_trimmed[of "[(''operations'', JArr (map operation_payload xs))]"]
    unfolding parseInitialState_def txt_def[symmetric]
    by (simp add: Let_def jget_Cons split: prod.splits) (simp add: txt_def)
qed

section \<open>Overrides that cannot be opened\<close>

lemma conds_None: "map_ids normalizeCondition vs n = None \<longleftrightarrow> JNull \<in> set vs"
  by (induction vs arbitrary: n) (auto simp: normalizeCondition_def split: option.splits)

definition null_inside :: "jsval \<Rightarrow> bool" where
  "null_inside v \<longleftrightarrow> v = JNull \<or> (case jget ''conditions'' v of JArr cs \<Rightarrow> JNull \<in> set cs | _ \<Rightarrow> False)"

lemma op_None: "normalizeOperation v n = None \<longleftrightarrow> null_inside v"
proof (cases "jget ''conditions'' v")
  case (JArr cs)
  then show ?thesis using conds_None[of cs "Suc n"]
    by (cases "map_ids normalizeCondition cs (Suc n)") (auto simp: normalizeOperation_def null_inside_def)
qed (auto simp: normalizeOperation_def null_inside_def)

lemma ops_None: "map_ids normalizeOperation vs n = None \<longleftrightarrow> list_ex null_inside vs"
proof (induction vs arbitrary: n)
  case (Cons v vs)
  show ?case
  proof (cases "normalizeOperation v n")
    case None
    then show ?thesis using op_None[of v n] by simp
  next
    case (Some p)
    obtain y m where p: "p = (y, m)" by force
    show ?thesis using Some op_None[of v n] Cons[of m] p
      by (cases "map_ids normalizeOperation vs m") auto
  qed
qed simp

section \<open>Properties\<close>

definition nonblank :: "operation list \<Rightarrow> operation list" where
  "nonblank ops = filter (\<lambda>x. \<not> isOperationBlank x) ops"

text \<open>C23. Saving operations that pass validation and opening the saved text again shows the same operations: the
  blank ones are dropped, the fields of the mode are kept trimmed, every value is kept as the text of the
  JSON value it was saved as, conditions without a path are dropped, and fresh identifiers are given.\<close>

theorem override_save_open:
  assumes "nonblank ops \<noteq> []" "validateOperations (nonblank ops) = None" "list_all op_savable (nonblank ops)"
  shows "\<exists>txt. buildOperationsJson ops True = Inr txt \<and>
     parseInitialState txt n = Some (\<lparr>is_editMode = EVisual, is_visualMode = VOperations, is_legacyValue = [],
       is_operations = fst (reopened_ops (nonblank ops) n), is_jsonText = txt, is_jsonError = False\<rparr>,
       snd (reopened_ops (nonblank ops) n))"
proof -
  have "list_all (\<lambda>x. operation_problem x = None \<and> op_savable x) (nonblank ops)"
    using assms(2,3) by (auto simp: validateOperations_def validate_from_None list_all_iff)
  from save_open[OF assms(1) this] show ?thesis
    using assms(1,2) unfolding buildOperationsJson_def Let_def nonblank_def[symmetric] by simp
qed

definition sample_op :: operation where
  "sample_op = \<lparr>op_id = 0, op_description = [], op_path = ''model '', op_mode = ''set'', op_value_text = ''gpt-4o'',
     op_keep_origin = True, op_from = [], op_to = [], op_logic = ''AND'',
     op_conditions = [\<lparr>oc_id = 1, oc_path = ''stream'', oc_mode = ''full'', oc_value_text = ''true'',
       oc_invert = False, oc_pass_missing_key = True\<rparr>]\<rparr>"

theorem override_save_open_witness:
  "\<exists>txt. buildOperationsJson [sample_op, fst (createDefaultOperation 2)] True = Inr txt \<and>
     parseInitialState txt 3 = Some (\<lparr>is_editMode = EVisual, is_visualMode = VOperations, is_legacyValue = [],
       is_operations = [sample_op\<lparr>op_id := 3, op_path := ''model'',
          op_conditions := map (\<lambda>c. c\<lparr>oc_id := 4\<rparr>) (op_conditions sample_op)\<rparr>],
       is_jsonText = txt, is_jsonError = False\<rparr>, 5)"
proof -
  let ?ops = "[sample_op, fst (createDefaultOperation 2)]"
  have t: "trim ''model '' = ''model''" "trim ''gpt-4o'' = ''gpt-4o''" "trim ''stream'' = ''stream''" "trim ''true'' = ''true''"
    by code_simp+
  have n: "nonblank ?ops = [sample_op]"
    by (simp add: nonblank_def isOperationBlank_def sample_op_def createDefaultOperation_def t)
  have j: "parseLooseValue ''gpt-4o'' = JStr ''gpt-4o''" "parseLooseValue ''true'' = JBool True" by code_simp+
  have p: "operation_problem sample_op = None"
    by (simp add: operation_problem_def sample_op_def mode_meta_of_def MODE_META_def no_meta_def t
       FROM_REQUIRED_MODES_def TO_REQUIRED_MODES_def VALUE_REQUIRED_MODES_def)
  have s: "op_savable sample_op"
    by (simp add: op_savable_def sample_op_def cond_savable_def j OPERATION_MODE_VALUES_def CONDITION_MODE_VALUES_def)
  have "reopened_ops [sample_op] 3 = ([sample_op\<lparr>op_id := 3, op_path := ''model'',
          op_conditions := map (\<lambda>c. c\<lparr>oc_id := 4\<rparr>) (op_conditions sample_op)\<rparr>], 5)"
    by (simp add: reopened_op_def reopened_cond_def sample_op_def mode_meta_of_def MODE_META_def no_meta_def t j
       toValueText_def json_stringify_def)
  then show ?thesis
    using override_save_open[of ?ops 3] n p s by (simp add: validateOperations_def)
qed

text \<open>The value field keeps a JSON value exactly when it is not a string that itself reads as JSON: numbers,
  booleans, null, arrays and objects survive the text of the field, a string such as \<open>"5"\<close> or \<open>"true"\<close>
  comes back as the number or the boolean.\<close>

theorem value_field_roundtrip:
  assumes "json_safe v"
  shows "parseLooseValue (toValueText v) = v \<longleftrightarrow>
     (case v of JStr s \<Rightarrow> s = [] \<or> (trim s \<noteq> [] \<and> json_parse s \<in> {None, Some (JStr s)}) | _ \<Rightarrow> True)"
  using assms by (rule value_text_roundtrip)

theorem value_field_roundtrip_witness:
  "parseLooseValue (toValueText (JArr [JStr ''a'', JNull])) = JArr [JStr ''a'', JNull] \<and>
   parseLooseValue (toValueText (JStr ''true'')) \<noteq> JStr ''true''"
proof
  show "parseLooseValue (toValueText (JArr [JStr ''a'', JNull])) = JArr [JStr ''a'', JNull]"
    using value_field_roundtrip[of "JArr [JStr ''a'', JNull]"] by simp
  have "json_parse ''true'' = Some (JBool True)" by code_simp
  then show "parseLooseValue (toValueText (JStr ''true'')) \<noteq> JStr ''true''"
    using value_field_roundtrip[of "JStr ''true''"] by simp
qed

text \<open>The structured \<open>return_error\<close> form round trips: the text written for a draft parses back to the draft with
  its texts trimmed and its status code forced into 100 to 599 (400 otherwise), and that draft is a fixed point.\<close>

theorem return_error_roundtrip:
  assumes "\<not> ed_simpleMode d"
  shows "parseReturnErrorDraft (buildReturnErrorValueText d) =
     d\<lparr>ed_message := trim (ed_message d), ed_statusCode := status_or_400 (js_number (ed_statusCode d)),
       ed_code := trim (ed_code d), ed_type := trim (ed_type d)\<rparr>
   \<and> parseReturnErrorDraft (buildReturnErrorValueText (parseReturnErrorDraft (buildReturnErrorValueText d))) =
     parseReturnErrorDraft (buildReturnErrorValueText d)"
  using parse_error_built[OF assms] parse_error_built[of "parseReturnErrorDraft (buildReturnErrorValueText d)"] assms
    status_idem[of "js_number (ed_statusCode d)"]
  by simp

theorem return_error_roundtrip_witness:
  "parseReturnErrorDraft (buildReturnErrorValueText (error_defaults\<lparr>ed_message := ''no'', ed_statusCode := JStr ''429'', ed_simpleMode := False\<rparr>)) =
     error_defaults\<lparr>ed_message := ''no'', ed_statusCode := JNum (Fin 429), ed_simpleMode := False\<rparr>"
proof -
  let ?d = "error_defaults\<lparr>ed_message := ''no'', ed_statusCode := JStr ''429'', ed_simpleMode := False\<rparr>"
  have "num_of_string ''429'' = Fin 429" by code_simp
  moreover have "trim ''no'' = ''no''" by code_simp
  moreover have "(429 :: rat) \<in> \<int>" by simp
  ultimately show ?thesis using return_error_roundtrip[of ?d]
    by (simp add: error_defaults_def status_or_400_def)
qed

text \<open>A synchronisation target built from a kind and a non-blank key is read back as that kind and the trimmed key.\<close>

theorem sync_target_roundtrip:
  assumes "trim key \<noteq> []" "type \<in> {''json'', ''header''}"
  shows "parseSyncTargetSpec (buildSyncTargetSpec type key) = (type, trim key)"
  using assms by (rule sync_roundtrip)

theorem sync_target_roundtrip_witness:
  "parseSyncTargetSpec (buildSyncTargetSpec ''header'' '' x:y'') = (''header'', ''x:y'')"
proof -
  have t: "trim '' x:y'' = ''x:y''" by code_simp
  show ?thesis using sync_target_roundtrip[of "'' x:y''" "''header''"] by (simp add: t)
qed

text \<open>C37. Dropping an operation on another one permutes the list, keeps the order of all other operations, and puts the
  dragged one directly before or after the drop target.\<close>

theorem reorder_correct:
  assumes "distinct (map op_id ops)" "s \<noteq> t" "s \<in> op_id ` set ops" "t \<in> op_id ` set ops"
  shows "mset (reorderOperations ops (Some s) (Some t) pos) = mset ops \<and>
    others s (reorderOperations ops (Some s) (Some t) pos) = others s ops \<and>
    (\<exists>pre post x y. op_id x = s \<and> op_id y = t \<and> others s ops = pre @ y # post \<and>
       reorderOperations ops (Some s) (Some t) pos = pre @ (if pos = After then [y, x] else [x, y]) @ post)"
proof -
  obtain pre post x y where "others s ops = pre @ y # post" "op_id x = s" "op_id y = t"
    "reorderOperations ops (Some s) (Some t) pos = pre @ (if pos = After then [y, x] else [x, y]) @ post"
    using reorder_places[OF assms] by metis
  then show ?thesis using reorder_mset reorder_others by blast
qed

definition sample_ops :: "operation list" where
  "sample_ops = [sample_op, sample_op\<lparr>op_id := 5\<rparr>, sample_op\<lparr>op_id := 7\<rparr>]"

theorem reorder_correct_witness:
  "mset (reorderOperations sample_ops (Some 7) (Some 0) Before) = mset sample_ops"
  using reorder_correct[of sample_ops 7 0 Before] by (simp add: sample_ops_def sample_op_def)



text \<open>The path alias of the header modes is dead: although a path is meant to stand in for the missing header
  name, an operation that copies or moves a header is accepted only with both names filled in.\<close>

theorem header_alias_dead:
  assumes "op_mode x \<in> {''copy_header'', ''move_header''}" "operation_problem x = None"
  shows "trim (op_from x) \<noteq> [] \<and> trim (op_to x) \<noteq> []"
proof -
  have "m_from (mode_meta_of (op_mode x)) \<and> m_to (mode_meta_of (op_mode x)) \<and> op_mode x \<noteq> []"
    using assms(1) by (auto simp: mode_meta_of_def MODE_META_def no_meta_def)
  then show ?thesis using problem_fields[OF assms(2)] by blast
qed

theorem header_alias_dead_witness:
  "trim (op_from (sample_op\<lparr>op_mode := ''copy_header'', op_from := ''a'', op_to := ''b''\<rparr>)) \<noteq> []"
proof -
  have t: "trim ''a'' = ''a''" "trim ''b'' = ''b''" by code_simp+
  have "operation_problem (sample_op\<lparr>op_mode := ''copy_header'', op_from := ''a'', op_to := ''b''\<rparr>) = None"
    by (simp add: operation_problem_def sample_op_def mode_meta_of_def MODE_META_def no_meta_def t VALUE_REQUIRED_MODES_def)
  then show ?thesis
    using header_alias_dead[of "sample_op\<lparr>op_mode := ''copy_header'', op_from := ''a'', op_to := ''b''\<rparr>"] by simp
qed

text \<open>Opening a stored override fails (a \<open>TypeError\<close> is thrown while rendering) exactly when it is a JSON object
  whose operations contain \<open>null\<close>, or an operation whose conditions do.\<close>

theorem open_throws_iff:
  "parseInitialState text n = None \<longleftrightarrow>
     trim text \<noteq> [] \<and> (\<exists>ps items. json_parse (trim text) = Some (JObj ps) \<and> jget ''operations'' (JObj ps) = JArr items \<and>
       list_ex null_inside items)"
proof -
  have "operations_of items n = None \<longleftrightarrow> list_ex null_inside items" for items
    by (cases items) (simp_all add: operations_of_def ops_None createDefaultOperation_def del: map_ids.simps)
  moreover have "(operations_of items n = None) \<or> (\<exists>ops m. operations_of items n = Some (ops, m))" for items
    by (cases "operations_of items n") auto
  ultimately show ?thesis
    unfolding parseInitialState_def Let_def createDefaultOperation_def
    by (auto split: option.splits jsval.splits dest: sym) (metis option.distinct(1))+
qed

end
