(* ===== verification/ParamOverrideState.thy ===== *)
theory ParamOverrideState
  imports ParamOverrideFacts
begin

text \<open>
  The state of the parameter-override editor and its handlers (the component
  \<open>ParamOverrideEditorModal\<close> of web/src/components/table/channels/modals/ParamOverrideEditorModal.jsx). One field of
  \<open>po_state\<close> per \<open>useState\<close>, the module's identifier counter, the toasts shown and the texts handed to \<open>onSave\<close>. Each
  handler is a function on the state that sees the values of the render it was created in; the effects that React runs after
  it are \<open>selection_effect\<close> and \<open>preset_effect\<close>. \<open>None\<close> is an exception that leaves the handler.
\<close>

section \<open>State\<close>

datatype po_msg =
    Invalid op_error | BadJson | LegacyNotObject | NotAnObject | JsonSyntax | AppendBadJson | AppendNotObject
  | SelectRuleFirst | PlaceNotSupported | ValueNotJson | JsonFormatted

record po_state =
  localIdSeed :: nat
  editMode :: edit_mode
  visualMode :: visual_mode
  legacyValue :: string
  operations :: "operation list"
  jsonText :: string
  jsonError :: "po_msg option"
  operationSearch :: string
  selectedOperationId :: "nat option"
  expandedConditionMap :: "nat \<Rightarrow> nat list option"
  draggedOperationId :: "nat option"
  dragOverOperationId :: "nat option"
  dragOverPosition :: position
  templateGroupKey :: string
  templatePresetKey :: string
  headerValueExampleVisible :: bool
  fieldGuideVisible :: bool
  fieldGuideTarget :: string
  fieldGuideKeyword :: string
  toasts :: "po_msg list"
  saved :: "string list"

definition show_msg :: "po_msg \<Rightarrow> po_state \<Rightarrow> po_state" where
  "show_msg m s = s\<lparr>toasts := toasts s @ [m]\<rparr>"

definition first_id :: "operation list \<Rightarrow> nat option" where
  "first_id ops = (case ops of [] \<Rightarrow> None | x # _ \<Rightarrow> Some (op_id x))"

definition selectedOperation :: "po_state \<Rightarrow> operation option" where
  "selectedOperation s = (case selectedOperationId s of None \<Rightarrow> None
     | Some i \<Rightarrow> List.find (\<lambda>x. op_id x = i) (operations s))"

section \<open>Effects\<close>

text \<open>Opening the dialogue on a stored value.\<close>

definition open_effect :: "string \<Rightarrow> po_state \<Rightarrow> po_state option" where
  "open_effect value s =
     (case parseInitialState value (localIdSeed s) of
        None \<Rightarrow> None
      | Some (st, n) \<Rightarrow>
          Some (s\<lparr>localIdSeed := n, editMode := is_editMode st, visualMode := is_visualMode st,
            legacyValue := is_legacyValue st, operations := is_operations st, jsonText := is_jsonText st,
            jsonError := (if is_jsonError st then Some JsonSyntax else None),
            operationSearch := [], selectedOperationId := first_id (is_operations st),
            expandedConditionMap := (\<lambda>_. None), draggedOperationId := None, dragOverOperationId := None,
            dragOverPosition := Before, templateGroupKey := ''basic'',
            templatePresetKey := (if is_visualMode st = VLegacy then ''legacy_default'' else ''operations_default''),
            headerValueExampleVisible := False, fieldGuideVisible := False, fieldGuideTarget := ''path'',
            fieldGuideKeyword := []\<rparr>))"

definition selection_effect :: "po_state \<Rightarrow> po_state" where
  "selection_effect s =
     (if operations s = [] then s\<lparr>selectedOperationId := None\<rparr>
      else if \<not> list_ex (\<lambda>x. Some (op_id x) = selectedOperationId s) (operations s)
      then s\<lparr>selectedOperationId := first_id (operations s)\<rparr> else s)"

definition templatePresetOptions :: "po_state \<Rightarrow> string list" where
  "templatePresetOptions s = map fst (filter (\<lambda>e. p_group (snd e) = templateGroupKey s) TEMPLATE_PRESET_CONFIG)"

definition preset_effect :: "po_state \<Rightarrow> po_state" where
  "preset_effect s =
     (case templatePresetOptions s of
        [] \<Rightarrow> s
      | k # ks \<Rightarrow> if templatePresetKey s \<in> set (k # ks) then s else s\<lparr>templatePresetKey := k\<rparr>)"

definition after_effects :: "po_state \<Rightarrow> po_state" where
  "after_effects s = preset_effect (selection_effect s)"

section \<open>Derived values\<close>

definition operationCount :: "po_state \<Rightarrow> nat" where
  "operationCount s = length (filter (\<lambda>x. \<not> isOperationBlank x) (operations s))"

definition searchable_text :: "operation \<Rightarrow> string" where
  "searchable_text x = to_lower (join '' '' (filter (\<lambda>t. t \<noteq> [])
     [op_description x, op_mode x, op_path x, op_from x, op_to x, op_value_text x]))"

definition filteredOperations :: "po_state \<Rightarrow> operation list" where
  "filteredOperations s =
     (let keyword = to_lower (trim (operationSearch s)) in
      if keyword = [] then operations s
      else filter (\<lambda>x. str_includes keyword (searchable_text x)) (operations s))"

definition selectedOperationIndex :: "po_state \<Rightarrow> nat option" where
  "selectedOperationIndex s = find_index (\<lambda>x. Some (op_id x) = selectedOperationId s) (operations s)"

definition returnErrorDraft :: "po_state \<Rightarrow> error_draft option" where
  "returnErrorDraft s = (case selectedOperation s of
     Some x \<Rightarrow> if op_mode x \<noteq> ''return_error'' then None else Some (parseReturnErrorDraft (op_value_text x))
   | None \<Rightarrow> None)"

text \<open>Parsing the draft for display draws identifiers as well.\<close>

definition pruneObjectsDraft :: "po_state \<Rightarrow> (prune_draft \<times> nat) option" where
  "pruneObjectsDraft s = (case selectedOperation s of
     Some x \<Rightarrow> if op_mode x \<noteq> ''prune_objects'' then None
               else Some (parsePruneObjectsDraft (op_value_text x) (localIdSeed s))
   | None \<Rightarrow> None)"

text \<open>\<open>acc[mode] = (acc[mode] || 0) + 1\<close> over the operations, then the four most frequent modes; the sort is stable.\<close>

definition count_mode :: "(string \<times> nat) list \<Rightarrow> string \<Rightarrow> (string \<times> nat) list" where
  "count_mode acc mode = obj_set mode (case obj_get mode acc of Some n \<Rightarrow> n + 1 | None \<Rightarrow> 1) acc"

definition topOperationModes :: "po_state \<Rightarrow> (string \<times> nat) list" where
  "topOperationModes s =
     (let counts = foldl (\<lambda>acc x. count_mode acc (if op_mode x = [] then ''set'' else op_mode x)) [] (operations s)
      in take 4 (sort_key (\<lambda>e. - int (snd e)) counts))"

section \<open>Printing the visual state\<close>

definition as_plain_object :: "string \<Rightarrow> jsobj option" where
  "as_plain_object t = (case json_parse t of Some (JObj ps) \<Rightarrow> Some ps | _ \<Rightarrow> None)"

definition buildVisualJson :: "po_state \<Rightarrow> po_msg + string" where
  "buildVisualJson s =
     (if visualMode s = VLegacy then
        (let trimmed = trim (legacyValue s) in
         if trimmed = [] then Inr []
         else if \<not> verifyJSON trimmed then Inl BadJson
         else case as_plain_object trimmed of
                None \<Rightarrow> Inl LegacyNotObject
              | Some ps \<Rightarrow> Inr (json_pretty (JObj ps)))
      else (case buildOperationsJson (operations s) True of Inl e \<Rightarrow> Inl (Invalid e) | Inr t \<Rightarrow> Inr t))"

definition visualValidationError :: "po_state \<Rightarrow> po_msg option" where
  "visualValidationError s = (if editMode s \<noteq> EVisual then None
     else case buildVisualJson s of Inl e \<Rightarrow> Some e | Inr _ \<Rightarrow> None)"

text \<open>Without validation \<open>buildOperationsJson\<close> throws nothing.\<close>

definition unvalidated_json :: "operation list \<Rightarrow> string" where
  "unvalidated_json ops = (case buildOperationsJson ops False of Inr t \<Rightarrow> t | Inl _ \<Rightarrow> [])"

section \<open>Switching modes\<close>

definition switchToJsonMode :: "po_state \<Rightarrow> po_state" where
  "switchToJsonMode s =
     (if editMode s = EJson then s
      else (case buildVisualJson s of
              Inr t \<Rightarrow> s\<lparr>jsonText := t, jsonError := None, editMode := EJson\<rparr>
            | Inl e \<Rightarrow> (show_msg e s)\<lparr>
                jsonText := (if visualMode s = VLegacy then legacyValue s else unvalidated_json (operations s)),
                jsonError := Some e, editMode := EJson\<rparr>))"

definition switchToVisualMode :: "po_state \<Rightarrow> po_state option" where
  "switchToVisualMode s =
     (if editMode s = EVisual then Some s
      else
        let trimmed = trim (jsonText s); (fallback, n) = createDefaultOperation (localIdSeed s) in
        if trimmed = [] then
          Some (s\<lparr>localIdSeed := n, visualMode := VOperations, operations := [fallback],
            selectedOperationId := Some (op_id fallback), legacyValue := [], jsonError := None, editMode := EVisual\<rparr>)
        else case json_parse trimmed of
          None \<Rightarrow> Some (show_msg BadJson s)
        | Some (JObj ps) \<Rightarrow>
            (case jget ''operations'' (JObj ps) of
               JArr items \<Rightarrow>
                 (case operations_of items (localIdSeed s) of
                    None \<Rightarrow> None
                  | Some (ops, n2) \<Rightarrow>
                      Some (s\<lparr>localIdSeed := n2, visualMode := VOperations, operations := ops,
                        selectedOperationId := first_id ops, legacyValue := [], jsonError := None, editMode := EVisual,
                        templateGroupKey := ''basic'', templatePresetKey := ''operations_default''\<rparr>))
             | _ \<Rightarrow>
                 Some (s\<lparr>localIdSeed := n, visualMode := VLegacy, legacyValue := json_pretty (JObj ps),
                   operations := [fallback], selectedOperationId := Some (op_id fallback), jsonError := None,
                   editMode := EVisual, templateGroupKey := ''basic'', templatePresetKey := ''legacy_default''\<rparr>))
        | Some _ \<Rightarrow> Some (show_msg NotAnObject s))"

section \<open>Templates\<close>

definition fillLegacyTemplate :: "jsval \<Rightarrow> po_state \<Rightarrow> po_state" where
  "fillLegacyTemplate payload s =
     (let text = json_pretty payload; (fallback, n) = createDefaultOperation (localIdSeed s)
      in s\<lparr>localIdSeed := n, visualMode := VLegacy, legacyValue := text, operations := [fallback],
           selectedOperationId := Some (op_id fallback), expandedConditionMap := (\<lambda>_. None), jsonText := text,
           jsonError := None, editMode := EVisual\<rparr>)"

definition fillOperationsTemplate :: "jsval list \<Rightarrow> po_state \<Rightarrow> po_state option" where
  "fillOperationsTemplate payload s =
     (case operations_of payload (localIdSeed s) of
        None \<Rightarrow> None
      | Some (ops, n) \<Rightarrow>
          Some (s\<lparr>localIdSeed := n, visualMode := VOperations, operations := ops, selectedOperationId := first_id ops,
            expandedConditionMap := (\<lambda>_. None), jsonText := json_pretty (JObj [(''operations'', JArr payload)]),
            jsonError := None, editMode := EVisual\<rparr>))"

definition appendLegacyTemplate :: "jsobj \<Rightarrow> po_state \<Rightarrow> po_state" where
  "appendLegacyTemplate payload s =
     (let trimmed = trim (legacyValue s);
          current = (if visualMode s = VLegacy \<and> trimmed \<noteq> [] then
                       (if \<not> verifyJSON trimmed then Inl AppendBadJson
                        else case as_plain_object trimmed of None \<Rightarrow> Inl AppendNotObject | Some ps \<Rightarrow> Inr ps)
                     else Inr [])
      in case current of
           Inl m \<Rightarrow> show_msg m s
         | Inr ps \<Rightarrow>
             (let text = json_pretty (JObj (obj_spread payload ps));
                  (fallback, n) = createDefaultOperation (localIdSeed s)
              in s\<lparr>localIdSeed := n, visualMode := VLegacy, legacyValue := text, operations := [fallback],
                   selectedOperationId := Some (op_id fallback), expandedConditionMap := (\<lambda>_. None),
                   jsonText := text, jsonError := None, editMode := EVisual\<rparr>))"

definition appendOperationsTemplate :: "jsval list \<Rightarrow> po_state \<Rightarrow> po_state option" where
  "appendOperationsTemplate payload s =
     (case map_ids normalizeOperation payload (localIdSeed s) of
        None \<Rightarrow> None
      | Some (appended, n) \<Rightarrow>
          (let existing = (if visualMode s = VOperations then filter (\<lambda>x. \<not> isOperationBlank x) (operations s) else []);
               nxt = existing @ appended
           in Some (s\<lparr>localIdSeed := n, visualMode := VOperations, operations := nxt,
                selectedOperationId := first_id nxt, expandedConditionMap := (\<lambda>_. None), legacyValue := [],
                jsonError := None, editMode := EVisual, jsonText := []\<rparr>)))"

definition clearValue :: "po_state \<Rightarrow> po_state" where
  "clearValue s =
     (let (fallback, n) = createDefaultOperation (localIdSeed s)
      in s\<lparr>localIdSeed := n, visualMode := VOperations, legacyValue := [], operations := [fallback],
           selectedOperationId := Some (op_id fallback), expandedConditionMap := (\<lambda>_. None), jsonText := [],
           jsonError := None, templateGroupKey := ''basic'', templatePresetKey := ''operations_default''\<rparr>)"

definition getSelectedTemplatePreset :: "po_state \<Rightarrow> preset" where
  "getSelectedTemplatePreset s =
     (case map_of TEMPLATE_PRESET_CONFIG (templatePresetKey s) of
        Some p \<Rightarrow> p
      | None \<Rightarrow> \<lparr>p_group = ''basic'', p_kind = ''operations'', p_payload = OPERATION_TEMPLATE\<rparr>)"

definition preset_operations :: "preset \<Rightarrow> jsval list" where
  "preset_operations p = (case jget ''operations'' (p_payload p) of JArr items \<Rightarrow> items | _ \<Rightarrow> [])"

definition fillTemplateFromLibrary :: "po_state \<Rightarrow> po_state option" where
  "fillTemplateFromLibrary s =
     (let preset = getSelectedTemplatePreset s in
      if p_kind preset = ''legacy'' then Some (fillLegacyTemplate (p_payload preset) s)
      else fillOperationsTemplate (preset_operations preset) s)"

definition appendTemplateFromLibrary :: "po_state \<Rightarrow> po_state option" where
  "appendTemplateFromLibrary s =
     (let preset = getSelectedTemplatePreset s in
      if p_kind preset = ''legacy''
      then Some (appendLegacyTemplate (case p_payload preset of JObj ps \<Rightarrow> ps | _ \<Rightarrow> []) s)
      else appendOperationsTemplate (preset_operations preset) s)"

definition resetEditorState :: "po_state \<Rightarrow> po_state" where
  "resetEditorState s = (clearValue s)\<lparr>editMode := EVisual\<rparr>"

section \<open>Editing operations\<close>

text \<open>The patches the form passes: \<open>{ ...item, ...patch }\<close>.\<close>

datatype op_field =
    FDescription string | FPath string | FMode string | FValueText string | FKeepOrigin bool
  | FFrom string | FTo string | FLogic string

fun set_op_field :: "op_field \<Rightarrow> operation \<Rightarrow> operation" where
  "set_op_field (FDescription v) x = x\<lparr>op_description := v\<rparr>"
| "set_op_field (FPath v) x = x\<lparr>op_path := v\<rparr>"
| "set_op_field (FMode v) x = x\<lparr>op_mode := v\<rparr>"
| "set_op_field (FValueText v) x = x\<lparr>op_value_text := v\<rparr>"
| "set_op_field (FKeepOrigin v) x = x\<lparr>op_keep_origin := v\<rparr>"
| "set_op_field (FFrom v) x = x\<lparr>op_from := v\<rparr>"
| "set_op_field (FTo v) x = x\<lparr>op_to := v\<rparr>"
| "set_op_field (FLogic v) x = x\<lparr>op_logic := v\<rparr>"

definition updateOperation :: "nat \<Rightarrow> op_field list \<Rightarrow> po_state \<Rightarrow> po_state" where
  "updateOperation i patch s = s\<lparr>operations := upd_by op_id i (fold set_op_field patch) (operations s)\<rparr>"

definition applyBuiltinField :: "string \<Rightarrow> string \<Rightarrow> po_state \<Rightarrow> po_state" where
  "applyBuiltinField fieldKey target s =
     (case selectedOperation s of
        None \<Rightarrow> show_msg SelectRuleFirst s
      | Some x \<Rightarrow>
          (let mode = (if op_mode x = [] then ''set'' else op_mode x); meta = mode_meta_of mode;
               spec = (if mode = ''sync_fields'' then buildSyncTargetSpec ''json'' fieldKey else fieldKey)
           in if target = ''path'' \<and> (m_path meta \<or> m_pathOptional meta \<or> m_pathAlias meta)
              then updateOperation (op_id x) [FPath fieldKey] s
              else if target = ''from'' \<and> (m_from meta \<or> m_pathAlias meta \<or> mode = ''sync_fields'')
              then updateOperation (op_id x) [FFrom spec] s
              else if target = ''to'' \<and> (m_to meta \<or> mode = ''sync_fields'')
              then updateOperation (op_id x) [FTo spec] s
              else show_msg PlaceNotSupported s))"

definition openFieldGuide :: "string \<Rightarrow> po_state \<Rightarrow> po_state" where
  "openFieldGuide target s = s\<lparr>fieldGuideTarget := target, fieldGuideVisible := True\<rparr>"

definition formatSelectedOperationValueAsJson :: "po_state \<Rightarrow> po_state" where
  "formatSelectedOperationValueAsJson s =
     (case selectedOperation s of
        None \<Rightarrow> s
      | Some x \<Rightarrow>
          (let raw = trim (op_value_text x) in
           if raw = [] then s
           else case json_parse raw of
                  None \<Rightarrow> show_msg ValueNotJson s
                | Some v \<Rightarrow> show_msg JsonFormatted (updateOperation (op_id x) [FValueText (json_pretty v)] s)))"

definition find_op :: "nat \<Rightarrow> po_state \<Rightarrow> operation option" where
  "find_op i s = List.find (\<lambda>x. op_id x = i) (operations s)"

datatype error_field =
    EMessage string | EStatus jsval | ECode string | EType string | ESkipRetry bool | ESimple bool

fun set_error_field :: "error_field \<Rightarrow> error_draft \<Rightarrow> error_draft" where
  "set_error_field (EMessage v) d = d\<lparr>ed_message := v\<rparr>"
| "set_error_field (EStatus v) d = d\<lparr>ed_statusCode := v\<rparr>"
| "set_error_field (ECode v) d = d\<lparr>ed_code := v\<rparr>"
| "set_error_field (EType v) d = d\<lparr>ed_type := v\<rparr>"
| "set_error_field (ESkipRetry v) d = d\<lparr>ed_skipRetry := v\<rparr>"
| "set_error_field (ESimple v) d = d\<lparr>ed_simpleMode := v\<rparr>"

definition updateReturnErrorDraft :: "nat \<Rightarrow> error_field list \<Rightarrow> po_state \<Rightarrow> po_state" where
  "updateReturnErrorDraft i patch s =
     (case find_op i s of
        None \<Rightarrow> s
      | Some current \<Rightarrow>
          updateOperation i [FValueText (buildReturnErrorValueText
            (fold set_error_field patch (parseReturnErrorDraft (op_value_text current))))] s)"

text \<open>The updater draws identifiers too.\<close>

definition updatePruneObjectsDraft :: "nat \<Rightarrow> (prune_draft \<Rightarrow> nat \<Rightarrow> prune_draft \<times> nat) \<Rightarrow> po_state \<Rightarrow> po_state" where
  "updatePruneObjectsDraft i updater s =
     (case find_op i s of
        None \<Rightarrow> s
      | Some current \<Rightarrow>
          (let (draft, n1) = parsePruneObjectsDraft (op_value_text current) (localIdSeed s);
               (nextDraft, n2) = updater draft n1
           in updateOperation i [FValueText (buildPruneObjectsValueText nextDraft)] (s\<lparr>localIdSeed := n2\<rparr>)))"

datatype prune_field = PSimple bool | PType string | PLogic string | PRecursive bool

fun set_prune_field :: "prune_field \<Rightarrow> prune_draft \<Rightarrow> prune_draft" where
  "set_prune_field (PSimple v) d = d\<lparr>pd_simpleMode := v\<rparr>"
| "set_prune_field (PType v) d = d\<lparr>pd_typeText := v\<rparr>"
| "set_prune_field (PLogic v) d = d\<lparr>pd_logic := v\<rparr>"
| "set_prune_field (PRecursive v) d = d\<lparr>pd_recursive := v\<rparr>"

definition prune_patch :: "prune_field list \<Rightarrow> prune_draft \<Rightarrow> nat \<Rightarrow> prune_draft \<times> nat" where
  "prune_patch patch d n = (fold set_prune_field patch d, n)"

definition addPruneRule :: "nat \<Rightarrow> po_state \<Rightarrow> po_state" where
  "addPruneRule i s = updatePruneObjectsDraft i (\<lambda>draft n.
     let (rule, n') = normalizePruneRule (JObj []) n
     in (draft\<lparr>pd_simpleMode := False, pd_rules := pd_rules draft @ [rule]\<rparr>, n')) s"

datatype cond_field = CPath string | CMode string | CValueText string | CInvert bool | CPassMissing bool

fun set_cond_field :: "cond_field \<Rightarrow> op_cond \<Rightarrow> op_cond" where
  "set_cond_field (CPath v) c = c\<lparr>oc_path := v\<rparr>"
| "set_cond_field (CMode v) c = c\<lparr>oc_mode := v\<rparr>"
| "set_cond_field (CValueText v) c = c\<lparr>oc_value_text := v\<rparr>"
| "set_cond_field (CInvert v) c = c\<lparr>oc_invert := v\<rparr>"
| "set_cond_field (CPassMissing v) c = c\<lparr>oc_pass_missing_key := v\<rparr>"

definition updatePruneRule :: "nat \<Rightarrow> nat \<Rightarrow> cond_field list \<Rightarrow> po_state \<Rightarrow> po_state" where
  "updatePruneRule i ruleId patch s = updatePruneObjectsDraft i (\<lambda>draft n.
     (draft\<lparr>pd_rules := upd_by oc_id ruleId (fold set_cond_field patch) (pd_rules draft)\<rparr>, n)) s"

definition removePruneRule :: "nat \<Rightarrow> nat \<Rightarrow> po_state \<Rightarrow> po_state" where
  "removePruneRule i ruleId s = updatePruneObjectsDraft i (\<lambda>draft n.
     (draft\<lparr>pd_rules := del_by oc_id ruleId (pd_rules draft)\<rparr>, n)) s"

section \<open>The list of operations\<close>

definition addOperation :: "po_state \<Rightarrow> po_state" where
  "addOperation s =
     (let (created, n) = createDefaultOperation (localIdSeed s)
      in s\<lparr>localIdSeed := n, operations := operations s @ [created], selectedOperationId := Some (op_id created)\<rparr>)"

definition resetOperationDragState :: "po_state \<Rightarrow> po_state" where
  "resetOperationDragState s = s\<lparr>draggedOperationId := None, dragOverOperationId := None, dragOverPosition := Before\<rparr>"

definition moveOperation :: "nat option \<Rightarrow> nat option \<Rightarrow> position \<Rightarrow> po_state \<Rightarrow> po_state" where
  "moveOperation sourceId targetId pos s =
     (if sourceId = None \<or> targetId = None \<or> sourceId = targetId then s
      else s\<lparr>operations := reorderOperations (operations s) sourceId targetId pos, selectedOperationId := sourceId\<rparr>)"

definition handleOperationDragStart :: "nat \<Rightarrow> po_state \<Rightarrow> po_state" where
  "handleOperationDragStart i s = s\<lparr>draggedOperationId := Some i, selectedOperationId := Some i\<rparr>"

text \<open>\<open>pos\<close> is \<open>After\<close> when the pointer is in the lower half of the row.\<close>

definition handleOperationDragOver :: "nat \<Rightarrow> position \<Rightarrow> po_state \<Rightarrow> po_state" where
  "handleOperationDragOver i pos s =
     (if draggedOperationId s = None \<or> draggedOperationId s = Some i then s
      else s\<lparr>dragOverOperationId := Some i, dragOverPosition := pos\<rparr>)"

text \<open>\<open>transfer\<close> is what \<open>dataTransfer.getData\<close> gives.\<close>

definition handleOperationDrop :: "nat option \<Rightarrow> nat \<Rightarrow> po_state \<Rightarrow> po_state" where
  "handleOperationDrop transfer i s =
     (let sourceId = (case draggedOperationId s of Some d \<Rightarrow> Some d | None \<Rightarrow> transfer);
          pos = (if dragOverOperationId s = Some i then dragOverPosition s else Before)
      in resetOperationDragState (moveOperation sourceId (Some i) pos s))"

definition clone_source :: "operation \<Rightarrow> jsval" where
  "clone_source x = JObj [(''description'', JStr (op_description x)), (''path'', JStr (op_path x)),
     (''mode'', JStr (op_mode x)), (''value'', parseLooseValue (op_value_text x)),
     (''keep_origin'', JBool (op_keep_origin x)), (''from'', JStr (op_from x)), (''to'', JStr (op_to x)),
     (''logic'', JStr (op_logic x)),
     (''conditions'', JArr (map (\<lambda>c. JObj [(''path'', JStr (oc_path c)), (''mode'', JStr (oc_mode c)),
        (''value'', parseLooseValue (oc_value_text c)), (''invert'', JBool (oc_invert c)),
        (''pass_missing_key'', JBool (oc_pass_missing_key c))]) (op_conditions x)))]"

text \<open>\<open>eager\<close>: whether React has run the updater before \<open>insertedId\<close> is tested.\<close>

definition duplicateOperation :: "bool \<Rightarrow> nat \<Rightarrow> po_state \<Rightarrow> po_state option" where
  "duplicateOperation eager i s =
     (case find_index (\<lambda>x. op_id x = i) (operations s) of
        None \<Rightarrow> Some s
      | Some index \<Rightarrow>
          (case normalizeOperation (clone_source (operations s ! index)) (localIdSeed s) of
             None \<Rightarrow> None
           | Some (cloned, n) \<Rightarrow>
               Some (s\<lparr>localIdSeed := n, operations := insert_at (index + 1) cloned (operations s),
                 selectedOperationId := (if eager then Some (op_id cloned) else selectedOperationId s)\<rparr>)))"

definition removeOperation :: "nat \<Rightarrow> po_state \<Rightarrow> po_state" where
  "removeOperation i s =
     (let (created, n) = createDefaultOperation (localIdSeed s);
          s1 = (if length (operations s) \<le> 1 then s\<lparr>localIdSeed := n, operations := [created]\<rparr>
                else s\<lparr>operations := del_by op_id i (operations s)\<rparr>)
      in s1\<lparr>expandedConditionMap := (expandedConditionMap s)(i := None)\<rparr>)"

section \<open>Conditions\<close>

definition expanded :: "po_state \<Rightarrow> nat \<Rightarrow> nat list" where
  "expanded s i = (case expandedConditionMap s i of Some ks \<Rightarrow> ks | None \<Rightarrow> [])"

definition addCondition :: "nat \<Rightarrow> po_state \<Rightarrow> po_state" where
  "addCondition i s =
     (let (c, n) = createDefaultCondition (localIdSeed s)
      in s\<lparr>localIdSeed := n,
           operations := upd_by op_id i (\<lambda>x. x\<lparr>op_conditions := op_conditions x @ [c]\<rparr>) (operations s),
           expandedConditionMap := (expandedConditionMap s)(i := Some (expanded s i @ [oc_id c]))\<rparr>)"

definition updateCondition :: "nat \<Rightarrow> nat \<Rightarrow> cond_field list \<Rightarrow> po_state \<Rightarrow> po_state" where
  "updateCondition i j patch s = s\<lparr>operations :=
     upd_by op_id i (\<lambda>x. x\<lparr>op_conditions := upd_by oc_id j (fold set_cond_field patch) (op_conditions x)\<rparr>) (operations s)\<rparr>"

definition removeCondition :: "nat \<Rightarrow> nat \<Rightarrow> po_state \<Rightarrow> po_state" where
  "removeCondition i j s = s\<lparr>operations :=
       upd_by op_id i (\<lambda>x. x\<lparr>op_conditions := del_by oc_id j (op_conditions x)\<rparr>) (operations s),
     expandedConditionMap := (expandedConditionMap s)(i := Some (filter (\<lambda>k. k \<noteq> j) (expanded s i)))\<rparr>"

definition selectedConditionKeys :: "po_state \<Rightarrow> nat list" where
  "selectedConditionKeys s = (case selectedOperationId s of None \<Rightarrow> [] | Some i \<Rightarrow> expanded s i)"

definition handleConditionCollapseChange :: "nat \<Rightarrow> nat list \<Rightarrow> po_state \<Rightarrow> po_state" where
  "handleConditionCollapseChange i keys s = s\<lparr>expandedConditionMap := (expandedConditionMap s)(i := Some keys)\<rparr>"

definition expandAllSelectedConditions :: "po_state \<Rightarrow> po_state" where
  "expandAllSelectedConditions s =
     (case (selectedOperationId s, selectedOperation s) of
        (Some i, Some x) \<Rightarrow> s\<lparr>expandedConditionMap := (expandedConditionMap s)(i := Some (map oc_id (op_conditions x)))\<rparr>
      | _ \<Rightarrow> s)"

definition collapseAllSelectedConditions :: "po_state \<Rightarrow> po_state" where
  "collapseAllSelectedConditions s =
     (case selectedOperationId s of None \<Rightarrow> s
      | Some i \<Rightarrow> s\<lparr>expandedConditionMap := (expandedConditionMap s)(i := Some [])\<rparr>)"

section \<open>The JSON text and saving\<close>

definition handleJsonChange :: "string \<Rightarrow> po_state \<Rightarrow> po_state" where
  "handleJsonChange t s =
     (let trimmed = trim t in
      s\<lparr>jsonText := t, jsonError := (if trimmed = [] then None else if \<not> verifyJSON trimmed then Some JsonSyntax else None)\<rparr>)"

definition formatJson :: "po_state \<Rightarrow> po_state" where
  "formatJson s =
     (let trimmed = trim (jsonText s) in
      if trimmed = [] then s
      else case json_parse trimmed of
             None \<Rightarrow> show_msg BadJson s
           | Some v \<Rightarrow> s\<lparr>jsonText := json_pretty v, jsonError := None\<rparr>)"

definition save_result :: "po_state \<Rightarrow> po_msg + string" where
  "save_result s =
     (if editMode s = EJson then
        (let trimmed = trim (jsonText s) in
         if trimmed = [] then Inr []
         else case json_parse trimmed of None \<Rightarrow> Inl BadJson | Some v \<Rightarrow> Inr (json_pretty v))
      else buildVisualJson s)"

definition handleSave :: "po_state \<Rightarrow> po_state" where
  "handleSave s = (case save_result s of Inl e \<Rightarrow> show_msg e s | Inr t \<Rightarrow> s\<lparr>saved := saved s @ [t]\<rparr>)"

end
