(* ===== verification/ParamOverrideInv.thy ===== *)
theory ParamOverrideInv
  imports ParamOverrideState
begin

text \<open>
  The parameter-override editor as a transition system: one step per handler of
  \<open>ParamOverrideEditorModal.jsx\<close>, followed by the effects React runs. In every reachable state the
  identifiers are unique and were drawn from the counter, the modes are known ones, there is an operation, and the
  selection is one of the operations.
\<close>

section \<open>Well-formed operations\<close>

definition cond_wf :: "nat \<Rightarrow> op_cond \<Rightarrow> bool" where
  "cond_wf n c \<longleftrightarrow> oc_id c < n \<and> oc_mode c \<in> set CONDITION_MODE_VALUES"

definition op_wf :: "nat \<Rightarrow> operation \<Rightarrow> bool" where
  "op_wf n x \<longleftrightarrow> op_id x < n \<and> op_mode x \<in> set OPERATION_MODE_VALUES \<and> op_logic x \<in> {''AND'', ''OR''} \<and>
     distinct (map oc_id (op_conditions x)) \<and> list_all (cond_wf n) (op_conditions x)"

definition ops_wf :: "nat \<Rightarrow> operation list \<Rightarrow> bool" where
  "ops_wf n ops \<longleftrightarrow> distinct (map op_id ops) \<and> list_all (op_wf n) ops"

lemma cond_wf_mono: "cond_wf n c \<Longrightarrow> n \<le> m \<Longrightarrow> cond_wf m c"
  by (simp add: cond_wf_def)

lemma op_wf_mono: "op_wf n x \<Longrightarrow> n \<le> m \<Longrightarrow> op_wf m x"
  by (auto simp: op_wf_def list_all_iff intro: cond_wf_mono)

lemma ops_wf_mono: "ops_wf n ops \<Longrightarrow> n \<le> m \<Longrightarrow> ops_wf m ops"
  by (auto simp: ops_wf_def list_all_iff intro: op_wf_mono)

lemma mode_prop_in: "d \<in> set modes \<Longrightarrow> mode_prop modes d v \<in> set modes"
  by (auto simp: mode_prop_def split: jsval.splits)

lemma default_modes: "''full'' \<in> set CONDITION_MODE_VALUES" "''set'' \<in> set OPERATION_MODE_VALUES"
  by (simp_all add: CONDITION_MODE_VALUES_def OPERATION_MODE_VALUES_def)

lemma cond_of_wf: "cond_wf (Suc n) (cond_of v n)"
  unfolding cond_wf_def cond_of_def using mode_prop_in[OF default_modes(1)] by simp

text \<open>Drawing a list of identifiers: they are distinct and lie between the old and the new counter.\<close>

lemma conds_fresh:
  "map_ids normalizeCondition vs n = Some (cs, m) \<Longrightarrow>
   n \<le> m \<and> distinct (map oc_id cs) \<and> list_all (cond_wf m) cs \<and> (\<forall>c \<in> set cs. n \<le> oc_id c)"
proof (induction vs arbitrary: n cs)
  case (Cons v vs)
  then obtain ds where ds: "map_ids normalizeCondition vs (Suc n) = Some (ds, m)" "cs = cond_of v n # ds"
    by (auto simp: normalizeCondition_def[of v n] split: if_splits option.splits)
  have ih: "Suc n \<le> m" "distinct (map oc_id ds)" "list_all (cond_wf m) ds" "\<forall>c \<in> set ds. Suc n \<le> oc_id c"
    using Cons.IH[OF ds(1)] by auto
  have "oc_id (cond_of v n) = n" by (simp add: cond_of_def)
  moreover have "cond_wf m (cond_of v n)" using cond_wf_mono[OF cond_of_wf] ih(1) by blast
  moreover have "n \<notin> oc_id ` set ds" using ih(4) by force
  ultimately show ?case using ih ds(2) by auto
qed simp

lemma op_fresh:
  assumes "normalizeOperation v n = Some (x, m)"
  shows "op_id x = n \<and> n < m \<and> op_wf m x"
proof -
  obtain cs where cs: "Suc n \<le> m \<and> distinct (map oc_id cs) \<and> list_all (cond_wf m) cs" "op_conditions x = cs"
      "op_id x = n" "op_mode x = mode_prop OPERATION_MODE_VALUES ''set'' v" "op_logic x \<in> {''AND'', ''OR''}"
  proof (cases "jget ''conditions'' v")
    case (JArr items)
    then show ?thesis using assms that conds_fresh[of items "Suc n"]
      by (auto simp: normalizeOperation_def split: if_splits option.splits)
  qed (use assms that in \<open>auto simp: normalizeOperation_def split: if_splits\<close>)
  then show ?thesis using mode_prop_in[OF default_modes(2), of v] by (simp add: op_wf_def)
qed

lemma ops_fresh:
  "map_ids normalizeOperation vs n = Some (ops, m) \<Longrightarrow>
   n \<le> m \<and> ops_wf m ops \<and> (\<forall>x \<in> set ops. n \<le> op_id x) \<and> length ops = length vs"
proof (induction vs arbitrary: n ops)
  case (Cons v vs)
  then obtain x k ys where x: "normalizeOperation v n = Some (x, k)" "map_ids normalizeOperation vs k = Some (ys, m)"
      "ops = x # ys" by (auto split: option.splits)
  note f = op_fresh[OF x(1)]
  have ih: "k \<le> m" "ops_wf m ys" "\<forall>y \<in> set ys. k \<le> op_id y" "length ys = length vs" using Cons.IH[OF x(2)] by auto
  have "op_id x \<notin> op_id ` set ys" using ih(3) f by force
  moreover have "op_wf m x" using f ih(1) op_wf_mono by blast
  ultimately show ?case using ih f x(3) by (auto simp: ops_wf_def)
qed (simp add: ops_wf_def)

lemma default_wf: "createDefaultOperation n = (x, m) \<Longrightarrow> op_id x = n \<and> m = Suc n \<and> op_wf m x"
  using default_modes(2) by (auto simp: createDefaultOperation_def op_wf_def)

lemma operations_of_wf:
  assumes "operations_of vs n = Some (ops, m)"
  shows "n \<le> m \<and> ops_wf m ops \<and> ops \<noteq> []"
proof (cases "vs = []")
  case True
  then obtain d where d: "createDefaultOperation n = (d, m)" "ops = [d]"
    using assms by (auto simp: operations_of_def split: prod.splits)
  then show ?thesis using default_wf[OF d(1)] by (auto simp: ops_wf_def)
next
  case False
  then show ?thesis using assms ops_fresh[of vs n ops m] by (auto simp: operations_of_def)
qed

lemma initial_wf:
  assumes "parseInitialState t n = Some (st, m)"
  shows "n \<le> m \<and> ops_wf m (is_operations st) \<and> is_operations st \<noteq> []"
proof -
  obtain d where d: "createDefaultOperation n = (d, Suc n)" "op_wf (Suc n) d"
    using default_wf[of n] by (cases "createDefaultOperation n") auto
  then have dw: "ops_wf (Suc n) [d]" by (simp add: ops_wf_def)
  show ?thesis using assms dw operations_of_wf d(1)
    by (auto simp: parseInitialState_def Let_def split: if_splits option.splits jsval.splits prod.splits)
qed

text \<open>Updating one operation.\<close>

lemma upd_wf:
  assumes "ops_wf n ops" "\<And>x. x \<in> set ops \<Longrightarrow> op_wf n x \<Longrightarrow> op_id (f x) = op_id x \<and> op_wf n (f x)"
  shows "ops_wf n (upd_by op_id i f ops)"
proof -
  have "map op_id (upd_by op_id i f ops) = map op_id ops"
    using assms by (auto simp: upd_by_def ops_wf_def list_all_iff)
  moreover have "list_all (op_wf n) (upd_by op_id i f ops)"
    using assms by (auto simp: upd_by_def ops_wf_def list_all_iff)
  ultimately show ?thesis using assms(1) by (simp add: ops_wf_def)
qed

lemma del_wf: "ops_wf n ops \<Longrightarrow> ops_wf n (del_by op_id i ops)"
  using distinct_del_by[of op_id ops i] by (auto simp: ops_wf_def del_by_def list_all_iff)

lemma append_wf:
  "ops_wf n ops \<Longrightarrow> ops_wf n ys \<Longrightarrow> (\<And>x y. x \<in> set ops \<Longrightarrow> y \<in> set ys \<Longrightarrow> op_id x \<noteq> op_id y) \<Longrightarrow> ops_wf n (ops @ ys)"
  by (auto simp: ops_wf_def)

lemma filter_wf: "ops_wf n ops \<Longrightarrow> ops_wf n (filter P ops)"
  by (auto simp: ops_wf_def list_all_iff distinct_map_filter)

lemma mset_wf: "ops_wf n ops \<Longrightarrow> mset ys = mset ops \<Longrightarrow> ops_wf n ys"
proof -
  assume w: "ops_wf n ops" and m: "mset ys = mset ops"
  have "mset (map op_id ys) = mset (map op_id ops)" using m by simp
  then have "distinct (map op_id ys)" using w unfolding ops_wf_def by (metis mset_eq_imp_distinct_iff)
  moreover have "set ys = set ops" using m by (rule mset_eq_setD)
  ultimately show ?thesis using w by (simp add: ops_wf_def list_all_iff)
qed

lemma insert_at_wf:
  assumes "ops_wf n ops" "op_wf n x" "op_id x \<notin> op_id ` set ops"
  shows "ops_wf n (insert_at i x ops)"
proof -
  have "ops_wf n (x # ops)" using assms by (simp add: ops_wf_def)
  then show ?thesis by (rule mset_wf) simp
qed


section \<open>The invariant\<close>

text \<open>\<open>core\<close> is what every handler keeps; the effects add the selection and the preset.\<close>

definition core :: "po_state \<Rightarrow> bool" where
  "core s \<longleftrightarrow> ops_wf (localIdSeed s) (operations s) \<and> operations s \<noteq> []"

definition selection_ok :: "po_state \<Rightarrow> bool" where
  "selection_ok s \<longleftrightarrow> (\<exists>x. selectedOperation s = Some x)"

definition preset_ok :: "po_state \<Rightarrow> bool" where
  "preset_ok s \<longleftrightarrow> templatePresetOptions s \<noteq> [] \<longrightarrow> templatePresetKey s \<in> set (templatePresetOptions s)"

definition po_inv :: "po_state \<Rightarrow> bool" where
  "po_inv s \<longleftrightarrow> core s \<and> selection_ok s \<and> preset_ok s"

lemma coreI: "n \<le> localIdSeed s \<Longrightarrow> ops_wf n (operations s) \<Longrightarrow> operations s \<noteq> [] \<Longrightarrow> core s"
  by (simp add: core_def ops_wf_mono)

lemma core_default: "createDefaultOperation n = (d, m) \<Longrightarrow> localIdSeed s = m \<Longrightarrow> operations s = [d] \<Longrightarrow> core s"
  using default_wf[of n d m] by (auto simp: core_def ops_wf_def)

lemma core_show_msg [simp]: "core (show_msg m s) = core s"
  by (simp add: core_def show_msg_def)

lemma find_ex_iff: "(\<exists>x. List.find P xs = Some x) \<longleftrightarrow> list_ex P xs"
  by (induction xs) auto

lemma selection_effect_ok: "operations s \<noteq> [] \<Longrightarrow> selection_ok (selection_effect s)"
proof -
  assume ne: "operations s \<noteq> []"
  have "selection_ok t \<longleftrightarrow> list_ex (\<lambda>x. Some (op_id x) = selectedOperationId t) (operations t)" for t
    unfolding selection_ok_def selectedOperation_def
    by (cases "selectedOperationId t") (auto simp: find_ex_iff list_ex_iff)
  then show ?thesis using ne by (cases "operations s") (auto simp: selection_effect_def first_id_def)
qed

lemma effects_ops [simp]:
  "operations (selection_effect s) = operations s" "localIdSeed (selection_effect s) = localIdSeed s"
  "operations (preset_effect s) = operations s" "localIdSeed (preset_effect s) = localIdSeed s"
  "selectedOperationId (preset_effect s) = selectedOperationId s"
  by (simp_all add: selection_effect_def preset_effect_def split: list.splits)

lemma preset_effect_ok: "preset_ok (preset_effect s)"
proof (cases "templatePresetOptions s")
  case (Cons k ks)
  have "templatePresetOptions (s\<lparr>templatePresetKey := j\<rparr>) = templatePresetOptions s" for j
    by (simp add: templatePresetOptions_def)
  then show ?thesis using Cons by (auto simp: preset_effect_def preset_ok_def)
qed (simp add: preset_effect_def preset_ok_def)

lemma selected_preset_effect: "selectedOperation (preset_effect s) = selectedOperation s"
  unfolding selectedOperation_def effects_ops ..

lemma after_effects_inv: "core s \<Longrightarrow> po_inv (after_effects s)"
proof -
  assume c: "core s"
  have "selection_ok (preset_effect (selection_effect s))"
    using selection_effect_ok[of s] c by (simp add: core_def selection_ok_def selected_preset_effect)
  then show ?thesis using c preset_effect_ok by (simp add: po_inv_def after_effects_def core_def)
qed

section \<open>Handlers keep the core\<close>

lemma fold_op_fields:
  assumes "op_wf n x" "list_all (\<lambda>f. case f of FMode m \<Rightarrow> m \<in> set OPERATION_MODE_VALUES | FLogic l \<Rightarrow> l \<in> {''AND'', ''OR''} | _ \<Rightarrow> True) fs"
  shows "op_id (fold set_op_field fs x) = op_id x \<and> op_wf n (fold set_op_field fs x)"
  using assms
proof (induction fs arbitrary: x)
  case (Cons f fs)
  have "op_wf n (set_op_field f x) \<and> op_id (set_op_field f x) = op_id x"
    using Cons.prems by (cases f) (auto simp: op_wf_def)
  then show ?case using Cons by simp
qed simp

definition op_fields_ok :: "op_field list \<Rightarrow> bool" where
  "op_fields_ok fs \<longleftrightarrow> list_all (\<lambda>f. case f of FMode m \<Rightarrow> m \<in> set OPERATION_MODE_VALUES | FLogic l \<Rightarrow> l \<in> {''AND'', ''OR''} | _ \<Rightarrow> True) fs"

definition cond_fields_ok :: "cond_field list \<Rightarrow> bool" where
  "cond_fields_ok fs \<longleftrightarrow> list_all (\<lambda>f. case f of CMode m \<Rightarrow> m \<in> set CONDITION_MODE_VALUES | _ \<Rightarrow> True) fs"

lemma fold_cond_fields:
  assumes "cond_wf n c" "cond_fields_ok fs"
  shows "oc_id (fold set_cond_field fs c) = oc_id c \<and> cond_wf n (fold set_cond_field fs c)"
  using assms
proof (induction fs arbitrary: c)
  case (Cons f fs)
  have "cond_wf n (set_cond_field f c) \<and> oc_id (set_cond_field f c) = oc_id c"
    using Cons.prems by (cases f) (auto simp: cond_wf_def cond_fields_ok_def)
  then show ?case using Cons by (simp add: cond_fields_ok_def)
qed simp

lemma upd_by_Nil [simp]: "upd_by key k f xs = [] \<longleftrightarrow> xs = []"
  by (simp add: upd_by_def)

lemma core_updateOperation: "core s \<Longrightarrow> op_fields_ok fs \<Longrightarrow> core (updateOperation i fs s)"
  using fold_op_fields[of _ _ fs] by (auto simp: core_def updateOperation_def op_fields_ok_def intro!: upd_wf)

lemma core_seed: "core s \<Longrightarrow> localIdSeed s \<le> n \<Longrightarrow> core (s\<lparr>localIdSeed := n\<rparr>)"
  by (auto simp: core_def intro: ops_wf_mono)

lemma core_applyBuiltinField: "core s \<Longrightarrow> core (applyBuiltinField k t s)"
  by (auto simp: applyBuiltinField_def Let_def op_fields_ok_def intro!: core_updateOperation split: option.splits)

lemma core_format: "core s \<Longrightarrow> core (formatSelectedOperationValueAsJson s)"
  by (auto simp: formatSelectedOperationValueAsJson_def Let_def op_fields_ok_def intro!: core_updateOperation split: option.splits)

lemma core_updateReturnErrorDraft: "core s \<Longrightarrow> core (updateReturnErrorDraft i fs s)"
  by (auto simp: updateReturnErrorDraft_def op_fields_ok_def intro!: core_updateOperation split: option.splits)

lemma prune_rules_seed: "prune_rules vs n = (rs, m) \<Longrightarrow> n \<le> m \<and> (\<forall>r \<in> set rs. n \<le> oc_id r \<and> oc_id r < m)"
proof (induction vs arbitrary: n rs)
  case (Cons v vs)
  obtain qs k where q: "prune_rules vs (Suc n) = (qs, k)" by force
  then have "k = m" "rs = cond_of v n # qs" using Cons.prems by (simp_all add: normalizePruneRule_def)
  then show ?case using Cons.IH[of "Suc n" qs] q by (auto simp: cond_of_def)
qed simp

lemma parse_prune_seed:
  assumes "parsePruneObjectsDraft t n = (d, m)"
  shows "n \<le> m \<and> (\<forall>r \<in> set (pd_rules d). n \<le> oc_id r \<and> oc_id r < m)"
  using assms prune_rules_seed
  by (fastforce simp: parsePruneObjectsDraft_def Let_def prune_defaults_def split: if_splits option.splits jsval.splits prod.splits)

lemma core_updatePrune:
  assumes "core s" "\<And>d n e m. upd d n = (e, m) \<Longrightarrow> n \<le> m"
  shows "core (updatePruneObjectsDraft i upd s)"
proof (cases "find_op i s")
  case (Some x)
  obtain d n1 where d: "parsePruneObjectsDraft (op_value_text x) (localIdSeed s) = (d, n1)" by force
  obtain e n2 where e: "upd d n1 = (e, n2)" by force
  have "localIdSeed s \<le> n2" using parse_prune_seed[OF d] assms(2)[OF e] by linarith
  then show ?thesis using Some d e assms(1)
    by (auto simp: updatePruneObjectsDraft_def op_fields_ok_def intro!: core_updateOperation core_seed)
qed (use assms in \<open>simp add: updatePruneObjectsDraft_def\<close>)

lemma core_prune_handlers:
  assumes "core s"
  shows "core (updatePruneObjectsDraft i (prune_patch fs) s)" "core (addPruneRule i s)"
    "core (updatePruneRule i r cs s)" "core (removePruneRule i r s)"
  unfolding addPruneRule_def updatePruneRule_def removePruneRule_def
  using assms by (auto intro!: core_updatePrune simp: prune_patch_def normalizePruneRule_def Let_def)


lemma core_list_handlers:
  assumes "core s"
  shows "core (addOperation s)" "core (moveOperation a b pos s)" "core (handleOperationDragStart i s)"
    "core (handleOperationDragOver i pos s)" "core (handleOperationDrop a i s)"
proof -
  obtain d where d: "createDefaultOperation (localIdSeed s) = (d, Suc (localIdSeed s))" "op_id d = localIdSeed s"
      "op_wf (Suc (localIdSeed s)) d"
    using default_wf by (cases "createDefaultOperation (localIdSeed s)") metis
  have "ops_wf (Suc (localIdSeed s)) (operations s @ [d])"
  proof (rule append_wf)
    show "ops_wf (Suc (localIdSeed s)) (operations s)" using assms by (auto simp: core_def intro: ops_wf_mono)
    show "ops_wf (Suc (localIdSeed s)) [d]" using d by (simp add: ops_wf_def)
    show "op_id x \<noteq> op_id y" if "x \<in> set (operations s)" "y \<in> set [d]" for x y
      using that d assms by (auto simp: core_def ops_wf_def op_wf_def list_all_iff)
  qed
  then show "core (addOperation s)" using d by (simp add: addOperation_def core_def)
  have mv: "core (moveOperation a b pos s)" for a b pos
  proof -
    have "mset (reorderOperations (operations s) a b pos) = mset (operations s)" by (rule reorder_mset)
    moreover from this have "reorderOperations (operations s) a b pos \<noteq> []"
      using assms unfolding core_def by (metis mset_zero_iff)
    ultimately show ?thesis using assms mset_wf by (auto simp: moveOperation_def core_def)
  qed
  then show "core (moveOperation a b pos s)" .
  show "core (handleOperationDragStart i s)" "core (handleOperationDragOver i pos s)"
    using assms by (simp_all add: handleOperationDragStart_def handleOperationDragOver_def core_def)
  show "core (handleOperationDrop a i s)" using mv
    by (simp add: handleOperationDrop_def Let_def resetOperationDragState_def core_def)
qed

lemma core_duplicate: "core s \<Longrightarrow> duplicateOperation eager i s = Some s' \<Longrightarrow> core s'"
proof -
  assume c: "core s" and d: "duplicateOperation eager i s = Some s'"
  show ?thesis
  proof (cases "find_index (\<lambda>x. op_id x = i) (operations s)")
    case None
    then show ?thesis using c d by (simp add: duplicateOperation_def)
  next
    case (Some j)
    then obtain y n where y: "normalizeOperation (clone_source (operations s ! j)) (localIdSeed s) = Some (y, n)"
      using d by (auto simp: duplicateOperation_def split: option.splits)
    note f = op_fresh[OF y]
    have "ops_wf n (insert_at (j + 1) y (operations s))"
    proof (rule insert_at_wf)
      show "ops_wf n (operations s)" using c f by (auto simp: core_def intro: ops_wf_mono)
      show "op_id y \<notin> op_id ` set (operations s)" using c f by (auto simp: core_def ops_wf_def op_wf_def list_all_iff)
    qed (use f in simp)
    then show ?thesis using d Some y by (auto simp: duplicateOperation_def core_def insert_at_def)
  qed
qed

lemma core_remove: "core s \<Longrightarrow> core (removeOperation i s)"
proof -
  assume c: "core s"
  obtain d m where d: "createDefaultOperation (localIdSeed s) = (d, m)" by force
  show ?thesis
  proof (cases "length (operations s) \<le> 1")
    case True
    then show ?thesis using default_wf[OF d] d by (auto simp: removeOperation_def core_def ops_wf_def)
  next
    case False
    have "del_by op_id i (operations s) \<noteq> []"
    proof
      assume "del_by op_id i (operations s) = []"
      then have all: "\<forall>x \<in> set (operations s). op_id x = i" by (simp add: del_by_def filter_empty_conv)
      obtain x y zs where "operations s = x # y # zs" using False by (cases "operations s"; cases "tl (operations s)") auto
      then show False using all c by (simp add: core_def ops_wf_def)
    qed
    then show ?thesis using False c d del_wf by (auto simp: removeOperation_def core_def)
  qed
qed

lemma core_condition_handlers:
  assumes "core s"
  shows "core (addCondition i s)" "cond_fields_ok fs \<Longrightarrow> core (updateCondition i j fs s)" "core (removeCondition i j s)"
proof -
  let ?n = "localIdSeed s"
  let ?c = "cond_of (JObj []) ?n"
  have w: "ops_wf (Suc ?n) (operations s)" "ops_wf ?n (operations s)"
    using assms by (auto simp: core_def intro: ops_wf_mono)
  have "ops_wf (Suc ?n) (upd_by op_id i (\<lambda>x. x\<lparr>op_conditions := op_conditions x @ [?c]\<rparr>) (operations s))"
  proof (rule upd_wf[OF w(1)])
    fix x assume x: "x \<in> set (operations s)" "op_wf (Suc ?n) x"
    then have "op_wf ?n x" using w(2) by (simp add: ops_wf_def list_all_iff)
    then have "oc_id ?c \<notin> oc_id ` set (op_conditions x)" by (auto simp: op_wf_def cond_wf_def list_all_iff cond_of_def)
    then show "op_id (x\<lparr>op_conditions := op_conditions x @ [?c]\<rparr>) = op_id x \<and> op_wf (Suc ?n) (x\<lparr>op_conditions := op_conditions x @ [?c]\<rparr>)"
      using x(2) cond_of_wf[of ?n "JObj []"] by (simp add: op_wf_def)
  qed
  then show "core (addCondition i s)" using assms by (simp add: addCondition_def createDefaultCondition_def core_def)
  show "core (removeCondition i j s)"
  proof -
    have "ops_wf ?n (upd_by op_id i (\<lambda>x. x\<lparr>op_conditions := del_by oc_id j (op_conditions x)\<rparr>) (operations s))"
      by (rule upd_wf[OF w(2)]) (auto simp: op_wf_def distinct_del_by del_by_def list_all_iff distinct_map_filter)
    then show ?thesis using assms by (simp add: removeCondition_def core_def)
  qed
  show "core (updateCondition i j fs s)" if "cond_fields_ok fs"
  proof -
    have "ops_wf ?n (upd_by op_id i (\<lambda>x. x\<lparr>op_conditions := upd_by oc_id j (fold set_cond_field fs) (op_conditions x)\<rparr>) (operations s))"
    proof (rule upd_wf[OF w(2)])
      fix x assume "op_wf ?n x"
      moreover have "map oc_id (upd_by oc_id j (fold set_cond_field fs) (op_conditions x)) = map oc_id (op_conditions x)"
        "list_all (cond_wf ?n) (upd_by oc_id j (fold set_cond_field fs) (op_conditions x))" if "list_all (cond_wf ?n) (op_conditions x)"
        using that fold_cond_fields[OF _ \<open>cond_fields_ok fs\<close>] by (auto simp: upd_by_def list_all_iff)
      ultimately show "op_id (x\<lparr>op_conditions := upd_by oc_id j (fold set_cond_field fs) (op_conditions x)\<rparr>) = op_id x \<and>
         op_wf ?n (x\<lparr>op_conditions := upd_by oc_id j (fold set_cond_field fs) (op_conditions x)\<rparr>)"
        by (simp add: op_wf_def)
    qed
    then show ?thesis using assms by (simp add: updateCondition_def core_def)
  qed
qed

end
