(* ===== verification/ParamOverrideReach.thy ===== *)
theory ParamOverrideReach
  imports ParamOverrideInv
begin

text \<open>
  Reachable states of the parameter-override editor and the properties that hold in them, and what
  the editor of \<open>prune_objects\<close> does.
\<close>

section \<open>Mode switches and templates\<close>

lemma core_open: "open_effect v s = Some s' \<Longrightarrow> core s'"
  using initial_wf by (fastforce simp: open_effect_def core_def split: option.splits)

lemma core_switchToJson: "core s \<Longrightarrow> core (switchToJsonMode s)"
  by (auto simp: switchToJsonMode_def core_def show_msg_def split: sum.splits)

lemma core_switchToVisual:
  assumes "core s" "switchToVisualMode s = Some s'"
  shows "core s'"
proof -
  obtain d n where d: "createDefaultOperation (localIdSeed s) = (d, n)" by force
  have dw: "ops_wf n [d]" using default_wf[OF d] by (auto simp: ops_wf_def)
  show ?thesis using assms dw d operations_of_wf
    by (auto simp: switchToVisualMode_def Let_def core_def show_msg_def
      split: if_splits option.splits jsval.splits prod.splits)
qed

lemma core_fillLegacy: "core (fillLegacyTemplate p s)"
  using core_default by (auto simp: fillLegacyTemplate_def Let_def split: prod.splits)

lemma core_fillOperations: "fillOperationsTemplate p s = Some s' \<Longrightarrow> core s'"
  using operations_of_wf by (auto simp: fillOperationsTemplate_def core_def split: option.splits)

lemma core_appendLegacy: "core s \<Longrightarrow> core (appendLegacyTemplate p s)"
  using core_default by (auto simp: appendLegacyTemplate_def Let_def split: prod.splits sum.splits)

lemma core_appendOperations:
  assumes "core s" "p \<noteq> []" "appendOperationsTemplate p s = Some s'"
  shows "core s'"
proof -
  obtain ys n where y: "map_ids normalizeOperation p (localIdSeed s) = Some (ys, n)"
    using assms(3) by (auto simp: appendOperationsTemplate_def split: option.splits)
  note f = ops_fresh[OF y]
  let ?e = "if visualMode s = VOperations then filter (\<lambda>x. \<not> isOperationBlank x) (operations s) else []"
  have e: "ops_wf (localIdSeed s) ?e" using assms(1) filter_wf by (auto simp: core_def ops_wf_def)
  then have "ops_wf n (?e @ ys)"
  proof (intro append_wf)
    show "ops_wf n ?e" using e f by (blast intro: ops_wf_mono)
    show "op_id x \<noteq> op_id z" if "x \<in> set ?e" "z \<in> set ys" for x z
    proof -
      have "op_id x < localIdSeed s" using that(1) e by (simp add: ops_wf_def op_wf_def list_all_iff del: if_image_distrib set_filter)
      then show ?thesis using f that(2) by force
    qed
  qed (use f in simp)
  moreover have "ys \<noteq> []" using f assms(2) by auto
  ultimately show ?thesis using assms(3) y by (auto simp: appendOperationsTemplate_def Let_def core_def)
qed

lemma preset_kinds:
  "getSelectedTemplatePreset s \<in> snd ` set TEMPLATE_PRESET_CONFIG"
proof (cases "map_of TEMPLATE_PRESET_CONFIG (templatePresetKey s)")
  case None
  then show ?thesis by (simp add: getSelectedTemplatePreset_def) (simp add: TEMPLATE_PRESET_CONFIG_def)
next
  case (Some p)
  then show ?thesis using map_of_SomeD[OF Some] by (force simp: getSelectedTemplatePreset_def)
qed

lemma preset_ops_nonempty:
  "p \<in> snd ` set TEMPLATE_PRESET_CONFIG \<Longrightarrow> p_kind p \<noteq> ''legacy'' \<Longrightarrow> preset_operations p \<noteq> []"
  by (auto simp: TEMPLATE_PRESET_CONFIG_def preset_operations_def OPERATION_TEMPLATE_def
     HEADER_PASSTHROUGH_TEMPLATE_def GEMINI_IMAGE_4K_TEMPLATE_def AWS_BEDROCK_ANTHROPIC_COMPAT_TEMPLATE_def
     CLAUDE_CLI_HEADER_PASSTHROUGH_TEMPLATE_def CODEX_CLI_HEADER_PASSTHROUGH_TEMPLATE_def buildPassHeadersTemplate_def
     jget_Cons)

lemma core_library:
  assumes "core s"
  shows "fillTemplateFromLibrary s = Some s' \<Longrightarrow> core s'" "appendTemplateFromLibrary s = Some s' \<Longrightarrow> core s'"
  using assms preset_ops_nonempty[OF preset_kinds[of s]]
  by (auto simp: fillTemplateFromLibrary_def appendTemplateFromLibrary_def Let_def
     intro: core_fillLegacy core_fillOperations core_appendLegacy core_appendOperations split: if_splits)

lemma core_clear: "core (clearValue s)" "core (resetEditorState s)"
proof -
  obtain d m where d: "createDefaultOperation (localIdSeed s) = (d, m)" by force
  then have "ops_wf m [d]" using default_wf[OF d] by (auto simp: ops_wf_def)
  then show "core (clearValue s)" "core (resetEditorState s)"
    using d by (simp_all add: clearValue_def resetEditorState_def core_def)
qed

section \<open>Steps\<close>

text \<open>
  One step per handler the form calls, with the effects that follow. The patches carry values the form offers (\<open>op_fields_ok\<close>,
  \<open>cond_fields_ok\<close>: modes and logics come from select boxes); a handler that throws leaves the state as it is.
\<close>

inductive po_step :: "po_state \<Rightarrow> po_state \<Rightarrow> bool" where
  "open_effect v s = Some s' \<Longrightarrow> po_step s (after_effects s')"
| "po_step s (after_effects (switchToJsonMode s))"
| "switchToVisualMode s = Some s' \<Longrightarrow> po_step s (after_effects s')"
| "fillTemplateFromLibrary s = Some s' \<Longrightarrow> po_step s (after_effects s')"
| "appendTemplateFromLibrary s = Some s' \<Longrightarrow> po_step s (after_effects s')"
| "po_step s (after_effects (resetEditorState s))"
| "po_step s (after_effects (s\<lparr>templateGroupKey := k\<rparr>))"
| "po_step s (after_effects (s\<lparr>templatePresetKey := k\<rparr>))"
| "po_step s (after_effects (s\<lparr>legacyValue := t\<rparr>))"
| "po_step s (after_effects (s\<lparr>operationSearch := t\<rparr>))"
| "po_step s (after_effects (s\<lparr>selectedOperationId := i\<rparr>))"
| "op_fields_ok fs \<Longrightarrow> po_step s (after_effects (updateOperation j fs s))"
| "po_step s (after_effects (applyBuiltinField k t s))"
| "po_step s (after_effects (openFieldGuide t s))"
| "po_step s (after_effects (formatSelectedOperationValueAsJson s))"
| "po_step s (after_effects (updateReturnErrorDraft j es s))"
| "po_step s (after_effects (updatePruneObjectsDraft j (prune_patch ps) s))"
| "po_step s (after_effects (addPruneRule j s))"
| "cond_fields_ok cs \<Longrightarrow> po_step s (after_effects (updatePruneRule j r cs s))"
| "po_step s (after_effects (removePruneRule j r s))"
| "po_step s (after_effects (addOperation s))"
| "po_step s (after_effects (handleOperationDragStart j s))"
| "po_step s (after_effects (handleOperationDragOver j pos s))"
| "po_step s (after_effects (handleOperationDrop i j s))"
| "po_step s (after_effects (resetOperationDragState s))"
| "duplicateOperation eager j s = Some s' \<Longrightarrow> po_step s (after_effects s')"
| "po_step s (after_effects (removeOperation j s))"
| "po_step s (after_effects (addCondition j s))"
| "cond_fields_ok cs \<Longrightarrow> po_step s (after_effects (updateCondition j r cs s))"
| "po_step s (after_effects (removeCondition j r s))"
| "po_step s (after_effects (handleConditionCollapseChange j ks s))"
| "po_step s (after_effects (expandAllSelectedConditions s))"
| "po_step s (after_effects (collapseAllSelectedConditions s))"
| "po_step s (after_effects (handleJsonChange t s))"
| "po_step s (after_effects (formatJson s))"
| "po_step s (after_effects (handleSave s))"

lemma core_plain:
  assumes "core s"
  shows "core (s\<lparr>templateGroupKey := k\<rparr>)" "core (s\<lparr>templatePresetKey := k\<rparr>)" "core (s\<lparr>legacyValue := k\<rparr>)"
    "core (s\<lparr>operationSearch := k\<rparr>)" "core (s\<lparr>selectedOperationId := i\<rparr>)" "core (openFieldGuide k s)"
    "core (resetOperationDragState s)" "core (handleConditionCollapseChange j ks s)"
    "core (expandAllSelectedConditions s)" "core (collapseAllSelectedConditions s)" "core (handleJsonChange k s)"
    "core (formatJson s)" "core (handleSave s)"
  using assms
  by (auto simp: core_def openFieldGuide_def resetOperationDragState_def handleConditionCollapseChange_def
     expandAllSelectedConditions_def collapseAllSelectedConditions_def handleJsonChange_def formatJson_def
     handleSave_def show_msg_def Let_def split: option.splits sum.splits)

lemma po_step_inv: "po_step s t \<Longrightarrow> po_inv s \<Longrightarrow> po_inv t"
  by (induction rule: po_step.induct)
     (auto simp: po_inv_def[of s for s] intro!: after_effects_inv[unfolded po_inv_def] intro: core_open core_switchToJson core_switchToVisual
       core_library core_clear core_plain core_updateOperation core_applyBuiltinField core_format
       core_updateReturnErrorDraft core_prune_handlers core_list_handlers core_duplicate core_remove
       core_condition_handlers)


section \<open>Reachable states\<close>

text \<open>The dialogue starts closed; the first step is \<open>open_effect\<close> on the stored value.\<close>

definition closed_dialogue :: "nat \<Rightarrow> po_state" where
  "closed_dialogue n = \<lparr>localIdSeed = Suc n, editMode = EVisual, visualMode = VOperations, legacyValue = [],
     operations = [fst (createDefaultOperation n)], jsonText = [], jsonError = None, operationSearch = [],
     selectedOperationId = None, expandedConditionMap = (\<lambda>_. None), draggedOperationId = None,
     dragOverOperationId = None, dragOverPosition = Before, templateGroupKey = ''basic'',
     templatePresetKey = ''operations_default'', headerValueExampleVisible = False, fieldGuideVisible = False,
     fieldGuideTarget = ''path'', fieldGuideKeyword = [], toasts = [], saved = []\<rparr>"

inductive po_reach :: "po_state \<Rightarrow> bool" where
  reach_open: "open_effect v (closed_dialogue n) = Some s \<Longrightarrow> po_reach (after_effects s)"
| reach_step: "po_reach s \<Longrightarrow> po_step s t \<Longrightarrow> po_reach t"

lemma po_reach_inv: "po_reach s \<Longrightarrow> po_inv s"
  by (induction rule: po_reach.induct) (auto intro: after_effects_inv core_open po_step_inv)

section \<open>The prune_objects editor\<close>

lemma updatePrune_text:
  assumes "find_op i s = Some x" "parsePruneObjectsDraft (op_value_text x) (localIdSeed s) = (d, n1)" "upd d n1 = (e, n2)"
  shows "updatePruneObjectsDraft i upd s =
     updateOperation i [FValueText (buildPruneObjectsValueText e)] (s\<lparr>localIdSeed := n2\<rparr>)"
  using assms by (simp add: updatePruneObjectsDraft_def)

text \<open>The identifiers shown to the user were drawn when the draft was last parsed for display, so they are below the
  counter, and those of the draft parsed again in the handler are not.\<close>

lemma prune_ids_stale:
  assumes "parsePruneObjectsDraft t n = (d, m)" "r < n"
  shows "upd_by oc_id r f (pd_rules d) = pd_rules d" "del_by oc_id r (pd_rules d) = pd_rules d"
proof -
  have "r \<notin> oc_id ` set (pd_rules d)" using parse_prune_seed[OF assms(1)] assms(2) by force
  then show "upd_by oc_id r f (pd_rules d) = pd_rules d" "del_by oc_id r (pd_rules d) = pd_rules d" by simp_all
qed

lemma build_prune_blank_rule:
  "buildPruneObjectsValueText (d\<lparr>pd_simpleMode := False, pd_rules := pd_rules d @ [cond_of (JObj []) n]\<rparr>) =
   buildPruneObjectsValueText (d\<lparr>pd_simpleMode := False\<rparr>)"
  by (simp add: buildPruneObjectsValueText_def cond_of_def str_prop_def)

section \<open>Properties\<close>

text \<open>C1. In every state the parameter-override editor can reach, whatever sequence of edits, drags, template insertions and
  mode switches led there: there is at least one operation, operation identifiers are unique, condition identifiers are unique within
  their operation, all were drawn from the counter, every mode and logic is a known one, the selected operation exists, and the
  selected template belongs to the selected group.\<close>

theorem editor_invariant:
  assumes "po_reach s"
  shows "operations s \<noteq> [] \<and> distinct (map op_id (operations s)) \<and>
     (\<exists>x \<in> set (operations s). selectedOperationId s = Some (op_id x)) \<and>
     (\<forall>x \<in> set (operations s). op_id x < localIdSeed s \<and> op_mode x \<in> set OPERATION_MODE_VALUES \<and>
        op_logic x \<in> {''AND'', ''OR''} \<and> distinct (map oc_id (op_conditions x)) \<and>
        (\<forall>c \<in> set (op_conditions x). oc_id c < localIdSeed s \<and> oc_mode c \<in> set CONDITION_MODE_VALUES)) \<and>
     (templatePresetOptions s = [] \<or> templatePresetKey s \<in> set (templatePresetOptions s))"
proof -
  have i: "po_inv s" by (rule po_reach_inv[OF assms])
  then have w: "operations s \<noteq> []" "ops_wf (localIdSeed s) (operations s)" by (auto simp: po_inv_def core_def)
  obtain x where x: "selectedOperation s = Some x" using i by (auto simp: po_inv_def selection_ok_def)
  then have "x \<in> set (operations s) \<and> selectedOperationId s = Some (op_id x)"
    by (auto simp: selectedOperation_def find_Some_iff split: option.splits)
  then show ?thesis using w i
    by (auto simp: ops_wf_def op_wf_def cond_wf_def list_all_iff po_inv_def preset_ok_def)
qed

lemma sample_open: "\<exists>s. open_effect [] (closed_dialogue 0) = Some s"
  by (simp add: open_effect_def parseInitialState_def closed_dialogue_def createDefaultOperation_def)

theorem editor_invariant_witness: "\<exists>s. po_reach s \<and> operations s \<noteq> []"
proof -
  obtain s where "open_effect [] (closed_dialogue 0) = Some s" using sample_open by blast
  then have "po_reach (after_effects s)" by (rule reach_open)
  then show ?thesis using editor_invariant by blast
qed

text \<open>The rules of \<open>prune_objects\<close> cannot be edited or removed: a rule's identifier on the screen was drawn before the handler
  parses the value again with fresh identifiers, so an update or removal by it rewrites the value as if no rule had been
  named.\<close>

theorem prune_rule_edits_lost:
  assumes "r < localIdSeed s"
  shows "updatePruneRule i r fs s = updatePruneObjectsDraft i (prune_patch []) s \<and>
         removePruneRule i r s = updatePruneObjectsDraft i (prune_patch []) s"
proof (cases "find_op i s")
  case None
  then show ?thesis by (simp add: updatePruneRule_def removePruneRule_def updatePruneObjectsDraft_def)
next
  case (Some x)
  obtain d n1 where d: "parsePruneObjectsDraft (op_value_text x) (localIdSeed s) = (d, n1)" by force
  show ?thesis
    using prune_ids_stale[OF d assms] Some d
    by (simp add: updatePruneRule_def removePruneRule_def updatePruneObjectsDraft_def prune_patch_def)
qed

theorem prune_rule_edits_lost_witness:
  "removePruneRule 0 0 (closed_dialogue 0) = updatePruneObjectsDraft 0 (prune_patch []) (closed_dialogue 0)"
  using prune_rule_edits_lost[of 0 "closed_dialogue 0" 0 "[]"] by (simp add: closed_dialogue_def)

text \<open>A rule cannot be added either: the new rule has no path, and the value text drops rules without a path, so adding a
  rule writes the same text as switching the form to its advanced mode.\<close>

theorem prune_rule_add_lost:
  "map op_value_text (operations (addPruneRule i s)) =
   map op_value_text (operations (updatePruneObjectsDraft i (prune_patch [PSimple False]) s))"
proof (cases "find_op i s")
  case None
  then show ?thesis by (simp add: addPruneRule_def updatePruneObjectsDraft_def)
next
  case (Some x)
  obtain d n1 where d: "parsePruneObjectsDraft (op_value_text x) (localIdSeed s) = (d, n1)" by force
  show ?thesis
    using Some d build_prune_blank_rule[of d n1]
    by (simp add: addPruneRule_def updatePruneObjectsDraft_def prune_patch_def normalizePruneRule_def updateOperation_def)
qed

text \<open>The advanced form of \<open>prune_objects\<close> cannot be entered while a type is filled in: with a type and nothing else, the text
  written for the advanced draft parses back as a simple draft.\<close>

theorem prune_advanced_bounces:
  assumes "trim t \<noteq> []" "t' = buildPruneObjectsValueText (prune_defaults\<lparr>pd_simpleMode := False, pd_typeText := t\<rparr>)"
  shows "parsePruneObjectsDraft t' n = (prune_defaults\<lparr>pd_typeText := trim t\<rparr>, n)"
proof -
  have "\<not> logic_is ''OR'' ''AND'' (JStr ''AND'')" by (simp add: logic_is_def js_or_def to_upper_def upper_char_def)
  then have b: "t' = json_stringify (JObj [(''type'', JStr (trim t))])"
    using assms by (simp add: buildPruneObjectsValueText_def prune_defaults_def)
  have "json_safe (JObj [(''type'', JStr (trim t))])"
    by (rule json_safe_obj) (auto simp: plain_keys_def is_index_def is_digit_def)
  then have p: "json_parse t' = Some (JObj [(''type'', JStr (trim t))])" unfolding b by (rule compact.dec_enc)
  have "trim t' = t' \<and> t' \<noteq> []" unfolding b by (rule stringify_obj_trimmed)
  then show ?thesis using p
    by (simp add: parsePruneObjectsDraft_def Let_def jget_Cons prune_rule_sources_def prune_defaults_def logic_is_def js_or_def
       to_upper_def upper_char_def)
qed

theorem prune_advanced_bounces_witness:
  "pd_simpleMode (fst (parsePruneObjectsDraft (buildPruneObjectsValueText
     (prune_defaults\<lparr>pd_simpleMode := False, pd_typeText := ''image_url''\<rparr>)) 0))"
proof -
  have "trim ''image_url'' \<noteq> []" by code_simp
  then show ?thesis using prune_advanced_bounces[of "''image_url''" _ 0] by (simp add: prune_defaults_def)
qed

text \<open>Saving never loses the editor's state and reports exactly one outcome: either one text is handed to \<open>onSave\<close> and no
  message shown, or the error of the current mode is shown and nothing is saved.\<close>

theorem save_outcome:
  "operations (handleSave s) = operations s \<and> jsonText (handleSave s) = jsonText s \<and>
   (case save_result s of
      Inr t \<Rightarrow> saved (handleSave s) = saved s @ [t] \<and> toasts (handleSave s) = toasts s
    | Inl e \<Rightarrow> saved (handleSave s) = saved s \<and> toasts (handleSave s) = toasts s @ [e])
   \<and> (editMode s = EVisual \<longrightarrow> (visualValidationError s = None \<longleftrightarrow> (\<exists>t. save_result s = Inr t)))"
  by (auto simp: handleSave_def show_msg_def visualValidationError_def save_result_def split: sum.splits)

theorem save_outcome_witness:
  "visualValidationError (closed_dialogue 0) = None \<longleftrightarrow> (\<exists>t. save_result (closed_dialogue 0) = Inr t)"
  using save_outcome[of "closed_dialogue 0"] by (simp add: closed_dialogue_def)

end
