(* ===== verification/RatioSync.thy ===== *)
theory RatioSync
  imports PricingState
begin

text \<open>
  Upstream price synchronisation, web/src/pages/Setting/Ratio/UpstreamRatioSync.jsx and its channel dialogue
  web/src/components/settings/ChannelSelectorModal.jsx. The backend compares the local options with those of other
  instances; the page shows the differences, the user picks values, and the page writes the ten option texts. The
  differences have the shape of the backend's \<open>DifferenceItem\<close>: by model and field the local value and the value of each
  source, which is a scalar, \<open>null\<close> or the text \<open>same\<close>. What the backend answers is an argument of the operations that
  receive it. Display texts are constructors. The display names of the two presets lie outside the model's alphabet and are
  the arguments \<open>official_name\<close> and \<open>models_dev_name\<close>.
\<close>

section \<open>Data\<close>

record sync_channel =
  ch_id :: int
  ch_name :: string
  ch_base_url :: string
  ch_status :: int
  ch_type :: int

record diff_item =
  di_current :: jsval
  di_upstreams :: jsobj
  di_confidence :: "(string \<times> bool) list"

type_synonym fields = "(string \<times> diff_item) list"
type_synonym diffs = "(string \<times> fields) list"
type_synonym resolutions = "(string \<times> jsobj) list"

record test_result =
  tr_name :: string
  tr_status :: string
  tr_error :: string

definition ratioSyncFields :: "string list" where
  "ratioSyncFields = [''model_ratio'', ''completion_ratio'', ''cache_ratio'', ''create_cache_ratio'', ''image_ratio'',
     ''audio_ratio'', ''audio_completion_ratio'']"

definition numericSyncFields :: "string list" where
  "numericSyncFields = ratioSyncFields @ [''model_price'']"

definition syncFieldOrder :: "string list" where
  "syncFieldOrder = ratioSyncFields @ [''model_price'', ''billing_mode'', ''billing_expr'']"

datatype category = PriceCat | RatioCat | TieredCat

definition getBillingCategory :: "string \<Rightarrow> category" where
  "getBillingCategory ratioType =
     (if ratioType = ''model_price'' then PriceCat
      else if ratioType = ''billing_mode'' \<or> ratioType = ''billing_expr'' then TieredCat
      else RatioCat)"

text \<open>\<open>word.charAt(0).toUpperCase() + word.slice(1)\<close> on every word between underscores.\<close>

definition capitalize :: "string \<Rightarrow> string" where
  "capitalize w = (case w of [] \<Rightarrow> [] | c # r \<Rightarrow> to_upper [c] @ r)"

definition optionKeyBySyncField :: "string \<Rightarrow> string" where
  "optionKeyBySyncField ratioType =
     (if ratioType = ''billing_mode'' then ''billing_setting.billing_mode''
      else if ratioType = ''billing_expr'' then ''billing_setting.billing_expr''
      else concat (map capitalize (split_char (CHR ''_'') ratioType)))"

section \<open>Values offered by the sources\<close>

definition upstream_of :: "fields \<Rightarrow> string \<Rightarrow> string \<Rightarrow> jsval" where
  "upstream_of fs ratioType sourceName =
     (case obj_get ratioType fs of None \<Rightarrow> JUndef | Some item \<Rightarrow> obj_or JUndef sourceName (di_upstreams item))"

definition getUpstreamValue :: "diffs \<Rightarrow> string \<Rightarrow> string \<Rightarrow> string \<Rightarrow> jsval" where
  "getUpstreamValue differences model ratioType sourceName =
     upstream_of (obj_or [] model differences) ratioType sourceName"

definition isSelectableUpstreamValue :: "jsval \<Rightarrow> bool" where
  "isSelectableUpstreamValue v \<longleftrightarrow> v \<noteq> JNull \<and> v \<noteq> JUndef \<and> v \<noteq> JStr ''same''"

definition getPreferredSyncField :: "diffs \<Rightarrow> string \<Rightarrow> string \<Rightarrow> string \<Rightarrow> string" where
  "getPreferredSyncField differences model ratioType sourceName =
     (if ratioType \<noteq> ''billing_expr'' \<and> isSelectableUpstreamValue (getUpstreamValue differences model ''billing_expr'' sourceName)
      then ''billing_expr'' else ratioType)"

definition shouldShowSyncField :: "diffs \<Rightarrow> string \<Rightarrow> string \<Rightarrow> string \<Rightarrow> bool" where
  "shouldShowSyncField differences model ratioType sourceName \<longleftrightarrow>
     sourceName = [] \<or> getPreferredSyncField differences model ratioType sourceName = ratioType"

definition getOrderedRatioTypes :: "string \<Rightarrow> (string \<times> 'v) list \<Rightarrow> string list" where
  "getOrderedRatioTypes ratioTypeFilter ratioTypes =
     (let keys = map fst ratioTypes;
          ordered = filter (\<lambda>f. f \<in> set keys) syncFieldOrder @ filter (\<lambda>f. f \<notin> set syncFieldOrder) keys
      in if ratioTypeFilter \<noteq> [] then filter (\<lambda>f. f = ratioTypeFilter) ordered else ordered)"

section \<open>Choosing values\<close>

definition deleteResolutionField :: "resolutions \<Rightarrow> string \<Rightarrow> string \<Rightarrow> resolutions" where
  "deleteResolutionField newRes model ratioType =
     (case obj_get model newRes of
        None \<Rightarrow> newRes
      | Some r \<Rightarrow>
          let r1 = obj_del ratioType r;
              r2 = (if ratioType = ''billing_expr'' then obj_del ''billing_mode'' r1 else r1);
              r3 = (if ratioType = ''billing_mode'' then obj_del ''billing_expr'' r2 else r2)
          in if r3 = [] then obj_del model newRes else obj_set model r3 newRes)"

text \<open>The new choices of one model, given the field and value that \<open>selectValue\<close> settles on.\<close>

definition choose_field :: "diffs \<Rightarrow> string \<Rightarrow> string \<Rightarrow> jsval \<Rightarrow> string \<Rightarrow> jsobj \<Rightarrow> jsobj" where
  "choose_field differences model ratioType value sourceName prev =
     (let category = getBillingCategory ratioType;
          kept = filter (\<lambda>(rt, v). \<not> (category \<noteq> TieredCat \<and> getBillingCategory rt \<noteq> TieredCat \<and> getBillingCategory rt \<noteq> category)) prev;
          r1 = obj_set ratioType value kept
      in if category = TieredCat \<and> sourceName \<noteq> [] then
           let modeValue = getUpstreamValue differences model ''billing_mode'' sourceName;
               exprValue = getUpstreamValue differences model ''billing_expr'' sourceName;
               r2 = (if isSelectableUpstreamValue modeValue then obj_set ''billing_mode'' modeValue r1
                     else if ratioType = ''billing_expr'' then obj_set ''billing_mode'' (JStr ''tiered_expr'') r1 else r1)
           in if isSelectableUpstreamValue exprValue then obj_set ''billing_expr'' exprValue r2 else r2
         else r1)"

definition selectValue :: "diffs \<Rightarrow> string \<Rightarrow> string \<Rightarrow> jsval \<Rightarrow> string \<Rightarrow> resolutions \<Rightarrow> resolutions" where
  "selectValue differences model ratioType value sourceName prev =
     (let preferred = (if sourceName \<noteq> [] then getPreferredSyncField differences model ratioType sourceName else ratioType);
          preferredValue = (if preferred = ratioType then value else getUpstreamValue differences model preferred sourceName)
      in obj_set model (choose_field differences model preferred preferredValue sourceName (obj_or [] model prev)) prev)"

section \<open>The table\<close>

record sync_row =
  sr_model :: string
  sr_ratioTypes :: fields
  sr_billingConflict :: bool

definition sync_row_of :: "string \<times> fields \<Rightarrow> sync_row" where
  "sync_row_of p = \<lparr>sr_model = fst p, sr_ratioTypes = snd p,
     sr_billingConflict = obj_has ''model_price'' (snd p) \<and> list_ex (\<lambda>rt. obj_has rt (snd p)) ratioSyncFields\<rparr>"

definition filteredDataSource :: "string \<Rightarrow> string \<Rightarrow> diffs \<Rightarrow> sync_row list" where
  "filteredDataSource searchKeyword ratioTypeFilter differences =
     (let dataSource = map sync_row_of differences in
      if trim searchKeyword = [] \<and> ratioTypeFilter = [] then dataSource
      else filter (\<lambda>item.
        (trim searchKeyword = [] \<or> str_includes (trim (to_lower searchKeyword)) (to_lower (sr_model item)))
        \<and> (ratioTypeFilter = [] \<or> obj_has ratioTypeFilter (sr_ratioTypes item))) dataSource)"

definition upstreamNames :: "string \<Rightarrow> sync_row list \<Rightarrow> string list" where
  "upstreamNames ratioTypeFilter rows =
     js_set (concat (map (\<lambda>row. concat (map (\<lambda>rt.
        case obj_get rt (sr_ratioTypes row) of None \<Rightarrow> [] | Some item \<Rightarrow> map fst (di_upstreams item))
        (getOrderedRatioTypes ratioTypeFilter (sr_ratioTypes row)))) rows))"

text \<open>What one cell shows: nothing, "same as local", a value with a checkbox, or a value that another field stands for;
  with the flag of doubtful data.\<close>

datatype cell = NotSet | SameAsLocal | Choice string bool bool | ShownOnly string bool

definition renderUpstreamField :: "diffs \<Rightarrow> resolutions \<Rightarrow> sync_row \<Rightarrow> string \<Rightarrow> string \<Rightarrow> cell" where
  "renderUpstreamField differences resolutions row ratioType upName =
     (let upstreamVal = upstream_of (sr_ratioTypes row) ratioType upName;
          isConfident = (case obj_get ratioType (sr_ratioTypes row) of
              None \<Rightarrow> True | Some item \<Rightarrow> obj_get upName (di_confidence item) \<noteq> Some False);
          isPreferredField = (getPreferredSyncField differences (sr_model row) ratioType upName = ratioType)
      in if nullish upstreamVal then NotSet
         else if upstreamVal = JStr ''same'' then SameAsLocal
         else if isPreferredField
         then Choice (js_string upstreamVal)
                (strict_eq (obj_or JUndef ratioType (obj_or [] (sr_model row) resolutions)) upstreamVal) (\<not> isConfident)
         else ShownOnly (js_string upstreamVal) (\<not> isConfident))"

definition renderUpstreamFields :: "diffs \<Rightarrow> resolutions \<Rightarrow> string \<Rightarrow> sync_row \<Rightarrow> string \<Rightarrow> (string \<times> cell) list" where
  "renderUpstreamFields differences resolutions ratioTypeFilter row upName =
     map (\<lambda>rt. (rt, renderUpstreamField differences resolutions row rt upName))
       (filter (\<lambda>rt. shouldShowSyncField differences (sr_model row) rt upName)
         (getOrderedRatioTypes ratioTypeFilter (sr_ratioTypes row)))"

text \<open>The pairs of a row and a field that the column of a source counts and that its header checkbox selects.\<close>

definition selectable_items :: "diffs \<Rightarrow> string \<Rightarrow> sync_row list \<Rightarrow> string \<Rightarrow> (string \<times> string \<times> jsval) list" where
  "selectable_items differences ratioTypeFilter rows upName =
     concat (map (\<lambda>row. map (\<lambda>rt. (sr_model row, rt, upstream_of (sr_ratioTypes row) rt upName))
       (filter (\<lambda>rt. getPreferredSyncField differences (sr_model row) rt upName = rt
                   \<and> isSelectableUpstreamValue (upstream_of (sr_ratioTypes row) rt upName))
         (getOrderedRatioTypes ratioTypeFilter (sr_ratioTypes row)))) rows)"

definition is_selected :: "resolutions \<Rightarrow> string \<times> string \<times> jsval \<Rightarrow> bool" where
  "is_selected resolutions item = (case item of (model, rt, v) \<Rightarrow> strict_eq (obj_or JUndef rt (obj_or [] model resolutions)) v)"

record channel_stats =
  selectableCount :: nat
  selectedCount :: nat
  allSelected :: bool
  partiallySelected :: bool
  hasSelectableItems :: bool

definition channelStats :: "resolutions \<Rightarrow> (string \<times> string \<times> jsval) list \<Rightarrow> channel_stats" where
  "channelStats resolutions items =
     (let n = length items; k = length (filter (is_selected resolutions) items) in
      \<lparr>selectableCount = n, selectedCount = k, allSelected = (0 < n \<and> k = n), partiallySelected = (0 < k \<and> k < n),
       hasSelectableItems = (0 < n)\<rparr>)"

definition bulk_select :: "diffs \<Rightarrow> string \<Rightarrow> sync_row list \<Rightarrow> string \<Rightarrow> resolutions \<Rightarrow> resolutions" where
  "bulk_select differences ratioTypeFilter rows upName res =
     fold (\<lambda>(model, rt, v) r. selectValue differences model rt v upName r)
       (selectable_items differences ratioTypeFilter rows upName) res"

definition bulk_deselect :: "string \<Rightarrow> sync_row list \<Rightarrow> string \<Rightarrow> resolutions \<Rightarrow> resolutions" where
  "bulk_deselect ratioTypeFilter rows upName res =
     fold (\<lambda>row r. fold (\<lambda>rt r'.
         if upstream_of (sr_ratioTypes row) rt upName \<noteq> JUndef then deleteResolutionField r' (sr_model row) rt else r')
       (getOrderedRatioTypes ratioTypeFilter (sr_ratioTypes row)) r) rows res"

definition handleBulkSelect :: "diffs \<Rightarrow> string \<Rightarrow> sync_row list \<Rightarrow> string \<Rightarrow> bool \<Rightarrow> resolutions \<Rightarrow> resolutions" where
  "handleBulkSelect differences ratioTypeFilter rows upName checked res =
     (if checked then bulk_select differences ratioTypeFilter rows upName res
      else bulk_deselect ratioTypeFilter rows upName res)"

end
