(* ===== verification/RatioSyncState.thy ===== *)
theory RatioSyncState
  imports RatioSync
begin

text \<open>
  The state of the synchronisation page and its handlers: loading the channels, asking for the differences, and writing the
  chosen values. An asynchronous handler is split at its \<open>await\<close>: the part before it gives the request and the state, the
  part after it takes the answer. \<open>Inl ()\<close> is an exception that leaves the handler.
\<close>

section \<open>Local options\<close>

definition sync_option_keys :: "string list" where
  "sync_option_keys = [''ModelRatio'', ''CompletionRatio'', ''CacheRatio'', ''CreateCacheRatio'', ''ImageRatio'', ''AudioRatio'',
     ''AudioCompletionRatio'', ''ModelPrice'', ''billing_setting.billing_mode'', ''billing_setting.billing_expr'']"

text \<open>\<open>JSON.parse(props.options[key] || '{}')\<close>, for all ten keys.\<close>

definition parse_option :: "string option \<Rightarrow> unit + jsval" where
  "parse_option raw = (case json_parse (case raw of Some t \<Rightarrow> if t = [] then ''{}'' else t | None \<Rightarrow> ''{}'') of
     Some v \<Rightarrow> Inr v | None \<Rightarrow> Inl ())"

definition currentRatios :: "pr_options \<Rightarrow> unit + (string \<times> jsval) list" where
  "currentRatios options = map_sum_list (\<lambda>k. case parse_option (options k) of Inl e \<Rightarrow> Inl e | Inr v \<Rightarrow> Inr (k, v)) sync_option_keys"

text \<open>Reading a property of \<open>null\<close> throws.\<close>

definition read_of :: "jsval \<Rightarrow> string \<Rightarrow> unit + jsval" where
  "read_of v k = (if nullish v then Inl () else Inr (obj_or JUndef k (spread_of v)))"

definition read_key :: "(string \<times> jsval) list \<Rightarrow> string \<Rightarrow> string \<Rightarrow> unit + jsval" where
  "read_key cur key model = read_of (obj_or JUndef key cur) model"

section \<open>Conflicts\<close>

text \<open>Whether some option of the list has an entry for the model, read from left to right.\<close>

fun any_defined :: "(string \<times> jsval) list \<Rightarrow> string list \<Rightarrow> string \<Rightarrow> unit + bool" where
  "any_defined cur [] model = Inr False"
| "any_defined cur (k # ks) model =
     (case read_key cur k model of Inl e \<Rightarrow> Inl e | Inr v \<Rightarrow> if v \<noteq> JUndef then Inr True else any_defined cur ks model)"

definition ratioOptionKeys :: "string list" where
  "ratioOptionKeys = [''ModelRatio'', ''CompletionRatio'', ''CacheRatio'', ''CreateCacheRatio'', ''ImageRatio'', ''AudioRatio'',
     ''AudioCompletionRatio'']"

definition getLocalBillingCategory :: "(string \<times> jsval) list \<Rightarrow> string \<Rightarrow> unit + category option" where
  "getLocalBillingCategory cur model =
     (case any_defined cur [''ModelPrice''] model of
        Inl e \<Rightarrow> Inl e
      | Inr True \<Rightarrow> Inr (Some PriceCat)
      | Inr False \<Rightarrow> (case any_defined cur ratioOptionKeys model of
                        Inl e \<Rightarrow> Inl e | Inr b \<Rightarrow> Inr (if b then Some RatioCat else None)))"

definition new_category :: "jsobj \<Rightarrow> category" where
  "new_category ratios = (if obj_has ''model_price'' ratios then PriceCat
     else if list_ex (\<lambda>rt. obj_has rt ratios) ratioSyncFields then RatioCat else TieredCat)"

text \<open>The source of a value; \<open>None\<close> is the text for "unknown".\<close>

definition findSourceChannel :: "diffs \<Rightarrow> string \<Rightarrow> string \<Rightarrow> jsval \<Rightarrow> string option" where
  "findSourceChannel differences model ratioType value =
     (case obj_get ratioType (obj_or [] model differences) of
        None \<Rightarrow> None
      | Some item \<Rightarrow> map_option fst (find (\<lambda>(_, v). strict_eq v value) (di_upstreams item)))"

datatype price_desc = FixedDesc jsval | RatioDesc jsval jsval

record conflict_item =
  ci_channels :: "string option list"
  ci_model :: string
  ci_current :: price_desc
  ci_new :: price_desc

definition dash :: jsval where "dash = JStr ''-''"

definition conflict_of :: "diffs \<Rightarrow> (string \<times> jsval) list \<Rightarrow> string \<times> jsobj \<Rightarrow> unit + conflict_item list" where
  "conflict_of differences cur p =
     (let model = fst p; ratios = snd p; newCat = new_category ratios;
          rd = (\<lambda>k. case read_key cur k model of Inr v \<Rightarrow> v | Inl _ \<Rightarrow> JUndef);
          item = (\<lambda>localCat. \<lparr>ci_channels = js_set (map (\<lambda>(rt, v). findSourceChannel differences model rt v) ratios),
             ci_model = model,
             ci_current = (if localCat = PriceCat then FixedDesc (rd ''ModelPrice'')
                else RatioDesc (js_coalesce (rd ''ModelRatio'') dash) (js_coalesce (rd ''CompletionRatio'') dash)),
             ci_new = (if newCat = PriceCat then FixedDesc (obj_or JUndef ''model_price'' ratios)
                else RatioDesc (js_coalesce (obj_or JUndef ''model_ratio'' ratios) dash)
                       (js_coalesce (obj_or JUndef ''completion_ratio'' ratios) dash))\<rparr>)
      in case getLocalBillingCategory cur model of
           Inl e \<Rightarrow> Inl e
         | Inr None \<Rightarrow> Inr []
         | Inr (Some localCat) \<Rightarrow>
             if newCat \<noteq> TieredCat \<and> localCat \<noteq> newCat then
               (if localCat = RatioCat \<and> nullish (obj_or JUndef ''CompletionRatio'' cur) then Inl () else Inr [item localCat])
             else Inr [])"

definition conflicts_of :: "diffs \<Rightarrow> (string \<times> jsval) list \<Rightarrow> resolutions \<Rightarrow> unit + conflict_item list" where
  "conflicts_of differences cur res =
     (case map_sum_list (conflict_of differences cur) res of Inl e \<Rightarrow> Inl e | Inr cs \<Rightarrow> Inr (concat cs))"

section \<open>The new options\<close>

type_synonym finals = "(string \<times> jsobj) list"

definition copy_ratios :: "(string \<times> jsval) list \<Rightarrow> finals" where
  "copy_ratios cur = map (\<lambda>(k, v). (k, spread_of v)) cur"

definition del_entry :: "string \<Rightarrow> string \<Rightarrow> finals \<Rightarrow> finals" where
  "del_entry model key fin = map (\<lambda>(k, ps). if k = key then (k, obj_del model ps) else (k, ps)) fin"

definition put_entry :: "string \<Rightarrow> string \<Rightarrow> jsval \<Rightarrow> finals \<Rightarrow> unit + finals" where
  "put_entry model key v fin =
     (if obj_has key fin then Inr (map (\<lambda>(k, ps). if k = key then (k, obj_set model v ps) else (k, ps)) fin) else Inl ())"

text \<open>\<open>parseFloat(value)\<close> for the numeric fields.\<close>

definition synced_value :: "string \<Rightarrow> jsval \<Rightarrow> jsval" where
  "synced_value ratioType v = (if ratioType \<in> set numericSyncFields then JNum (parse_float (js_string v)) else v)"

fun put_fields :: "string \<Rightarrow> jsobj \<Rightarrow> finals \<Rightarrow> unit + finals" where
  "put_fields model [] fin = Inr fin"
| "put_fields model ((rt, v) # rest) fin =
     (case put_entry model (optionKeyBySyncField rt) (synced_value rt v) fin of
        Inl e \<Rightarrow> Inl e | Inr fin' \<Rightarrow> put_fields model rest fin')"

definition clear_other :: "string \<Rightarrow> jsobj \<Rightarrow> finals \<Rightarrow> finals" where
  "clear_other model ratios fin =
     (let selectedTypes = map fst ratios;
          f1 = (if ''model_price'' \<in> set selectedTypes then fold (del_entry model) ratioOptionKeys fin else fin)
      in if list_ex (\<lambda>rt. rt \<in> set ratioSyncFields) selectedTypes then del_entry model ''ModelPrice'' f1 else f1)"

fun apply_resolutions :: "resolutions \<Rightarrow> finals \<Rightarrow> unit + finals" where
  "apply_resolutions [] fin = Inr fin"
| "apply_resolutions ((model, ratios) # rest) fin =
     (case put_fields model ratios (clear_other model ratios fin) of
        Inl e \<Rightarrow> Inl e | Inr fin' \<Rightarrow> apply_resolutions rest fin')"

definition sync_requests :: "finals \<Rightarrow> (string \<times> string) list" where
  "sync_requests fin = map (\<lambda>(key, ps). (key, json_pretty (JObj ps))) fin"

section \<open>State\<close>

datatype sync_toast = ChannelsDenied string | ChannelsFailed string | NeedChannel | FetchDenied string | NoAnswerText
  | TestsFailed "(string \<times> string) list" | NoDifferences | FetchFailed string | Syncing | SyncDone | SyncPartly | SyncFailed

record rs_state =
  rs_modalVisible :: bool
  rs_loading :: bool
  rs_syncLoading :: bool
  rs_confirmLoading :: bool
  rs_allChannels :: "sync_channel list"
  rs_selectedChannelIds :: "int list"
  rs_channelEndpoints :: "int \<Rightarrow> string option"
  rs_differences :: diffs
  rs_resolutions :: resolutions
  rs_hasSynced :: bool
  rs_currentPage :: nat
  rs_pageSize :: nat
  rs_searchKeyword :: string
  rs_ratioTypeFilter :: string
  rs_confirmVisible :: bool
  rs_conflictItems :: "conflict_item list"
  rs_toasts :: "sync_toast list"

definition initial_sync :: rs_state where
  "initial_sync = \<lparr>rs_modalVisible = False, rs_loading = False, rs_syncLoading = False, rs_confirmLoading = False,
     rs_allChannels = [], rs_selectedChannelIds = [], rs_channelEndpoints = (\<lambda>_. None), rs_differences = [], rs_resolutions = [],
     rs_hasSynced = False, rs_currentPage = 1, rs_pageSize = 10, rs_searchKeyword = [], rs_ratioTypeFilter = [],
     rs_confirmVisible = False, rs_conflictItems = [], rs_toasts = []\<rparr>"

definition sync_toast :: "sync_toast \<Rightarrow> rs_state \<Rightarrow> rs_state" where
  "sync_toast t s = s\<lparr>rs_toasts := rs_toasts s @ [t]\<rparr>"

text \<open>The controls of the page are disabled while this holds.\<close>

definition sync_busy :: "rs_state \<Rightarrow> bool" where
  "sync_busy s \<longleftrightarrow> rs_loading s \<or> rs_syncLoading s \<or> rs_confirmLoading s"

definition sync_rows :: "rs_state \<Rightarrow> sync_row list" where
  "sync_rows s = filteredDataSource (rs_searchKeyword s) (rs_ratioTypeFilter s) (rs_differences s)"

definition getCurrentPageData :: "rs_state \<Rightarrow> sync_row list" where
  "getCurrentPageData s = take (rs_pageSize s) (drop ((rs_currentPage s - 1) * rs_pageSize s) (sync_rows s))"

section \<open>Channels\<close>

definition OFFICIAL_RATIO_PRESET_ID :: int where "OFFICIAL_RATIO_PRESET_ID = - 100"
definition OFFICIAL_RATIO_PRESET_BASE_URL :: string where "OFFICIAL_RATIO_PRESET_BASE_URL = ''https://basellm.github.io''"
definition OFFICIAL_RATIO_PRESET_ENDPOINT :: string where
  "OFFICIAL_RATIO_PRESET_ENDPOINT = ''/llm-metadata/api/newapi/ratio_config-v1-base.json''"
definition MODELS_DEV_PRESET_ID :: int where "MODELS_DEV_PRESET_ID = - 101"
definition MODELS_DEV_PRESET_BASE_URL :: string where "MODELS_DEV_PRESET_BASE_URL = ''https://models.dev''"
definition MODELS_DEV_PRESET_ENDPOINT :: string where "MODELS_DEV_PRESET_ENDPOINT = ''https://models.dev/api.json''"
definition DEFAULT_ENDPOINT :: string where "DEFAULT_ENDPOINT = ''/api/pricing''"

definition preset_endpoint :: "string \<Rightarrow> string \<Rightarrow> sync_channel \<Rightarrow> string" where
  "preset_endpoint official_name models_dev_name ch =
     (if ch_id ch = MODELS_DEV_PRESET_ID \<or> ch_base_url ch = MODELS_DEV_PRESET_BASE_URL \<or> ch_name ch = models_dev_name
      then MODELS_DEV_PRESET_ENDPOINT
      else if ch_id ch = OFFICIAL_RATIO_PRESET_ID \<or> ch_base_url ch = OFFICIAL_RATIO_PRESET_BASE_URL \<or> ch_name ch = official_name
      then OFFICIAL_RATIO_PRESET_ENDPOINT
      else if ch_type ch = 20 then ''openrouter'' else DEFAULT_ENDPOINT)"

definition has_endpoint :: "(int \<Rightarrow> string option) \<Rightarrow> int \<Rightarrow> bool" where
  "has_endpoint m i \<longleftrightarrow> m i \<noteq> None \<and> m i \<noteq> Some []"

definition merge_endpoints :: "string \<Rightarrow> string \<Rightarrow> sync_channel list \<Rightarrow> (int \<Rightarrow> string option) \<Rightarrow> int \<Rightarrow> string option" where
  "merge_endpoints official_name models_dev_name chs prev =
     fold (\<lambda>ch m. if has_endpoint m (ch_id ch) then m else m(ch_id ch \<mapsto> preset_endpoint official_name models_dev_name ch)) chs prev"

definition open_modal :: "rs_state \<Rightarrow> rs_state" where
  "open_modal s = (let s1 = s\<lparr>rs_modalVisible := True\<rparr> in if rs_allChannels s = [] then s1\<lparr>rs_loading := True\<rparr> else s1)"

definition fetchAllChannels_end :: "string \<Rightarrow> string \<Rightarrow> sync_channel list option reply \<Rightarrow> rs_state \<Rightarrow> rs_state" where
  "fetchAllChannels_end official_name models_dev_name res s =
     (case res of
        Granted data \<Rightarrow> (let chs = (case data of Some xs \<Rightarrow> xs | None \<Rightarrow> []) in
          s\<lparr>rs_allChannels := chs,
            rs_channelEndpoints := merge_endpoints official_name models_dev_name chs (rs_channelEndpoints s)\<rparr>)
      | Refused msg \<Rightarrow> sync_toast (ChannelsDenied msg) s
      | Thrown msg \<Rightarrow> sync_toast (ChannelsFailed msg) s)\<lparr>rs_loading := False\<rparr>"

definition updateChannelEndpoint :: "int \<Rightarrow> string \<Rightarrow> rs_state \<Rightarrow> rs_state" where
  "updateChannelEndpoint i e s = s\<lparr>rs_channelEndpoints := (rs_channelEndpoints s)(i \<mapsto> e)\<rparr>"

record upstream_request =
  ur_id :: int
  ur_name :: string
  ur_base_url :: string
  ur_endpoint :: string

definition upstream_request_of :: "(int \<Rightarrow> string option) \<Rightarrow> sync_channel \<Rightarrow> upstream_request" where
  "upstream_request_of endpoints ch = \<lparr>ur_id = ch_id ch, ur_name = ch_name ch, ur_base_url = ch_base_url ch,
     ur_endpoint = (case endpoints (ch_id ch) of Some e \<Rightarrow> if e = [] then DEFAULT_ENDPOINT else e | None \<Rightarrow> DEFAULT_ENDPOINT)\<rparr>"

text \<open>The request to \<open>/api/ratio_sync/fetch\<close>, if one is sent.\<close>

definition confirmChannelSelection :: "rs_state \<Rightarrow> upstream_request list option \<times> rs_state" where
  "confirmChannelSelection s =
     (let selected = filter (\<lambda>ch. ch_id ch \<in> set (rs_selectedChannelIds s)) (rs_allChannels s) in
      if selected = [] then (None, sync_toast NeedChannel s)
      else (Some (map (upstream_request_of (rs_channelEndpoints s)) selected),
            s\<lparr>rs_modalVisible := False, rs_syncLoading := True\<rparr>))"

definition fetchRatios_end :: "(diffs \<times> test_result list) reply \<Rightarrow> rs_state \<Rightarrow> rs_state" where
  "fetchRatios_end res s =
     (case res of
        Refused msg \<Rightarrow> sync_toast (if msg = [] then NoAnswerText else FetchDenied msg) s
      | Thrown msg \<Rightarrow> sync_toast (FetchFailed msg) s
      | Granted (differences, test_results) \<Rightarrow>
          let errorResults = filter (\<lambda>r. tr_status r = ''error'') test_results;
              s1 = (if errorResults \<noteq> [] then sync_toast (TestsFailed (map (\<lambda>r. (tr_name r, tr_error r)) errorResults)) s else s);
              s2 = s1\<lparr>rs_differences := differences, rs_resolutions := [], rs_hasSynced := True\<rparr>
          in if differences = [] then sync_toast NoDifferences s2 else s2)\<lparr>rs_syncLoading := False\<rparr>"

section \<open>Applying\<close>

text \<open>\<open>performSync\<close> up to its \<open>await\<close>: an exception, or the requests.\<close>

definition performSync_begin :: "(string \<times> jsval) list \<Rightarrow> rs_state \<Rightarrow> unit + (string \<times> string) list \<times> rs_state" where
  "performSync_begin cur s =
     (case apply_resolutions (rs_resolutions s) (copy_ratios cur) of
        Inl e \<Rightarrow> Inl e
      | Inr fin \<Rightarrow> Inr (sync_requests fin, sync_toast Syncing (s\<lparr>rs_loading := True\<rparr>)))"

text \<open>The fields written are no longer differences.\<close>

definition drop_field :: "string \<Rightarrow> string \<Rightarrow> diffs \<Rightarrow> diffs" where
  "drop_field model rt ds =
     (case obj_get model ds of
        None \<Rightarrow> ds
      | Some fs \<Rightarrow>
          if obj_has rt fs then
            (let fs' = obj_del rt fs in if fs' = [] then obj_del model ds else obj_set model fs' ds)
          else ds)"

definition drop_resolved :: "resolutions \<Rightarrow> diffs \<Rightarrow> diffs" where
  "drop_resolved res ds = fold (\<lambda>(model, ratios) d. fold (drop_field model) (map fst ratios) d) res ds"

text \<open>The rest of \<open>performSync\<close>; \<open>res\<close> are the choices it was called with, \<open>None\<close> a rejected request.\<close>

definition performSync_end :: "resolutions \<Rightarrow> bool list option \<Rightarrow> rs_state \<Rightarrow> rs_state \<times> bool" where
  "performSync_end res answers s =
     (case answers of
        None \<Rightarrow> ((sync_toast SyncFailed s)\<lparr>rs_loading := False\<rparr>, False)
      | Some oks \<Rightarrow>
          if list_all (\<lambda>ok. ok) oks
          then ((sync_toast SyncDone s)\<lparr>rs_differences := drop_resolved res (rs_differences s), rs_resolutions := [], rs_loading := False\<rparr>, True)
          else ((sync_toast SyncPartly s)\<lparr>rs_loading := False\<rparr>, False))"

text \<open>What \<open>applySync\<close> does: it throws, asks for confirmation, or sends the requests.\<close>

datatype sync_outcome = SyncThrows | AskConfirm rs_state | SendSync "(string \<times> string) list" rs_state

definition applySync :: "pr_options \<Rightarrow> rs_state \<Rightarrow> sync_outcome" where
  "applySync options s =
     (case currentRatios options of
        Inl e \<Rightarrow> SyncThrows
      | Inr cur \<Rightarrow>
          (case conflicts_of (rs_differences s) cur (rs_resolutions s) of
             Inl e \<Rightarrow> SyncThrows
           | Inr conflicts \<Rightarrow>
               if conflicts \<noteq> [] then AskConfirm (s\<lparr>rs_conflictItems := conflicts, rs_confirmVisible := True\<rparr>)
               else (case performSync_begin cur s of Inl e \<Rightarrow> SyncThrows | Inr (reqs, s') \<Rightarrow> SendSync reqs s')))"

text \<open>Confirming: the dialogue's \<open>onOk\<close> before and after the requests. The options are parsed outside its \<open>try\<close>, so that a
  text that is no JSON leaves the dialogue loading; an exception of \<open>performSync\<close> passes its \<open>finally\<close>.\<close>

definition confirm_begin :: "pr_options \<Rightarrow> rs_state \<Rightarrow> (string \<times> string) list \<times> rs_state" where
  "confirm_begin options s =
     (let s1 = s\<lparr>rs_confirmLoading := True\<rparr> in
      case currentRatios options of
        Inl e \<Rightarrow> ([], s1)
      | Inr cur \<Rightarrow> (case performSync_begin cur s1 of
                      Inl e \<Rightarrow> ([], s1\<lparr>rs_confirmLoading := False\<rparr>)
                    | Inr (reqs, s2) \<Rightarrow> (reqs, s2)))"

definition confirm_end :: "resolutions \<Rightarrow> bool list option \<Rightarrow> rs_state \<Rightarrow> rs_state" where
  "confirm_end res answers s =
     (let (s1, success) = performSync_end res answers s; s2 = (if success then s1\<lparr>rs_confirmVisible := False\<rparr> else s1)
      in s2\<lparr>rs_confirmLoading := False\<rparr>)"

section \<open>The channel dialogue\<close>

record selector_state =
  ss_searchText :: string
  ss_currentPage :: nat
  ss_pageSize :: nat

definition initial_selector :: selector_state where
  "initial_selector = \<lparr>ss_searchText = [], ss_currentPage = 1, ss_pageSize = 10\<rparr>"

definition resetPagination :: "selector_state \<Rightarrow> selector_state" where
  "resetPagination s = s\<lparr>ss_currentPage := 1, ss_searchText := []\<rparr>"

definition isOfficialChannel :: "string \<Rightarrow> string \<Rightarrow> sync_channel \<Rightarrow> bool" where
  "isOfficialChannel official_name models_dev_name ch \<longleftrightarrow>
     ch_id ch = OFFICIAL_RATIO_PRESET_ID \<or> ch_id ch = MODELS_DEV_PRESET_ID
     \<or> ch_base_url ch = OFFICIAL_RATIO_PRESET_BASE_URL \<or> ch_base_url ch = MODELS_DEV_PRESET_BASE_URL
     \<or> ch_name ch = official_name \<or> ch_name ch = models_dev_name"

definition filteredData :: "string \<Rightarrow> string \<Rightarrow> sync_channel list \<Rightarrow> selector_state \<Rightarrow> sync_channel list" where
  "filteredData official_name models_dev_name chs s =
     (let searchLower = to_lower (trim (ss_searchText s));
          matched = (if searchLower \<noteq> []
            then filter (\<lambda>ch. str_includes searchLower (to_lower (ch_name ch)) \<or> str_includes searchLower (to_lower (ch_base_url ch))) chs
            else chs);
          weight = (\<lambda>ch. if isOfficialChannel official_name models_dev_name ch then 0 else 1 :: nat)
      in sort_by (\<lambda>a b. weight a \<le> weight b) matched)"

definition paginatedData :: "string \<Rightarrow> string \<Rightarrow> sync_channel list \<Rightarrow> selector_state \<Rightarrow> sync_channel list" where
  "paginatedData official_name models_dev_name chs s =
     take (ss_pageSize s) (drop ((ss_currentPage s - 1) * ss_pageSize s) (filteredData official_name models_dev_name chs s))"

definition getEndpointType :: "string \<Rightarrow> string" where
  "getEndpointType ep =
     (if ep = ''/api/ratio_config'' then ''ratio_config'' else if ep = ''/api/pricing'' then ''pricing''
      else if ep = ''openrouter'' then ''openrouter'' else ''custom'')"

definition handleTypeChange :: "int \<Rightarrow> string \<Rightarrow> rs_state \<Rightarrow> rs_state" where
  "handleTypeChange channelId val s =
     (let currentType = getEndpointType (case rs_channelEndpoints s channelId of Some e \<Rightarrow> e | None \<Rightarrow> []) in
      if val = ''ratio_config'' then updateChannelEndpoint channelId ''/api/ratio_config'' s
      else if val = ''pricing'' then updateChannelEndpoint channelId ''/api/pricing'' s
      else if val = ''openrouter'' then updateChannelEndpoint channelId ''openrouter'' s
      else if currentType \<noteq> ''custom'' then updateChannelEndpoint channelId [] s else s)"

text \<open>Closing the dialogue resets its search and page; the choice of channels stays.\<close>

definition handleModalClose :: "rs_state \<Rightarrow> selector_state \<Rightarrow> rs_state \<times> selector_state" where
  "handleModalClose s sel = (s\<lparr>rs_modalVisible := False\<rparr>, resetPagination sel)"

end
