(* ===== verification/JsObjectFacts.thy ===== *)
theory JsObjectFacts
  imports JsValue
begin

text \<open>Facts on objects as lists of properties that several components share: reading, membership and predicates on all properties
  after setting and deleting, and the values of \<open>new Set\<close>.\<close>

lemma obj_has_get: "obj_has k ps \<longleftrightarrow> obj_get k ps \<noteq> None"
  by (induction ps) (auto simp: obj_has_def obj_get_def)

lemma obj_get_Nil [simp]: "obj_get k [] = None"
  by (simp add: obj_get_def)

lemma obj_get_Cons: "obj_get k ((j, v) # ps) = (if k = j then Some v else obj_get k ps)"
  by (simp add: obj_get_def)

lemma obj_or_set: "obj_or d j (obj_set k v ps) = (if j = k then v else obj_or d j ps)"
  by (simp add: obj_or_def obj_get_set)

lemma obj_get_map_val:
  "obj_get key (map (\<lambda>(k, ps). if k = j then (k, f ps) else (k, ps)) fin) =
     (if key = j then map_option f (obj_get key fin) else obj_get key fin)"
  unfolding obj_get_def by (induction fin) (auto split: prod.splits)

lemma set_obj_set: "set (obj_set k v ps) \<subseteq> insert (k, v) (set ps)"
  by (auto simp: obj_set_def set_obj_ins_index split: if_splits prod.splits)

lemma list_all_obj_set: "P (k, v) \<Longrightarrow> list_all P ps \<Longrightarrow> list_all P (obj_set k v ps)"
  using set_obj_set[of k v ps] by (auto simp: list_all_iff)

lemma list_all_obj_del: "list_all P ps \<Longrightarrow> list_all P (obj_del k ps)"
  by (auto simp: list_all_iff obj_del_def)

lemma obj_has_set [simp]: "obj_has j (obj_set k v ps) \<longleftrightarrow> j = k \<or> obj_has j ps"
  by (simp add: obj_has_get obj_get_set)

lemma obj_has_del [simp]: "obj_has j (obj_del k ps) \<longleftrightarrow> j \<noteq> k \<and> obj_has j ps"
  by (simp add: obj_has_get obj_get_del)

lemma obj_set_not_Nil [simp]: "obj_set k v ps \<noteq> []"
  using obj_has_set[of k k v ps] by (auto simp: obj_has_def)

lemma obj_ok_filter: "obj_ok ps \<Longrightarrow> obj_ok (filter P ps)"
  by (simp add: obj_ok_def distinct_map_filter)

lemma obj_get_in: "obj_get k ps = Some v \<Longrightarrow> (k, v) \<in> set ps"
  by (simp add: obj_get_def map_of_SomeD)

lemma obj_get_of_mem: "obj_ok ps \<Longrightarrow> (k, v) \<in> set ps \<Longrightarrow> obj_get k ps = Some v"
  by (simp add: obj_get_def obj_ok_def)

lemma js_set_elems [simp]: "set (js_set xs) = set xs" "distinct (js_set xs)"
  by (simp_all add: js_set_def)

lemma js_set_id: "distinct xs \<Longrightarrow> js_set xs = xs"
  by (simp add: js_set_def distinct_remdups_id)

end
