(* ===== verification/RatioSyncFacts.thy ===== *)
theory RatioSyncFacts
  imports RatioSyncState JsObjectFacts
begin

text \<open>
  What a synchronisation writes. The ten options are a table of values by field and model; \<open>apply_resolutions\<close>, which works
  on the option objects, is shown to be the update \<open>table_sync\<close> of that table, and the texts sent are read back by the
  pricing page.
\<close>

section \<open>The table\<close>

definition cell_of :: "finals \<Rightarrow> string \<Rightarrow> string \<Rightarrow> jsval option" where
  "cell_of fin key model = Option.bind (obj_get key fin) (obj_get model)"

lemma cell_of_del: "cell_of (del_entry m k fin) key model = (if key = k \<and> model = m then None else cell_of fin key model)"
  by (auto simp: cell_of_def del_entry_def obj_get_map_val obj_get_del split: option.splits bind_split)

lemma keys_del [simp]: "map fst (del_entry m k fin) = map fst fin"
  by (induction fin) (auto simp: del_entry_def)

lemma put_entry_ok:
  assumes "k \<in> set (map fst fin)"
  obtains fin' where "put_entry m k v fin = Inr fin'" "map fst fin' = map fst fin"
    "\<And>key model. cell_of fin' key model = (if key = k \<and> model = m then Some v else cell_of fin key model)"
proof -
  let ?fin = "map (\<lambda>(j, ps). if j = k then (j, obj_set m v ps) else (j, ps)) fin"
  have has: "obj_has k fin" using assms by (simp add: obj_has_def)
  then have "put_entry m k v fin = Inr ?fin" by (simp add: put_entry_def)
  moreover have "map fst ?fin = map fst fin" by (induction fin) auto
  moreover have "cell_of ?fin key model = (if key = k \<and> model = m then Some v else cell_of fin key model)" for key model
    using has by (auto simp: cell_of_def obj_get_map_val obj_get_set obj_has_get)
  ultimately show thesis by (rule that)
qed

lemma keys_fold_del [simp]: "map fst (fold (del_entry m) ks fin) = map fst fin"
  by (induction ks arbitrary: fin) auto

lemma cell_of_fold_del:
  "cell_of (fold (del_entry m) ks fin) key model = (if key \<in> set ks \<and> model = m then None else cell_of fin key model)"
  by (induction ks arbitrary: fin) (auto simp: cell_of_del)

section \<open>Fields and option keys\<close>

lemma field_keys:
  "map optionKeyBySyncField ratioSyncFields = ratioOptionKeys"
  "map optionKeyBySyncField syncFieldOrder = sync_option_keys"
  "optionKeyBySyncField ''model_price'' = ''ModelPrice''"
  by code_simp+

lemma key_inj: "f \<in> set syncFieldOrder \<Longrightarrow> g \<in> set syncFieldOrder \<Longrightarrow>
    optionKeyBySyncField f = optionKeyBySyncField g \<longleftrightarrow> f = g"
proof -
  have "distinct sync_option_keys" by code_simp
  then have "inj_on optionKeyBySyncField (set syncFieldOrder)"
    using field_keys(2) by (metis distinct_map)
  then show "f \<in> set syncFieldOrder \<Longrightarrow> g \<in> set syncFieldOrder \<Longrightarrow> ?thesis" by (auto dest: inj_onD)
qed

lemma key_in: "f \<in> set syncFieldOrder \<Longrightarrow> optionKeyBySyncField f \<in> set sync_option_keys"
  using field_keys(2) by (metis image_eqI list.set_map)

lemma ratio_fields_sub: "set ratioSyncFields \<subseteq> set syncFieldOrder" "''model_price'' \<in> set syncFieldOrder"
  "''model_price'' \<notin> set ratioSyncFields"
  by (auto simp: syncFieldOrder_def ratioSyncFields_def)

lemma ratio_key_iff: "f \<in> set syncFieldOrder \<Longrightarrow> optionKeyBySyncField f \<in> set ratioOptionKeys \<longleftrightarrow> f \<in> set ratioSyncFields"
  using field_keys(1) key_inj ratio_fields_sub(1) by (metis (no_types, lifting) imageE image_eqI list.set_map subsetD)

lemma price_key_iff: "f \<in> set syncFieldOrder \<Longrightarrow> optionKeyBySyncField f = ''ModelPrice'' \<longleftrightarrow> f = ''model_price''"
  using key_inj[of f "''model_price''"] field_keys(3) ratio_fields_sub(2) by simp

section \<open>Writing the chosen values\<close>

definition known_fields :: "jsobj \<Rightarrow> bool" where
  "known_fields ratios \<longleftrightarrow> obj_ok ratios \<and> list_all (\<lambda>p. fst p \<in> set syncFieldOrder) ratios"

lemma put_fields_ok:
  assumes "known_fields ratios" "map fst fin = sync_option_keys"
  shows "\<exists>fin'. put_fields m ratios fin = Inr fin' \<and> map fst fin' = sync_option_keys \<and>
    (\<forall>f\<in>set syncFieldOrder. \<forall>model. cell_of fin' (optionKeyBySyncField f) model =
       (if model = m \<and> obj_has f ratios then map_option (synced_value f) (obj_get f ratios)
        else cell_of fin (optionKeyBySyncField f) model))"
  using assms
proof (induction ratios arbitrary: fin)
  case (Cons p ratios)
  obtain rt v where p: "p = (rt, v)" by force
  have rt: "rt \<in> set syncFieldOrder" and kf: "known_fields ratios" and fresh: "\<not> obj_has rt ratios"
    using Cons.prems(1) p by (auto simp: known_fields_def obj_ok_def obj_has_def)
  have kin: "optionKeyBySyncField rt \<in> set (map fst fin)" using key_in[OF rt] Cons.prems(2) by simp
  obtain fin1 where f1: "put_entry m (optionKeyBySyncField rt) (synced_value rt v) fin = Inr fin1"
      "map fst fin1 = map fst fin"
      "\<And>key model. cell_of fin1 key model = (if key = optionKeyBySyncField rt \<and> model = m then Some (synced_value rt v) else cell_of fin key model)"
    using put_entry_ok[OF kin] by blast
  have k1: "map fst fin1 = sync_option_keys" using f1(2) Cons.prems(2) by simp
  obtain fin' where f': "put_fields m ratios fin1 = Inr fin'" "map fst fin' = sync_option_keys"
      "\<forall>f\<in>set syncFieldOrder. \<forall>model. cell_of fin' (optionKeyBySyncField f) model =
       (if model = m \<and> obj_has f ratios then map_option (synced_value f) (obj_get f ratios)
        else cell_of fin1 (optionKeyBySyncField f) model)"
    using Cons.IH[OF kf k1] by blast
  have "put_fields m (p # ratios) fin = Inr fin'" using p f1(1) f'(1) by simp
  moreover have "cell_of fin' (optionKeyBySyncField f) model =
       (if model = m \<and> obj_has f (p # ratios) then map_option (synced_value f) (obj_get f (p # ratios))
        else cell_of fin (optionKeyBySyncField f) model)" if "f \<in> set syncFieldOrder" for f model
  proof -
    have r: "cell_of fin' (optionKeyBySyncField f) model = (if model = m \<and> obj_has f ratios
        then map_option (synced_value f) (obj_get f ratios) else cell_of fin1 (optionKeyBySyncField f) model)"
      using f'(3) that by blast
    have c: "cell_of fin1 (optionKeyBySyncField f) model =
        (if f = rt \<and> model = m then Some (synced_value rt v) else cell_of fin (optionKeyBySyncField f) model)"
      using f1(3) key_inj[OF that rt] by simp
    show ?thesis unfolding r c p using fresh
      by (cases "f = rt"; cases "obj_get f ratios") (simp_all add: obj_get_Cons obj_has_get)
  qed
  ultimately show ?case using f'(2) by blast
qed (auto simp: obj_has_def)

text \<open>The fields of a model that a choice for it makes obsolete.\<close>

definition superseded :: "jsobj \<Rightarrow> string \<Rightarrow> bool" where
  "superseded ratios f \<longleftrightarrow> f \<in> set ratioSyncFields \<and> obj_has ''model_price'' ratios
     \<or> f = ''model_price'' \<and> list_ex (\<lambda>rt. obj_has rt ratios) ratioSyncFields"

lemma clear_other_ok:
  assumes "known_fields ratios" "f \<in> set syncFieldOrder"
  shows "cell_of (clear_other m ratios fin) (optionKeyBySyncField f) model =
     (if model = m \<and> superseded ratios f then None else cell_of fin (optionKeyBySyncField f) model)"
proof -
  have ex: "list_ex (\<lambda>rt. rt \<in> set ratioSyncFields) (map fst ratios) \<longleftrightarrow> list_ex (\<lambda>rt. obj_has rt ratios) ratioSyncFields"
    unfolding list_ex_iff obj_has_def by blast
  have price: "''model_price'' \<in> set (map fst ratios) \<longleftrightarrow> obj_has ''model_price'' ratios" by (simp add: obj_has_def)
  show ?thesis
    unfolding clear_other_def Let_def superseded_def ex price
    by (simp only: cell_of_del cell_of_fold_del ratio_key_iff[OF assms(2)] price_key_iff[OF assms(2)] split: if_split) blast
qed

lemma clear_other_keys [simp]: "map fst (clear_other m ratios fin) = map fst fin"
  by (simp add: clear_other_def Let_def)

text \<open>The specification: a table of values by field and model.\<close>

type_synonym price_fields = "string \<Rightarrow> string \<Rightarrow> jsval option"

definition table_choose :: "string \<Rightarrow> jsobj \<Rightarrow> price_fields \<Rightarrow> price_fields" where
  "table_choose m ratios t f model =
     (if model = m then (case obj_get f ratios of
          Some v \<Rightarrow> Some (synced_value f v)
        | None \<Rightarrow> if superseded ratios f then None else t f model)
      else t f model)"

definition table_sync :: "resolutions \<Rightarrow> price_fields \<Rightarrow> price_fields" where
  "table_sync res t = fold (\<lambda>(m, ratios). table_choose m ratios) res t"

definition table_of :: "finals \<Rightarrow> price_fields" where
  "table_of fin f model = (if f \<in> set syncFieldOrder then cell_of fin (optionKeyBySyncField f) model else None)"

lemma table_step:
  assumes "known_fields ratios" "map fst fin = sync_option_keys"
  shows "\<exists>fin'. put_fields m ratios (clear_other m ratios fin) = Inr fin' \<and> map fst fin' = sync_option_keys \<and>
    table_of fin' = table_choose m ratios (table_of fin)"
proof -
  have keys: "map fst (clear_other m ratios fin) = sync_option_keys" using assms(2) by simp
  obtain fin' where f: "put_fields m ratios (clear_other m ratios fin) = Inr fin'" "map fst fin' = sync_option_keys"
    "\<forall>f\<in>set syncFieldOrder. \<forall>model. cell_of fin' (optionKeyBySyncField f) model =
       (if model = m \<and> obj_has f ratios then map_option (synced_value f) (obj_get f ratios)
        else cell_of (clear_other m ratios fin) (optionKeyBySyncField f) model)"
    using put_fields_ok[OF assms(1) keys] by blast
  have unknown: "obj_get f ratios = None \<and> \<not> superseded ratios f" if "f \<notin> set syncFieldOrder" for f
    using assms(1) that ratio_fields_sub
    by (auto simp: known_fields_def list_all_iff superseded_def obj_get_def map_of_eq_None_iff)
  have "table_of fin' f model = table_choose m ratios (table_of fin) f model" for f model
  proof (cases "f \<in> set syncFieldOrder")
    case True
    then show ?thesis using f(3) clear_other_ok[OF assms(1) True]
      by (auto simp: table_of_def table_choose_def obj_has_get split: option.splits)
  next
    case False
    then show ?thesis using unknown[OF False] by (simp add: table_of_def table_choose_def)
  qed
  then show ?thesis using f(1,2) by blast
qed

definition known_resolutions :: "resolutions \<Rightarrow> bool" where
  "known_resolutions res \<longleftrightarrow> list_all (\<lambda>p. known_fields (snd p)) res"

lemma apply_resolutions_ok:
  assumes "known_resolutions res" "map fst fin = sync_option_keys"
  shows "\<exists>fin'. apply_resolutions res fin = Inr fin' \<and> map fst fin' = sync_option_keys \<and>
    table_of fin' = table_sync res (table_of fin)"
  using assms
proof (induction res arbitrary: fin)
  case (Cons p res)
  obtain m ratios where p: "p = (m, ratios)" by force
  have kf: "known_fields ratios" and kr: "known_resolutions res"
    using Cons.prems(1) p by (auto simp: known_resolutions_def)
  obtain fin1 where f1: "put_fields m ratios (clear_other m ratios fin) = Inr fin1" "map fst fin1 = sync_option_keys"
    "table_of fin1 = table_choose m ratios (table_of fin)"
    using table_step[OF kf Cons.prems(2)] by blast
  then show ?case using Cons.IH[OF kr f1(2)] p by (simp add: table_sync_def)
qed (simp add: table_sync_def)

lemma table_sync_at:
  "obj_ok res \<Longrightarrow> table_sync res t f model =
     (case obj_get model res of None \<Rightarrow> t f model | Some ratios \<Rightarrow> table_choose model ratios t f model)"
proof (induction res arbitrary: t)
  case (Cons p res)
  obtain m ratios where p: "p = (m, ratios)" by force
  have ok: "obj_ok res" and fresh: "obj_get m res = None"
    using Cons.prems p by (auto simp: obj_ok_def obj_get_def map_of_eq_None_iff)
  have "table_sync (p # res) t f model = table_sync res (table_choose m ratios t) f model"
    using p by (simp add: table_sync_def)
  then show ?case using Cons.IH[OF ok] fresh p
    by (auto simp: obj_get_Cons table_choose_def split: option.splits)
qed (simp add: table_sync_def)

section \<open>Channels and endpoints\<close>

lemma preset_not_empty: "preset_endpoint official dev ch \<noteq> []"
  by (simp add: preset_endpoint_def MODELS_DEV_PRESET_ENDPOINT_def OFFICIAL_RATIO_PRESET_ENDPOINT_def DEFAULT_ENDPOINT_def)

lemma merge_keeps: "has_endpoint prev i \<Longrightarrow> merge_endpoints official dev chs prev i = prev i"
  unfolding merge_endpoints_def
proof (induction chs arbitrary: prev)
  case (Cons ch chs)
  then show ?case by (cases "has_endpoint prev (ch_id ch)"; cases "ch_id ch = i") (auto simp: has_endpoint_def)
qed simp

lemma merge_all: "ch \<in> set chs \<Longrightarrow> has_endpoint (merge_endpoints official dev chs prev) (ch_id ch)"
proof (induction chs arbitrary: prev)
  case (Cons c chs)
  let ?m = "if has_endpoint prev (ch_id c) then prev else prev(ch_id c \<mapsto> preset_endpoint official dev c)"
  have eq: "merge_endpoints official dev (c # chs) prev = merge_endpoints official dev chs ?m" by (simp add: merge_endpoints_def)
  have c: "has_endpoint ?m (ch_id c)" using preset_not_empty by (simp add: has_endpoint_def)
  show ?case
  proof (cases "ch \<in> set chs")
    case True
    then show ?thesis unfolding eq by (rule Cons.IH)
  next
    case False
    then have "ch = c" using Cons.prems by simp
    then show ?thesis unfolding eq using merge_keeps[OF c] c by (simp add: has_endpoint_def)
  qed
qed simp

lemma request_id: "ur_id (upstream_request_of eps ch) = ch_id ch"
  by (simp add: upstream_request_of_def)

lemma request_endpoint: "ur_endpoint (upstream_request_of eps ch) \<noteq> []"
  by (simp add: upstream_request_of_def DEFAULT_ENDPOINT_def split: option.split)

text \<open>When the channels have been loaded every channel has an endpoint, and an endpoint that was set before is kept; the request for
  the differences names exactly the ticked channels, each with an endpoint.\<close>

theorem sync_endpoints:
  "let s' = fetchAllChannels_end official dev (Granted (Some chs)) s in
     (\<forall>ch\<in>set chs. has_endpoint (rs_channelEndpoints s') (ch_id ch)) \<and>
     (\<forall>i. has_endpoint (rs_channelEndpoints s) i \<longrightarrow> rs_channelEndpoints s' i = rs_channelEndpoints s i) \<and>
     (case fst (confirmChannelSelection s') of
        None \<Rightarrow> set (rs_selectedChannelIds s) \<inter> ch_id ` set chs = {}
      | Some us \<Rightarrow> map ur_id us = filter (\<lambda>i. i \<in> set (rs_selectedChannelIds s)) (map ch_id chs) \<and> (\<forall>u\<in>set us. ur_endpoint u \<noteq> []))"
  by (auto simp: fetchAllChannels_end_def confirmChannelSelection_def Let_def merge_all merge_keeps filter_empty_conv request_endpoint
        filter_map comp_def request_id)

definition sample_channel :: sync_channel where
  "sample_channel = \<lparr>ch_id = 7, ch_name = ''north'', ch_base_url = ''https://north.example'', ch_status = 1, ch_type = 20\<rparr>"

theorem sync_endpoints_witness:
  "has_endpoint (rs_channelEndpoints (fetchAllChannels_end ''official'' ''dev'' (Granted (Some [sample_channel])) initial_sync)) 7"
  using sync_endpoints[of "''official''" "''dev''" "[sample_channel]" initial_sync] by (simp add: Let_def sample_channel_def)

lemma insert_by_early: "P x \<Longrightarrow> insert_by (\<lambda>a b. (if P a then 0 else 1 :: nat) \<le> (if P b then 0 else 1)) x ys = x # ys"
  by (cases ys) simp_all

lemma insert_by_late:
  "\<not> P x \<Longrightarrow> \<forall>y\<in>set xs. P y \<Longrightarrow> \<forall>y\<in>set ys. \<not> P y \<Longrightarrow>
   insert_by (\<lambda>a b. (if P a then 0 else 1 :: nat) \<le> (if P b then 0 else 1)) x (xs @ ys) = xs @ x # ys"
  by (induction xs) (auto, cases ys, auto)

text \<open>The dialogue lists the official channels first and keeps the order within both groups.\<close>

lemma official_first:
  "sort_by (\<lambda>a b. (if P a then 0 else 1 :: nat) \<le> (if P b then 0 else 1)) xs = filter P xs @ filter (\<lambda>x. \<not> P x) xs"
proof (induction xs)
  case (Cons x xs)
  let ?le = "\<lambda>a b. (if P a then 0 else 1 :: nat) \<le> (if P b then 0 else 1)"
  have eq: "sort_by ?le (x # xs) = insert_by ?le x (filter P xs @ filter (\<lambda>x. \<not> P x) xs)"
    unfolding Cons.IH[symmetric] by (simp only: sort_by_def foldr.simps comp_def)
  show ?case
  proof (cases "P x")
    case True
    show ?thesis unfolding eq insert_by_early[of P, OF True] using True by simp
  next
    case False
    have "insert_by ?le x (filter P xs @ filter (\<lambda>x. \<not> P x) xs) = filter P xs @ x # filter (\<lambda>x. \<not> P x) xs"
      by (rule insert_by_late[of P, OF False]) simp_all
    then show ?thesis unfolding eq using False by simp
  qed
qed (simp add: sort_by_def)

lemma filteredData_official:
  "set (filteredData official dev chs s) \<subseteq> set chs"
  "ss_searchText s = [] \<Longrightarrow> filteredData official dev chs s =
     filter (isOfficialChannel official dev) chs @ filter (\<lambda>ch. \<not> isOfficialChannel official dev ch) chs"
  by (auto simp: filteredData_def Let_def official_first trim_def to_lower_def trim_start_def)

end
