(* ===== verification/RatioSyncReach.thy ===== *)
theory RatioSyncReach
  imports RatioSyncFacts
begin

text \<open>
  The synchronisation page as a state machine. Every event of the page is a step; the backend's differences are assumed to have
  distinct keys, known fields and named sources. In every reachable state the choices are values the sources offer, fixed prices
  and ratios exclude each other, and an expression comes with its billing mode.
\<close>

section \<open>The step relation\<close>

definition fields_ok :: "fields \<Rightarrow> bool" where
  "fields_ok fs \<longleftrightarrow> obj_ok fs \<and> list_all (\<lambda>p. fst p \<in> set syncFieldOrder \<and> list_all (\<lambda>q. fst q \<noteq> []) (di_upstreams (snd p))) fs"

definition known_diffs :: "diffs \<Rightarrow> bool" where
  "known_diffs ds \<longleftrightarrow> obj_ok ds \<and> list_all (\<lambda>p. snd p \<noteq> [] \<and> fields_ok (snd p)) ds"

inductive rs_step :: "string \<Rightarrow> string \<Rightarrow> rs_state \<Rightarrow> rs_state \<Rightarrow> bool" for official dev where
  Open: "rs_step official dev s (open_modal s)"
| ChannelsEnd: "rs_step official dev s (fetchAllChannels_end official dev res s)"
| Close: "rs_step official dev s (fst (handleModalClose s sel))"
| Channels: "rs_step official dev s (s\<lparr>rs_selectedChannelIds := ids\<rparr>)"
| Endpoint: "rs_step official dev s (updateChannelEndpoint i e s)"
| EndpointType: "rs_step official dev s (handleTypeChange i e s)"
| Fetch: "rs_step official dev s (snd (confirmChannelSelection s))"
| FetchEnd: "(case res of Granted (ds, trs) \<Rightarrow> known_diffs ds | _ \<Rightarrow> True) \<Longrightarrow> rs_step official dev s (fetchRatios_end res s)"
| Pick: "\<not> sync_busy s \<Longrightarrow> row \<in> set (sync_rows s) \<Longrightarrow>
    renderUpstreamField (rs_differences s) (rs_resolutions s) row rt src = Choice txt False warn \<Longrightarrow>
    rs_step official dev s (s\<lparr>rs_resolutions := selectValue (rs_differences s) (sr_model row) rt
      (upstream_of (sr_ratioTypes row) rt src) src (rs_resolutions s)\<rparr>)"
| Unpick: "\<not> sync_busy s \<Longrightarrow> row \<in> set (sync_rows s) \<Longrightarrow>
    renderUpstreamField (rs_differences s) (rs_resolutions s) row rt src = Choice txt True warn \<Longrightarrow>
    rs_step official dev s (s\<lparr>rs_resolutions := deleteResolutionField (rs_resolutions s) (sr_model row) rt\<rparr>)"
| Bulk: "\<not> sync_busy s \<Longrightarrow> src \<in> set (upstreamNames (rs_ratioTypeFilter s) (sync_rows s)) \<Longrightarrow>
    rs_step official dev s (s\<lparr>rs_resolutions := handleBulkSelect (rs_differences s) (rs_ratioTypeFilter s) (sync_rows s) src checked
      (rs_resolutions s)\<rparr>)"
| Search: "rs_step official dev s (s\<lparr>rs_searchKeyword := t, rs_currentPage := 1\<rparr>)"
| Filter: "rs_step official dev s (s\<lparr>rs_ratioTypeFilter := f, rs_currentPage := 1\<rparr>)"
| Page: "1 \<le> p \<Longrightarrow> rs_step official dev s (s\<lparr>rs_currentPage := p, rs_pageSize := n\<rparr>)"
| Ask: "applySync options s = AskConfirm s' \<Longrightarrow> rs_step official dev s s'"
| Send: "applySync options s = SendSync reqs s' \<Longrightarrow> rs_step official dev s s'"
| SyncEnd: "rs_step official dev s (fst (performSync_end res answers s))"
| Confirm: "rs_step official dev s (snd (confirm_begin options s))"
| ConfirmEnd: "rs_step official dev s (confirm_end res answers s)"
| Cancel: "rs_step official dev s (s\<lparr>rs_confirmVisible := False\<rparr>)"

inductive rs_reach :: "string \<Rightarrow> string \<Rightarrow> rs_state \<Rightarrow> bool" for official dev where
  Init: "rs_reach official dev initial_sync"
| Step: "rs_reach official dev s \<Longrightarrow> rs_step official dev s s' \<Longrightarrow> rs_reach official dev s'"

section \<open>The invariant\<close>

text \<open>A chosen value is one some source offers for the field, or the mode that goes with an expression.\<close>

definition offered :: "diffs \<Rightarrow> string \<Rightarrow> string \<times> jsval \<Rightarrow> bool" where
  "offered ds m p \<longleftrightarrow> p = (''billing_mode'', JStr ''tiered_expr'') \<or>
     (case obj_get (fst p) (obj_or [] m ds) of
        None \<Rightarrow> False
      | Some item \<Rightarrow> snd p \<in> snd ` set (di_upstreams item) \<and> isSelectableUpstreamValue (snd p))"

definition exclusive :: "jsobj \<Rightarrow> bool" where
  "exclusive r \<longleftrightarrow> \<not> (obj_has ''model_price'' r \<and> list_ex (\<lambda>p. getBillingCategory (fst p) = RatioCat) r)"

definition choices_ok :: "diffs \<Rightarrow> string \<Rightarrow> jsobj \<Rightarrow> bool" where
  "choices_ok ds m r \<longleftrightarrow> obj_ok r \<and> list_all (offered ds m) r \<and> exclusive r \<and>
     (obj_has ''billing_expr'' r \<longrightarrow> obj_has ''billing_mode'' r)"

definition res_inv :: "diffs \<Rightarrow> resolutions \<Rightarrow> bool" where
  "res_inv ds res \<longleftrightarrow> obj_ok res \<and> list_all (\<lambda>(m, r). r \<noteq> [] \<and> choices_ok ds m r) res"

definition rs_inv :: "rs_state \<Rightarrow> bool" where
  "rs_inv s \<longleftrightarrow> known_diffs (rs_differences s) \<and> res_inv (rs_differences s) (rs_resolutions s) \<and> 1 \<le> rs_currentPage s"

subsection \<open>Categories\<close>

lemma categories [simp]:
  "getBillingCategory ''model_price'' = PriceCat" "getBillingCategory ''billing_mode'' = TieredCat"
  "getBillingCategory ''billing_expr'' = TieredCat"
  by (simp_all add: getBillingCategory_def)

lemma price_cat_iff: "getBillingCategory f = PriceCat \<longleftrightarrow> f = ''model_price''"
  by (simp add: getBillingCategory_def)

subsection \<open>Choosing\<close>

lemma offered_upstream:
  assumes "isSelectableUpstreamValue (getUpstreamValue ds m rt src)"
  shows "offered ds m (rt, getUpstreamValue ds m rt src)"
proof -
  have "getUpstreamValue ds m rt src \<noteq> JUndef" using assms by (auto simp: isSelectableUpstreamValue_def)
  then obtain item v where "obj_get rt (obj_or [] m ds) = Some item" "obj_get src (di_upstreams item) = Some v"
      "getUpstreamValue ds m rt src = v"
    by (auto simp: getUpstreamValue_def upstream_of_def obj_or_def split: option.splits)
  then have "getUpstreamValue ds m rt src \<in> snd ` set (di_upstreams item)"
    using obj_get_in[of src "di_upstreams item" v] by force
  then show ?thesis using assms \<open>obj_get rt (obj_or [] m ds) = Some item\<close> by (simp add: offered_def)
qed

lemma exclusive_set_tiered: "getBillingCategory k = TieredCat \<Longrightarrow> exclusive r \<Longrightarrow> exclusive (obj_set k v r)"
  using set_obj_set[of k v r] by (auto simp: exclusive_def list_ex_iff)

lemma choices_set_tiered:
  "getBillingCategory k = TieredCat \<Longrightarrow> k = ''billing_mode'' \<or> obj_has ''billing_mode'' r \<Longrightarrow>
   offered ds m (k, v) \<Longrightarrow> choices_ok ds m r \<Longrightarrow> choices_ok ds m (obj_set k v r)"
  by (auto simp: choices_ok_def obj_ok_set list_all_obj_set exclusive_set_tiered)

definition kept_choices :: "category \<Rightarrow> jsobj \<Rightarrow> jsobj" where
  "kept_choices category prev = filter (\<lambda>(rt, v).
     \<not> (category \<noteq> TieredCat \<and> getBillingCategory rt \<noteq> TieredCat \<and> getBillingCategory rt \<noteq> category)) prev"

lemma obj_has_kept: "obj_has f (kept_choices c r) \<longleftrightarrow>
    obj_has f r \<and> \<not> (c \<noteq> TieredCat \<and> getBillingCategory f \<noteq> TieredCat \<and> getBillingCategory f \<noteq> c)"
  by (auto simp: kept_choices_def obj_has_def)

lemma exclusive_kept: "exclusive r \<Longrightarrow> exclusive (kept_choices c r)"
  by (auto simp: exclusive_def kept_choices_def obj_has_def list_ex_iff)

lemma obj_ok_kept: "obj_ok r \<Longrightarrow> obj_ok (kept_choices c r)"
  by (simp add: kept_choices_def obj_ok_filter)

lemma list_all_kept: "list_all P r \<Longrightarrow> list_all P (kept_choices c r)"
  by (auto simp: kept_choices_def list_all_iff)

lemma choices_kept: "choices_ok ds m r \<Longrightarrow> choices_ok ds m (kept_choices c r)"
  by (simp add: choices_ok_def exclusive_kept obj_has_kept obj_ok_kept list_all_kept)

lemma kept_category: "(f, w) \<in> set (kept_choices c r) \<Longrightarrow> c \<noteq> TieredCat \<Longrightarrow> getBillingCategory f = TieredCat \<or> getBillingCategory f = c"
  by (auto simp: kept_choices_def)

lemma exclusive_put:
  assumes "getBillingCategory k = c" "c \<noteq> TieredCat"
  shows "exclusive (obj_set k v (kept_choices c r))"
proof -
  have cat: "getBillingCategory f = TieredCat \<or> getBillingCategory f = c" if "(f, w) \<in> set (obj_set k v (kept_choices c r))" for f w
    using that set_obj_set[of k v "kept_choices c r"] kept_category[OF _ assms(2)] assms(1) by blast
  show ?thesis
  proof (cases "c = PriceCat")
    case True
    have "getBillingCategory (fst p) \<noteq> RatioCat" if "p \<in> set (obj_set k v (kept_choices c r))" for p
      using cat[of "fst p" "snd p"] that True by (cases p) auto
    then show ?thesis by (auto simp: exclusive_def list_ex_iff)
  next
    case False
    then have "k \<noteq> ''model_price''" using assms(1) by auto
    then show ?thesis using False assms(2) by (auto simp: exclusive_def obj_has_kept)
  qed
qed

lemma choose_field_ok:
  assumes "choices_ok ds m prev" "isSelectableUpstreamValue v" "v = getUpstreamValue ds m rt src" "src \<noteq> []"
  shows "choices_ok ds m (choose_field ds m rt v src prev) \<and> choose_field ds m rt v src prev \<noteq> []"
proof -
  define c where "c = getBillingCategory rt"
  have kept: "choices_ok ds m (kept_choices c prev)" using assms(1) by (rule choices_kept)
  have off: "offered ds m (rt, v)" using assms(2,3) offered_upstream by simp
  have nice: "choices_ok ds m (choose_field ds m rt v src prev)"
  proof (cases "c = TieredCat")
    case False
    then have "choose_field ds m rt v src prev = obj_set rt v (kept_choices c prev)"
      by (simp add: choose_field_def kept_choices_def c_def Let_def)
    moreover have "rt \<noteq> ''billing_expr''" using False c_def by auto
    ultimately show ?thesis using kept off exclusive_put[of rt c v prev] False c_def
      by (auto simp: choices_ok_def obj_ok_set list_all_obj_set)
  next
    case True
    let ?mv = "getUpstreamValue ds m ''billing_mode'' src" and ?ev = "getUpstreamValue ds m ''billing_expr'' src"
    define r1 where "r1 = obj_set rt v (kept_choices c prev)"
    define r2 where "r2 = (if isSelectableUpstreamValue ?mv then obj_set ''billing_mode'' ?mv r1
       else if rt = ''billing_expr'' then obj_set ''billing_mode'' (JStr ''tiered_expr'') r1 else r1)"
    have eq: "choose_field ds m rt v src prev = (if isSelectableUpstreamValue ?ev then obj_set ''billing_expr'' ?ev r2 else r2)"
      using True assms(4) by (simp add: choose_field_def kept_choices_def r1_def r2_def c_def Let_def)
    have rt: "rt = ''billing_mode'' \<or> rt = ''billing_expr''" using True by (auto simp: c_def getBillingCategory_def split: if_splits)
    have mode: "obj_has ''billing_mode'' r2" using rt by (auto simp: r2_def r1_def)
    have part: "obj_ok r1" "list_all (offered ds m) r1" "exclusive r1"
      using kept off True exclusive_set_tiered[of rt "kept_choices c prev" v] c_def
      by (auto simp: choices_ok_def r1_def obj_ok_set list_all_obj_set)
    have "offered ds m (''billing_mode'', JStr ''tiered_expr'')" by (simp add: offered_def)
    then have r2: "choices_ok ds m r2"
      using mode part offered_upstream[of ds m "''billing_mode''" src]
      by (auto simp: choices_ok_def r2_def obj_ok_set list_all_obj_set exclusive_set_tiered)
    show ?thesis unfolding eq
      using r2 mode choices_set_tiered[of "''billing_expr''" r2 ds m ?ev] offered_upstream[of ds m "''billing_expr''" src] by simp
  qed
  moreover have "choose_field ds m rt v src prev \<noteq> []" by (simp add: choose_field_def Let_def)
  ultimately show ?thesis by blast
qed

lemma choices_prev: "res_inv ds res \<Longrightarrow> choices_ok ds m (obj_or [] m res)"
proof (cases "obj_get m res")
  case None
  then show ?thesis by (simp add: obj_or_def choices_ok_def obj_ok_def exclusive_def obj_has_def)
next
  case (Some r)
  then show "res_inv ds res \<Longrightarrow> ?thesis" using obj_get_in[OF Some] by (auto simp: obj_or_def res_inv_def list_all_iff)
qed

lemma select_inv:
  assumes "res_inv ds res" "isSelectableUpstreamValue v" "v = getUpstreamValue ds m rt src" "src \<noteq> []"
  shows "res_inv ds (selectValue ds m rt v src res)"
proof -
  define p where "p = getPreferredSyncField ds m rt src"
  define w where "w = getUpstreamValue ds m p src"
  have w: "isSelectableUpstreamValue w"
    using assms(2,3) by (auto simp: w_def p_def getPreferredSyncField_def)
  have "selectValue ds m rt v src res = obj_set m (choose_field ds m p w src (obj_or [] m res)) res"
    using assms(3,4) by (simp add: selectValue_def p_def w_def Let_def)
  then show ?thesis
    using choose_field_ok[OF choices_prev[OF assms(1)] w w_def assms(4)] assms(1)
    by (auto simp: res_inv_def obj_ok_set intro!: list_all_obj_set)
qed

subsection \<open>Removing\<close>

lemma exclusive_del: "exclusive r \<Longrightarrow> exclusive (obj_del k r)"
  by (auto simp: exclusive_def list_ex_iff) (auto simp: obj_del_def)

lemma choices_del:
  "choices_ok ds m r \<Longrightarrow> k \<noteq> ''billing_mode'' \<or> \<not> obj_has ''billing_expr'' r \<Longrightarrow> choices_ok ds m (obj_del k r)"
  by (auto simp: choices_ok_def obj_ok_del list_all_obj_del exclusive_del)

lemma obj_del_comm: "obj_del a (obj_del b r) = obj_del b (obj_del a r)"
  by (auto simp: obj_del_def intro: filter_cong)

lemma delete_choices_ok:
  assumes "choices_ok ds m r"
  shows "choices_ok ds m
     (let r1 = obj_del rt r; r2 = (if rt = ''billing_expr'' then obj_del ''billing_mode'' r1 else r1)
      in if rt = ''billing_mode'' then obj_del ''billing_expr'' r2 else r2)"
proof -
  consider "rt = ''billing_expr''" | "rt = ''billing_mode''" | "rt \<noteq> ''billing_expr''" "rt \<noteq> ''billing_mode''" by blast
  then show ?thesis
  proof cases
    case 1
    then show ?thesis using choices_del[OF choices_del[OF assms, of "''billing_expr''"], of "''billing_mode''"] by simp
  next
    case 2
    then show ?thesis using choices_del[OF choices_del[OF assms, of "''billing_expr''"], of "''billing_mode''"]
      by (simp add: obj_del_comm[of "''billing_expr''" "''billing_mode''"])
  next
    case 3
    then show ?thesis using choices_del[OF assms] by simp
  qed
qed

lemma delete_res_inv:
  assumes "res_inv ds res"
  shows "res_inv ds (deleteResolutionField res m rt)"
proof (cases "obj_get m res")
  case None
  then show ?thesis using assms by (simp add: deleteResolutionField_def)
next
  case (Some r)
  have "choices_ok ds m r" using choices_prev[OF assms, of m] Some by (simp add: obj_or_def)
  from delete_choices_ok[OF this, of rt] show ?thesis
    using assms Some
    by (auto simp: deleteResolutionField_def Let_def res_inv_def obj_ok_set obj_ok_del list_all_obj_del intro!: list_all_obj_set)
qed

subsection \<open>Rows\<close>

lemma row_in: "row \<in> set (filteredDataSource kw flt ds) \<Longrightarrow> (sr_model row, sr_ratioTypes row) \<in> set ds"
  by (auto simp: filteredDataSource_def Let_def sync_row_of_def split: if_splits)

lemma row_upstream:
  "known_diffs ds \<Longrightarrow> row \<in> set (filteredDataSource kw flt ds) \<Longrightarrow>
   upstream_of (sr_ratioTypes row) rt src = getUpstreamValue ds (sr_model row) rt src"
  using obj_get_of_mem[OF _ row_in] by (fastforce simp: known_diffs_def getUpstreamValue_def obj_or_def)

lemma known_fields_of: "known_diffs ds \<Longrightarrow> fields_ok (obj_or [] m ds)"
  using obj_get_in[of m ds] by (cases "obj_get m ds") (auto simp: obj_or_def known_diffs_def list_all_iff fields_ok_def obj_ok_def)

lemma known_src:
  assumes "known_diffs ds" "isSelectableUpstreamValue (getUpstreamValue ds m rt src)"
  shows "src \<noteq> []"
proof -
  obtain item v where i: "obj_get rt (obj_or [] m ds) = Some item" "obj_get src (di_upstreams item) = Some v"
    using assms(2)
    by (cases "obj_get rt (obj_or [] m ds)"; cases "obj_get src (di_upstreams (the (obj_get rt (obj_or [] m ds))))")
      (auto simp: isSelectableUpstreamValue_def getUpstreamValue_def upstream_of_def obj_or_def[of JUndef])
  have "list_all (\<lambda>q. fst q \<noteq> []) (di_upstreams item)"
    using known_fields_of[OF assms(1), of m] obj_get_in[OF i(1)] by (auto simp: fields_ok_def list_all_iff)
  then show ?thesis using obj_get_in[OF i(2)] by (auto simp: list_all_iff)
qed

lemma item_source:
  assumes "known_diffs ds" "(m, rt, v) \<in> set (selectable_items ds flt (filteredDataSource kw flt' ds) src)"
  shows "isSelectableUpstreamValue v" "v = getUpstreamValue ds m rt src" "src \<noteq> []" "getPreferredSyncField ds m rt src = rt"
proof -
  obtain row where r: "row \<in> set (filteredDataSource kw flt' ds)" "m = sr_model row" "v = upstream_of (sr_ratioTypes row) rt src"
      "isSelectableUpstreamValue v" "getPreferredSyncField ds m rt src = rt"
    using assms(2) by (auto simp: selectable_items_def)
  then show "isSelectableUpstreamValue v" "getPreferredSyncField ds m rt src = rt" by blast+
  show v: "v = getUpstreamValue ds m rt src" using r row_upstream[OF assms(1) r(1)] by simp
  show "src \<noteq> []" using known_src[OF assms(1)] v r(4) by blast
qed

lemma fold_select_inv:
  assumes "\<forall>(m, rt, v)\<in>set items. isSelectableUpstreamValue v \<and> v = getUpstreamValue ds m rt src \<and> src \<noteq> []" "res_inv ds res"
  shows "res_inv ds (fold (\<lambda>(m, rt, v) r. selectValue ds m rt v src r) items res)"
  using assms by (induction items arbitrary: res) (auto simp: select_inv)

lemma fold_delete_inv: "res_inv ds res \<Longrightarrow> res_inv ds (fold (\<lambda>rt r'. if P rt then deleteResolutionField r' m rt else r') rts res)"
  by (induction rts arbitrary: res) (auto simp: delete_res_inv)

lemma bulk_inv:
  assumes "known_diffs ds" "res_inv ds res"
  shows "res_inv ds (handleBulkSelect ds flt (filteredDataSource kw flt' ds) src checked res)"
proof (cases checked)
  case True
  have "\<forall>(m, rt, v)\<in>set (selectable_items ds flt (filteredDataSource kw flt' ds) src).
      isSelectableUpstreamValue v \<and> v = getUpstreamValue ds m rt src \<and> src \<noteq> []"
    by (clarify, intro conjI; rule item_source[OF assms(1)])
  then show ?thesis using True fold_select_inv[OF _ assms(2)] by (simp add: handleBulkSelect_def bulk_select_def)
next
  case False
  have "res_inv ds (bulk_deselect flt rows src res)" for rows
    using assms(2)
  proof (induction rows arbitrary: res)
    case (Cons row rows)
    then show ?case using fold_delete_inv[OF Cons.prems] by (simp add: bulk_deselect_def)
  qed (simp add: bulk_deselect_def)
  then show ?thesis using False by (simp add: handleBulkSelect_def)
qed

subsection \<open>Steps\<close>

lemma known_obj_del: "known_diffs ds \<Longrightarrow> known_diffs (obj_del m ds)"
  by (simp add: known_diffs_def obj_ok_del list_all_obj_del)

lemma fields_ok_del: "fields_ok fs \<Longrightarrow> fields_ok (obj_del rt fs)"
  by (simp add: fields_ok_def obj_ok_del list_all_obj_del)

lemma known_drop: "known_diffs ds \<Longrightarrow> known_diffs (drop_field m rt ds)"
proof (cases "obj_get m ds")
  case (Some fs)
  assume k: "known_diffs ds"
  then have "fields_ok (obj_del rt fs)" using known_fields_of[OF k, of m] Some by (simp add: obj_or_def fields_ok_del)
  then have "obj_del rt fs \<noteq> [] \<Longrightarrow> known_diffs (obj_set m (obj_del rt fs) ds)"
    using k by (simp add: known_diffs_def obj_ok_set list_all_obj_set)
  then show ?thesis using k Some by (simp add: drop_field_def Let_def known_obj_del)
qed (simp add: drop_field_def)

lemma known_drop_all: "known_diffs ds \<Longrightarrow> known_diffs (drop_resolved res ds)"
proof (induction res arbitrary: ds)
  case (Cons p res)
  have "known_diffs d \<Longrightarrow> known_diffs (fold (drop_field m) ks d)" for m ks d
    by (induction ks arbitrary: d) (auto simp: known_drop)
  then show ?case using Cons by (auto simp: drop_resolved_def split: prod.splits)
qed (simp add: drop_resolved_def)

lemma res_inv_Nil [simp]: "res_inv ds []"
  by (simp add: res_inv_def obj_ok_def)

lemma choice_value:
  assumes "renderUpstreamField ds res row rt src = Choice txt b w"
  shows "isSelectableUpstreamValue (upstream_of (sr_ratioTypes row) rt src)"
  using assms by (cases "upstream_of (sr_ratioTypes row) rt src")
    (auto simp: renderUpstreamField_def Let_def isSelectableUpstreamValue_def split: if_splits)

lemma pick_inv:
  assumes "known_diffs ds" "res_inv ds res" "row \<in> set (filteredDataSource kw flt ds)"
    "renderUpstreamField ds res' row rt src = Choice txt b w"
  shows "res_inv ds (selectValue ds (sr_model row) rt (upstream_of (sr_ratioTypes row) rt src) src res)"
proof -
  have v: "upstream_of (sr_ratioTypes row) rt src = getUpstreamValue ds (sr_model row) rt src"
    using row_upstream[OF assms(1,3)] .
  have sel: "isSelectableUpstreamValue (upstream_of (sr_ratioTypes row) rt src)" using choice_value[OF assms(4)] .
  then have "src \<noteq> []" using known_src[OF assms(1)] v by simp
  then show ?thesis using select_inv[OF assms(2) sel v] by simp
qed

lemma perform_end_inv: "rs_inv s \<Longrightarrow> rs_inv (fst (performSync_end res answers s))"
  by (auto simp: performSync_end_def rs_inv_def sync_toast_def known_drop_all split: option.splits)

lemma apply_state:
  "applySync options s = AskConfirm s' \<Longrightarrow> \<exists>cs. s' = s\<lparr>rs_conflictItems := cs, rs_confirmVisible := True\<rparr>"
  "applySync options s = SendSync reqs s' \<Longrightarrow> s' = sync_toast Syncing (s\<lparr>rs_loading := True\<rparr>)"
  by (auto simp: applySync_def performSync_begin_def split: sum.splits if_splits)

lemma sync_step_inv: "rs_step official dev s s' \<Longrightarrow> rs_inv s \<Longrightarrow> rs_inv s'"
proof (induction rule: rs_step.induct)
  case (FetchEnd res s)
  then show ?case by (cases res) (auto simp: fetchRatios_end_def rs_inv_def sync_toast_def Let_def)
next
  case (Pick s row rt src tx warn)
  then show ?case using pick_inv by (simp add: rs_inv_def sync_rows_def)
next
  case (Unpick s row rt src tx warn)
  then show ?case by (simp add: rs_inv_def delete_res_inv)
next
  case (Bulk s src checked)
  then show ?case by (simp add: rs_inv_def sync_rows_def bulk_inv)
next
  case (Ask options s s')
  then show ?case using apply_state(1)[OF Ask.hyps] by (auto simp: rs_inv_def)
next
  case (Send options s reqs s')
  then show ?case using apply_state(2)[OF Send.hyps] by (auto simp: rs_inv_def sync_toast_def)
next
  case (SyncEnd s res answers)
  then show ?case by (rule perform_end_inv)
next
  case (ConfirmEnd s res answers)
  then show ?case using perform_end_inv[of s res answers]
    by (auto simp: confirm_end_def rs_inv_def Let_def split: prod.splits)
qed (auto simp: rs_inv_def sync_toast_def open_modal_def fetchAllChannels_end_def handleModalClose_def updateChannelEndpoint_def
       handleTypeChange_def confirmChannelSelection_def confirm_begin_def performSync_begin_def Let_def
     split: reply.splits option.splits sum.splits)

lemma sync_reach_inv: "rs_reach official dev s \<Longrightarrow> rs_inv s"
proof (induction rule: rs_reach.induct)
  case Init
  show ?case by (simp add: rs_inv_def initial_sync_def known_diffs_def obj_ok_def)
qed (rule sync_step_inv)

end
