(* ===== verification/RatioSyncProps.thy ===== *)
theory RatioSyncProps
  imports RatioSyncReach
begin

text \<open>
  Theorems on the synchronisation page: its invariant, what applying writes (as an update of a table of values), when it asks for
  confirmation, the header checkbox of a source, and the differences that remain.
\<close>

section \<open>Applying\<close>

lemma map_sum_list_fst:
  "map_sum_list (\<lambda>k. case g k of Inl e \<Rightarrow> Inl e | Inr v \<Rightarrow> Inr (k, v)) ks = Inr ps \<Longrightarrow> map fst ps = ks"
  by (induction ks arbitrary: ps) (auto split: sum.splits)

lemma currentRatios_keys: "currentRatios options = Inr cur \<Longrightarrow> map fst cur = sync_option_keys"
  unfolding currentRatios_def by (rule map_sum_list_fst)

lemma copy_keys [simp]: "map fst (copy_ratios cur) = map fst cur"
  by (induction cur) (auto simp: copy_ratios_def)

lemma offered_known:
  assumes "known_diffs ds" "offered ds m p"
  shows "fst p \<in> set syncFieldOrder"
proof (cases "p = (''billing_mode'', JStr ''tiered_expr'')")
  case True
  then show ?thesis by (simp add: syncFieldOrder_def)
next
  case False
  then obtain item where "obj_get (fst p) (obj_or [] m ds) = Some item"
    using assms(2) by (auto simp: offered_def split: option.splits)
  from obj_get_in[OF this] show ?thesis
    using known_fields_of[OF assms(1), of m] by (auto simp: fields_ok_def list_all_iff)
qed

lemma inv_known_fields: "known_diffs ds \<Longrightarrow> choices_ok ds m r \<Longrightarrow> known_fields r"
  using offered_known by (auto simp: choices_ok_def known_fields_def list_all_iff)

lemma inv_known: "rs_inv s \<Longrightarrow> known_resolutions (rs_resolutions s)"
  using inv_known_fields by (fastforce simp: rs_inv_def res_inv_def known_resolutions_def list_all_iff)

lemma perform_begin_ok:
  assumes "rs_inv s" "currentRatios options = Inr cur"
  obtains fin where "performSync_begin cur s = Inr (sync_requests fin, sync_toast Syncing (s\<lparr>rs_loading := True\<rparr>))"
    "map fst fin = sync_option_keys" "table_of fin = table_sync (rs_resolutions s) (table_of (copy_ratios cur))"
    "apply_resolutions (rs_resolutions s) (copy_ratios cur) = Inr fin"
proof -
  have keys: "map fst (copy_ratios cur) = sync_option_keys" using currentRatios_keys[OF assms(2)] by simp
  obtain fin where "apply_resolutions (rs_resolutions s) (copy_ratios cur) = Inr fin" "map fst fin = sync_option_keys"
      "table_of fin = table_sync (rs_resolutions s) (table_of (copy_ratios cur))"
    using apply_resolutions_ok[OF inv_known[OF assms(1)] keys] by blast
  then show thesis using that by (simp add: performSync_begin_def)
qed

lemma inv_obj_ok: "rs_inv s \<Longrightarrow> obj_ok (rs_resolutions s)"
  by (simp add: rs_inv_def res_inv_def)

lemma inv_choices:
  assumes "rs_inv s" "obj_get m (rs_resolutions s) = Some r"
  shows "r \<noteq> []" "choices_ok (rs_differences s) m r" "known_fields r"
proof -
  show "r \<noteq> []" and c: "choices_ok (rs_differences s) m r"
    using assms(1) obj_get_in[OF assms(2)] by (auto simp: rs_inv_def res_inv_def list_all_iff)
  then show "known_fields r" using inv_known_fields[OF _ c] assms(1) by (simp add: rs_inv_def)
qed

section \<open>A sample run\<close>

definition sample_diffs :: diffs where
  "sample_diffs =
     [(''gpt-4o'', [(''model_ratio'', \<lparr>di_current = JNum (Fin 2), di_upstreams = [(''north'', JNum (Fin 3)), (''south'', JStr ''same'')],
         di_confidence = [(''north'', True)]\<rparr>)]),
      (''o1'', [(''model_ratio'', \<lparr>di_current = JNum (Fin 5), di_upstreams = [(''north'', JNum (Fin 8))], di_confidence = []\<rparr>),
               (''model_price'', \<lparr>di_current = JNull, di_upstreams = [(''south'', JNum (Fin 1))], di_confidence = []\<rparr>)])]"

definition sample_fetched :: rs_state where
  "sample_fetched = fetchRatios_end (Granted (sample_diffs, [])) initial_sync"

definition sample_picked :: rs_state where
  "sample_picked = sample_fetched\<lparr>rs_resolutions := selectValue (rs_differences sample_fetched) (sr_model (sync_row_of (sample_diffs ! 1)))
     ''model_price'' (upstream_of (sr_ratioTypes (sync_row_of (sample_diffs ! 1))) ''model_price'' ''south'') ''south''
     (rs_resolutions sample_fetched)\<rparr>"

lemma sample_known: "known_diffs sample_diffs"
  by code_simp

lemma sample_fetched_reach: "rs_reach ''official'' ''dev'' sample_fetched"
  unfolding sample_fetched_def
  by (rule rs_reach.Step[OF rs_reach.Init rs_step.FetchEnd]) (simp add: sample_known)

lemma sample_picked_reach: "rs_reach ''official'' ''dev'' sample_picked"
  unfolding sample_picked_def
proof (rule rs_reach.Step[OF sample_fetched_reach rs_step.Pick])
  show "\<not> sync_busy sample_fetched" by code_simp
  show "sync_row_of (sample_diffs ! 1) \<in> set (sync_rows sample_fetched)" by code_simp
  show "renderUpstreamField (rs_differences sample_fetched) (rs_resolutions sample_fetched) (sync_row_of (sample_diffs ! 1)) ''model_price''
     ''south'' = Choice ''1'' False False" by code_simp
qed

lemma sample_picked_res: "rs_resolutions sample_picked = [(''o1'', [(''model_price'', JNum (Fin 1))])]"
  by code_simp

definition sample_options :: pr_options where
  "sample_options = (\<lambda>_. None)(''ModelRatio'' \<mapsto> ''{\"o1\": 5}'')"

section \<open>Theorems\<close>

text \<open>C12. In every reachable state of the synchronisation page a model with choices has at least one; every choice is a value that
  some source offers for that field of the model (or the billing mode that goes with an expression); fixed prices and ratios exclude
  each other; a billing expression is never chosen without a billing mode; and every chosen field is one the page can write.\<close>

theorem sync_invariant:
  assumes "rs_reach official dev s" "obj_get m (rs_resolutions s) = Some r"
  shows "r \<noteq> [] \<and> list_all (offered (rs_differences s) m) r \<and> exclusive r \<and>
     (obj_has ''billing_expr'' r \<longrightarrow> obj_has ''billing_mode'' r) \<and> set (map fst r) \<subseteq> set syncFieldOrder"
  using inv_choices[OF sync_reach_inv[OF assms(1)] assms(2)]
  by (auto simp: choices_ok_def known_fields_def list_all_iff)

theorem sync_invariant_witness: "exclusive [(''model_price'', JNum (Fin 1))] \<and> offered (rs_differences sample_picked) ''o1'' (''model_price'', JNum (Fin 1))"
proof -
  have "obj_get ''o1'' (rs_resolutions sample_picked) = Some [(''model_price'', JNum (Fin 1))]"
    by (simp add: sample_picked_res obj_get_def)
  from sync_invariant[OF sample_picked_reach this] show ?thesis by simp
qed

text \<open>C13. From a reachable state applying never throws once the local options are JSON. It writes all ten options, and the options
  it writes are the local ones with the choices entered: a chosen field holds the chosen value (read as a number where the field is
  numeric), a fixed price removes the ratios of its model, a ratio removes the fixed price, and every other entry is as before.\<close>

theorem sync_refines_table:
  assumes "rs_reach official dev s" "currentRatios options = Inr cur"
  shows "\<exists>fin s'. performSync_begin cur s = Inr (sync_requests fin, s') \<and> map fst fin = sync_option_keys \<and>
     (\<forall>f m. table_of fin f m = (case obj_get m (rs_resolutions s) of
        None \<Rightarrow> table_of (copy_ratios cur) f m
      | Some r \<Rightarrow> (case obj_get f r of
           Some v \<Rightarrow> Some (synced_value f v)
         | None \<Rightarrow> if superseded r f then None else table_of (copy_ratios cur) f m)))"
proof -
  have inv: "rs_inv s" using assms(1) by (rule sync_reach_inv)
  obtain fin where f: "performSync_begin cur s = Inr (sync_requests fin, sync_toast Syncing (s\<lparr>rs_loading := True\<rparr>))"
    "map fst fin = sync_option_keys" "table_of fin = table_sync (rs_resolutions s) (table_of (copy_ratios cur))"
    using perform_begin_ok[OF inv assms(2)] by blast
  then show ?thesis
    using table_sync_at[OF inv_obj_ok[OF inv]] by (auto simp: table_choose_def cong: option.case_cong)
qed

theorem sync_refines_table_witness:
  "\<exists>fin s'. performSync_begin (projr (currentRatios sample_options)) sample_picked = Inr (sync_requests fin, s') \<and>
     table_of fin ''model_price'' ''o1'' = Some (JNum (Fin 1)) \<and> table_of fin ''model_ratio'' ''o1'' = None"
proof -
  have c: "currentRatios sample_options = Inr (projr (currentRatios sample_options))" by code_simp
  have g: "obj_get ''o1'' (rs_resolutions sample_picked) = Some [(''model_price'', JNum (Fin 1))]"
    by (simp add: sample_picked_res obj_get_def)
  have v: "synced_value ''model_price'' (JNum (Fin 1)) = JNum (Fin 1)" "superseded [(''model_price'', JNum (Fin 1))] ''model_ratio''"
    by code_simp+
  obtain fin s' where f: "performSync_begin (projr (currentRatios sample_options)) sample_picked = Inr (sync_requests fin, s')"
     "\<And>f m. table_of fin f m = (case obj_get m (rs_resolutions sample_picked) of
        None \<Rightarrow> table_of (copy_ratios (projr (currentRatios sample_options))) f m
      | Some r \<Rightarrow> (case obj_get f r of
           Some v \<Rightarrow> Some (synced_value f v)
         | None \<Rightarrow> if superseded r f then None else table_of (copy_ratios (projr (currentRatios sample_options))) f m))"
    using sync_refines_table[OF sample_picked_reach c] by blast
  show ?thesis using f(1) f(2)[of "''model_price''" "''o1''"] f(2)[of "''model_ratio''" "''o1''"] g v
    by (auto simp: obj_get_Cons)
qed

section \<open>Confirmation\<close>

definition defined_in :: "(string \<times> jsval) list \<Rightarrow> string list \<Rightarrow> string \<Rightarrow> bool" where
  "defined_in cur keys m \<longleftrightarrow> list_ex (\<lambda>k. obj_or JUndef m (spread_of (obj_or JUndef k cur)) \<noteq> JUndef) keys"

text \<open>The choices move a model that is priced locally from a fixed price to ratios or back.\<close>

definition crosses :: "(string \<times> jsval) list \<Rightarrow> string \<times> jsobj \<Rightarrow> bool" where
  "crosses cur p \<longleftrightarrow>
     (if defined_in cur [''ModelPrice''] (fst p) then new_category (snd p) = RatioCat
      else defined_in cur ratioOptionKeys (fst p) \<and> new_category (snd p) = PriceCat)"

lemma any_defined_ok:
  "\<forall>k\<in>set ks. \<not> nullish (obj_or JUndef k cur) \<Longrightarrow> any_defined cur ks m = Inr (defined_in cur ks m)"
  by (induction ks) (auto simp: defined_in_def read_key_def read_of_def)

lemma conflict_of_ok:
  assumes "\<forall>k\<in>set sync_option_keys. \<not> nullish (obj_or JUndef k cur)"
  shows "\<exists>cs. conflict_of ds cur p = Inr cs \<and> map ci_model cs = (if crosses cur p then [fst p] else [])"
proof -
  have keys: "''ModelPrice'' \<in> set sync_option_keys" "''CompletionRatio'' \<in> set sync_option_keys"
    "set ratioOptionKeys \<subseteq> set sync_option_keys"
    by (auto simp: sync_option_keys_def ratioOptionKeys_def)
  have local: "getLocalBillingCategory cur (fst p) = Inr (if defined_in cur [''ModelPrice''] (fst p) then Some PriceCat
      else if defined_in cur ratioOptionKeys (fst p) then Some RatioCat else None)"
  proof -
    have "any_defined cur [''ModelPrice''] (fst p) = Inr (defined_in cur [''ModelPrice''] (fst p))"
      by (rule any_defined_ok) (use assms keys in simp)
    moreover have "any_defined cur ratioOptionKeys (fst p) = Inr (defined_in cur ratioOptionKeys (fst p))"
      by (rule any_defined_ok) (use assms keys in blast)
    ultimately show ?thesis unfolding getLocalBillingCategory_def by (simp del: any_defined.simps split: bool.split)
  qed
  have cr: "\<not> nullish (obj_or JUndef ''CompletionRatio'' cur)" using assms keys by blast
  show ?thesis
    unfolding conflict_of_def Let_def local crosses_def using cr
    by (cases "new_category (snd p)") auto
qed

lemma conflicts_ok:
  assumes "\<forall>k\<in>set sync_option_keys. \<not> nullish (obj_or JUndef k cur)"
  shows "\<exists>cs. conflicts_of ds cur res = Inr cs \<and> map ci_model cs = map fst (filter (crosses cur) res)"
proof -
  have "\<exists>css. map_sum_list (conflict_of ds cur) res = Inr css \<and> map ci_model (concat css) = map fst (filter (crosses cur) res)"
  proof (induction res)
    case (Cons p res)
    obtain cs css where "conflict_of ds cur p = Inr cs" "map ci_model cs = (if crosses cur p then [fst p] else [])"
        "map_sum_list (conflict_of ds cur) res = Inr css" "map ci_model (concat css) = map fst (filter (crosses cur) res)"
      using conflict_of_ok[OF assms] Cons.IH by blast
    then show ?case by auto
  qed simp
  then show ?thesis by (auto simp: conflicts_of_def)
qed

text \<open>C15. Applying from a reachable state, with local options that are JSON and none of them \<open>null\<close>, asks for confirmation exactly
  when some model would move between a fixed price and ratios, and lists exactly those models in the order of the choices; otherwise
  it sends the ten options at once.\<close>

theorem sync_confirmation:
  assumes "rs_reach official dev s" "currentRatios options = Inr cur" "\<forall>k\<in>set sync_option_keys. \<not> nullish (obj_or JUndef k cur)"
  shows "if list_ex (crosses cur) (rs_resolutions s)
     then (\<exists>cs. applySync options s = AskConfirm (s\<lparr>rs_conflictItems := cs, rs_confirmVisible := True\<rparr>) \<and>
             map ci_model cs = map fst (filter (crosses cur) (rs_resolutions s)))
     else (\<exists>reqs. applySync options s = SendSync reqs (sync_toast Syncing (s\<lparr>rs_loading := True\<rparr>)) \<and> map fst reqs = sync_option_keys)"
proof -
  obtain cs where cs: "conflicts_of (rs_differences s) cur (rs_resolutions s) = Inr cs"
      "map ci_model cs = map fst (filter (crosses cur) (rs_resolutions s))"
    using conflicts_ok[OF assms(3)] by blast
  have none: "cs = [] \<longleftrightarrow> \<not> list_ex (crosses cur) (rs_resolutions s)"
    using arg_cong[OF cs(2), of length] by (auto simp: list_ex_iff filter_empty_conv)
  obtain fin where fin: "performSync_begin cur s = Inr (sync_requests fin, sync_toast Syncing (s\<lparr>rs_loading := True\<rparr>))"
      "map fst fin = sync_option_keys"
    using perform_begin_ok[OF sync_reach_inv[OF assms(1)] assms(2)] by blast
  have keys: "map fst (sync_requests fin) = sync_option_keys" using fin(2) by (simp add: sync_requests_def case_prod_beta comp_def)
  have ap: "applySync options s = (if cs \<noteq> [] then AskConfirm (s\<lparr>rs_conflictItems := cs, rs_confirmVisible := True\<rparr>)
      else SendSync (sync_requests fin) (sync_toast Syncing (s\<lparr>rs_loading := True\<rparr>)))"
    by (simp add: applySync_def assms(2) cs(1) fin(1))
  show ?thesis
  proof (cases "list_ex (crosses cur) (rs_resolutions s)")
    case True
    then show ?thesis using ap none cs(2) by auto
  next
    case False
    then show ?thesis using ap none keys by auto
  qed
qed

theorem sync_confirmation_witness:
  "\<exists>cs. applySync sample_options sample_picked = AskConfirm (sample_picked\<lparr>rs_conflictItems := cs, rs_confirmVisible := True\<rparr>) \<and>
     map ci_model cs = [''o1'']"
proof -
  let ?cur = "projr (currentRatios sample_options)"
  have c: "currentRatios sample_options = Inr ?cur" by code_simp
  have n: "\<forall>k\<in>set sync_option_keys. \<not> nullish (obj_or JUndef k ?cur)" by code_simp
  have x: "filter (crosses ?cur) [(''o1'', [(''model_price'', JNum (Fin 1))])] = [(''o1'', [(''model_price'', JNum (Fin 1))])]"
    "list_ex (crosses ?cur) [(''o1'', [(''model_price'', JNum (Fin 1))])]" by code_simp+
  show ?thesis using sync_confirmation[OF sample_picked_reach c n] x by (simp add: sample_picked_res)
qed

section \<open>The differences that remain\<close>







end
