(* ===== verification/RatioSyncReload.thy ===== *)
theory RatioSyncReload
  imports RatioSyncProps PricingSave
begin

text \<open>
  The synchronisation page and the pricing page together: the option texts a synchronisation sends are parsed by the pricing page,
  which then shows the chosen values and no conflict between a fixed price and ratios.
\<close>

section \<open>Texts\<close>

definition safe_obj :: "jsobj \<Rightarrow> bool" where
  "safe_obj ps \<longleftrightarrow> plain_keys ps \<and> list_all (\<lambda>p. json_safe (snd p)) ps"

lemma safe_obj_json: "safe_obj ps \<Longrightarrow> json_safe (JObj ps)"
  using json_safe_obj[of ps] unfolding safe_obj_def by blast

lemma safe_obj_del: "safe_obj ps \<Longrightarrow> safe_obj (obj_del k ps)"
  using obj_ok_del[of ps k]
  by (auto simp: safe_obj_def plain_keys_def obj_ok_def list_all_obj_del)

lemma safe_obj_set: "safe_obj ps \<Longrightarrow> \<not> is_index k \<Longrightarrow> json_safe v \<Longrightarrow> safe_obj (obj_set k v ps)"
  by (simp add: safe_obj_def plain_keys_set safe_vals_set)

definition safe_finals :: "finals \<Rightarrow> bool" where
  "safe_finals fin \<longleftrightarrow> list_all (\<lambda>p. safe_obj (snd p)) fin"

lemma safe_del_entry: "safe_finals fin \<Longrightarrow> safe_finals (del_entry m k fin)"
  by (auto simp: safe_finals_def del_entry_def list_all_iff safe_obj_del split: if_splits)

lemma safe_fold_del: "safe_finals fin \<Longrightarrow> safe_finals (fold (del_entry m) ks fin)"
  by (induction ks arbitrary: fin) (simp_all add: safe_del_entry)

lemma safe_clear: "safe_finals fin \<Longrightarrow> safe_finals (clear_other m ratios fin)"
  by (simp add: clear_other_def Let_def safe_del_entry safe_fold_del)

lemma safe_put: "put_entry m k v fin = Inr fin' \<Longrightarrow> safe_finals fin \<Longrightarrow> \<not> is_index m \<Longrightarrow> json_safe v \<Longrightarrow> safe_finals fin'"
  by (fastforce simp: put_entry_def safe_finals_def list_all_iff intro: safe_obj_set split: if_splits)

text \<open>The names and values of the choices can be written as JSON and read back.\<close>

definition writable :: "resolutions \<Rightarrow> bool" where
  "writable res \<longleftrightarrow> list_all (\<lambda>p. \<not> is_index (fst p) \<and> list_all (\<lambda>q. json_safe (synced_value (fst q) (snd q))) (snd p)) res"

lemma safe_put_fields:
  "put_fields m ratios fin = Inr fin' \<Longrightarrow> safe_finals fin \<Longrightarrow> \<not> is_index m \<Longrightarrow>
   list_all (\<lambda>q. json_safe (synced_value (fst q) (snd q))) ratios \<Longrightarrow> safe_finals fin'"
proof (induction ratios arbitrary: fin)
  case (Cons q ratios)
  then show ?case by (cases q) (auto dest: safe_put split: sum.splits)
qed simp

lemma safe_apply: "apply_resolutions res fin = Inr fin' \<Longrightarrow> safe_finals fin \<Longrightarrow> writable res \<Longrightarrow> safe_finals fin'"
proof (induction res arbitrary: fin)
  case (Cons p res)
  obtain m ratios where p: "p = (m, ratios)" by force
  obtain fin1 where f1: "put_fields m ratios (clear_other m ratios fin) = Inr fin1" "apply_resolutions res fin1 = Inr fin'"
    using Cons.prems(1) p by (auto split: sum.splits)
  have "safe_finals fin1"
    using safe_put_fields[OF f1(1) safe_clear[OF Cons.prems(2)]] Cons.prems(3) p by (simp add: writable_def)
  then show ?case using Cons.IH[OF f1(2)] Cons.prems(3) by (simp add: writable_def)
qed simp

section \<open>Reading\<close>

text \<open>The options after the requests have been carried out.\<close>

definition saved_options :: "(string \<times> string) list \<Rightarrow> pr_options \<Rightarrow> pr_options" where
  "saved_options reqs options k = (case map_of reqs k of Some t \<Rightarrow> Some t | None \<Rightarrow> options k)"

lemma saved_text: "map_of (sync_requests fin) k = map_option (\<lambda>ps. json_pretty (JObj ps)) (obj_get k fin)"
  by (induction fin) (auto simp: sync_requests_def obj_get_def)

lemma saved_object:
  assumes "safe_finals fin" "obj_get k fin = Some ps"
  shows "parseOptionJSON (saved_options (sync_requests fin) options k) = ps"
proof -
  have "safe_obj ps" using assms obj_get_in[OF assms(2)] by (auto simp: safe_finals_def list_all_iff)
  then show ?thesis using parseOption_pretty[OF safe_obj_json, of ps] assms(2) by (simp add: saved_options_def saved_text)
qed

lemma saved_cell:
  assumes "safe_finals fin" "map fst fin = sync_option_keys" "f \<in> set syncFieldOrder"
  shows "jget m (JObj (parseOptionJSON (saved_options (sync_requests fin) options (optionKeyBySyncField f)))) =
     (case table_of fin f m of Some v \<Rightarrow> v | None \<Rightarrow> JUndef)"
proof -
  have "optionKeyBySyncField f \<in> set (map fst fin)" using key_in[OF assms(3)] assms(2) by simp
  then obtain ps where ps: "obj_get (optionKeyBySyncField f) fin = Some ps"
    by (auto simp: obj_get_def dest: weak_map_of_SomeI)
  show ?thesis unfolding saved_object[OF assms(1) ps] using assms(3) ps by (simp add: jget_obj table_of_def cell_of_def)
qed

lemma source_fields:
  "sm_ModelPrice (source_of opts) = parseOptionJSON (opts (optionKeyBySyncField ''model_price''))"
  "sm_ModelRatio (source_of opts) = parseOptionJSON (opts (optionKeyBySyncField ''model_ratio''))"
  "sm_CompletionRatio (source_of opts) = parseOptionJSON (opts (optionKeyBySyncField ''completion_ratio''))"
  "sm_CacheRatio (source_of opts) = parseOptionJSON (opts (optionKeyBySyncField ''cache_ratio''))"
  "sm_CreateCacheRatio (source_of opts) = parseOptionJSON (opts (optionKeyBySyncField ''create_cache_ratio''))"
  "sm_ImageRatio (source_of opts) = parseOptionJSON (opts (optionKeyBySyncField ''image_ratio''))"
  "sm_AudioRatio (source_of opts) = parseOptionJSON (opts (optionKeyBySyncField ''audio_ratio''))"
  "sm_AudioCompletionRatio (source_of opts) = parseOptionJSON (opts (optionKeyBySyncField ''audio_completion_ratio''))"
  "sm_ModelBillingMode (source_of opts) = parseOptionJSON (opts (optionKeyBySyncField ''billing_mode''))"
  "sm_ModelBillingExpr (source_of opts) = parseOptionJSON (opts (optionKeyBySyncField ''billing_expr''))"
proof -
  have k: "optionKeyBySyncField ''model_price'' = ''ModelPrice''" "optionKeyBySyncField ''model_ratio'' = ''ModelRatio''"
    "optionKeyBySyncField ''completion_ratio'' = ''CompletionRatio''" "optionKeyBySyncField ''cache_ratio'' = ''CacheRatio''"
    "optionKeyBySyncField ''create_cache_ratio'' = ''CreateCacheRatio''" "optionKeyBySyncField ''image_ratio'' = ''ImageRatio''"
    "optionKeyBySyncField ''audio_ratio'' = ''AudioRatio''" "optionKeyBySyncField ''audio_completion_ratio'' = ''AudioCompletionRatio''"
    "optionKeyBySyncField ''billing_mode'' = ''billing_setting.billing_mode''"
    "optionKeyBySyncField ''billing_expr'' = ''billing_setting.billing_expr''"
    by code_simp+
  show "sm_ModelPrice (source_of opts) = parseOptionJSON (opts (optionKeyBySyncField ''model_price''))"
    "sm_ModelRatio (source_of opts) = parseOptionJSON (opts (optionKeyBySyncField ''model_ratio''))"
    "sm_CompletionRatio (source_of opts) = parseOptionJSON (opts (optionKeyBySyncField ''completion_ratio''))"
    "sm_CacheRatio (source_of opts) = parseOptionJSON (opts (optionKeyBySyncField ''cache_ratio''))"
    "sm_CreateCacheRatio (source_of opts) = parseOptionJSON (opts (optionKeyBySyncField ''create_cache_ratio''))"
    "sm_ImageRatio (source_of opts) = parseOptionJSON (opts (optionKeyBySyncField ''image_ratio''))"
    "sm_AudioRatio (source_of opts) = parseOptionJSON (opts (optionKeyBySyncField ''audio_ratio''))"
    "sm_AudioCompletionRatio (source_of opts) = parseOptionJSON (opts (optionKeyBySyncField ''audio_completion_ratio''))"
    "sm_ModelBillingMode (source_of opts) = parseOptionJSON (opts (optionKeyBySyncField ''billing_mode''))"
    "sm_ModelBillingExpr (source_of opts) = parseOptionJSON (opts (optionKeyBySyncField ''billing_expr''))"
    by (simp_all add: source_of_def k)
qed

section \<open>No conflict is left\<close>

lemma no_text_undef: "\<not> has_text (toNumericString JUndef)"
  by (simp add: toNumericString_def hasValue_def)

lemma tiered_no_conflict: "tiered_state nm e = Inr md \<Longrightarrow> \<not> hasConflict md"
  by (auto simp: tiered_state_def EMPTY_MODEL_def split: jsval.splits sum.splits if_splits)

lemma ratio_no_conflict:
  assumes "jget nm (JObj (sm_ModelPrice maps)) = JUndef \<or>
    (\<forall>ps\<in>{sm_ModelRatio maps, sm_CompletionRatio maps, sm_CacheRatio maps, sm_CreateCacheRatio maps, sm_ImageRatio maps, sm_AudioRatio maps,
       sm_AudioCompletionRatio maps}. jget nm (JObj ps) = JUndef)"
  shows "\<not> hasConflict (ratio_state nm maps)"
  using assms no_text_undef by (auto simp: ratio_state_def Let_def load_ratios_def ratio_texts_def)

lemma exclusive_fields:
  assumes "known_fields r" "exclusive r" "obj_has ''model_price'' r" "f \<in> set ratioSyncFields"
  shows "obj_get f r = None"
proof (rule ccontr)
  assume "obj_get f r \<noteq> None"
  then obtain v where "(f, v) \<in> set r" using obj_get_in[of f r] by blast
  moreover have "getBillingCategory f = RatioCat"
    using assms(4) by (auto simp: ratioSyncFields_def getBillingCategory_def)
  ultimately show False using assms(2,3) by (force simp: exclusive_def list_ex_iff)
qed

lemma price_absent:
  assumes "exclusive r" "f \<in> set ratioSyncFields" "obj_has f r"
  shows "obj_get ''model_price'' r = None"
proof -
  obtain v where "(f, v) \<in> set r" using assms(3) by (auto simp: obj_has_def)
  moreover have "getBillingCategory f = RatioCat"
    using assms(2) by (auto simp: ratioSyncFields_def getBillingCategory_def)
  ultimately have "list_ex (\<lambda>p. getBillingCategory (fst p) = RatioCat) r" by (force simp: list_ex_iff)
  then show ?thesis using assms(1) by (simp add: exclusive_def obj_has_get)
qed

lemma reload_no_conflict:
  assumes t: "\<And>f. f \<in> set syncFieldOrder \<Longrightarrow> jget m (JObj (parseOptionJSON (opts (optionKeyBySyncField f)))) =
      (case table_choose m r tab f m of Some v \<Rightarrow> v | None \<Rightarrow> JUndef)"
    and r: "known_fields r" "exclusive r" "new_category r \<noteq> TieredCat" and md: "buildModelState m (source_of opts) = Inr md"
  shows "\<not> hasConflict md"
proof (cases "obj_has ''model_price'' r")
  case True
  have "jget m (JObj (parseOptionJSON (opts (optionKeyBySyncField f)))) = JUndef" if "f \<in> set ratioSyncFields" for f
    using t[of f] that ratio_fields_sub(1) exclusive_fields[OF r(1,2) True that] True
    by (auto simp: table_choose_def superseded_def)
  then have "\<not> hasConflict (ratio_state m (source_of opts))"
    by (intro ratio_no_conflict) (simp add: source_fields ratioSyncFields_def)
  then show ?thesis using md tiered_no_conflict by (auto simp: buildModelState_def split: if_splits)
next
  case False
  then obtain f where f: "f \<in> set ratioSyncFields" "obj_has f r"
    using r(3) by (auto simp: new_category_def list_ex_iff split: if_splits)
  have "superseded r ''model_price''" using f by (auto simp: superseded_def list_ex_iff)
  then have "jget m (JObj (sm_ModelPrice (source_of opts))) = JUndef"
    using t[of "''model_price''"] ratio_fields_sub(2) price_absent[OF r(2) f] by (simp add: table_choose_def source_fields)
  then have "\<not> hasConflict (ratio_state m (source_of opts))" by (intro ratio_no_conflict) blast
  then show ?thesis using md tiered_no_conflict by (auto simp: buildModelState_def split: if_splits)
qed

text \<open>C14. After a synchronisation the pricing page reads, for every model with choices, exactly the chosen values; and it shows no
  conflict between a fixed price and ratios for a model whose choices contain a price or a ratio, also where the model had that
  conflict before. The texts of the options and of the choices are assumed to be representable as JSON.\<close>

theorem sync_then_pricing:
  assumes "rs_reach official dev s" "currentRatios options = Inr cur" "safe_finals (copy_ratios cur)" "writable (rs_resolutions s)"
    "performSync_begin cur s = Inr (reqs, s')" "obj_get m (rs_resolutions s) = Some r"
  shows "(\<forall>f v. obj_get f r = Some v \<longrightarrow>
      jget m (JObj (parseOptionJSON (saved_options reqs options (optionKeyBySyncField f)))) = synced_value f v) \<and>
    (\<forall>md. new_category r \<noteq> TieredCat \<longrightarrow> buildModelState m (source_of (saved_options reqs options)) = Inr md \<longrightarrow> \<not> hasConflict md)"
proof -
  have inv: "rs_inv s" using assms(1) by (rule sync_reach_inv)
  obtain fin where fin: "performSync_begin cur s = Inr (sync_requests fin, sync_toast Syncing (s\<lparr>rs_loading := True\<rparr>))"
    "map fst fin = sync_option_keys" "table_of fin = table_sync (rs_resolutions s) (table_of (copy_ratios cur))"
    "apply_resolutions (rs_resolutions s) (copy_ratios cur) = Inr fin"
    using perform_begin_ok[OF inv assms(2)] by blast
  have reqs: "reqs = sync_requests fin" using assms(5) fin(1) by simp
  have safe: "safe_finals fin" using safe_apply[OF fin(4) assms(3,4)] .
  have cell: "jget m (JObj (parseOptionJSON (saved_options reqs options (optionKeyBySyncField f)))) =
      (case table_choose m r (table_of (copy_ratios cur)) f m of Some v \<Rightarrow> v | None \<Rightarrow> JUndef)" if "f \<in> set syncFieldOrder" for f
    using saved_cell[OF safe fin(2) that, of m options] table_sync_at[OF inv_obj_ok[OF inv]] assms(6) fin(3) reqs by simp
  have c: "known_fields r" "exclusive r" using inv_choices[OF inv assms(6)] by (auto simp: choices_ok_def)
  have "jget m (JObj (parseOptionJSON (saved_options reqs options (optionKeyBySyncField f)))) = synced_value f v"
    if "obj_get f r = Some v" for f v
  proof -
    have "f \<in> set syncFieldOrder" using c(1) obj_get_in[OF that] by (auto simp: known_fields_def list_all_iff)
    then show ?thesis using cell that by (simp add: table_choose_def)
  qed
  moreover have "\<not> hasConflict md" if "new_category r \<noteq> TieredCat" "buildModelState m (source_of (saved_options reqs options)) = Inr md" for md
    using reload_no_conflict[OF cell c that] by blast
  ultimately show ?thesis by blast
qed

theorem sync_then_pricing_witness:
  "jget ''o1'' (JObj (sm_ModelPrice (source_of (saved_options
     (fst (projr (performSync_begin (projr (currentRatios sample_options)) sample_picked))) sample_options)))) = JNum (Fin 1)"
proof -
  let ?cur = "projr (currentRatios sample_options)"
  obtain reqs s' where p: "performSync_begin ?cur sample_picked = Inr (reqs, s')"
  proof -
    have "(case performSync_begin ?cur sample_picked of Inr _ \<Rightarrow> True | Inl _ \<Rightarrow> False)" by code_simp
    then show thesis using that by (auto split: sum.splits)
  qed
  have c: "currentRatios sample_options = Inr ?cur" by code_simp
  have sf: "safe_finals (copy_ratios ?cur)" by code_simp
  have w: "writable (rs_resolutions sample_picked)" by code_simp
  have g: "obj_get ''o1'' (rs_resolutions sample_picked) = Some [(''model_price'', JNum (Fin 1))]"
    by (simp add: sample_picked_res obj_get_def)
  have v: "synced_value ''model_price'' (JNum (Fin 1)) = JNum (Fin 1)" by code_simp
  show ?thesis using sync_then_pricing[OF sample_picked_reach c sf w p g] v p by (simp add: source_fields obj_get_Cons)
qed

end
