(* ===== verification/RatioSyncBulk.thy ===== *)
theory RatioSyncBulk
  imports RatioSyncProps
begin

text \<open>
  The checkbox in the header of a source's column. \<open>choice_at\<close> reads a choice; \<open>choice_select\<close> and \<open>choice_delete\<close> say what selecting
  and removing a field do to every choice, and the loops over the visible rows follow from them.
\<close>

section \<open>The header checkbox of a source\<close>

definition choice_at :: "resolutions \<Rightarrow> string \<Rightarrow> string \<Rightarrow> jsval" where
  "choice_at res m f = obj_or JUndef f (obj_or [] m res)"










subsection \<open>Unticking\<close>

lemma choice_delete:
  "choice_at (deleteResolutionField res m' rt) m f =
     (if m = m' \<and> (f = rt \<or> rt = ''billing_expr'' \<and> f = ''billing_mode'' \<or> rt = ''billing_mode'' \<and> f = ''billing_expr'')
      then JUndef else choice_at res m f)"
proof (cases "obj_get m' res")
  case None
  then show ?thesis by (simp add: deleteResolutionField_def choice_at_def obj_or_def)
next
  case (Some r)
  define r3 where "r3 = (let r1 = obj_del rt r; r2 = (if rt = ''billing_expr'' then obj_del ''billing_mode'' r1 else r1)
     in if rt = ''billing_mode'' then obj_del ''billing_expr'' r2 else r2)"
  have eq: "deleteResolutionField res m' rt = (if r3 = [] then obj_del m' res else obj_set m' r3 res)"
    using Some by (simp add: deleteResolutionField_def r3_def Let_def)
  have "obj_or [] m (deleteResolutionField res m' rt) = (if m = m' then r3 else obj_or [] m res)"
    unfolding eq by (auto simp: obj_or_def obj_get_set obj_get_del)
  moreover have "obj_or JUndef f r3 =
     (if f = rt \<or> rt = ''billing_expr'' \<and> f = ''billing_mode'' \<or> rt = ''billing_mode'' \<and> f = ''billing_expr''
      then JUndef else obj_or JUndef f r)"
    by (auto simp: r3_def Let_def obj_or_def obj_get_del)
  ultimately show ?thesis using Some by (simp add: choice_at_def obj_or_def)
qed

lemma delete_mono: "choice_at res m f = JUndef \<Longrightarrow> choice_at (deleteResolutionField res m' rt) m f = JUndef"
  by (simp add: choice_delete)

definition untick_row :: "string \<Rightarrow> string \<Rightarrow> sync_row \<Rightarrow> resolutions \<Rightarrow> resolutions" where
  "untick_row flt src row res = fold (\<lambda>rt r'. if upstream_of (sr_ratioTypes row) rt src \<noteq> JUndef
     then deleteResolutionField r' (sr_model row) rt else r') (getOrderedRatioTypes flt (sr_ratioTypes row)) res"

lemma bulk_deselect_eq: "bulk_deselect flt rows src res = fold (untick_row flt src) rows res"
  unfolding bulk_deselect_def untick_row_def[abs_def] ..

lemma untick_mono: "choice_at res m f = JUndef \<Longrightarrow> choice_at (untick_row flt src row res) m f = JUndef"
proof -
  have "choice_at r m f = JUndef \<Longrightarrow> choice_at (fold (\<lambda>rt r'. if P rt then deleteResolutionField r' m' rt else r') rts r) m f = JUndef"
    for r m' P rts
    by (induction rts arbitrary: r) (auto simp: delete_mono)
  then show "choice_at res m f = JUndef \<Longrightarrow> ?thesis" by (simp add: untick_row_def)
qed

lemma untick_removes:
  assumes "f \<in> set (getOrderedRatioTypes flt (sr_ratioTypes row))" "upstream_of (sr_ratioTypes row) f src \<noteq> JUndef"
  shows "choice_at (untick_row flt src row res) (sr_model row) f = JUndef"
proof -
  let ?P = "\<lambda>rt. upstream_of (sr_ratioTypes row) rt src \<noteq> JUndef" and ?m = "sr_model row"
  have mono: "choice_at r ?m f = JUndef \<Longrightarrow> choice_at (fold (\<lambda>rt r'. if ?P rt then deleteResolutionField r' ?m rt else r') rts r) ?m f = JUndef"
    for r rts
    by (induction rts arbitrary: r) (auto simp: delete_mono)
  have "f \<in> set rts \<Longrightarrow> choice_at (fold (\<lambda>rt r'. if ?P rt then deleteResolutionField r' ?m rt else r') rts r) ?m f = JUndef" for rts r
  proof (induction rts arbitrary: r)
    case (Cons rt rts)
    show ?case
    proof (cases "f = rt")
      case True
      have "choice_at (deleteResolutionField r ?m rt) ?m f = JUndef" using True by (simp add: choice_delete)
      then show ?thesis using True assms(2) mono by simp
    next
      case False
      then show ?thesis using Cons by simp
    qed
  qed simp
  then show ?thesis using assms(1) by (simp add: untick_row_def)
qed

lemma fold_untick_mono: "choice_at res m f = JUndef \<Longrightarrow> choice_at (fold (untick_row flt src) rows res) m f = JUndef"
  by (induction rows arbitrary: res) (auto simp: untick_mono)

lemma bulk_removes:
  assumes "row \<in> set rows" "f \<in> set (getOrderedRatioTypes flt (sr_ratioTypes row))" "upstream_of (sr_ratioTypes row) f src \<noteq> JUndef"
  shows "choice_at (bulk_deselect flt rows src res) (sr_model row) f = JUndef"
  unfolding bulk_deselect_eq using assms(1)
proof (induction rows arbitrary: res)
  case (Cons row' rows)
  show ?case
  proof (cases "row = row'")
    case True
    then show ?thesis using untick_removes[OF assms(2,3)] fold_untick_mono by simp
  next
    case False
    then show ?thesis using Cons by simp
  qed
qed simp

section \<open>Theorems\<close>








text \<open>Unticking the header of a source removes the choice for every field of a visible row for which the source has any entry,
  whatever source the choice came from, also where the source's entry only says that it agrees with the local value.\<close>

theorem untick_drops_others:
  assumes "row \<in> set (sync_rows s)" "f \<in> set (getOrderedRatioTypes (rs_ratioTypeFilter s) (sr_ratioTypes row))"
    "upstream_of (sr_ratioTypes row) f src = JStr ''same''"
  shows "obj_or JUndef f (obj_or [] (sr_model row)
     (handleBulkSelect (rs_differences s) (rs_ratioTypeFilter s) (sync_rows s) src False (rs_resolutions s))) = JUndef"
  using bulk_removes[OF assms(1,2), of src] assms(3) by (simp add: choice_at_def handleBulkSelect_def)

definition sample_north :: rs_state where
  "sample_north = sample_fetched\<lparr>rs_resolutions := [(''gpt-4o'', [(''model_ratio'', JNum (Fin 3))])]\<rparr>"

theorem untick_drops_others_witness:
  "obj_or JUndef ''model_ratio'' (obj_or [] ''gpt-4o'' (rs_resolutions sample_north)) = JNum (Fin 3) \<and>
   obj_or JUndef ''model_ratio'' (obj_or [] ''gpt-4o'' (handleBulkSelect (rs_differences sample_north) (rs_ratioTypeFilter sample_north)
     (sync_rows sample_north) ''south'' False (rs_resolutions sample_north))) = JUndef"
proof -
  let ?row = "sync_row_of (sample_diffs ! 0)"
  have "?row \<in> set (sync_rows sample_north)" "''model_ratio'' \<in> set (getOrderedRatioTypes (rs_ratioTypeFilter sample_north) (sr_ratioTypes ?row))"
    "upstream_of (sr_ratioTypes ?row) ''model_ratio'' ''south'' = JStr ''same''" "sr_model ?row = ''gpt-4o''"
    by code_simp+
  moreover have "obj_or JUndef ''model_ratio'' (obj_or [] ''gpt-4o'' (rs_resolutions sample_north)) = JNum (Fin 3)" by code_simp
  ultimately show ?thesis using untick_drops_others[of ?row sample_north "''model_ratio''" "''south''"] by simp
qed

end
