(* ===== verification/UpstreamUpdates.thy ===== *)
theory UpstreamUpdates
  imports JsObjectFacts JsJson
begin

text \<open>
  Upstream model updates of channels, web/src/hooks/channels/upstreamUpdateUtils.js and
  web/src/hooks/channels/useChannelUpstreamUpdates.jsx: reading the pending updates from a channel's settings, and the hook that
  applies or detects them. An asynchronous handler is split at its \<open>await\<close>; a reference that guards against a second request while
  one is under way is a field of the state. The list's \<open>refresh\<close> belongs to the caller: a handler says whether it is called.
\<close>

section \<open>Settings\<close>

definition model_text :: "jsval \<Rightarrow> string" where
  "model_text v = trim (js_string (js_or v (JStr [])))"

text \<open>\<open>map\<close> exists on arrays only: any other truthy value throws.\<close>

definition normalizeModelList :: "jsval \<Rightarrow> unit + string list" where
  "normalizeModelList ms =
     (if \<not> truthy ms then Inr []
      else case ms of JArr vs \<Rightarrow> Inr (js_set (filter (\<lambda>m. m \<noteq> []) (map model_text vs))) | _ \<Rightarrow> Inl ())"

text \<open>On a list of texts.\<close>

definition normalize_texts :: "string list \<Rightarrow> string list" where
  "normalize_texts ms = js_set (filter (\<lambda>m. m \<noteq> []) (map trim ms))"

record upstream_meta =
  um_enabled :: bool
  um_add :: "string list"
  um_remove :: "string list"

definition no_meta :: upstream_meta where
  "no_meta = \<lparr>um_enabled = False, um_add = [], um_remove = []\<rparr>"

text \<open>Settings are an object, or a text that is parsed; \<open>None\<close> where neither gives an object.\<close>

definition settings_object :: "jsval \<Rightarrow> jsval option" where
  "settings_object settings =
     (let parsed = (case settings of
          JObj ps \<Rightarrow> Some settings | JArr vs \<Rightarrow> Some settings
        | JStr t \<Rightarrow> json_parse t | _ \<Rightarrow> None)
      in case parsed of Some (JObj ps) \<Rightarrow> parsed | Some (JArr vs) \<Rightarrow> parsed | _ \<Rightarrow> None)"

definition parseUpstreamUpdateMeta :: "jsval \<Rightarrow> unit + upstream_meta" where
  "parseUpstreamUpdateMeta settings =
     (case settings_object settings of
        None \<Rightarrow> Inr no_meta
      | Some parsed \<Rightarrow>
          (case normalizeModelList (jget ''upstream_model_update_last_detected_models'' parsed) of
             Inl e \<Rightarrow> Inl e
           | Inr add \<Rightarrow>
               (case normalizeModelList (jget ''upstream_model_update_last_removed_models'' parsed) of
                  Inl e \<Rightarrow> Inl e
                | Inr rem \<Rightarrow> Inr \<lparr>um_enabled = (jget ''upstream_model_update_check_enabled'' parsed = JBool True),
                                   um_add = add, um_remove = rem\<rparr>)))"


section \<open>The hook\<close>

datatype up_toast = NothingPending | UpBusy | UpFailed string | UpThrown | UpApplied nat nat nat nat | UpBatch nat nat nat nat | UpDetected nat nat

record up_state =
  up_visible :: bool
  up_channel :: "int option"
  up_addModels :: "string list"
  up_removeModels :: "string list"
  up_tab :: string
  up_applyLoading :: bool
  up_detectAllLoading :: bool
  up_applyAllLoading :: bool
  up_applyInFlight :: bool
  up_detectInFlight :: bool
  up_detectAllInFlight :: bool
  up_applyAllInFlight :: bool
  up_toasts :: "up_toast list"


definition up_toast :: "up_toast \<Rightarrow> up_state \<Rightarrow> up_state" where
  "up_toast t s = s\<lparr>up_toasts := up_toasts s @ [t]\<rparr>"













section \<open>Facts\<close>

definition model_list_ok :: "string list \<Rightarrow> bool" where
  "model_list_ok ms \<longleftrightarrow> distinct ms \<and> list_all (\<lambda>m. m \<noteq> [] \<and> trim m = m) ms"


lemma normalize_texts_id: "model_list_ok ms \<Longrightarrow> normalize_texts ms = ms"
proof -
  assume ok: "model_list_ok ms"
  then have "map trim ms = ms" by (auto simp: model_list_ok_def list_all_iff intro: map_idI)
  moreover have "filter (\<lambda>m. m \<noteq> []) ms = ms" using ok by (auto simp: model_list_ok_def list_all_iff)
  ultimately show ?thesis using ok by (simp add: normalize_texts_def js_set_id model_list_ok_def)
qed

lemma normalize_model_list: "normalizeModelList v = Inr ms \<Longrightarrow> model_list_ok ms"
  by (auto simp: normalizeModelList_def model_list_ok_def list_all_iff model_text_def split: if_splits jsval.splits)

lemma parse_meta_ok: "parseUpstreamUpdateMeta v = Inr meta \<Longrightarrow> model_list_ok (um_add meta) \<and> model_list_ok (um_remove meta)"
  by (auto simp: parseUpstreamUpdateMeta_def no_meta_def model_list_ok_def[of "[]"] dest: normalize_model_list split: option.splits sum.splits)

subsection \<open>The dialogue\<close>





lemma model_list_ok_Nil [simp]: "model_list_ok []"
  by (simp add: model_list_ok_def)







end
