(* ===== verification/ChannelTable.thy ===== *)
theory ChannelTable
  imports UpstreamUpdates
begin

text \<open>
  The rows of the channel table, from web/src/hooks/channels/useChannelsData.jsx: \<open>setChannelFormat\<close>, which turns the channels of an
  answer into rows (one per channel, or one per tag with the channels as children), the counts per type, sorting and query texts,
  and the visible columns. The rows here are values; the store in which the page mutates them is in \<open>ChannelTableState\<close>. The
  fields of a channel are those the table reads or writes; \<open>c_tag\<close> is \<open>None\<close> for \<open>null\<close>.
\<close>

section \<open>Channels and rows\<close>

record channel =
  c_id :: int
  c_name :: string
  c_type :: int
  c_tag :: "string option"
  c_group :: string
  c_status :: int
  c_priority :: jsval
  c_weight :: jsval
  c_used_quota :: jsnum
  c_response_time :: jsnum
  c_test_time :: jsnum
  c_balance :: jsnum
  c_balance_updated_time :: jsnum
  c_models :: string
  c_settings :: jsval
  c_channel_info :: jsobj
  c_meta :: upstream_meta

text \<open>A tag's row; its name is the word for "tag" followed by the tag, its key and identifier are the tag.\<close>

record 'c tag_row =
  tg_tag :: string
  tg_group :: string
  tg_used_quota :: jsnum
  tg_response_time :: jsnum
  tg_priority :: jsval
  tg_weight :: jsval
  tg_status :: "int option"
  tg_children :: "'c list"

datatype 'c row = ChannelRow 'c | TagRow "'c tag_row"

definition tag_of :: "channel \<Rightarrow> string" where
  "tag_of c = (case c_tag c of Some t \<Rightarrow> t | None \<Rightarrow> [])"

text \<open>The members every object inherits: \<open>channelTags[tag]\<close> is defined for them before any assignment.\<close>

definition object_members :: "string list" where
  "object_members = [''constructor'', ''__defineGetter__'', ''__defineSetter__'', ''hasOwnProperty'', ''__lookupGetter__'',
     ''__lookupSetter__'', ''isPrototypeOf'', ''propertyIsEnumerable'', ''toString'', ''valueOf'', ''__proto__'', ''toLocaleString'']"

definition new_tag_row :: "string \<Rightarrow> 'c tag_row" where
  "new_tag_row tag = \<lparr>tg_tag = tag, tg_group = [], tg_used_quota = Fin 0, tg_response_time = Fin 0,
     tg_priority = JNum (Fin (- 1)), tg_weight = JNum (Fin (- 1)), tg_status = None, tg_children = []\<rparr>"

text \<open>The common value of the children, or the empty text.\<close>

definition merge_value :: "jsval \<Rightarrow> jsval \<Rightarrow> jsval" where
  "merge_value old new = (if strict_eq old (JNum (Fin (- 1))) then new else if \<not> strict_eq old new then JStr [] else old)"

definition merge_group :: "string \<Rightarrow> string \<Rightarrow> string" where
  "merge_group old new =
     (if old = [] then new
      else fold (\<lambda>item acc. if str_includes item acc then acc else acc @ '','' @ item) (split_char (CHR '','') new) old)"

definition add_child :: "channel \<Rightarrow> channel tag_row \<Rightarrow> channel tag_row" where
  "add_child c row = row\<lparr>
     tg_priority := merge_value (tg_priority row) (c_priority c),
     tg_weight := merge_value (tg_weight row) (c_weight c),
     tg_group := merge_group (tg_group row) (c_group c),
     tg_children := tg_children row @ [c],
     tg_status := (if c_status c = 1 then Some 1 else tg_status row),
     tg_used_quota := num_add (tg_used_quota row) (c_used_quota c),
     tg_response_time := num_div (num_add (tg_response_time row) (c_response_time c)) (Fin 2)\<rparr>"

definition has_tag :: "string \<Rightarrow> channel tag_row list \<Rightarrow> bool" where
  "has_tag tag rows \<longleftrightarrow> list_ex (\<lambda>r. tg_tag r = tag) rows"

text \<open>One channel in tag mode: a tag seen for the first time gets a row at the end, unless it is an inherited member, for which the
  search for the row fails and the page throws.\<close>

definition tag_step :: "channel \<Rightarrow> channel tag_row list \<Rightarrow> unit + channel tag_row list" where
  "tag_step c rows =
     (let tag = tag_of c in
      if has_tag tag rows then Inr (upd_by tg_tag tag (add_child c) rows)
      else if tag \<in> set object_members then Inl ()
      else Inr (rows @ [add_child c (new_tag_row tag)]))"

fun tag_rows :: "channel list \<Rightarrow> channel tag_row list \<Rightarrow> unit + channel tag_row list" where
  "tag_rows [] rows = Inr rows"
| "tag_rows (c # cs) rows = (case tag_step c rows of Inl e \<Rightarrow> Inl e | Inr rows' \<Rightarrow> tag_rows cs rows')"

text \<open>Every channel first gets the updates pending in its settings. Reading them may throw, in the order of the channels; so may
  its tag.\<close>

fun with_metas :: "channel list \<Rightarrow> unit + channel list" where
  "with_metas [] = Inr []"
| "with_metas (c # cs) =
     (case parseUpstreamUpdateMeta (c_settings c) of
        Inl e \<Rightarrow> Inl e
      | Inr meta \<Rightarrow> (case with_metas cs of Inl e \<Rightarrow> Inl e | Inr ds \<Rightarrow> Inr (c\<lparr>c_meta := meta\<rparr> # ds)))"

definition setChannelFormat :: "channel list \<Rightarrow> bool \<Rightarrow> unit + channel row list" where
  "setChannelFormat channels enableTagMode =
     (case with_metas channels of
        Inl e \<Rightarrow> Inl e
      | Inr cs \<Rightarrow>
          if enableTagMode then (case tag_rows cs [] of Inl e \<Rightarrow> Inl e | Inr rows \<Rightarrow> Inr (map TagRow rows))
          else Inr (map ChannelRow cs))"

section \<open>Sorting and queries\<close>

definition SORTABLE_CHANNEL_COLUMNS :: "string list" where
  "SORTABLE_CHANNEL_COLUMNS = [''id'', ''name'', ''priority'', ''balance'', ''response_time'']"

record sort_config =
  sc_sortBy :: string
  sc_sortOrder :: string

definition no_sort :: sort_config where
  "no_sort = \<lparr>sc_sortBy = [], sc_sortOrder = []\<rparr>"

definition getSortQuery :: "sort_config \<Rightarrow> string" where
  "getSortQuery sc = (if sc_sortBy sc = [] \<or> sc_sortOrder sc = [] then []
     else ''&sort_by='' @ sc_sortBy sc @ ''&sort_order='' @ sc_sortOrder sc)"

text \<open>\<open>handleTableChange\<close>: the column and order the table reports become the next sort configuration.\<close>

definition next_sort :: "string option \<Rightarrow> string option \<Rightarrow> sort_config" where
  "next_sort dataIndex order =
     (let sortBy = (case dataIndex of Some d \<Rightarrow> d | None \<Rightarrow> []);
          sortOrder = (if order = Some ''ascend'' then ''asc'' else if order = Some ''descend'' then ''desc'' else [])
      in if sortBy \<noteq> [] \<and> sortOrder \<noteq> [] \<and> sortBy \<in> set SORTABLE_CHANNEL_COLUMNS
         then \<lparr>sc_sortBy = sortBy, sc_sortOrder = sortOrder\<rparr> else no_sort)"

record form_values =
  fv_keyword :: string
  fv_group :: string
  fv_model :: string

definition form_empty :: "form_values \<Rightarrow> bool" where
  "form_empty f \<longleftrightarrow> fv_keyword f = [] \<and> fv_group f = [] \<and> fv_model f = []"

record query =
  q_page :: int
  q_pageSize :: int
  q_idSort :: bool
  q_tagMode :: bool
  q_typeKey :: string
  q_status :: string
  q_sort :: sort_config

definition bool_text :: "bool \<Rightarrow> string" where
  "bool_text b = (if b then ''true'' else ''false'')"

definition int_text :: "int \<Rightarrow> string" where
  "int_text i = num_str (Fin (of_int i))"

definition filter_params :: "query \<Rightarrow> string" where
  "filter_params q = (if q_typeKey q \<noteq> ''all'' then ''&type='' @ q_typeKey q else [])
     @ (if q_status q \<noteq> ''all'' then ''&status='' @ q_status q else []) @ getSortQuery (q_sort q)"

definition load_url :: "query \<Rightarrow> string" where
  "load_url q = ''/api/channel/?p='' @ int_text (q_page q) @ ''&page_size='' @ int_text (q_pageSize q) @ ''&id_sort='' @ bool_text (q_idSort q)
     @ ''&tag_mode='' @ bool_text (q_tagMode q) @ filter_params q"

definition search_url :: "form_values \<Rightarrow> query \<Rightarrow> string" where
  "search_url f q = ''/api/channel/search?keyword='' @ fv_keyword f @ ''&group='' @ fv_group f @ ''&model='' @ fv_model f
     @ ''&id_sort='' @ bool_text (q_idSort q) @ ''&tag_mode='' @ bool_text (q_tagMode q) @ ''&p='' @ int_text (q_page q)
     @ ''&page_size='' @ int_text (q_pageSize q) @ filter_params q"

section \<open>Counts\<close>

type_synonym counts = "(string \<times> jsnum) list"

text \<open>\<open>{...type_counts, all: sumAll}\<close>\<close>

definition sum_counts :: "counts \<Rightarrow> counts" where
  "sum_counts tc = obj_set ''all'' (fold (\<lambda>(k, v) acc. num_add acc v) tc (Fin 0)) tc"

definition collect :: "channel \<Rightarrow> counts \<Rightarrow> counts" where
  "collect ch counts = (let k = int_text (c_type ch); old = obj_or NaN k counts in
     obj_set k (num_add (if num_truthy old then old else Fin 0) (Fin 1)) counts)"

definition row_channels :: "channel row \<Rightarrow> channel list" where
  "row_channels r = (case r of ChannelRow c \<Rightarrow> [c] | TagRow t \<Rightarrow> tg_children t)"

definition channelTypeCounts :: "counts \<Rightarrow> channel row list \<Rightarrow> counts" where
  "channelTypeCounts typeCounts rows =
     (if typeCounts \<noteq> [] then typeCounts
      else fold collect (concat (map row_channels rows)) [(''all'', Fin (of_nat (length rows)))])"

definition availableTypeKeys :: "counts \<Rightarrow> string list" where
  "availableTypeKeys counts = ''all'' # map fst (filter (\<lambda>(k, v). k \<noteq> ''all'' \<and> num_less (Fin 0) v) counts)"

section \<open>Columns\<close>

definition COLUMN_KEYS :: "string list" where
  "COLUMN_KEYS = [''id'', ''name'', ''group'', ''type'', ''status'', ''response_time'', ''balance'', ''priority'', ''weight'', ''operate'']"

definition getDefaultColumnVisibility :: jsobj where
  "getDefaultColumnVisibility = map (\<lambda>k. (k, JBool True)) COLUMN_KEYS"

text \<open>The columns the page starts with, given the stored text.\<close>

definition load_columns :: "string option \<Rightarrow> jsobj" where
  "load_columns saved =
     (case saved of
        None \<Rightarrow> getDefaultColumnVisibility
      | Some t \<Rightarrow> if t = [] then getDefaultColumnVisibility
                  else case json_parse t of
                         Some v \<Rightarrow> obj_spread getDefaultColumnVisibility (spread_of v)
                       | None \<Rightarrow> getDefaultColumnVisibility)"

text \<open>The effect that stores them.\<close>

definition store_columns :: "jsobj \<Rightarrow> string option \<Rightarrow> string option" where
  "store_columns cols stored = (if cols \<noteq> [] then Some (json_stringify (JObj cols)) else stored)"

definition handleColumnVisibilityChange :: "string \<Rightarrow> bool \<Rightarrow> jsobj \<Rightarrow> jsobj" where
  "handleColumnVisibilityChange k checked cols = obj_set k (JBool checked) cols"

definition handleSelectAll :: "bool \<Rightarrow> jsobj" where
  "handleSelectAll checked = fold (\<lambda>k cols. obj_set k (JBool checked) cols) COLUMN_KEYS []"

end
