(* ===== verification/ChannelTableState.thy ===== *)
theory ChannelTableState
  imports ChannelTable
begin

text \<open>
  The state of the channel table and its handlers, web/src/hooks/channels/useChannelsData.jsx. The page mutates the channel objects of
  its rows in place and then sets a copy of the list of rows it was rendered with. Rows are therefore references into a store of
  channel and tag objects, and a handler that continues after an \<open>await\<close> takes the list of rows of its closure as an argument
  (\<open>closure\<close>); it need not be the list shown by then. A request under way is a value \<open>pending\<close> that its answer is paired with.
\<close>

section \<open>The store\<close>

datatype ref = CRef nat | TRef nat

definition with_children :: "'b list \<Rightarrow> 'a tag_row \<Rightarrow> 'b tag_row" where
  "with_children cs t = \<lparr>tg_tag = tg_tag t, tg_group = tg_group t, tg_used_quota = tg_used_quota t, tg_response_time = tg_response_time t,
     tg_priority = tg_priority t, tg_weight = tg_weight t, tg_status = tg_status t, tg_children = cs\<rparr>"

record store =
  st_chans :: "nat \<Rightarrow> channel option"
  st_tags :: "nat \<Rightarrow> nat tag_row option"
  st_next :: nat

definition empty_store :: store where
  "empty_store = \<lparr>st_chans = (\<lambda>_. None), st_tags = (\<lambda>_. None), st_next = 0\<rparr>"

fun alloc_chans :: "channel list \<Rightarrow> store \<Rightarrow> nat list \<times> store" where
  "alloc_chans [] h = ([], h)"
| "alloc_chans (c # cs) h =
     (let a = st_next h; (as, h') = alloc_chans cs (h\<lparr>st_chans := (st_chans h)(a \<mapsto> c), st_next := Suc a\<rparr>) in (a # as, h'))"

definition alloc_row :: "channel row \<Rightarrow> store \<Rightarrow> ref \<times> store" where
  "alloc_row r h = (case r of
      ChannelRow c \<Rightarrow> (CRef (st_next h), snd (alloc_chans [c] h))
    | TagRow t \<Rightarrow> (let (as, h1) = alloc_chans (tg_children t) h; a = st_next h1 in
        (TRef a, h1\<lparr>st_tags := (st_tags h1)(a \<mapsto> with_children as t), st_next := Suc a\<rparr>)))"

fun alloc_rows :: "channel row list \<Rightarrow> store \<Rightarrow> ref list \<times> store" where
  "alloc_rows [] h = ([], h)"
| "alloc_rows (r # rs) h = (let (a, h1) = alloc_row r h; (as, h2) = alloc_rows rs h1 in (a # as, h2))"

text \<open>The rows that a list of references shows.\<close>

definition view_row :: "store \<Rightarrow> ref \<Rightarrow> channel row" where
  "view_row h r = (case r of
      CRef a \<Rightarrow> ChannelRow (the (st_chans h a))
    | TRef a \<Rightarrow> (let t = the (st_tags h a) in TagRow (with_children (map (\<lambda>b. the (st_chans h b)) (tg_children t)) t)))"

definition view :: "store \<Rightarrow> ref list \<Rightarrow> channel row list" where
  "view h rs = map (view_row h) rs"

text \<open>The channel objects of a list of rows.\<close>

definition row_addrs :: "store \<Rightarrow> ref \<Rightarrow> nat list" where
  "row_addrs h r = (case r of CRef a \<Rightarrow> [a] | TRef a \<Rightarrow> tg_children (the (st_tags h a)))"

definition addrs :: "store \<Rightarrow> ref list \<Rightarrow> nat list" where
  "addrs h rs = concat (map (row_addrs h) rs)"

definition write_chan :: "(channel \<Rightarrow> channel) \<Rightarrow> nat \<Rightarrow> store \<Rightarrow> store" where
  "write_chan f a h = h\<lparr>st_chans := (st_chans h)(a := map_option f (st_chans h a))\<rparr>"

definition write_tag :: "(nat tag_row \<Rightarrow> nat tag_row) \<Rightarrow> nat \<Rightarrow> store \<Rightarrow> store" where
  "write_tag f a h = h\<lparr>st_tags := (st_tags h)(a := map_option f (st_tags h a))\<rparr>"

section \<open>State\<close>

datatype ct_toast = CtError string | CtDone | CtNeedSelection | CtNeedTag | CtTagged nat | CtDeleted nat | CtInfo | CtBadPriority | CtBadWeight
  | CtNoModels | CtNoMatch | CtBatchStart nat | CtBatchRange nat nat nat | CtStopped | CtCleared | CtTested string string string | CtFixed nat nat
  | CtCopied

record model_test =
  ts_success :: bool
  ts_message :: string
  ts_time :: jsnum
  ts_timestamp :: jsnum
  ts_errorCode :: jsval

record ct_state =
  ct_store :: store
  ct_rows :: "ref list"
  ct_loading :: bool
  ct_searching :: bool
  ct_activePage :: int
  ct_pageSize :: int
  ct_idSort :: bool
  ct_tagMode :: bool
  ct_statusFilter :: string
  ct_typeKey :: string
  ct_sortConfig :: sort_config
  ct_count :: int
  ct_typeCounts :: counts
  ct_requestCounter :: nat
  ct_selected :: "int list"
  ct_showBatchSetTag :: bool
  ct_batchSetTagValue :: string
  ct_stored_pageSize :: "string option"
  ct_testChannel :: "(int \<times> string) option"
  ct_modelSearchKeyword :: string
  ct_testResults :: "(string \<times> model_test) list"
  ct_testingModels :: "string list"
  ct_isBatchTesting :: bool
  ct_shouldStop :: bool
  ct_showTestModal :: bool
  ct_selectedModelKeys :: "string list"
  ct_modelTablePage :: nat
  ct_endpointType :: string
  ct_isStreamTest :: bool
  ct_toasts :: "ct_toast list"

definition ct_toast :: "ct_toast \<Rightarrow> ct_state \<Rightarrow> ct_state" where
  "ct_toast t s = s\<lparr>ct_toasts := ct_toasts s @ [t]\<rparr>"

definition ITEMS_PER_PAGE :: int where "ITEMS_PER_PAGE = 10"

definition initial_channels :: "string option \<Rightarrow> ct_state" where
  "initial_channels storedFilter = \<lparr>ct_store = empty_store, ct_rows = [], ct_loading = True, ct_searching = False, ct_activePage = 1,
     ct_pageSize = ITEMS_PER_PAGE, ct_idSort = False, ct_tagMode = False,
     ct_statusFilter = (case storedFilter of Some f \<Rightarrow> if f = [] then ''all'' else f | None \<Rightarrow> ''all''), ct_typeKey = ''all'',
     ct_sortConfig = no_sort, ct_count = 0, ct_typeCounts = [], ct_requestCounter = 0, ct_selected = [], ct_showBatchSetTag = False,
     ct_batchSetTagValue = [], ct_stored_pageSize = None, ct_testChannel = None, ct_modelSearchKeyword = [], ct_testResults = [],
     ct_testingModels = [], ct_isBatchTesting = False, ct_shouldStop = False, ct_showTestModal = False, ct_selectedModelKeys = [],
     ct_modelTablePage = 1, ct_endpointType = [], ct_isStreamTest = False, ct_toasts = []\<rparr>"

section \<open>Loading and searching\<close>

text \<open>A list request under way. A load carries its number; a search inside a load clears \<open>loading\<close> when it ends, a load inside a
  search clears \<open>searching\<close>.\<close>

record pending =
  pd_search :: bool
  pd_id :: nat
  pd_query :: query
  pd_url :: string
  pd_nested :: bool

definition start_load :: "bool \<Rightarrow> query \<Rightarrow> ct_state \<Rightarrow> pending \<times> ct_state" where
  "start_load nested q s = (let reqId = Suc (ct_requestCounter s) in
     (\<lparr>pd_search = False, pd_id = reqId, pd_query = q, pd_url = load_url q, pd_nested = nested\<rparr>,
      s\<lparr>ct_requestCounter := reqId, ct_loading := True\<rparr>))"

definition start_search :: "bool \<Rightarrow> form_values \<Rightarrow> query \<Rightarrow> ct_state \<Rightarrow> pending \<times> ct_state" where
  "start_search nested f q s =
     (\<lparr>pd_search = True, pd_id = 0, pd_query = q, pd_url = search_url f q, pd_nested = nested\<rparr>, s\<lparr>ct_searching := True\<rparr>)"

definition loadChannels :: "form_values \<Rightarrow> query \<Rightarrow> ct_state \<Rightarrow> pending \<times> ct_state" where
  "loadChannels f q s = (if form_empty f then start_load False q s else start_search True f q (s\<lparr>ct_loading := True\<rparr>))"

definition searchChannels :: "form_values \<Rightarrow> query \<Rightarrow> ct_state \<Rightarrow> pending \<times> ct_state" where
  "searchChannels f q s = (if form_empty f then start_load True q (s\<lparr>ct_searching := True\<rparr>) else start_search False f q s)"

record list_answer =
  la_items :: "channel list"
  la_total :: int
  la_type_counts :: "counts option"

text \<open>\<open>setChannels(setChannelFormat(items))\<close>; \<open>None\<close> where it throws.\<close>

definition show_items :: "channel list \<Rightarrow> bool \<Rightarrow> ct_state \<Rightarrow> ct_state option" where
  "show_items items tagMode s =
     (case setChannelFormat items tagMode of
        Inl e \<Rightarrow> None
      | Inr rows \<Rightarrow> (let (refs, h) = alloc_rows rows (ct_store s) in Some (s\<lparr>ct_rows := refs, ct_store := h\<rparr>)))"

text \<open>The rest of \<open>loadChannels\<close>; \<open>None\<close> is the answer \<open>undefined\<close>. An exception passes a surrounding search's \<open>finally\<close>.\<close>

definition load_answer :: "pending \<Rightarrow> list_answer reply option \<Rightarrow> ct_state \<Rightarrow> ct_state" where
  "load_answer p ans s =
     (case ans of
        None \<Rightarrow> s
      | Some (Thrown msg) \<Rightarrow> s
      | Some (Refused msg) \<Rightarrow>
          if pd_id p \<noteq> ct_requestCounter s then s else (ct_toast (CtError msg) s)\<lparr>ct_loading := False\<rparr>
      | Some (Granted a) \<Rightarrow>
          if pd_id p \<noteq> ct_requestCounter s then s
          else let s1 = (case la_type_counts a of Some tc \<Rightarrow> s\<lparr>ct_typeCounts := sum_counts tc\<rparr> | None \<Rightarrow> s) in
            (case show_items (la_items a) (q_tagMode (pd_query p)) s1 of
               None \<Rightarrow> s1
             | Some s2 \<Rightarrow> s2\<lparr>ct_count := la_total a, ct_loading := False\<rparr>))"

definition load_end :: "pending \<Rightarrow> list_answer reply option \<Rightarrow> ct_state \<Rightarrow> ct_state" where
  "load_end p ans s = (let s1 = load_answer p ans s in if pd_nested p then s1\<lparr>ct_searching := False\<rparr> else s1)"

text \<open>The rest of \<open>searchChannels\<close>, and whether it ended without an exception.\<close>

definition search_answer :: "pending \<Rightarrow> list_answer reply \<Rightarrow> ct_state \<Rightarrow> ct_state \<times> bool" where
  "search_answer p ans s =
     (case ans of
        Thrown msg \<Rightarrow> (s, False)
      | Refused msg \<Rightarrow> (ct_toast (CtError msg) s, True)
      | Granted a \<Rightarrow>
          let s1 = s\<lparr>ct_typeCounts := sum_counts (case la_type_counts a of Some tc \<Rightarrow> tc | None \<Rightarrow> [])\<rparr> in
          (case show_items (la_items a) (q_tagMode (pd_query p)) s1 of
             None \<Rightarrow> (s1, False)
           | Some s2 \<Rightarrow> (s2\<lparr>ct_count := la_total a, ct_activePage := q_page (pd_query p)\<rparr>, True)))"

definition search_end :: "pending \<Rightarrow> list_answer reply \<Rightarrow> ct_state \<Rightarrow> ct_state" where
  "search_end p ans s = (let (s1, ok) = search_answer p ans s; s2 = s1\<lparr>ct_searching := False\<rparr>
     in if pd_nested p \<and> ok then s2\<lparr>ct_loading := False\<rparr> else s2)"

text \<open>The query of the page's own settings; \<open>ct\<close> is the state a handler was created in.\<close>

definition query_of :: "ct_state \<Rightarrow> int \<Rightarrow> query" where
  "query_of ct page = \<lparr>q_page = page, q_pageSize = ct_pageSize ct, q_idSort = ct_idSort ct, q_tagMode = ct_tagMode ct,
     q_typeKey = ct_typeKey ct, q_status = ct_statusFilter ct, q_sort = ct_sortConfig ct\<rparr>"

definition fetch_page :: "form_values \<Rightarrow> query \<Rightarrow> ct_state \<Rightarrow> pending \<times> ct_state" where
  "fetch_page f q s = (if form_empty f then loadChannels f q s else searchChannels f q s)"

definition refresh :: "ct_state \<Rightarrow> form_values \<Rightarrow> int option \<Rightarrow> ct_state \<Rightarrow> pending \<times> ct_state" where
  "refresh ct f page s = fetch_page f (query_of ct (case page of Some p \<Rightarrow> p | None \<Rightarrow> ct_activePage ct)) s"

definition handlePageChange :: "form_values \<Rightarrow> int \<Rightarrow> ct_state \<Rightarrow> pending \<times> ct_state" where
  "handlePageChange f page s = fetch_page f (query_of s page) (s\<lparr>ct_activePage := page\<rparr>)"

definition handlePageSizeChange :: "form_values \<Rightarrow> int \<Rightarrow> ct_state \<Rightarrow> pending \<times> ct_state" where
  "handlePageSizeChange f n s = fetch_page f ((query_of s 1)\<lparr>q_pageSize := n\<rparr>)
     (s\<lparr>ct_stored_pageSize := Some (int_text n), ct_pageSize := n, ct_activePage := 1\<rparr>)"

text \<open>The table reports a change; only a change of the sorting counts.\<close>

definition handleTableChange :: "form_values \<Rightarrow> string option \<Rightarrow> string option \<Rightarrow> string option \<Rightarrow> ct_state \<Rightarrow> (pending \<times> ct_state) option" where
  "handleTableChange f changeType dataIndex order s =
     (if changeType \<noteq> None \<and> changeType \<noteq> Some [] \<and> changeType \<noteq> Some ''sorter'' then None
      else let next = next_sort dataIndex order in
        Some (fetch_page f ((query_of s 1)\<lparr>q_sort := next\<rparr>) (s\<lparr>ct_sortConfig := next, ct_activePage := 1\<rparr>)))"

section \<open>Channels\<close>

text \<open>\<open>updateChannelProperty\<close>: the objects of the closure's rows with the identifier are changed, and the closure's list is set.\<close>

fun update_addrs :: "int \<Rightarrow> (channel \<Rightarrow> channel) \<Rightarrow> nat list \<Rightarrow> store \<Rightarrow> bool \<times> store" where
  "update_addrs i f [] h = (False, h)"
| "update_addrs i f (a # as) h =
     (if c_id (the (st_chans h a)) = i then (True, snd (update_addrs i f as (write_chan f a h))) else update_addrs i f as h)"

definition updateChannelProperty :: "ref list \<Rightarrow> int \<Rightarrow> (channel \<Rightarrow> channel) \<Rightarrow> ct_state \<Rightarrow> ct_state" where
  "updateChannelProperty closure channelId updateFn s =
     (let (updated, h) = update_addrs channelId updateFn (addrs (ct_store s) closure) (ct_store s)
      in if updated then s\<lparr>ct_store := h, ct_rows := closure\<rparr> else s)"

datatype manage_action = ManageDelete | ManageEnable | ManageDisable | ManagePriority string | ManageWeight string | ManageEnableAll | ManageOther

text \<open>\<open>parseInt\<close> on a text: optional sign, then decimal digits, or \<open>0x\<close> and hexadecimal ones.\<close>

definition parse_int :: "string \<Rightarrow> jsnum" where
  "parse_int s =
     (let t = trim_start s;
          (neg, r) = (case t of c # r' \<Rightarrow> if c = CHR ''-'' then (True, r') else if c = CHR ''+'' then (False, r') else (False, t) | [] \<Rightarrow> (False, []));
          hex = (prefix ''0x'' r \<or> prefix ''0X'' r);
          ds = (if hex then takeWhile (\<lambda>c. hex_val c \<noteq> None) (drop 2 r) else takeWhile is_digit r)
      in case (if ds = [] then None else radix_value (if hex then 16 else 10) 0 ds) of
           None \<Rightarrow> NaN | Some n \<Rightarrow> rnd (of_int (if neg then - n else n)))"

text \<open>The request of \<open>manageChannel\<close>: an exception (no request and no answer to read), nothing, or the method with the body.
  Enabling all keys resets the record's own key states before the request.\<close>

datatype manage_request = DeleteChannel int | PutChannel jsobj

definition int_num :: "int \<Rightarrow> jsval" where
  "int_num i = JNum (Fin (of_int i))"

definition manageChannel_begin :: "int \<Rightarrow> manage_action \<Rightarrow> nat \<Rightarrow> ct_state \<Rightarrow> unit + (manage_request option \<times> ct_state)" where
  "manageChannel_begin i action rec s =
     (case action of
        ManageDelete \<Rightarrow> Inr (Some (DeleteChannel i), s)
      | ManageEnable \<Rightarrow> Inr (Some (PutChannel [(''id'', int_num i), (''status'', int_num 1)]), s)
      | ManageDisable \<Rightarrow> Inr (Some (PutChannel [(''id'', int_num i), (''status'', int_num 2)]), s)
      | ManagePriority v \<Rightarrow> if v = [] then Inr (None, s) else Inr (Some (PutChannel [(''id'', int_num i), (''priority'', JNum (parse_int v))]), s)
      | ManageWeight v \<Rightarrow> if v = [] then Inr (None, s)
          else let w = parse_int v in Inr (Some (PutChannel [(''id'', int_num i), (''weight'', JNum (if num_less w (Fin 0) then Fin 0 else w))]), s)
      | ManageEnableAll \<Rightarrow>
          let info = obj_set ''multi_key_status_list'' (JObj []) (c_channel_info (the (st_chans (ct_store s) rec))) in
          Inr (Some (PutChannel [(''id'', int_num i), (''channel_info'', JObj info)]),
               s\<lparr>ct_store := write_chan (\<lambda>c. c\<lparr>c_channel_info := info\<rparr>) rec (ct_store s)\<rparr>)
      | ManageOther \<Rightarrow> Inl ())"

text \<open>The answer carries the channel's new status.\<close>

definition manageChannel_end :: "ref list \<Rightarrow> manage_action \<Rightarrow> nat \<Rightarrow> int reply \<Rightarrow> ct_state \<Rightarrow> ct_state" where
  "manageChannel_end closure action rec ans s =
     (case ans of
        Thrown msg \<Rightarrow> s
      | Refused msg \<Rightarrow> ct_toast (CtError msg) s
      | Granted status \<Rightarrow>
          let s1 = ct_toast CtDone s;
              s2 = (if action \<noteq> ManageDelete then s1\<lparr>ct_store := write_chan (\<lambda>c. c\<lparr>c_status := status\<rparr>) rec (ct_store s1)\<rparr> else s1)
          in s2\<lparr>ct_rows := closure\<rparr>)"

text \<open>\<open>manageTag\<close> after its request: every row with the tag gets the status, with its children.\<close>

definition set_row_status :: "string \<Rightarrow> int \<Rightarrow> ref \<Rightarrow> store \<Rightarrow> store" where
  "set_row_status tag status r h =
     (case r of
        CRef a \<Rightarrow> if c_tag (the (st_chans h a)) = Some tag then write_chan (\<lambda>c. c\<lparr>c_status := status\<rparr>) a h else h
      | TRef a \<Rightarrow> if tg_tag (the (st_tags h a)) = tag
          then write_tag (\<lambda>t. t\<lparr>tg_status := Some status\<rparr>) a
                 (fold (write_chan (\<lambda>c. c\<lparr>c_status := status\<rparr>)) (tg_children (the (st_tags h a))) h)
          else h)"

definition manageTag_end :: "ref list \<Rightarrow> string \<Rightarrow> bool \<Rightarrow> unit reply \<Rightarrow> ct_state \<Rightarrow> ct_state" where
  "manageTag_end closure tag enable ans s =
     (case ans of
        Thrown msg \<Rightarrow> s
      | Refused msg \<Rightarrow> ct_toast (CtError msg) s
      | Granted _ \<Rightarrow> (ct_toast CtDone s)\<lparr>ct_store := fold (set_row_status tag (if enable then 1 else 2)) closure (ct_store s), ct_rows := closure\<rparr>)"

text \<open>\<open>submitTagEdit\<close> before its request: the body, or nothing with a message. The value is the text of the input.\<close>

definition submitTagEdit_priority :: "string option \<Rightarrow> ct_state \<Rightarrow> jsnum option \<times> ct_state" where
  "submitTagEdit_priority v s = (case v of
      None \<Rightarrow> (None, ct_toast CtBadPriority s)
    | Some t \<Rightarrow> if t = [] then (None, ct_toast CtBadPriority s) else (Some (parse_int t), s))"

definition submitTagEdit_weight :: "string option \<Rightarrow> ct_state \<Rightarrow> jsnum option \<times> ct_state" where
  "submitTagEdit_weight v s = (case v of
      None \<Rightarrow> (None, ct_toast CtBadWeight s)
    | Some t \<Rightarrow> if num_less (num_of_string t) (Fin 0) \<or> t = [] then (None, ct_toast CtBadWeight s) else (Some (parse_int t), s))"

text \<open>The selected channels' identifiers and the tag, or nothing with a message.\<close>

definition batchSetChannelTag :: "ct_state \<Rightarrow> (int list \<times> string) option \<times> ct_state" where
  "batchSetChannelTag s =
     (if ct_selected s = [] then (None, ct_toast CtNeedSelection s)
      else if ct_batchSetTagValue s = [] then (None, ct_toast CtNeedTag s)
      else (Some (ct_selected s, ct_batchSetTagValue s), s))"

definition batchDeleteChannels :: "ct_state \<Rightarrow> int list option \<times> ct_state" where
  "batchDeleteChannels s =
     (if ct_selected s = [] then (None, ct_toast CtNeedSelection s) else (Some (ct_selected s), s\<lparr>ct_loading := True\<rparr>))"

section \<open>Testing models\<close>

definition test_key :: "int \<Rightarrow> string \<Rightarrow> string" where
  "test_key i model = int_text i @ ''-'' @ model"

definition test_url :: "int \<Rightarrow> string \<Rightarrow> string \<Rightarrow> bool \<Rightarrow> string" where
  "test_url i model endpointType stream = ''/api/channel/test/'' @ int_text i @ ''?model='' @ model
     @ (if endpointType \<noteq> [] then ''&endpoint_type='' @ endpointType else []) @ (if stream then ''&stream=true'' else [])"

text \<open>\<open>testChannel\<close>; \<open>batching\<close> is the value of \<open>isBatchTesting\<close> in the closure of the call.\<close>

definition testChannel_begin :: "bool \<Rightarrow> int \<Rightarrow> string \<Rightarrow> string \<Rightarrow> bool \<Rightarrow> ct_state \<Rightarrow> string option \<times> ct_state" where
  "testChannel_begin batching i model endpointType stream s =
     (if ct_shouldStop s \<and> batching then (None, s)
      else (Some (test_url i model endpointType stream),
            s\<lparr>ct_testingModels := (if model \<in> set (ct_testingModels s) then ct_testingModels s else ct_testingModels s @ [model])\<rparr>))"

record test_answer =
  ta_success :: bool
  ta_message :: string
  ta_time :: jsnum
  ta_error_code :: jsval

definition put_result :: "string \<Rightarrow> model_test \<Rightarrow> ct_state \<Rightarrow> ct_state" where
  "put_result k r s = s\<lparr>ct_testResults := obj_set k r (ct_testResults s)\<rparr>"

definition remove_testing :: "string \<Rightarrow> ct_state \<Rightarrow> ct_state" where
  "remove_testing model s = s\<lparr>ct_testingModels := filter (\<lambda>m. m \<noteq> model) (ct_testingModels s)\<rparr>"

text \<open>After the answer at the time \<open>now\<close> (milliseconds). A rejected request gives its message and code.\<close>

definition testChannel_end :: "bool \<Rightarrow> ref list \<Rightarrow> int \<Rightarrow> string \<Rightarrow> string \<Rightarrow> bool \<Rightarrow> jsnum \<Rightarrow> (string \<times> jsval) + test_answer \<Rightarrow> ct_state \<Rightarrow> ct_state" where
  "testChannel_end batching closure i nm model silent now ans s =
     remove_testing model (case ans of
        Inl (msg, code) \<Rightarrow>
          let s1 = put_result (test_key i model) \<lparr>ts_success = False, ts_message = msg, ts_time = Fin 0, ts_timestamp = now, ts_errorCode = code\<rparr> s
          in if silent then s1 else ct_toast (CtError msg) s1
      | Inr a \<Rightarrow>
          if ct_shouldStop s \<and> batching then s
          else let s1 = put_result (test_key i model) \<lparr>ts_success = ta_success a, ts_message = ta_message a,
                     ts_time = (if num_truthy (ta_time a) then ta_time a else Fin 0), ts_timestamp = now,
                     ts_errorCode = js_or (ta_error_code a) JNull\<rparr> s
               in if ta_success a then
                    (let s2 = updateChannelProperty closure i (\<lambda>c. c\<lparr>c_response_time := num_mul (ta_time a) (Fin 1000),
                          c_test_time := num_div now (Fin 1000)\<rparr>) s1
                     in if silent then s2 else ct_toast (CtTested nm model (to_fixed 2 (ta_time a))) s2)
                  else if silent then s1 else ct_toast (CtError (ta_message a)) s1)"

definition batch_models :: "string \<Rightarrow> string \<Rightarrow> string list" where
  "batch_models models keyword = filter (\<lambda>m. str_includes (to_lower keyword) (to_lower m)) (split_char (CHR '','') models)"

definition concurrencyLimit :: nat where "concurrencyLimit = 5"

text \<open>\<open>batchTestModels\<close> up to its first request: the models to test, or nothing with a message.\<close>

definition batchTestModels_begin :: "ct_state \<Rightarrow> string list \<times> ct_state" where
  "batchTestModels_begin s =
     (case ct_testChannel s of
        None \<Rightarrow> ([], ct_toast CtNoModels s)
      | Some (i, ms) \<Rightarrow>
          if ms = [] then ([], ct_toast CtNoModels s)
          else let chosen = batch_models ms (ct_modelSearchKeyword s) in
            if chosen = [] then ([], ct_toast CtNoMatch s)
            else (chosen, ct_toast (CtBatchStart (length chosen)) (s\<lparr>ct_isBatchTesting := True, ct_shouldStop := False,
                    ct_testResults := fold (\<lambda>m r. obj_del (test_key i m) r) chosen (ct_testResults s)\<rparr>)))"

text \<open>The summary shown at the end: successes and failures.\<close>

definition batch_summary :: "int \<Rightarrow> string list \<Rightarrow> (string \<times> model_test) list \<Rightarrow> nat \<times> nat" where
  "batch_summary i chosen results =
     (let ok = (\<lambda>m. case obj_get (test_key i m) results of Some r \<Rightarrow> ts_success r | None \<Rightarrow> False)
      in (length (filter ok chosen), length (filter (\<lambda>m. \<not> ok m) chosen)))"

definition stopBatchTesting :: "ct_state \<Rightarrow> ct_state" where
  "stopBatchTesting s = ct_toast CtStopped (s\<lparr>ct_shouldStop := True, ct_isBatchTesting := False, ct_testingModels := []\<rparr>)"

definition clearTestResults :: "ct_state \<Rightarrow> ct_state" where
  "clearTestResults s = ct_toast CtCleared (s\<lparr>ct_testResults := []\<rparr>)"

definition handleCloseModal :: "ct_state \<Rightarrow> ct_state" where
  "handleCloseModal s =
     (let s1 = (if ct_isBatchTesting s then ct_toast CtStopped (s\<lparr>ct_shouldStop := True\<rparr>) else s) in
      s1\<lparr>ct_showTestModal := False, ct_modelSearchKeyword := [], ct_isBatchTesting := False, ct_testingModels := [],
         ct_selectedModelKeys := [], ct_modelTablePage := 1, ct_endpointType := [], ct_isStreamTest := False\<rparr>)"

text \<open>\<open>updateChannelBalance\<close> for a channel other than Codex, after its answer.\<close>

definition updateChannelBalance_end :: "ref list \<Rightarrow> int \<Rightarrow> jsnum \<Rightarrow> jsnum reply \<Rightarrow> ct_state \<Rightarrow> ct_state" where
  "updateChannelBalance_end closure i now ans s =
     (case ans of
        Thrown msg \<Rightarrow> s
      | Refused msg \<Rightarrow> ct_toast (CtError msg) s
      | Granted balance \<Rightarrow> ct_toast CtInfo (updateChannelProperty closure i
          (\<lambda>c. c\<lparr>c_balance := balance, c_balance_updated_time := num_div now (Fin 1000)\<rparr>) s))"

end
