(* ===== verification/ChannelTableActions.thy ===== *)
theory ChannelTableActions
  imports ChannelTableState
begin

text \<open>
  The remaining actions of the channel table, web/src/hooks/channels/useChannelsData.jsx: mounting with the stored settings, the
  answers of the requests that end in a reload, and the loop of a batch test. \<open>ct\<close> is the state of the render a handler belongs to;
  the list request that a handler starts with \<open>refresh\<close> is part of its result.
\<close>

section \<open>The page\<close>

record ct_page =
  pg_table :: ct_state
  pg_enableBatchDelete :: bool
  pg_showEdit :: bool
  pg_groupOptions :: "string list"
  pg_passThrough :: bool

definition initial_page :: "string option \<Rightarrow> ct_page" where
  "initial_page storedFilter = \<lparr>pg_table = initial_channels storedFilter, pg_enableBatchDelete = False, pg_showEdit = False,
     pg_groupOptions = [], pg_passThrough = False\<rparr>"

record stored_settings =
  sv_id_sort :: "string option"
  sv_page_size :: "string option"
  sv_tag_mode :: "string option"
  sv_batch_delete :: "string option"

text \<open>\<open>parseInt(localStorage.getItem('page-size')) || ITEMS_PER_PAGE\<close>; \<open>parseInt(null)\<close> reads the text \<open>null\<close>. A
  stored text of more than 308 digits, which is read as infinity, is outside of what \<open>int_of_num\<close> follows.\<close>

definition stored_page_size :: "string option \<Rightarrow> jsnum" where
  "stored_page_size t = (let n = parse_int (case t of Some x \<Rightarrow> x | None \<Rightarrow> ''null'') in if num_truthy n then n else Fin (of_int ITEMS_PER_PAGE))"

definition int_of_num :: "jsnum \<Rightarrow> int" where
  "int_of_num n = (case n of Fin q \<Rightarrow> \<lfloor>q\<rfloor> | _ \<Rightarrow> 0)"

text \<open>The first load is sent with the settings read from the storage; the other settings are those of the first render.\<close>

definition mount :: "form_values \<Rightarrow> stored_settings \<Rightarrow> ct_page \<Rightarrow> pending \<times> ct_page" where
  "mount f st pg =
     (let ct = pg_table pg;
          localIdSort = (sv_id_sort st = Some ''true'');
          localPageSize = int_of_num (stored_page_size (sv_page_size st));
          localTagMode = (sv_tag_mode st = Some ''true'');
          (p, s) = loadChannels f \<lparr>q_page = 1, q_pageSize = localPageSize, q_idSort = localIdSort, q_tagMode = localTagMode,
              q_typeKey = ct_typeKey ct, q_status = ct_statusFilter ct, q_sort = ct_sortConfig ct\<rparr>
            (ct\<lparr>ct_idSort := localIdSort, ct_pageSize := localPageSize, ct_tagMode := localTagMode\<rparr>)
      in (p, pg\<lparr>pg_table := s, pg_enableBatchDelete := (sv_batch_delete st = Some ''true'')\<rparr>))"

text \<open>The answer of the option list: its data is a value of any form.\<close>

definition option_item :: "jsval \<Rightarrow> bool" where
  "option_item v = strict_eq (jget ''key'' v) (JStr ''global.pass_through_request_enabled'')"

definition fetchGlobalPassThroughEnabled_end :: "jsval reply \<Rightarrow> ct_page \<Rightarrow> ct_page" where
  "fetchGlobalPassThroughEnabled_end ans pg =
     (case ans of
        Thrown _ \<Rightarrow> pg\<lparr>pg_passThrough := False\<rparr>
      | Refused _ \<Rightarrow> pg
      | Granted v \<Rightarrow>
          (case as_array v of
             None \<Rightarrow> pg
           | Some items \<Rightarrow>
               (case find option_item items of
                  None \<Rightarrow> pg
                | Some it \<Rightarrow> pg\<lparr>pg_passThrough := toBoolean (jget ''value'' it)\<rparr>)))"

definition fetchGroups_end :: "string list reply option \<Rightarrow> ct_page \<Rightarrow> ct_page" where
  "fetchGroups_end ans pg =
     (case ans of
        Some (Granted gs) \<Rightarrow> pg\<lparr>pg_groupOptions := gs\<rparr>
      | Some (Thrown msg) \<Rightarrow> pg\<lparr>pg_table := ct_toast (CtError msg) (pg_table pg)\<rparr>
      | _ \<Rightarrow> pg)"

definition closeEdit :: "ct_page \<Rightarrow> ct_page" where
  "closeEdit pg = pg\<lparr>pg_showEdit := False\<rparr>"

text \<open>\<open>handleRow\<close>: whether a row is drawn as disabled.\<close>

definition handleRow :: "channel row \<Rightarrow> bool" where
  "handleRow r = (case r of ChannelRow c \<Rightarrow> c_status c \<noteq> 1 | TagRow t \<Rightarrow> tg_status t \<noteq> Some 1)"

section \<open>Requests that end in a reload\<close>

type_synonym ct_context = "ct_state \<times> form_values"

definition then_refresh :: "ct_context \<Rightarrow> ct_toast \<Rightarrow> ct_state \<Rightarrow> pending option \<times> ct_state" where
  "then_refresh cx t s = (case refresh (fst cx) (snd cx) None (ct_toast t s) of (p, s') \<Rightarrow> (Some p, s'))"

definition copySelectedChannel_end :: "ct_context \<Rightarrow> unit reply \<Rightarrow> ct_state \<Rightarrow> pending option \<times> ct_state" where
  "copySelectedChannel_end cx ans s =
     (case ans of Granted _ \<Rightarrow> then_refresh cx CtCopied s | Refused msg \<Rightarrow> (None, ct_toast (CtError msg) s)
      | Thrown msg \<Rightarrow> (None, ct_toast (CtError msg) s))"

text \<open>A refusal of a tag edit is not reported.\<close>

definition submitTagEdit_end :: "ct_context \<Rightarrow> unit reply \<Rightarrow> ct_state \<Rightarrow> pending option \<times> ct_state" where
  "submitTagEdit_end cx ans s =
     (case ans of Granted _ \<Rightarrow> then_refresh cx CtDone s | Refused _ \<Rightarrow> (None, s) | Thrown msg \<Rightarrow> (None, ct_toast (CtError msg) s))"

definition batchSetChannelTag_end :: "ct_context \<Rightarrow> nat reply \<Rightarrow> ct_state \<Rightarrow> pending option \<times> ct_state" where
  "batchSetChannelTag_end cx ans s =
     (case ans of Granted n \<Rightarrow> then_refresh cx (CtTagged n) s | Refused msg \<Rightarrow> (None, ct_toast (CtError msg) s) | Thrown _ \<Rightarrow> (None, s))"

text \<open>When that reload has ended.\<close>

definition batchSetChannelTag_finish :: "ct_state \<Rightarrow> ct_state" where
  "batchSetChannelTag_finish s = s\<lparr>ct_showBatchSetTag := False\<rparr>"

definition batchDeleteChannels_end :: "ct_context \<Rightarrow> nat reply \<Rightarrow> ct_state \<Rightarrow> pending option \<times> ct_state" where
  "batchDeleteChannels_end cx ans s =
     (case ans of
        Granted n \<Rightarrow> then_refresh cx (CtDeleted n) s
      | Refused msg \<Rightarrow> (None, (ct_toast (CtError msg) s)\<lparr>ct_loading := False\<rparr>)
      | Thrown _ \<Rightarrow> (None, s))"

definition batchDeleteChannels_finish :: "ct_state \<Rightarrow> ct_state" where
  "batchDeleteChannels_finish s = s\<lparr>ct_loading := False\<rparr>"

text \<open>The timer that goes back a page when the rows of the closure were empty.\<close>

definition batchDeleteChannels_timer :: "ct_context \<Rightarrow> ct_state \<Rightarrow> (pending \<times> ct_state) option" where
  "batchDeleteChannels_timer cx s =
     (if ct_rows (fst cx) = [] \<and> ct_activePage (fst cx) > 1 then Some (refresh (fst cx) (snd cx) (Some (ct_activePage (fst cx) - 1)) s) else None)"

definition testAllChannels_end :: "unit reply \<Rightarrow> ct_state \<Rightarrow> ct_state" where
  "testAllChannels_end ans s = (case ans of Granted _ \<Rightarrow> ct_toast CtInfo s | Refused msg \<Rightarrow> ct_toast (CtError msg) s | Thrown _ \<Rightarrow> s)"

definition updateAllChannelsBalance_end :: "unit reply \<Rightarrow> ct_state \<Rightarrow> ct_state" where
  "updateAllChannelsBalance_end ans s = (case ans of Granted _ \<Rightarrow> ct_toast CtInfo s | Refused msg \<Rightarrow> ct_toast (CtError msg) s | Thrown _ \<Rightarrow> s)"

definition deleteAllDisabledChannels_end :: "ct_context \<Rightarrow> nat reply \<Rightarrow> ct_state \<Rightarrow> pending option \<times> ct_state" where
  "deleteAllDisabledChannels_end cx ans s =
     (case ans of Granted n \<Rightarrow> then_refresh cx (CtDeleted n) s | Refused msg \<Rightarrow> (None, ct_toast (CtError msg) s) | Thrown _ \<Rightarrow> (None, s))"

definition fixChannelsAbilities_end :: "ct_context \<Rightarrow> (nat \<times> nat) reply \<Rightarrow> ct_state \<Rightarrow> pending option \<times> ct_state" where
  "fixChannelsAbilities_end cx ans s =
     (case ans of Granted (ok, bad) \<Rightarrow> then_refresh cx (CtFixed ok bad) s | Refused msg \<Rightarrow> (None, ct_toast (CtError msg) s)
      | Thrown _ \<Rightarrow> (None, s))"

text \<open>The version that \<open>checkOllamaVersion\<close> shows in its dialogue, and the dialogue's copy button.\<close>

definition checkOllamaVersion_end :: "jsval reply \<Rightarrow> ct_state \<Rightarrow> string option \<times> ct_state" where
  "checkOllamaVersion_end ans s =
     (case ans of
        Granted v \<Rightarrow> (Some (js_string (js_or (jget ''version'' v) (JStr ''-''))), s)
      | Refused msg \<Rightarrow> (None, ct_toast (CtError msg) s)
      | Thrown msg \<Rightarrow> (None, ct_toast (CtError msg) s))"

definition handleCopyVersion :: "string \<Rightarrow> bool \<Rightarrow> ct_state \<Rightarrow> ct_state" where
  "handleCopyVersion version copied s =
     (if version = [] \<or> version = ''-'' then ct_toast CtInfo s else if copied then ct_toast CtCopied s else ct_toast (CtError []) s)"

section \<open>The loop of a batch test\<close>

datatype batch_next = BatchAsk "string list" | BatchLeft

definition batch_leave :: "ct_state \<Rightarrow> batch_next \<times> ct_state" where
  "batch_leave s = (BatchLeft, s)"

text \<open>The head of the loop at position \<open>i\<close>: the models to ask for at once, or the end of the loop.\<close>

definition batchTestModels_head :: "string list \<Rightarrow> nat \<Rightarrow> ct_state \<Rightarrow> batch_next \<times> ct_state" where
  "batchTestModels_head chosen i s =
     (if i < length chosen then
        (if ct_shouldStop s then batch_leave (ct_toast CtStopped s)
         else (BatchAsk (take concurrencyLimit (drop i chosen)),
               ct_toast (CtBatchRange (Suc i) (min (i + concurrencyLimit) (length chosen)) (length chosen)) s))
      else batch_leave s)"

text \<open>When the answers of a batch are in: the end of the loop, or its head at the next position.\<close>

definition batchTestModels_next :: "string list \<Rightarrow> nat \<Rightarrow> ct_state \<Rightarrow> batch_next \<times> ct_state" where
  "batchTestModels_next chosen i s =
     (if ct_shouldStop s then batch_leave (ct_toast CtStopped s) else batchTestModels_head chosen (i + concurrencyLimit) s)"

text \<open>After the loop: the summary unless stopped; the run is over.\<close>

definition batchTestModels_finish :: "int \<Rightarrow> string list \<Rightarrow> ct_state \<Rightarrow> (nat \<times> nat) option \<times> ct_state" where
  "batchTestModels_finish i chosen s =
     (if ct_shouldStop s then None else Some (batch_summary i chosen (ct_testResults s)), s\<lparr>ct_isBatchTesting := False\<rparr>)"

text \<open>The answers of requests, in the order in which they come in. The handler's closure has \<open>isBatchTesting\<close> unset: it
  belongs to the render in which the button was pressed.\<close>

definition run_answers :: "ref list \<Rightarrow> int \<Rightarrow> string \<Rightarrow> jsnum \<Rightarrow> (string \<times> ((string \<times> jsval) + test_answer)) list \<Rightarrow> ct_state \<Rightarrow> ct_state" where
  "run_answers rs i nm now outs s = fold (\<lambda>(m, a). testChannel_end False rs i nm m True now a) outs s"

text \<open>One batch: its requests are sent, then its answers come in, in the order that \<open>order\<close> gives.\<close>

type_synonym test_backend = "string \<Rightarrow> (string \<times> jsval) + test_answer"

definition send_batch :: "int \<Rightarrow> string list \<Rightarrow> ct_state \<Rightarrow> ct_state" where
  "send_batch i ms s = fold (\<lambda>m s. snd (testChannel_begin False i m (ct_endpointType s) (ct_isStreamTest s) s)) ms s"

definition answer_batch :: "ref list \<Rightarrow> int \<Rightarrow> string \<Rightarrow> jsnum \<Rightarrow> test_backend \<Rightarrow> (string list \<Rightarrow> string list) \<Rightarrow> string list \<Rightarrow> ct_state \<Rightarrow> ct_state" where
  "answer_batch rs i nm now ans order ms s = run_answers rs i nm now (map (\<lambda>m. (m, ans m)) (order ms)) s"

text \<open>The whole loop when nobody stops it; it ends because the position grows.\<close>

function batch_loop :: "ref list \<Rightarrow> int \<Rightarrow> string \<Rightarrow> jsnum \<Rightarrow> test_backend \<Rightarrow> (string list \<Rightarrow> string list) \<Rightarrow> string list \<Rightarrow> nat \<Rightarrow>
    batch_next \<times> ct_state \<Rightarrow> ct_state" where
  "batch_loop rs i nm now ans order chosen k (next, s) =
     (case next of
        BatchLeft \<Rightarrow> s
      | BatchAsk ms \<Rightarrow>
          if length chosen \<le> k then s
          else batch_loop rs i nm now ans order chosen (k + concurrencyLimit)
                 (batchTestModels_next chosen k (answer_batch rs i nm now ans order ms (send_batch i ms s))))"
  by pat_completeness auto
termination
  by (relation "measure (\<lambda>(rs, i, nm, now, ans, order, chosen, k, x). length chosen - k)") (auto simp: concurrencyLimit_def)

declare batch_loop.simps [simp del]

definition batchTestModels :: "ref list \<Rightarrow> int \<Rightarrow> string \<Rightarrow> jsnum \<Rightarrow> test_backend \<Rightarrow> (string list \<Rightarrow> string list) \<Rightarrow> ct_state \<Rightarrow>
    (nat \<times> nat) option \<times> ct_state" where
  "batchTestModels rs i nm now ans order s =
     (case batchTestModels_begin s of
        ([], s1) \<Rightarrow> (None, s1)
      | (chosen, s1) \<Rightarrow> batchTestModels_finish i chosen (batch_loop rs i nm now ans order chosen 0 (batchTestModels_head chosen 0 s1)))"

end
