(* ===== verification/ChannelTableFacts.thy ===== *)
theory ChannelTableFacts
  imports ChannelTable JsNumberFacts "HOL-Library.Multiset"
begin

text \<open>
  What the rows of the channel table contain: grouping by tags, the values a tag's row shows, the counts per type, the stored
  columns, and the query texts.
\<close>

section \<open>Grouping by tags\<close>

lemma js_set_snoc: "js_set (xs @ [x]) = (if x \<in> set xs then js_set xs else js_set xs @ [x])"
  by (simp add: js_set_def)

lemma js_set_Nil [simp]: "js_set [] = []"
  by (simp add: js_set_def)

definition tag_children :: "string \<Rightarrow> channel list \<Rightarrow> channel list" where
  "tag_children t cs = filter (\<lambda>c. tag_of c = t) cs"

definition row_for :: "channel list \<Rightarrow> string \<Rightarrow> channel tag_row" where
  "row_for cs t = fold add_child (tag_children t cs) (new_tag_row t)"

definition rows_for :: "channel list \<Rightarrow> channel tag_row list" where
  "rows_for cs = map (row_for cs) (js_set (map tag_of cs))"

lemma add_child_tag [simp]: "tg_tag (add_child c row) = tg_tag row"
  by (simp add: add_child_def)

lemma fold_add_child_tag [simp]: "tg_tag (fold add_child cs row) = tg_tag row"
  by (induction cs arbitrary: row) auto

lemma row_for_tag [simp]: "tg_tag (row_for cs t) = t"
  by (simp add: row_for_def new_tag_row_def)

lemma tags_rows_for: "map tg_tag (rows_for cs) = js_set (map tag_of cs)"
  by (simp add: rows_for_def comp_def)

lemma has_tag_rows_for: "has_tag t (rows_for cs) \<longleftrightarrow> t \<in> tag_of ` set cs"
  by (auto simp: has_tag_def rows_for_def list_ex_iff)

lemma row_for_snoc: "row_for (cs @ [c]) t = (if tag_of c = t then add_child c (row_for cs t) else row_for cs t)"
  by (simp add: row_for_def tag_children_def)

lemma row_for_fresh: "t \<notin> tag_of ` set cs \<Longrightarrow> row_for cs t = new_tag_row t"
proof -
  assume "t \<notin> tag_of ` set cs"
  then have "tag_children t cs = []" by (auto simp: tag_children_def filter_empty_conv)
  then show ?thesis by (simp add: row_for_def)
qed

lemma tag_step_rows_for:
  assumes "set (map tag_of cs) \<inter> set object_members = {}"
  shows "tag_step c (rows_for cs) = (if tag_of c \<in> set object_members then Inl () else Inr (rows_for (cs @ [c])))"
proof (cases "tag_of c \<in> tag_of ` set cs")
  case True
  have "upd_by tg_tag (tag_of c) (add_child c) (rows_for cs) = rows_for (cs @ [c])"
    using True by (auto simp: upd_by_def rows_for_def js_set_snoc row_for_snoc)
  moreover have "tag_of c \<notin> set object_members" using True assms by auto
  ultimately show ?thesis using True by (simp add: tag_step_def Let_def has_tag_rows_for)
next
  case False
  have "map (row_for (cs @ [c])) (js_set (map tag_of cs)) = rows_for cs"
    using False by (auto simp: rows_for_def row_for_snoc)
  then have "rows_for (cs @ [c]) = rows_for cs @ [add_child c (new_tag_row (tag_of c))]"
    using False row_for_fresh[OF False] unfolding rows_for_def[of "cs @ [c]"] by (simp add: js_set_snoc row_for_snoc)
  then show ?thesis using False by (simp add: tag_step_def Let_def has_tag_rows_for)
qed

lemma tag_rows_from:
  assumes "set (map tag_of done) \<inter> set object_members = {}"
  shows "tag_rows cs (rows_for done) = (if list_ex (\<lambda>c. tag_of c \<in> set object_members) cs then Inl () else Inr (rows_for (done @ cs)))"
  using assms
proof (induction cs arbitrary: "done")
  case (Cons c cs)
  show ?case
  proof (cases "tag_of c \<in> set object_members")
    case True
    then show ?thesis using tag_step_rows_for[OF Cons.prems] by simp
  next
    case False
    then have "set (map tag_of (done @ [c])) \<inter> set object_members = {}" using Cons.prems by simp
    then show ?thesis using tag_step_rows_for[OF Cons.prems, of c] Cons.IH[of "done @ [c]"] False by simp
  qed
qed simp

lemma tag_rows_eq: "tag_rows cs [] = (if list_ex (\<lambda>c. tag_of c \<in> set object_members) cs then Inl () else Inr (rows_for cs))"
  using tag_rows_from[of "[]" cs] by (simp add: rows_for_def)

section \<open>The values of a tag's row\<close>

definition common_value :: "jsval list \<Rightarrow> jsval" where
  "common_value vs = (case dropWhile (\<lambda>v. strict_eq v (JNum (Fin (- 1)))) vs of
     [] \<Rightarrow> JNum (Fin (- 1)) | v # ws \<Rightarrow> if list_all (strict_eq v) ws then v else JStr [])"

lemma strict_eq_minus: "strict_eq v (JNum (Fin (- 1))) \<longleftrightarrow> v = JNum (Fin (- 1))"
  by (cases v) (auto simp: num_eq_def)

lemma fold_merge_blank: "fold (\<lambda>v acc. merge_value acc v) vs (JStr []) = JStr []"
  by (induction vs) (auto simp: merge_value_def)

lemma merge_value_other:
  "\<not> strict_eq old (JNum (Fin (- 1))) \<Longrightarrow> merge_value old v = (if strict_eq old v then old else JStr [])"
  by (simp add: merge_value_def)

lemma fold_merge_from:
  "\<not> strict_eq v (JNum (Fin (- 1))) \<Longrightarrow>
   fold (\<lambda>v acc. merge_value acc v) ws v = (if list_all (strict_eq v) ws then v else JStr [])"
  by (induction ws) (simp_all add: merge_value_other fold_merge_blank)

lemma fold_merge: "fold (\<lambda>v acc. merge_value acc v) vs (JNum (Fin (- 1))) = common_value vs"
proof (induction vs)
  case (Cons v vs)
  show ?case
  proof (cases "strict_eq v (JNum (Fin (- 1)))")
    case True
    then have "v = JNum (Fin (- 1))" by (simp only: strict_eq_minus)
    then show ?thesis using Cons by (simp add: merge_value_def common_value_def num_eq_def)
  next
    case False
    have "merge_value (JNum (Fin (- 1))) v = v" by (simp add: merge_value_def num_eq_def)
    then show ?thesis using fold_merge_from[OF False, of vs] False by (simp add: common_value_def)
  qed
qed (simp add: common_value_def)

lemma fold_add_child_fields:
  "tg_children (fold add_child cs row) = tg_children row @ cs"
  "tg_priority (fold add_child cs row) = fold (\<lambda>v acc. merge_value acc v) (map c_priority cs) (tg_priority row)"
  "tg_weight (fold add_child cs row) = fold (\<lambda>v acc. merge_value acc v) (map c_weight cs) (tg_weight row)"
  "tg_status (fold add_child cs row) = (if list_ex (\<lambda>c. c_status c = 1) cs then Some 1 else tg_status row)"
  "tg_used_quota (fold add_child cs row) = fold (\<lambda>c acc. num_add acc (c_used_quota c)) cs (tg_used_quota row)"
  "tg_group (fold add_child cs row) = fold (\<lambda>c acc. merge_group acc (c_group c)) cs (tg_group row)"
  "tg_response_time (fold add_child cs row) =
     fold (\<lambda>c acc. num_div (num_add acc (c_response_time c)) (Fin 2)) cs (tg_response_time row)"
  by (induction cs arbitrary: row) (simp_all add: add_child_def)

lemma row_for_fields:
  "tg_children (row_for cs t) = tag_children t cs"
  "tg_priority (row_for cs t) = common_value (map c_priority (tag_children t cs))"
  "tg_weight (row_for cs t) = common_value (map c_weight (tag_children t cs))"
  "tg_status (row_for cs t) = (if list_ex (\<lambda>c. c_status c = 1) (tag_children t cs) then Some 1 else None)"
  "tg_used_quota (row_for cs t) = fold (\<lambda>c acc. num_add acc (c_used_quota c)) (tag_children t cs) (Fin 0)"
  "tg_group (row_for cs t) = fold (\<lambda>c acc. merge_group acc (c_group c)) (tag_children t cs) []"
  by (simp_all add: row_for_def fold_add_child_fields new_tag_row_def fold_merge)

lemma mset_children:
  assumes "distinct ts"
  shows "mset (concat (map (\<lambda>t. tag_children t cs) ts)) = filter_mset (\<lambda>c. tag_of c \<in> set ts) (mset cs)"
  using assms
proof (induction ts)
  case (Cons t ts)
  have "filter_mset (\<lambda>c. tag_of c \<in> set (t # ts)) (mset cs) =
      filter_mset (\<lambda>c. tag_of c = t) (mset cs) + filter_mset (\<lambda>c. tag_of c \<in> set ts) (mset cs)"
    using Cons.prems by (induction cs) auto
  then show ?case using Cons by (simp add: tag_children_def)
qed simp

text \<open>C7. In tag mode the table throws exactly when a tag has the name of a member that every object inherits. Otherwise it has one row
  per tag, in the order in which the tags first occur; a row holds exactly the channels with its tag in the order of the answer, so
  that every channel stands in one row. A row is enabled exactly when one of its channels is; its priority and weight are the value
  its channels share, or empty where they differ (a leading value of -1 is passed over); its used quota is the sum.\<close>

theorem tag_mode_rows:
  assumes "with_metas answer = Inr cs"
  shows "if list_ex (\<lambda>c. tag_of c \<in> set object_members) cs then setChannelFormat answer True = Inl ()
    else \<exists>rows. setChannelFormat answer True = Inr (map TagRow rows) \<and> map tg_tag rows = js_set (map tag_of cs) \<and>
      mset (concat (map tg_children rows)) = mset cs \<and>
      (\<forall>r\<in>set rows. tg_children r = filter (\<lambda>c. tag_of c = tg_tag r) cs \<and>
         tg_status r = (if list_ex (\<lambda>c. c_status c = 1) (tg_children r) then Some 1 else None) \<and>
         tg_priority r = common_value (map c_priority (tg_children r)) \<and> tg_weight r = common_value (map c_weight (tg_children r)) \<and>
         tg_used_quota r = fold (\<lambda>c acc. num_add acc (c_used_quota c)) (tg_children r) (Fin 0))"
proof (cases "list_ex (\<lambda>c. tag_of c \<in> set object_members) cs")
  case True
  then show ?thesis using assms by (simp add: setChannelFormat_def tag_rows_eq)
next
  case False
  let ?ts = "js_set (map tag_of cs)"
  have "map tg_children (rows_for cs) = map (\<lambda>t. tag_children t cs) ?ts" by (simp add: rows_for_def row_for_fields comp_def)
  then have "mset (concat (map tg_children (rows_for cs))) = filter_mset (\<lambda>c. tag_of c \<in> set ?ts) (mset cs)"
    using mset_children[of ?ts cs] by simp
  moreover have "filter_mset (\<lambda>c. tag_of c \<in> set ?ts) (mset cs) = mset cs" by (auto intro: filter_mset_eq_conv[THEN iffD2])
  ultimately have "mset (concat (map tg_children (rows_for cs))) = mset cs" by simp
  moreover have "\<forall>r\<in>set (rows_for cs). tg_children r = filter (\<lambda>c. tag_of c = tg_tag r) cs \<and>
         tg_status r = (if list_ex (\<lambda>c. c_status c = 1) (tg_children r) then Some 1 else None) \<and>
         tg_priority r = common_value (map c_priority (tg_children r)) \<and> tg_weight r = common_value (map c_weight (tg_children r)) \<and>
         tg_used_quota r = fold (\<lambda>c acc. num_add acc (c_used_quota c)) (tg_children r) (Fin 0)"
    by (auto simp: rows_for_def row_for_fields tag_children_def[symmetric])
  ultimately show ?thesis using assms False tags_rows_for by (auto simp: setChannelFormat_def tag_rows_eq)
qed

definition sample_chan :: "int \<Rightarrow> string \<Rightarrow> int \<Rightarrow> rat \<Rightarrow> channel" where
  "sample_chan i tag status prio = \<lparr>c_id = i, c_name = ''ch'', c_type = 1, c_tag = Some tag, c_group = ''default'', c_status = status,
     c_priority = JNum (Fin prio), c_weight = JNum (Fin 0), c_used_quota = Fin 10, c_response_time = Fin 100, c_test_time = Fin 0,
     c_balance = Fin 0, c_balance_updated_time = Fin 0, c_models = ''gpt-4o'', c_settings = JStr ''{}'', c_channel_info = [],
     c_meta = no_meta\<rparr>"

theorem tag_mode_rows_witness:
  "\<exists>rows. setChannelFormat [sample_chan 1 ''a'' 2 5, sample_chan 2 ''b'' 1 0, sample_chan 3 ''a'' 1 5] True = Inr (map TagRow rows) \<and>
     map tg_tag rows = [''a'', ''b'']"
proof -
  let ?cs = "[sample_chan 1 ''a'' 2 5, sample_chan 2 ''b'' 1 0, sample_chan 3 ''a'' 1 5]"
  have w: "with_metas ?cs = Inr ?cs" by code_simp
  have m: "list_ex (\<lambda>c. tag_of c \<in> set object_members) ?cs = False" "js_set (map tag_of ?cs) = [''a'', ''b'']" by code_simp+
  obtain rows where "setChannelFormat ?cs True = Inr (map TagRow rows)" "map tg_tag rows = [''a'', ''b'']"
    using tag_mode_rows[OF w] unfolding m if_False by (elim exE conjE)
  then show ?thesis by (intro exI conjI)
qed

text \<open>A tag with one channel shows half of the channel's response time, and a group that is part of the text already collected is
  left out.\<close>

lemma single_response_time:
  "tg_response_time (row_for [c] (tag_of c)) = num_div (num_add (Fin 0) (c_response_time c)) (Fin 2)"
  by (simp add: row_for_def tag_children_def add_child_def new_tag_row_def)

lemma single_response_time_example: "tg_response_time (row_for [sample_chan 1 ''a'' 1 0] ''a'') = Fin 50"
  by code_simp

lemma group_left_out: "merge_group ''svip'' ''default,vip'' = ''svip,default''"
  by code_simp

lemma leading_minus_one: "common_value [JNum (Fin (- 1)), JNum (Fin 5)] = JNum (Fin 5)"
  by code_simp

subsection \<open>Groups\<close>

lemma includes_append: "str_includes g acc \<Longrightarrow> str_includes g (acc @ y)" "str_includes g (y @ g)"
  unfolding str_includes_sublist sublist_def by (metis append.assoc, metis append_Nil2)

definition put_group :: "string \<Rightarrow> string \<Rightarrow> string" where
  "put_group item acc = (if str_includes item acc then acc else acc @ '','' @ item)"

lemma put_group_keeps: "str_includes g acc \<Longrightarrow> str_includes g (put_group item acc)"
  by (simp only: put_group_def includes_append(1) split: if_split) simp

lemma put_group_has: "str_includes item (put_group item acc)"
  using includes_append(2)[of item "acc @ '',''"] by (simp add: put_group_def)

lemma fold_groups_keep: "str_includes g acc \<Longrightarrow> str_includes g (fold put_group items acc)"
  by (induction items arbitrary: acc) (simp_all add: put_group_keeps)

lemma fold_groups_all: "item \<in> set items \<Longrightarrow> str_includes item (fold put_group items acc)"
  by (induction items arbitrary: acc) (auto simp: put_group_has fold_groups_keep)

lemma split_hd_prefix: "split_char d s = p # ps \<Longrightarrow> prefix p s"
  by (induction s arbitrary: p ps) (auto split: if_splits list.splits)

lemma split_includes: "item \<in> set (split_char d s) \<Longrightarrow> str_includes item s"
proof (induction s arbitrary: item rule: split_char.induct)
  case (2 d c s)
  then show ?case using split_hd_prefix[of d s] by (cases "split_char d s") (auto split: if_splits)
qed simp

lemma merge_group_eq: "merge_group old new = (if old = [] then new else fold put_group (split_char (CHR '','') new) old)"
  unfolding merge_group_def put_group_def[abs_def] ..

lemma merge_group_has: "item \<in> set (split_char (CHR '','') new) \<Longrightarrow> str_includes item (merge_group old new)"
  by (simp add: merge_group_eq split_includes fold_groups_all)

lemma includes_Nil: "str_includes [] s"
  by (cases s) simp_all

lemma merge_group_keeps: "str_includes g old \<Longrightarrow> str_includes g (merge_group old new)"
  by (cases "old = []") (auto simp: merge_group_eq fold_groups_keep includes_Nil)

lemma fold_merge_group_keeps: "str_includes g acc \<Longrightarrow> str_includes g (fold (\<lambda>c acc. merge_group acc (c_group c)) cs acc)"
  by (induction cs arbitrary: acc) (simp_all add: merge_group_keeps)

text \<open>The text of a tag's row contains the text of every group of its channels.\<close>

lemma row_groups:
  "c \<in> set (tag_children t cs) \<Longrightarrow> g \<in> set (split_char (CHR '','') (c_group c)) \<Longrightarrow> str_includes g (tg_group (row_for cs t))"
proof -
  have "c \<in> set ds \<Longrightarrow> g \<in> set (split_char (CHR '','') (c_group c)) \<Longrightarrow>
      str_includes g (fold (\<lambda>c acc. merge_group acc (c_group c)) ds acc)" for ds acc
    by (induction ds arbitrary: acc) (auto simp: fold_merge_group_keeps merge_group_has)
  then show "c \<in> set (tag_children t cs) \<Longrightarrow> g \<in> set (split_char (CHR '','') (c_group c)) \<Longrightarrow> ?thesis"
    by (simp add: row_for_fields)
qed

section \<open>Columns\<close>

definition columns_ok :: "jsobj \<Rightarrow> bool" where
  "columns_ok cols \<longleftrightarrow> map fst cols = COLUMN_KEYS \<and> list_all (\<lambda>p. snd p \<in> {JBool True, JBool False}) cols"

lemma column_keys: "distinct COLUMN_KEYS" "list_all (\<lambda>k. \<not> is_index k) COLUMN_KEYS"
  by code_simp+

lemma columns_plain: "columns_ok cols \<Longrightarrow> plain_keys cols"
proof -
  assume ok: "columns_ok cols"
  then have "list_all (\<lambda>k. \<not> is_index k) (map fst cols)" "distinct (map fst cols)" using column_keys by (simp_all add: columns_ok_def)
  then show ?thesis by (simp add: plain_keys_def list_all_iff)
qed

lemma columns_safe: "columns_ok cols \<Longrightarrow> json_safe (JObj cols)"
  by (rule json_safe_obj[OF columns_plain]) (auto simp: columns_ok_def list_all_iff)

lemma obj_set_present: "k \<in> set (map fst ps) \<Longrightarrow> map fst (obj_set k v ps) = map fst ps"
  using map_fst_upd[of k v ps] by (simp add: obj_set_def obj_has_def)

lemma obj_set_middle:
  "k \<notin> set (map fst xs) \<Longrightarrow> k \<notin> set (map fst ys) \<Longrightarrow> obj_set k v (xs @ (k, w :: 'a) # ys) = xs @ (k, v) # ys"
proof -
  have "k \<notin> set (map fst zs) \<Longrightarrow> map (\<lambda>(j, w). if j = k then (j, v) else (j, w)) zs = zs" for zs :: "(string \<times> 'a) list"
    by (induction zs) auto
  then show "k \<notin> set (map fst xs) \<Longrightarrow> k \<notin> set (map fst ys) \<Longrightarrow> ?thesis" by (simp add: obj_set_def obj_has_def)
qed

lemma fold_obj_set_same:
  "distinct (map fst (xs @ ys)) \<Longrightarrow> map fst zs = map fst ys \<Longrightarrow> fold (\<lambda>(k, v) ps. obj_set k v ps) zs (xs @ ys) = xs @ zs"
proof (induction zs arbitrary: xs ys)
  case (Cons p zs)
  obtain k v where p: "p = (k, v)" by force
  obtain w ys' where ys: "ys = (k, w) # ys'" "map fst zs = map fst ys'" using Cons.prems(2) p by (cases ys) auto
  have "obj_set k v (xs @ ys) = (xs @ [(k, v)]) @ ys'" using Cons.prems(1) ys by (simp add: obj_set_middle)
  moreover have "fold (\<lambda>(k, v) ps. obj_set k v ps) zs ((xs @ [(k, v)]) @ ys') = (xs @ [(k, v)]) @ zs"
    using Cons.prems(1) ys by (intro Cons.IH) auto
  ultimately show ?case using p by simp
qed simp

lemma spread_same_keys: "distinct (map fst a) \<Longrightarrow> map fst b = map fst a \<Longrightarrow> obj_spread a b = b"
  using fold_obj_set_same[of "[]" a b] by (simp add: obj_spread_def)

lemma default_columns: "columns_ok getDefaultColumnVisibility"
  by code_simp

lemma select_all_columns: "columns_ok (handleSelectAll b)"
proof -
  have "columns_ok (handleSelectAll True)" "columns_ok (handleSelectAll False)" by code_simp+
  then show ?thesis by (cases b) simp_all
qed

lemma change_column: "columns_ok cols \<Longrightarrow> k \<in> set COLUMN_KEYS \<Longrightarrow> columns_ok (handleColumnVisibilityChange k b cols)"
  by (auto simp: columns_ok_def handleColumnVisibilityChange_def obj_set_present intro!: list_all_obj_set)

text \<open>The visible columns survive: what the page stores after a change is read as the same columns when the page is opened again,
  and all changes keep one entry per column.\<close>

theorem columns_roundtrip:
  assumes "columns_ok cols" "k \<in> set COLUMN_KEYS"
  shows "load_columns (store_columns cols stored) = cols \<and> columns_ok (handleColumnVisibilityChange k b cols) \<and> columns_ok (handleSelectAll b) \<and>
    columns_ok (load_columns None)"
proof -
  have ne: "cols \<noteq> []" using assms(1) by (auto simp: columns_ok_def COLUMN_KEYS_def)
  have nonempty: "json_stringify (JObj cols) \<noteq> []" by (simp add: json_stringify_def wrap_items_def)
  have "json_parse (json_stringify (JObj cols)) = Some (JObj cols)" using compact.dec_enc[OF columns_safe[OF assms(1)]] .
  moreover have "obj_spread getDefaultColumnVisibility cols = cols"
    using assms(1) default_columns column_keys(1) by (intro spread_same_keys) (auto simp: columns_ok_def)
  ultimately have "load_columns (store_columns cols stored) = cols"
    using ne nonempty by (simp add: load_columns_def store_columns_def spread_of_def)
  then show ?thesis using change_column[OF assms] select_all_columns default_columns by (simp add: load_columns_def)
qed

theorem columns_roundtrip_witness:
  "load_columns (store_columns (handleSelectAll False) None) = handleSelectAll False"
  using columns_roundtrip[OF select_all_columns[of False], of "''id''" None] by (simp add: COLUMN_KEYS_def)

section \<open>Sorting and queries\<close>

definition sort_ok :: "sort_config \<Rightarrow> bool" where
  "sort_ok sc \<longleftrightarrow> sc = no_sort \<or> sc_sortBy sc \<in> set SORTABLE_CHANNEL_COLUMNS \<and> sc_sortOrder sc \<in> {''asc'', ''desc''}"

lemma next_sort_ok: "sort_ok (next_sort d order)"
  by (auto simp: next_sort_def sort_ok_def Let_def)

text \<open>The search request puts the texts of the form into the query unescaped: two different searches can send the same request.\<close>

theorem search_query_ambiguous:
  "\<exists>f g. f \<noteq> g \<and> (\<forall>q. search_url f q = search_url g q)"
proof -
  let ?f = "\<lparr>fv_keyword = ''a'', fv_group = ''b&group='', fv_model = []\<rparr>" and ?g = "\<lparr>fv_keyword = ''a&group=b'', fv_group = [], fv_model = []\<rparr>"
  have "?f \<noteq> ?g" by simp
  moreover have "\<forall>q. search_url ?f q = search_url ?g q" by (simp add: search_url_def)
  ultimately show ?thesis by blast
qed

section \<open>Counts per type\<close>

definition small_type :: "int \<Rightarrow> bool" where
  "small_type t \<longleftrightarrow> 0 \<le> t \<and> t < 10 ^ 15"

lemma int_text_small: "small_type t \<Longrightarrow> int_text t = int_str t"
  unfolding small_type_def int_text_def by (rule num_str_int) simp_all

lemma int_text_inj: "small_type a \<Longrightarrow> small_type b \<Longrightarrow> int_text a = int_text b \<longleftrightarrow> a = b"
proof -
  assume ab: "small_type a" "small_type b"
  have "num_of_string (int_text x) = Fin (of_int x)" if "small_type x" for x
    using that num_of_string_int[of x] by (simp add: int_text_small small_type_def)
  then show ?thesis using ab by (metis jsnum.inject of_int_eq_iff)
qed

lemma int_text_not_all: "small_type t \<Longrightarrow> int_text t \<noteq> ''all''"
  using int_str_digits[of t] by (auto simp: int_text_small small_type_def is_digit_def)

definition type_count :: "int \<Rightarrow> channel list \<Rightarrow> nat" where
  "type_count t cs = length (filter (\<lambda>c. c_type c = t) cs)"

definition count_entry :: "nat \<Rightarrow> jsnum option" where
  "count_entry n = (if n = 0 then None else Some (Fin (of_nat n)))"

lemma count_up:
  assumes "Suc n < 2 ^ 53"
  shows "num_add (let old = (case count_entry n of Some v \<Rightarrow> v | None \<Rightarrow> NaN) in if num_truthy old then old else Fin 0) (Fin 1) = Fin (of_nat (Suc n))"
proof -
  have r: "rnd (of_int (int n + 1)) = Fin (of_int (int n + 1))" using assms by (intro rnd_int) auto
  show ?thesis using r by (cases n) (auto simp: count_entry_def num_truthy_def Let_def add.commute)
qed

lemma collect_counts:
  assumes "list_all (\<lambda>c. small_type (c_type c)) (ds @ cs)" "length (ds @ cs) < 2 ^ 53"
    "\<forall>t. small_type t \<longrightarrow> obj_get (int_text t) counts = count_entry (type_count t ds)" "obj_get ''all'' counts = Some n"
  shows "(\<forall>t. small_type t \<longrightarrow> obj_get (int_text t) (fold collect cs counts) = count_entry (type_count t (ds @ cs))) \<and>
    obj_get ''all'' (fold collect cs counts) = Some n"
  using assms
proof (induction cs arbitrary: ds counts)
  case (Cons c cs)
  have sm: "small_type (c_type c)" using Cons.prems(1) by simp
  have "type_count (c_type c) ds \<le> length ds" unfolding type_count_def by (rule length_filter_le)
  then have len: "Suc (type_count (c_type c) ds) < 2 ^ 53" using Cons.prems(2) by simp
  have new: "num_add (if num_truthy (obj_or NaN (int_text (c_type c)) counts) then obj_or NaN (int_text (c_type c)) counts else Fin 0) (Fin 1)
      = Fin (of_nat (Suc (type_count (c_type c) ds)))"
  proof -
    have "obj_get (int_text (c_type c)) counts = count_entry (type_count (c_type c) ds)" using Cons.prems(3) sm by blast
    then show ?thesis using count_up[OF len] by (simp only: obj_or_def Let_def)
  qed
  have step: "obj_get (int_text t) (collect c counts) = count_entry (type_count t (ds @ [c]))" if "small_type t" for t
    using Cons.prems(3) that int_text_inj[OF that sm] new
    by (auto simp: collect_def Let_def obj_get_set type_count_def count_entry_def)
  have all: "obj_get ''all'' (collect c counts) = Some n"
    using Cons.prems(4) int_text_not_all[OF sm] by (simp add: collect_def Let_def obj_get_set)
  have "(\<forall>t. small_type t \<longrightarrow> obj_get (int_text t) (fold collect cs (collect c counts)) = count_entry (type_count t ((ds @ [c]) @ cs))) \<and>
    obj_get ''all'' (fold collect cs (collect c counts)) = Some n"
    using Cons.prems(1,2) step all by (intro Cons.IH) auto
  then show ?case by simp
qed simp

text \<open>Without counts from the backend the tabs count what the table shows: every type has the number of its channels, over all rows
  and their children, a type without channels has no entry, and the entry for all types is the number of rows.\<close>

theorem type_counts_exact:
  assumes "list_all (\<lambda>c. small_type (c_type c)) (concat (map row_channels rows))" "length (concat (map row_channels rows)) < 2 ^ 53" "small_type t"
  shows "obj_get (int_text t) (channelTypeCounts [] rows) = count_entry (type_count t (concat (map row_channels rows))) \<and>
    obj_get ''all'' (channelTypeCounts [] rows) = Some (Fin (of_nat (length rows)))"
proof -
  let ?c0 = "[(''all'', Fin (of_nat (length rows)))]"
  have start: "\<forall>t. small_type t \<longrightarrow> obj_get (int_text t) ?c0 = count_entry (type_count t [])"
    using int_text_not_all by (auto simp: obj_get_Cons count_entry_def type_count_def)
  have "obj_get ''all'' ?c0 = Some (Fin (of_nat (length rows)))" by (simp add: obj_get_Cons)
  note all = this
  have "(\<forall>t. small_type t \<longrightarrow> obj_get (int_text t) (fold collect (concat (map row_channels rows)) ?c0) =
      count_entry (type_count t ([] @ concat (map row_channels rows)))) \<and>
      obj_get ''all'' (fold collect (concat (map row_channels rows)) ?c0) = Some (Fin (of_nat (length rows)))"
    by (rule collect_counts[OF _ _ start all]) (simp_all only: append_Nil assms)
  then show ?thesis using assms(3) unfolding channelTypeCounts_def by (simp only: append_Nil) simp
qed

theorem type_counts_exact_witness:
  "obj_get (int_text 1) (channelTypeCounts [] [ChannelRow (sample_chan 1 ''a'' 1 0), ChannelRow (sample_chan 2 ''b'' 1 0)]) = Some (Fin 2)"
proof -
  let ?rows = "[ChannelRow (sample_chan 1 ''a'' 1 0), ChannelRow (sample_chan 2 ''b'' 1 0)]"
  have "length (concat (map row_channels ?rows)) < 2 ^ 53" by (simp add: row_channels_def)
  moreover have "list_all (\<lambda>c. small_type (c_type c)) (concat (map row_channels ?rows))" "small_type 1"
    "count_entry (type_count 1 (concat (map row_channels ?rows))) = Some (Fin 2)"
    by code_simp+
  ultimately show ?thesis using type_counts_exact[of ?rows 1] by simp
qed

end
