(* ===== verification/ChannelTableReach.thy ===== *)
theory ChannelTableReach
  imports ChannelTableActions ChannelTableFacts
begin

text \<open>
  The channel table as a state machine over its store of objects. In every reachable state the rows refer to allocated objects, each
  of them once; what the rows show is the answer of the request that set them; and an update through the rows of a closure is an
  update of the rows as values.
\<close>

section \<open>Allocation\<close>

definition wf_store :: "store \<Rightarrow> bool" where
  "wf_store h \<longleftrightarrow> (\<forall>a. st_next h \<le> a \<longrightarrow> st_chans h a = None \<and> st_tags h a = None)"

definition wf_ref :: "store \<Rightarrow> ref \<Rightarrow> bool" where
  "wf_ref h r = (case r of CRef a \<Rightarrow> st_chans h a \<noteq> None
     | TRef a \<Rightarrow> (case st_tags h a of None \<Rightarrow> False | Some t \<Rightarrow> list_all (\<lambda>b. st_chans h b \<noteq> None) (tg_children t)))"

definition wf_refs :: "store \<Rightarrow> ref list \<Rightarrow> bool" where
  "wf_refs h rs \<longleftrightarrow> list_all (wf_ref h) rs \<and> distinct rs \<and> distinct (addrs h rs)"

text \<open>\<open>h'\<close> has the objects of \<open>h\<close> and perhaps more.\<close>

definition extends :: "store \<Rightarrow> store \<Rightarrow> bool" where
  "extends h h' \<longleftrightarrow> st_next h \<le> st_next h' \<and> (\<forall>a<st_next h. st_chans h' a = st_chans h a \<and> st_tags h' a = st_tags h a)"

lemma extends_refl: "extends h h"
  by (simp add: extends_def)

lemma extends_trans: "extends h1 h2 \<Longrightarrow> extends h2 h3 \<Longrightarrow> extends h1 h3"
  by (auto simp: extends_def)

lemma wf_below: "wf_store h \<Longrightarrow> st_chans h a \<noteq> None \<Longrightarrow> a < st_next h" "wf_store h \<Longrightarrow> st_tags h a \<noteq> None \<Longrightarrow> a < st_next h"
  by (auto simp: wf_store_def not_le[symmetric])

lemma wf_ref_extends:
  assumes "wf_store h" "extends h h'" "wf_ref h r"
  shows "wf_ref h' r" "view_row h' r = view_row h r" "row_addrs h' r = row_addrs h r"
proof -
  have c: "st_chans h' b = st_chans h b" if "st_chans h b \<noteq> None" for b
    using wf_below(1)[OF assms(1) that] assms(2) by (simp add: extends_def)
  have t: "st_tags h' b = st_tags h b" if "st_tags h b \<noteq> None" for b
    using wf_below(2)[OF assms(1) that] assms(2) by (simp add: extends_def)
  show "wf_ref h' r" "row_addrs h' r = row_addrs h r"
    using assms(3) c t by (auto simp: wf_ref_def row_addrs_def list_all_iff split: ref.splits option.splits)
  show "view_row h' r = view_row h r"
  proof (cases r)
    case (CRef a)
    then show ?thesis using assms(3) c by (simp add: wf_ref_def view_row_def)
  next
    case (TRef a)
    then obtain tr where tr: "st_tags h a = Some tr" "\<forall>b\<in>set (tg_children tr). st_chans h b \<noteq> None"
      using assms(3) by (auto simp: wf_ref_def list_all_iff split: option.splits)
    then have "map (\<lambda>b. the (st_chans h' b)) (tg_children tr) = map (\<lambda>b. the (st_chans h b)) (tg_children tr)" using c by simp
    then show ?thesis using TRef tr(1) t[of a] by (simp add: view_row_def Let_def cong: map_cong)
  qed
qed

lemma wf_refs_extends:
  assumes "wf_store h" "extends h h'" "wf_refs h rs"
  shows "wf_refs h' rs" "view h' rs = view h rs" "addrs h' rs = addrs h rs"
proof -
  have r: "wf_ref h x" if "x \<in> set rs" for x using assms(3) that by (simp add: wf_refs_def list_all_iff)
  show a: "addrs h' rs = addrs h rs" using wf_ref_extends(3)[OF assms(1,2) r] by (simp add: addrs_def cong: map_cong)
  show "view h' rs = view h rs" using wf_ref_extends(2)[OF assms(1,2) r] by (simp add: view_def)
  show "wf_refs h' rs" using assms(3) a wf_ref_extends(1)[OF assms(1,2) r] by (simp add: wf_refs_def list_all_iff)
qed

lemma alloc_chans_spec:
  assumes "wf_store h" "alloc_chans cs h = (as, h')"
  shows "as = [st_next h..<st_next h + length cs]" "st_next h' = st_next h + length cs" "st_tags h' = st_tags h"
    "wf_store h'" "extends h h'" "map (\<lambda>a. st_chans h' a) as = map Some cs"
proof -
  have "as = [st_next h..<st_next h + length cs] \<and> st_next h' = st_next h + length cs \<and> st_tags h' = st_tags h \<and> wf_store h' \<and> extends h h' \<and>
     map (\<lambda>a. st_chans h' a) as = map Some cs"
    using assms
  proof (induction cs arbitrary: h as h')
    case Nil
    then show ?case by (simp add: extends_refl)
  next
    case (Cons c cs)
    let ?a = "st_next h" and ?h = "h\<lparr>st_chans := (st_chans h)(st_next h \<mapsto> c), st_next := Suc (st_next h)\<rparr>"
    obtain bs where b: "alloc_chans cs ?h = (bs, h')" "as = ?a # bs"
      using Cons.prems(2) by (auto simp: Let_def split: prod.splits)
    have wf: "wf_store ?h" and ex: "extends h ?h" using Cons.prems(1) by (auto simp: wf_store_def extends_def)
    note ih = Cons.IH[OF wf b(1)]
    have "st_chans h' ?a = Some c" using ih by (simp add: extends_def)
    moreover have "[?a..<?a + length (c # cs)] = ?a # [Suc ?a..<Suc ?a + length cs]"
      by (subst upt_conv_Cons) simp_all
    ultimately show ?case using ih b(2) extends_trans[OF ex] by auto
  qed
  then show "as = [st_next h..<st_next h + length cs]" "st_next h' = st_next h + length cs" "st_tags h' = st_tags h"
    "wf_store h'" "extends h h'" "map (\<lambda>a. st_chans h' a) as = map Some cs" by blast+
qed

lemma with_children_id [simp]: "with_children (tg_children t) t = t"
  by (simp add: with_children_def)

lemma with_children_twice [simp]: "with_children cs (with_children ds t) = with_children cs t" "tg_children (with_children cs t) = cs"
  by (simp_all add: with_children_def)

definition ref_addr :: "ref \<Rightarrow> nat" where
  "ref_addr r = (case r of CRef a \<Rightarrow> a | TRef a \<Rightarrow> a)"

lemma alloc_channel_row:
  assumes "wf_store h" "alloc_row (ChannelRow c) h = (a, h')"
  shows "wf_store h'" "extends h h'" "wf_ref h' a" "view_row h' a = ChannelRow c" "row_addrs h' a = [st_next h]" "ref_addr a = st_next h"
    "st_next h' = Suc (st_next h)"
proof -
  have h': "a = CRef (st_next h)" "h' = h\<lparr>st_chans := (st_chans h)(st_next h \<mapsto> c), st_next := Suc (st_next h)\<rparr>"
    using assms(2) by (simp_all add: alloc_row_def Let_def)
  show "wf_store h'" using assms(1) by (simp add: h'(2) wf_store_def)
  show "extends h h'" by (simp add: h'(2) extends_def)
  show "wf_ref h' a" "view_row h' a = ChannelRow c" "row_addrs h' a = [st_next h]" "ref_addr a = st_next h" "st_next h' = Suc (st_next h)"
    by (simp_all add: h' wf_ref_def view_row_def row_addrs_def ref_addr_def)
qed

lemma alloc_tag_row:
  assumes "wf_store h" "alloc_row (TagRow t) h = (a, h')"
  shows "wf_store h'" "extends h h'" "wf_ref h' a" "view_row h' a = TagRow t"
    "row_addrs h' a = [st_next h..<st_next h + length (tg_children t)]" "ref_addr a = st_next h + length (tg_children t)"
    "st_next h' = Suc (st_next h + length (tg_children t))"
proof -
  obtain as h1 where a1: "alloc_chans (tg_children t) h = (as, h1)" by (cases "alloc_chans (tg_children t) h")
  note sp = alloc_chans_spec[OF assms(1) a1]
  let ?h = "h1\<lparr>st_tags := (st_tags h1)(st_next h1 \<mapsto> with_children as t), st_next := Suc (st_next h1)\<rparr>"
  have h': "a = TRef (st_next h1)" "h' = ?h" using assms(2) by (simp_all add: alloc_row_def Let_def a1)
  have len: "length as = length (tg_children t)" using arg_cong[OF sp(6), of length] by simp
  have some: "st_chans h1 (as ! i) = Some (tg_children t ! i)" if "i < length as" for i
    using arg_cong[OF sp(6), of "\<lambda>xs. xs ! i"] that len by simp
  have ch: "map (\<lambda>b. the (st_chans h1 b)) as = tg_children t"
    by (rule nth_equalityI) (simp_all add: some len)
  have all: "list_all (\<lambda>b. st_chans h1 b \<noteq> None) as" by (simp add: list_all_length some)
  have "extends h1 ?h" by (simp add: extends_def)
  then show "extends h h'" using extends_trans[OF sp(5)] h'(2) by simp
  show "wf_store h'" using sp(4) by (simp add: h'(2) wf_store_def)
  show "view_row h' a = TagRow t" by (simp add: h' view_row_def Let_def ch)
  show "wf_ref h' a" using all by (simp add: h' wf_ref_def)
  show "row_addrs h' a = [st_next h..<st_next h + length (tg_children t)]" by (simp add: h' row_addrs_def sp(1))
  show "ref_addr a = st_next h + length (tg_children t)" "st_next h' = Suc (st_next h + length (tg_children t))"
    by (simp_all add: h' ref_addr_def sp(2))
qed

lemma alloc_row_spec:
  assumes "wf_store h" "alloc_row r h = (a, h')"
  shows "wf_store h'" "extends h h'" "wf_ref h' a" "view_row h' a = r"
    "set (row_addrs h' a) \<subseteq> {st_next h..<st_next h'}" "distinct (row_addrs h' a)" "ref_addr a \<in> {st_next h..<st_next h'}"
proof -
  have "wf_store h' \<and> extends h h' \<and> wf_ref h' a \<and> view_row h' a = r \<and> set (row_addrs h' a) \<subseteq> {st_next h..<st_next h'} \<and>
    distinct (row_addrs h' a) \<and> ref_addr a \<in> {st_next h..<st_next h'}"
  proof (cases r)
    case (ChannelRow c)
    then show ?thesis using alloc_channel_row[OF assms(1), of c a h'] assms(2) by simp
  next
    case (TagRow t)
    then show ?thesis using alloc_tag_row[OF assms(1), of t a h'] assms(2) by simp
  qed
  then show "wf_store h'" "extends h h'" "wf_ref h' a" "view_row h' a = r"
    "set (row_addrs h' a) \<subseteq> {st_next h..<st_next h'}" "distinct (row_addrs h' a)" "ref_addr a \<in> {st_next h..<st_next h'}" by simp_all
qed

lemma addrs_Cons: "addrs h (r # rs) = row_addrs h r @ addrs h rs"
  by (simp add: addrs_def)

lemma alloc_rows_spec:
  assumes "wf_store h" "alloc_rows rs h = (as, h')"
  shows "wf_store h' \<and> extends h h' \<and> wf_refs h' as \<and> view h' as = rs \<and> set (addrs h' as) \<subseteq> {st_next h..<st_next h'} \<and>
    ref_addr ` set as \<subseteq> {st_next h..<st_next h'}"
  using assms
proof (induction rs arbitrary: h as)
  case Nil
  then show ?case by (simp add: extends_refl wf_refs_def view_def addrs_def)
next
  case (Cons r rs)
  obtain a h1 bs where s: "alloc_row r h = (a, h1)" "alloc_rows rs h1 = (bs, h')" "as = a # bs"
    using Cons.prems(2) by (auto split: prod.splits)
  note one = alloc_row_spec[OF Cons.prems(1) s(1)]
  note ih = Cons.IH[OF one(1) s(2)]
  have ex: "extends h1 h'" using ih by simp
  note old = wf_ref_extends[OF one(1) ex one(3)]
  have le: "st_next h \<le> st_next h1" "st_next h1 \<le> st_next h'" using one(2) ex by (simp_all add: extends_def)
  have "set (row_addrs h' a) \<inter> set (addrs h' bs) = {}"
  proof -
    have "set (row_addrs h' a) \<subseteq> {st_next h..<st_next h1}" "set (addrs h' bs) \<subseteq> {st_next h1..<st_next h'}"
      using one(5) ih old(3) by simp_all
    then show ?thesis by fastforce
  qed
  moreover have "a \<notin> set bs"
  proof
    assume "a \<in> set bs"
    then have "ref_addr a \<in> {st_next h1..<st_next h'}" using ih by blast
    then show False using one(7) by simp
  qed
  moreover have "distinct (row_addrs h' a)" using one(6) old(3) by simp
  ultimately have "wf_refs h' as" using ih old(1) by (simp add: wf_refs_def s(3) addrs_Cons)
  moreover have "view h' as = r # rs" using ih old(2) one(4) by (simp add: view_def s(3))
  moreover have "set (addrs h' as) \<subseteq> {st_next h..<st_next h'}"
    using ih one(5) old(3) le by (auto simp: s(3) addrs_Cons subset_iff)
  moreover have "ref_addr ` set as \<subseteq> {st_next h..<st_next h'}"
    using ih one(7) le by (auto simp: s(3) subset_iff)
  ultimately show ?case using ih extends_trans[OF one(2) ex] by blast
qed

section \<open>Updates through a list of rows\<close>

definition row_map :: "(channel \<Rightarrow> channel) \<Rightarrow> channel row \<Rightarrow> channel row" where
  "row_map f r = (case r of ChannelRow c \<Rightarrow> ChannelRow (f c) | TagRow t \<Rightarrow> TagRow (with_children (map f (tg_children t)) t))"

definition write_where :: "(channel \<Rightarrow> bool) \<Rightarrow> (channel \<Rightarrow> channel) \<Rightarrow> nat set \<Rightarrow> store \<Rightarrow> store" where
  "write_where P f A h = h\<lparr>st_chans := \<lambda>a. case st_chans h a of None \<Rightarrow> None | Some c \<Rightarrow> Some (if a \<in> A \<and> P c then f c else c)\<rparr>"

lemma write_where_simps [simp]:
  "st_tags (write_where P f A h) = st_tags h" "st_next (write_where P f A h) = st_next h"
  "st_chans (write_where P f A h) a = map_option (\<lambda>c. if a \<in> A \<and> P c then f c else c) (st_chans h a)"
  by (simp_all add: write_where_def split: option.split)

lemma store_eq_where:
  assumes "st_tags h' = st_tags h" "st_next h' = st_next h" "\<And>a. st_chans h' a = map_option (\<lambda>c. if a \<in> A \<and> P c then f c else c) (st_chans h a)"
  shows "h' = write_where P f A h"
proof (rule store.equality)
  show "st_chans h' = st_chans (write_where P f A h)" using assms(3) by (simp add: fun_eq_iff)
qed (use assms(1,2) in simp_all)

lemma write_chan_where: "write_chan f a h = write_where (\<lambda>_. True) f {a} h"
  by (rule store_eq_where) (auto simp: write_chan_def option.map_ident)

lemma update_addrs_spec:
  assumes "distinct as" "\<forall>a\<in>set as. st_chans h a \<noteq> None"
  shows "update_addrs i f as h =
    ((\<exists>a\<in>set as. c_id (the (st_chans h a)) = i), write_where (\<lambda>c. c_id c = i) f (set as) h)"
  using assms
proof (induction as arbitrary: h)
  case Nil
  show ?case by (simp, rule store_eq_where) (simp_all add: option.map_ident)
next
  case (Cons a as)
  obtain c where c: "st_chans h a = Some c" using Cons.prems(2) by auto
  show ?case
  proof (cases "c_id c = i")
    case False
    have "write_where (\<lambda>c. c_id c = i) f (set as) h = write_where (\<lambda>c. c_id c = i) f (set (a # as)) h"
      by (rule store_eq_where) (use False c in \<open>auto intro!: option.map_cong\<close>)
    then show ?thesis using Cons False c by simp
  next
    case True
    let ?h = "write_chan f a h"
    have rest: "st_chans ?h b = st_chans h b" if "b \<in> set as" for b using that Cons.prems(1) by (auto simp: write_chan_def)
    have "write_where (\<lambda>c. c_id c = i) f (set as) ?h = write_where (\<lambda>c. c_id c = i) f (set (a # as)) h"
    proof (rule store_eq_where)
      show "st_chans (write_where (\<lambda>c. c_id c = i) f (set as) ?h) b =
        map_option (\<lambda>c. if b \<in> set (a # as) \<and> c_id c = i then f c else c) (st_chans h b)" for b
        using Cons.prems(1) True c by (cases "b = a") (simp_all add: write_chan_def)
    qed (simp_all add: write_chan_def)
    then show ?thesis using Cons.IH[of ?h] Cons.prems True c rest by simp
  qed
qed

lemma wf_refs_alloc: "wf_refs h rs \<Longrightarrow> \<forall>a\<in>set (addrs h rs). st_chans h a \<noteq> None"
proof
  fix a assume w: "wf_refs h rs" and "a \<in> set (addrs h rs)"
  then obtain r where r: "r \<in> set rs" "a \<in> set (row_addrs h r)" by (auto simp: addrs_def)
  then have "wf_ref h r" using w by (simp add: wf_refs_def list_all_iff)
  then show "st_chans h a \<noteq> None" using r(2) by (cases r) (auto simp: row_addrs_def wf_ref_def list_all_iff split: option.splits)
qed

lemma view_where:
  assumes "wf_refs h rs" "set (addrs h rs) \<subseteq> A"
  shows "view (write_where P f A h) rs = map (row_map (\<lambda>c. if P c then f c else c)) (view h rs)"
proof -
  have "view_row (write_where P f A h) r = row_map (\<lambda>c. if P c then f c else c) (view_row h r)" if r: "r \<in> set rs" for r
  proof -
    have all: "a \<in> A" "\<exists>c. st_chans h a = Some c" if "a \<in> set (row_addrs h r)" for a
      using that r assms wf_refs_alloc[OF assms(1)] by (auto simp: addrs_def)
    show ?thesis
    proof (cases r)
      case (CRef a)
      then show ?thesis using all[of a] by (auto simp: row_addrs_def view_row_def row_map_def)
    next
      case (TRef a)
      let ?as = "tg_children (the (st_tags h a))"
      have "map (\<lambda>b. the (map_option (\<lambda>c. if b \<in> A \<and> P c then f c else c) (st_chans h b))) ?as =
          map (\<lambda>b. (\<lambda>c. if P c then f c else c) (the (st_chans h b))) ?as"
        using all TRef by (intro map_cong refl) (force simp: row_addrs_def)
      then show ?thesis using TRef by (simp add: view_row_def row_map_def Let_def comp_def cong: map_cong)
    qed
  qed
  then show ?thesis by (simp add: view_def)
qed

lemma view_channels: "concat (map row_channels (view h rs)) = map (\<lambda>a. the (st_chans h a)) (addrs h rs)"
proof -
  have "row_channels (view_row h r) = map (\<lambda>a. the (st_chans h a)) (row_addrs h r)" for r
    by (cases r) (simp_all add: row_channels_def view_row_def row_addrs_def Let_def)
  then show ?thesis by (simp add: view_def addrs_def map_concat comp_def)
qed

section \<open>Changes in place\<close>

text \<open>The same objects, with the same children.\<close>

definition same_shape :: "store \<Rightarrow> store \<Rightarrow> bool" where
  "same_shape h h' \<longleftrightarrow> st_next h' = st_next h \<and> (\<forall>a. (st_chans h' a = None) = (st_chans h a = None)) \<and>
     (\<forall>a. map_option tg_children (st_tags h' a) = map_option tg_children (st_tags h a))"

named_theorems shape

lemma same_shape_refl [shape]: "same_shape h h"
  by (simp add: same_shape_def)

lemma same_shape_trans: "same_shape h1 h2 \<Longrightarrow> same_shape h2 h3 \<Longrightarrow> same_shape h1 h3"
  by (simp add: same_shape_def)

lemma same_shape_where [shape]: "same_shape h (write_where P f A h)"
  by (simp add: same_shape_def)

lemma same_shape_chan [shape]: "same_shape h (write_chan f a h)"
  by (simp add: same_shape_def write_chan_def)

lemma same_shape_tag: "(\<And>t. tg_children (f t) = tg_children t) \<Longrightarrow> same_shape h (write_tag f a h)"
  by (simp add: same_shape_def write_tag_def option.map_comp comp_def)

lemma same_shape_fold [shape]: "(\<And>x h. x \<in> set xs \<Longrightarrow> same_shape h (g x h)) \<Longrightarrow> same_shape h (fold g xs h)"
proof (induction xs arbitrary: h)
  case (Cons x xs)
  then show ?case using same_shape_trans[of h "g x h"] by simp
qed (simp add: same_shape_refl)

lemma same_shape_status [shape]: "same_shape h (set_row_status tag status r h)"
proof (cases r)
  case (TRef a)
  have "same_shape h (fold (write_chan (\<lambda>c. c\<lparr>c_status := status\<rparr>)) (tg_children (the (st_tags h a))) h)"
    by (rule same_shape_fold) (rule same_shape_chan)
  from same_shape_trans[OF this same_shape_tag] show ?thesis using TRef by (simp add: set_row_status_def same_shape_refl)
qed (simp add: set_row_status_def shape)

lemma same_shape_update [shape]: "same_shape h (snd (update_addrs i f as h))"
  by (induction as arbitrary: h) (auto simp: same_shape_refl intro: same_shape_trans[OF same_shape_chan])

lemma same_shape_keeps:
  assumes "same_shape h h'"
  shows "wf_store h \<Longrightarrow> wf_store h'" "wf_refs h rs \<Longrightarrow> wf_refs h' rs" "row_addrs h' r = row_addrs h r" "addrs h' rs = addrs h rs"
proof -
  have t: "map_option tg_children (st_tags h' a) = map_option tg_children (st_tags h a)" for a using assms by (simp add: same_shape_def)
  have c: "(st_chans h' a = None) = (st_chans h a = None)" for a using assms by (simp add: same_shape_def)
  have tn: "(st_tags h' a = None) = (st_tags h a = None)" for a using arg_cong[OF t[of a], of "\<lambda>x. x = None"] by simp
  have ch: "tg_children (the (st_tags h' a)) = tg_children (the (st_tags h a))" for a
    using t[of a] tn[of a] by (cases "st_tags h a"; cases "st_tags h' a") simp_all
  show ra: "row_addrs h' r = row_addrs h r" for r by (simp add: row_addrs_def ch split: ref.split)
  then show ad: "addrs h' rs = addrs h rs" by (simp add: addrs_def cong: map_cong)
  have w: "wf_ref h' r = wf_ref h r" for r
  proof (cases r)
    case (TRef a)
    then show ?thesis using tn[of a] ch[of a] c by (cases "st_tags h a"; cases "st_tags h' a") (simp_all add: wf_ref_def)
  qed (simp add: wf_ref_def c)
  show "wf_refs h rs \<Longrightarrow> wf_refs h' rs" by (simp add: wf_refs_def w ad list_all_iff)
  show "wf_store h \<Longrightarrow> wf_store h'" using assms by (simp add: wf_store_def c tn same_shape_def)
qed

section \<open>Reachable states\<close>

definition ct_inv :: "ct_state \<Rightarrow> ref list set \<Rightarrow> pending set \<Rightarrow> bool" where
  "ct_inv s C P \<longleftrightarrow> wf_store (ct_store s) \<and> (\<forall>rs\<in>C. wf_refs (ct_store s) rs) \<and> ct_rows s \<in> C \<and> sort_ok (ct_sortConfig s) \<and>
     (\<forall>p\<in>P. \<not> pd_search p \<longrightarrow> pd_id p \<le> ct_requestCounter s) \<and>
     (\<forall>p\<in>P. \<forall>q\<in>P. \<not> pd_search p \<and> \<not> pd_search q \<and> pd_id p = pd_id q \<longrightarrow> p = q)"

text \<open>A state with the lists of rows that were ever set, which are the lists a handler's closure can hold, and the list requests that
  were sent.\<close>

inductive ct_reach :: "ct_state \<Rightarrow> ref list set \<Rightarrow> pending set \<Rightarrow> bool" where
  init: "ct_reach (initial_channels stored) {[]} {}"
| load: "ct_reach s C P \<Longrightarrow> loadChannels f q s = (p, s') \<Longrightarrow> ct_reach s' C (insert p P)"
| search: "ct_reach s C P \<Longrightarrow> searchChannels f q s = (p, s') \<Longrightarrow> ct_reach s' C (insert p P)"
| page: "ct_reach s C P \<Longrightarrow> handlePageChange f n s = (p, s') \<Longrightarrow> ct_reach s' C (insert p P)"
| page_size: "ct_reach s C P \<Longrightarrow> handlePageSizeChange f n s = (p, s') \<Longrightarrow> ct_reach s' C (insert p P)"
| table: "ct_reach s C P \<Longrightarrow> handleTableChange f ty d ord s = Some (p, s') \<Longrightarrow> ct_reach s' C (insert p P)"
| load_end: "ct_reach s C P \<Longrightarrow> p \<in> P \<Longrightarrow> \<not> pd_search p \<Longrightarrow> s' = load_end p la s \<Longrightarrow> ct_reach s' (insert (ct_rows s') C) P"
| search_end: "ct_reach s C P \<Longrightarrow> p \<in> P \<Longrightarrow> pd_search p \<Longrightarrow> s' = search_end p sa s \<Longrightarrow> ct_reach s' (insert (ct_rows s') C) P"
| manage: "ct_reach s C P \<Longrightarrow> manageChannel_begin i act rec s = Inr (rq, s') \<Longrightarrow> ct_reach s' C P"
| manage_end: "ct_reach s C P \<Longrightarrow> rs \<in> C \<Longrightarrow> ct_reach (manageChannel_end rs act rec ma s) C P"
| manage_tag_end: "ct_reach s C P \<Longrightarrow> rs \<in> C \<Longrightarrow> ct_reach (manageTag_end rs tag en ta s) C P"
| balance_end: "ct_reach s C P \<Longrightarrow> rs \<in> C \<Longrightarrow> ct_reach (updateChannelBalance_end rs i now ba s) C P"
| test: "ct_reach s C P \<Longrightarrow> testChannel_begin batching i m ep stream s = (rq, s') \<Longrightarrow> ct_reach s' C P"
| test_end: "ct_reach s C P \<Longrightarrow> rs \<in> C \<Longrightarrow> ct_reach (testChannel_end batching rs i nm m silent now a s) C P"
| batch_test: "ct_reach s C P \<Longrightarrow> batchTestModels_begin s = (ms, s') \<Longrightarrow> ct_reach s' C P"
| stop: "ct_reach s C P \<Longrightarrow> ct_reach (stopBatchTesting s) C P"
| clear: "ct_reach s C P \<Longrightarrow> ct_reach (clearTestResults s) C P"
| close: "ct_reach s C P \<Longrightarrow> ct_reach (handleCloseModal s) C P"
| set_tag: "ct_reach s C P \<Longrightarrow> batchSetChannelTag s = (rq, s') \<Longrightarrow> ct_reach s' C P"
| delete: "ct_reach s C P \<Longrightarrow> batchDeleteChannels s = (ids, s') \<Longrightarrow> ct_reach s' C P"
| mount: "ct_reach (pg_table pg) C P \<Longrightarrow> mount f st pg = (p, pg') \<Longrightarrow> ct_reach (pg_table pg') C (insert p P)"
| refresh: "ct_reach s C P \<Longrightarrow> refresh ct f n s = (p, s') \<Longrightarrow> ct_reach s' C (insert p P)"
| copy: "ct_reach s C P \<Longrightarrow> copySelectedChannel_end cx ua s = (po, s') \<Longrightarrow> ct_reach s' C (P \<union> set_option po)"
| tag_edit_end: "ct_reach s C P \<Longrightarrow> submitTagEdit_end cx ua s = (po, s') \<Longrightarrow> ct_reach s' C (P \<union> set_option po)"
| set_tag_end: "ct_reach s C P \<Longrightarrow> batchSetChannelTag_end cx na s = (po, s') \<Longrightarrow> ct_reach s' C (P \<union> set_option po)"
| delete_end: "ct_reach s C P \<Longrightarrow> batchDeleteChannels_end cx na s = (po, s') \<Longrightarrow> ct_reach s' C (P \<union> set_option po)"
| delete_disabled: "ct_reach s C P \<Longrightarrow> deleteAllDisabledChannels_end cx na s = (po, s') \<Longrightarrow> ct_reach s' C (P \<union> set_option po)"
| fix_end: "ct_reach s C P \<Longrightarrow> fixChannelsAbilities_end cx nn s = (po, s') \<Longrightarrow> ct_reach s' C (P \<union> set_option po)"
| test_all: "ct_reach s C P \<Longrightarrow> ct_reach (testAllChannels_end ua s) C P"
| balance_all: "ct_reach s C P \<Longrightarrow> ct_reach (updateAllChannelsBalance_end ua s) C P"
| set_tag_finish: "ct_reach s C P \<Longrightarrow> ct_reach (batchSetChannelTag_finish s) C P"
| delete_finish: "ct_reach s C P \<Longrightarrow> ct_reach (batchDeleteChannels_finish s) C P"
| batch_head: "ct_reach s C P \<Longrightarrow> batchTestModels_head ms k s = (nx, s') \<Longrightarrow> ct_reach s' C P"
| batch_next: "ct_reach s C P \<Longrightarrow> batchTestModels_next ms k s = (nx, s') \<Longrightarrow> ct_reach s' C P"
| batch_finish: "ct_reach s C P \<Longrightarrow> batchTestModels_finish i ms s = (sm, s') \<Longrightarrow> ct_reach s' C P"

text \<open>A handler that keeps the objects and the sorting, and shows a list of rows that was shown before.\<close>

lemma inv_keeps:
  assumes "ct_inv s C P" "same_shape (ct_store s) (ct_store s')" "ct_rows s' \<in> C" "ct_sortConfig s' = ct_sortConfig s"
    "ct_requestCounter s' = ct_requestCounter s"
  shows "ct_inv s' C P"
  using assms same_shape_keeps[OF assms(2)] by (simp add: ct_inv_def)

lemma inv_started:
  assumes "ct_inv s C P" "same_shape (ct_store s) (ct_store s')" "ct_rows s' = ct_rows s" "sort_ok (ct_sortConfig s')"
    "if pd_search p then ct_requestCounter s' = ct_requestCounter s
     else ct_requestCounter s' = Suc (ct_requestCounter s) \<and> pd_id p = Suc (ct_requestCounter s)"
  shows "ct_inv s' C (insert p P)"
proof -
  have "pd_id q \<le> ct_requestCounter s" if "q \<in> P" "\<not> pd_search q" for q using assms(1) that by (simp add: ct_inv_def)
  then show ?thesis using assms(1,3,4,5) same_shape_keeps[OF assms(2)] unfolding ct_inv_def by (auto split: if_splits; fastforce)
qed

lemma inv_shown:
  assumes "ct_inv s C P" "show_items items tagMode s = Some s'"
  shows "ct_inv s' (insert (ct_rows s') C) P" "setChannelFormat items tagMode = Inr (view (ct_store s') (ct_rows s'))"
    "extends (ct_store s) (ct_store s')"
proof -
  obtain rows refs h where f: "setChannelFormat items tagMode = Inr rows" "alloc_rows rows (ct_store s) = (refs, h)"
      "s' = s\<lparr>ct_rows := refs, ct_store := h\<rparr>"
    using assms(2) by (auto simp: show_items_def split: sum.splits prod.splits)
  have wf: "wf_store (ct_store s)" using assms(1) by (simp add: ct_inv_def)
  note sp = alloc_rows_spec[OF wf f(2)]
  have ex: "extends (ct_store s) h" using sp by simp
  show "ct_inv s' (insert (ct_rows s') C) P" using assms(1) sp wf_refs_extends(1)[OF wf ex] by (simp add: ct_inv_def f(3))
  show "setChannelFormat items tagMode = Inr (view (ct_store s') (ct_rows s'))" using f(1,3) sp by simp
  show "extends (ct_store s) (ct_store s')" using ex f(3) by simp
qed

lemma inv_rows: "ct_inv s C P \<Longrightarrow> insert (ct_rows s) C = C"
  by (auto simp: ct_inv_def)

definition same_model :: "ct_state \<Rightarrow> ct_state \<Rightarrow> bool" where
  "same_model s s' \<longleftrightarrow> ct_store s' = ct_store s \<and> ct_rows s' = ct_rows s \<and> ct_sortConfig s' = ct_sortConfig s \<and>
     ct_requestCounter s' = ct_requestCounter s"

lemma inv_same:
  assumes "ct_inv s C P" "same_model s s'"
  shows "ct_inv s' C P" "ct_inv s' (insert (ct_rows s') C) P"
proof -
  show i: "ct_inv s' C P" using assms by (simp add: ct_inv_def same_model_def)
  then show "ct_inv s' (insert (ct_rows s') C) P" by (simp add: inv_rows)
qed

lemma inv_load_end:
  assumes "ct_inv s C P"
  shows "ct_inv (load_answer p la s) (insert (ct_rows (load_answer p la s)) C) P"
proof (cases "\<exists>a. la = Some (Granted a) \<and> pd_id p = ct_requestCounter s")
  case False
  then have "same_model s (load_answer p la s)"
    by (auto simp: load_answer_def same_model_def ct_toast_def split: option.splits reply.splits)
  then show ?thesis using inv_same(2)[OF assms] by simp
next
  case True
  then obtain a where a: "la = Some (Granted a)" "pd_id p = ct_requestCounter s" by auto
  define s1 where "s1 = (case la_type_counts a of Some tc \<Rightarrow> s\<lparr>ct_typeCounts := sum_counts tc\<rparr> | None \<Rightarrow> s)"
  have m: "same_model s s1" by (simp add: s1_def same_model_def split: option.split)
  show ?thesis
  proof (cases "show_items (la_items a) (q_tagMode (pd_query p)) s1")
    case None
    then have "load_answer p la s = s1" using a by (simp add: load_answer_def s1_def[symmetric] Let_def)
    then show ?thesis using inv_same(2)[OF assms m] by simp
  next
    case (Some s2)
    then have l: "load_answer p la s = s2\<lparr>ct_count := la_total a, ct_loading := False\<rparr>"
      using a by (simp add: load_answer_def s1_def[symmetric] Let_def)
    have "same_model s2 (load_answer p la s)" by (simp add: l same_model_def)
    moreover have "ct_rows (load_answer p la s) = ct_rows s2" by (simp add: l)
    ultimately show ?thesis using inv_same(1)[OF inv_shown(1)[OF inv_same(1)[OF assms m] Some]] by simp
  qed
qed

lemma inv_search_end:
  assumes "ct_inv s C P" "search_answer p sa s = (s', ok)"
  shows "ct_inv s' (insert (ct_rows s') C) P"
proof (cases "\<exists>a. sa = Granted a")
  case False
  then have "same_model s s'"
    using assms(2) by (auto simp: search_answer_def same_model_def ct_toast_def split: reply.splits)
  then show ?thesis using inv_same(2)[OF assms(1)] by simp
next
  case True
  then obtain a where a: "sa = Granted a" by auto
  define s1 where "s1 = s\<lparr>ct_typeCounts := sum_counts (case la_type_counts a of Some tc \<Rightarrow> tc | None \<Rightarrow> [])\<rparr>"
  have m: "same_model s s1" by (simp add: s1_def same_model_def)
  show ?thesis
  proof (cases "show_items (la_items a) (q_tagMode (pd_query p)) s1")
    case None
    then have "s' = s1" using a assms(2) by (simp add: search_answer_def s1_def[symmetric] Let_def)
    then show ?thesis using inv_same(2)[OF assms(1) m] by simp
  next
    case (Some s2)
    then have l: "s' = s2\<lparr>ct_count := la_total a, ct_activePage := q_page (pd_query p)\<rparr>"
      using a assms(2) by (simp add: search_answer_def s1_def[symmetric] Let_def)
    have "same_model s2 s'" "ct_rows s' = ct_rows s2" by (simp_all add: l same_model_def)
    then show ?thesis using inv_same(1)[OF inv_shown(1)[OF inv_same(1)[OF assms(1) m] Some]] by simp
  qed
qed

end
