(* ===== verification/ChannelTableProps.thy ===== *)
theory ChannelTableProps
  imports ChannelTableReach
begin

text \<open>
  The properties of the channel table: the invariant of every reachable state, updates through the rows of a closure, the answers that
  a load drops and a search does not.
\<close>

section \<open>Requests\<close>

lemma start_fields:
  assumes "(loadChannels f q s = (p, s') \<or> searchChannels f q s = (p, s')) \<or> fetch_page f q s = (p, s')"
  shows "ct_store s' = ct_store s" "ct_rows s' = ct_rows s" "ct_sortConfig s' = ct_sortConfig s" "ct_activePage s' = ct_activePage s"
    "if pd_search p then ct_requestCounter s' = ct_requestCounter s
     else ct_requestCounter s' = Suc (ct_requestCounter s) \<and> pd_id p = Suc (ct_requestCounter s)"
  using assms
  by (auto simp: fetch_page_def loadChannels_def searchChannels_def start_load_def start_search_def Let_def split: if_splits)

lemma inv_start:
  assumes "ct_inv s C P" "(loadChannels f q s1 = (p, s') \<or> searchChannels f q s1 = (p, s')) \<or> fetch_page f q s1 = (p, s')"
    "ct_store s1 = ct_store s" "ct_rows s1 = ct_rows s" "sort_ok (ct_sortConfig s1)" "ct_requestCounter s1 = ct_requestCounter s"
  shows "ct_inv s' C (insert p P)"
  using inv_started[OF assms(1), of s' p] start_fields[OF assms(2)] assms(3-6) by (simp add: same_shape_refl)

lemma inv_sort: "ct_inv s C P \<Longrightarrow> sort_ok (ct_sortConfig s)"
  by (simp add: ct_inv_def)

section \<open>The invariant\<close>

lemma update_fields:
  "same_shape (ct_store s) (ct_store (updateChannelProperty rs i f s))" "ct_sortConfig (updateChannelProperty rs i f s) = ct_sortConfig s"
  "ct_requestCounter (updateChannelProperty rs i f s) = ct_requestCounter s"
  "ct_rows (updateChannelProperty rs i f s) \<in> {ct_rows s, rs}"
proof -
  obtain u h where u: "update_addrs i f (addrs (ct_store s) rs) (ct_store s) = (u, h)" by fastforce
  then have "same_shape (ct_store s) h" using same_shape_update[of "ct_store s" i f "addrs (ct_store s) rs"] by simp
  then show "same_shape (ct_store s) (ct_store (updateChannelProperty rs i f s))" "ct_sortConfig (updateChannelProperty rs i f s) = ct_sortConfig s"
    "ct_requestCounter (updateChannelProperty rs i f s) = ct_requestCounter s" "ct_rows (updateChannelProperty rs i f s) \<in> {ct_rows s, rs}"
    by (simp_all add: updateChannelProperty_def u shape)
qed

lemma inv_update:
  assumes "ct_inv s C P" "rs \<in> C"
  shows "ct_inv (updateChannelProperty rs i f s) C P"
proof (rule inv_keeps[OF assms(1)])
  show "ct_rows (updateChannelProperty rs i f s) \<in> C" using update_fields(4)[of rs i f s] assms by (auto simp: ct_inv_def)
qed (simp_all add: update_fields)

lemma inv_manage:
  assumes "ct_inv s C P" "manageChannel_begin i act rec s = Inr (rq, s')"
  shows "ct_inv s' C P"
proof -
  have "same_shape (ct_store s) (ct_store s') \<and> ct_rows s' = ct_rows s \<and> ct_sortConfig s' = ct_sortConfig s \<and>
      ct_requestCounter s' = ct_requestCounter s"
    using assms(2) by (auto simp: manageChannel_begin_def Let_def shape split: manage_action.splits if_splits)
  moreover have "ct_rows s \<in> C" using assms(1) by (simp add: ct_inv_def)
  ultimately show ?thesis using inv_keeps[OF assms(1), of s'] by simp
qed

lemma inv_manage_end:
  assumes "ct_inv s C P" "rs \<in> C"
  shows "ct_inv (manageChannel_end rs act rec ma s) C P"
proof (rule inv_keeps[OF assms(1)])
  show "ct_rows (manageChannel_end rs act rec ma s) \<in> C"
    using assms by (simp add: manageChannel_end_def Let_def ct_toast_def ct_inv_def split: reply.split)
qed (simp_all add: manageChannel_end_def Let_def ct_toast_def shape split: reply.split)

lemma inv_manage_tag_end:
  assumes "ct_inv s C P" "rs \<in> C"
  shows "ct_inv (manageTag_end rs tag en ta s) C P"
proof (rule inv_keeps[OF assms(1)])
  have "same_shape (ct_store s) (fold (set_row_status tag n) rs (ct_store s))" for n by (rule same_shape_fold) (rule same_shape_status)
  then show "same_shape (ct_store s) (ct_store (manageTag_end rs tag en ta s))"
    by (simp add: manageTag_end_def ct_toast_def shape split: reply.split)
  show "ct_rows (manageTag_end rs tag en ta s) \<in> C"
    using assms by (simp add: manageTag_end_def ct_toast_def ct_inv_def split: reply.split)
qed (simp_all add: manageTag_end_def ct_toast_def split: reply.split)

lemma inv_toast: "ct_inv s C P \<Longrightarrow> ct_inv (ct_toast t s) C P"
  by (simp add: ct_inv_def ct_toast_def)

lemma inv_put: "ct_inv s C P \<Longrightarrow> ct_inv (put_result k r s) C P" "ct_inv s C P \<Longrightarrow> ct_inv (remove_testing m s) C P"
  by (simp_all add: ct_inv_def put_result_def remove_testing_def)

lemma inv_test_end:
  assumes "ct_inv s C P" "rs \<in> C"
  shows "ct_inv (testChannel_end batching rs i nm m silent now a s) C P"
  using assms
  by (auto simp: testChannel_end_def Let_def intro!: inv_put inv_toast inv_update split: sum.split prod.split)

lemma inv_balance_end:
  assumes "ct_inv s C P" "rs \<in> C"
  shows "ct_inv (updateChannelBalance_end rs i now ba s) C P"
  using assms by (auto simp: updateChannelBalance_end_def intro!: inv_toast inv_update split: reply.split)

lemma same_model_local:
  "same_model s (snd (testChannel_begin batching i m ep stream s))" "same_model s (snd (batchTestModels_begin s))"
  "same_model s (stopBatchTesting s)" "same_model s (clearTestResults s)" "same_model s (handleCloseModal s)"
  "same_model s (snd (batchSetChannelTag s))" "same_model s (snd (batchDeleteChannels s))"
  by (simp_all add: same_model_def testChannel_begin_def batchTestModels_begin_def stopBatchTesting_def clearTestResults_def
      handleCloseModal_def batchSetChannelTag_def batchDeleteChannels_def ct_toast_def Let_def split: option.split prod.split)

lemma same_model_actions:
  "same_model s (testAllChannels_end ua s)" "same_model s (updateAllChannelsBalance_end ua s)" "same_model s (batchSetChannelTag_finish s)"
  "same_model s (batchDeleteChannels_finish s)" "same_model s (snd (batchTestModels_head ms k s))" "same_model s (snd (batchTestModels_next ms k s))"
  "same_model s (snd (batchTestModels_finish i ms s))"
  by (simp_all add: same_model_def testAllChannels_end_def updateAllChannelsBalance_end_def batchSetChannelTag_finish_def
      batchDeleteChannels_finish_def batchTestModels_head_def batchTestModels_next_def batchTestModels_finish_def batch_leave_def ct_toast_def
      split: reply.split)

lemma inv_refresh:
  assumes "ct_inv s C P" "refresh ct f n s = (p, s')"
  shows "ct_inv s' C (insert p P)"
  using inv_start[OF assms(1), of f _ s p s'] assms(2) inv_sort[OF assms(1)] unfolding refresh_def by blast

lemma inv_then_refresh:
  assumes "ct_inv s C P"
  shows "case then_refresh cx t s of (po, s') \<Rightarrow> ct_inv s' C (P \<union> set_option po)"
  using inv_refresh[OF inv_toast[OF assms], of "fst cx" "snd cx" None t] by (auto simp: then_refresh_def split: prod.split)

lemma inv_reload:
  assumes "ct_inv s C P"
  shows "case copySelectedChannel_end cx ua s of (po, s') \<Rightarrow> ct_inv s' C (P \<union> set_option po)"
    "case submitTagEdit_end cx ua s of (po, s') \<Rightarrow> ct_inv s' C (P \<union> set_option po)"
    "case batchSetChannelTag_end cx na s of (po, s') \<Rightarrow> ct_inv s' C (P \<union> set_option po)"
    "case batchDeleteChannels_end cx na s of (po, s') \<Rightarrow> ct_inv s' C (P \<union> set_option po)"
    "case deleteAllDisabledChannels_end cx na s of (po, s') \<Rightarrow> ct_inv s' C (P \<union> set_option po)"
    "case fixChannelsAbilities_end cx nn s of (po, s') \<Rightarrow> ct_inv s' C (P \<union> set_option po)"
  using assms inv_toast[OF assms] inv_then_refresh[OF assms] inv_same(1)[OF inv_toast[OF assms]]
  by (simp_all add: copySelectedChannel_end_def submitTagEdit_end_def batchSetChannelTag_end_def batchDeleteChannels_end_def
      deleteAllDisabledChannels_end_def fixChannelsAbilities_end_def same_model_def split: reply.split prod.split)

lemma inv_mount:
  assumes "ct_inv (pg_table pg) C P" "mount f st pg = (p, pg')"
  shows "ct_inv (pg_table pg') C (insert p P)"
proof -
  let ?ct = "pg_table pg"
  let ?s = "?ct\<lparr>ct_idSort := (sv_id_sort st = Some ''true''), ct_pageSize := int_of_num (stored_page_size (sv_page_size st)),
      ct_tagMode := (sv_tag_mode st = Some ''true'')\<rparr>"
  obtain q where q: "loadChannels f q ?s = (p, pg_table pg')"
    using assms(2) by (auto simp: mount_def Let_def split: prod.splits)
  show ?thesis by (rule inv_start[OF assms(1) disjI1[OF disjI1[OF q]]]) (simp_all add: inv_sort[OF assms(1)])
qed

lemma ct_reach_inv: "ct_reach s C P \<Longrightarrow> ct_inv s C P"
proof (induction rule: ct_reach.induct)
  case (init stored)
  show ?case by (simp add: ct_inv_def initial_channels_def empty_store_def wf_store_def wf_refs_def addrs_def sort_ok_def)
next
  case (load s C P f q p s')
  then show ?case using inv_start[OF load.IH, of f q s p s'] inv_sort[OF load.IH] by simp
next
  case (search s C P f q p s')
  then show ?case using inv_start[OF search.IH, of f q s p s'] inv_sort[OF search.IH] by simp
next
  case (page s C P f n p s')
  then show ?case using inv_start[OF page.IH, of f "query_of s n" "s\<lparr>ct_activePage := n\<rparr>" p s'] inv_sort[OF page.IH] by (simp add: handlePageChange_def)
next
  case (page_size s C P f n p s')
  then show ?case using inv_start[OF page_size.IH, of f "(query_of s 1)\<lparr>q_pageSize := n\<rparr>" "s\<lparr>ct_stored_pageSize := Some (int_text n), ct_pageSize := n, ct_activePage := 1\<rparr>" p s'] inv_sort[OF page_size.IH] by (simp add: handlePageSizeChange_def)
next
  case (table s C P f ty d ord p s')
  then show ?case using inv_start[OF table.IH, of f "(query_of s 1)\<lparr>q_sort := next_sort d ord\<rparr>" "s\<lparr>ct_sortConfig := next_sort d ord, ct_activePage := 1\<rparr>" p s'] next_sort_ok[of d ord]
    by (simp add: handleTableChange_def Let_def split: if_splits)
next
  case (load_end s C P p s' la)
  have "same_model (load_answer p la s) s'" using load_end.hyps by (simp add: load_end_def same_model_def Let_def)
  moreover have "ct_rows s' = ct_rows (load_answer p la s)" using load_end.hyps by (simp add: load_end_def Let_def)
  ultimately show ?case using inv_same(1)[OF inv_load_end[OF load_end.IH, of p la]] by simp
next
  case (search_end s C P p s' sa)
  obtain s1 ok where a: "search_answer p sa s = (s1, ok)" by fastforce
  then have "same_model s1 s'" "ct_rows s' = ct_rows s1" using search_end.hyps by (simp_all add: search_end_def same_model_def Let_def)
  then show ?case using inv_same(1)[OF inv_search_end[OF search_end.IH a]] by simp
next
  case (test s C P batching i m ep stream rq s')
  then show ?case using inv_same(1)[OF test.IH, of s'] same_model_local(1)[of s batching i m ep stream] by simp
next
  case (batch_test s C P ms s')
  then show ?case using inv_same(1)[OF batch_test.IH, of s'] same_model_local(2)[of s] by simp
next
  case (set_tag s C P rq s')
  then show ?case using inv_same(1)[OF set_tag.IH, of s'] same_model_local(6)[of s] by simp
next
  case (delete s C P ids s')
  then show ?case using inv_same(1)[OF delete.IH, of s'] same_model_local(7)[of s] by simp
next
  case (batch_head s C P ms k nx s')
  then show ?case using inv_same(1)[OF batch_head.IH, of s'] same_model_actions(5)[of s ms k] by simp
next
  case (batch_next s C P ms k nx s')
  then show ?case using inv_same(1)[OF batch_next.IH, of s'] same_model_actions(6)[of s ms k] by simp
next
  case (batch_finish s C P i ms sm s')
  then show ?case using inv_same(1)[OF batch_finish.IH, of s'] same_model_actions(7)[of s i ms] by simp
next
  case (copy s C P cx ua po s')
  then show ?case using inv_reload(1)[OF copy.IH, of cx ua] by simp
next
  case (tag_edit_end s C P cx ua po s')
  then show ?case using inv_reload(2)[OF tag_edit_end.IH, of cx ua] by simp
next
  case (set_tag_end s C P cx na po s')
  then show ?case using inv_reload(3)[OF set_tag_end.IH, of cx na] by simp
next
  case (delete_end s C P cx na po s')
  then show ?case using inv_reload(4)[OF delete_end.IH, of cx na] by simp
next
  case (delete_disabled s C P cx na po s')
  then show ?case using inv_reload(5)[OF delete_disabled.IH, of cx na] by simp
next
  case (fix_end s C P cx nn po s')
  then show ?case using inv_reload(6)[OF fix_end.IH, of cx nn] by simp
qed (simp_all add: inv_mount inv_refresh inv_same(1)[OF _ same_model_actions(1)] inv_same(1)[OF _ same_model_actions(2)]
    inv_same(1)[OF _ same_model_actions(3)] inv_same(1)[OF _ same_model_actions(4)] inv_manage inv_manage_end inv_manage_tag_end inv_balance_end inv_test_end inv_same(1)[OF _ same_model_local(3)]
    inv_same(1)[OF _ same_model_local(4)] inv_same(1)[OF _ same_model_local(5)])

lemma channel_table_invariant_parts:
  assumes "ct_reach s C P"
  shows "ct_rows s \<in> C" "rs \<in> C \<Longrightarrow> distinct (addrs (ct_store s) rs) \<and> (\<forall>a\<in>set (addrs (ct_store s) rs). st_chans (ct_store s) a \<noteq> None)"
    "getSortQuery (ct_sortConfig s) = [] \<or> (\<exists>col\<in>set SORTABLE_CHANNEL_COLUMNS. \<exists>ord\<in>{''asc'', ''desc''}.
       getSortQuery (ct_sortConfig s) = ''&sort_by='' @ col @ ''&sort_order='' @ ord)"
    "p \<in> P \<Longrightarrow> q \<in> P \<Longrightarrow> \<not> pd_search p \<Longrightarrow> \<not> pd_search q \<Longrightarrow> pd_id p = pd_id q \<Longrightarrow> p = q"
proof -
  note inv = ct_reach_inv[OF assms, unfolded ct_inv_def]
  show "ct_rows s \<in> C" using inv by blast
  show "rs \<in> C \<Longrightarrow> distinct (addrs (ct_store s) rs) \<and> (\<forall>a\<in>set (addrs (ct_store s) rs). st_chans (ct_store s) a \<noteq> None)"
    using inv wf_refs_alloc[of "ct_store s" rs] by (simp add: wf_refs_def)
  have "sort_ok (ct_sortConfig s)" using inv by blast
  then show "getSortQuery (ct_sortConfig s) = [] \<or> (\<exists>col\<in>set SORTABLE_CHANNEL_COLUMNS. \<exists>ord\<in>{''asc'', ''desc''}.
       getSortQuery (ct_sortConfig s) = ''&sort_by='' @ col @ ''&sort_order='' @ ord)"
    by (auto simp: sort_ok_def getSortQuery_def no_sort_def)
  show "p \<in> P \<Longrightarrow> q \<in> P \<Longrightarrow> \<not> pd_search p \<Longrightarrow> \<not> pd_search q \<Longrightarrow> pd_id p = pd_id q \<Longrightarrow> p = q" using inv by blast
qed

text \<open>C5. In every reachable state of the channel table, whatever the interleaving of requests and answers, the rows shown and the rows
  of every closure refer to existing objects, no object twice, so that a change through one list of rows reaches each channel once;
  the sort configuration is empty or one of the sortable columns with a direction; and the loads under way have different numbers.\<close>

theorem channel_table_invariant:
  assumes "ct_reach s C P"
  shows "ct_rows s \<in> C \<and>
    (\<forall>rs\<in>C. distinct (addrs (ct_store s) rs) \<and> (\<forall>a\<in>set (addrs (ct_store s) rs). st_chans (ct_store s) a \<noteq> None)) \<and>
    (getSortQuery (ct_sortConfig s) = [] \<or> (\<exists>col\<in>set SORTABLE_CHANNEL_COLUMNS. \<exists>ord\<in>{''asc'', ''desc''}.
       getSortQuery (ct_sortConfig s) = ''&sort_by='' @ col @ ''&sort_order='' @ ord)) \<and>
    (\<forall>p\<in>P. \<forall>q\<in>P. \<not> pd_search p \<longrightarrow> \<not> pd_search q \<longrightarrow> pd_id p = pd_id q \<longrightarrow> p = q)"
  by (intro conjI ballI impI; (rule channel_table_invariant_parts(1,3)[OF assms] | erule (4) channel_table_invariant_parts(4)[OF assms])?)
    (use channel_table_invariant_parts(2)[OF assms] in simp_all)

definition no_form :: form_values where "no_form = \<lparr>fv_keyword = [], fv_group = [], fv_model = []\<rparr>"

definition first_load :: "pending \<times> ct_state" where
  "first_load = handlePageChange no_form 1 (initial_channels None)"

definition page_answer :: "channel list \<Rightarrow> list_answer reply" where
  "page_answer cs = Granted \<lparr>la_items = cs, la_total = 4, la_type_counts = None\<rparr>"

definition first_page :: ct_state where
  "first_page = load_end (fst first_load) (Some (page_answer [sample_chan 1 ''a'' 1 0, sample_chan 2 ''b'' 1 0])) (snd first_load)"

lemma first_reach: "ct_reach (snd first_load) {[]} {fst first_load}"
  by (rule ct_reach.page[OF ct_reach.init, of no_form 1 None]) (simp add: first_load_def)

lemma first_page_rows: "ct_rows first_page = [CRef 0, CRef 1]"
  by code_simp

lemma first_page_reach: "ct_reach first_page {[CRef 0, CRef 1], []} {fst first_load}"
proof -
  have "\<not> pd_search (fst first_load)" by code_simp
  from load_end[OF first_reach _ this first_page_def] show ?thesis by (simp add: first_page_rows)
qed

theorem channel_table_invariant_witness: "distinct (addrs (ct_store first_page) [CRef 0, CRef 1])"
  using channel_table_invariant[OF first_page_reach] by simp

section \<open>Updates\<close>

abbreviation on_id :: "int \<Rightarrow> (channel \<Rightarrow> channel) \<Rightarrow> channel \<Rightarrow> channel" where
  "on_id i f \<equiv> \<lambda>c. if c_id c = i then f c else c"

definition has_id :: "int \<Rightarrow> channel row list \<Rightarrow> bool" where
  "has_id i rows \<longleftrightarrow> list_ex (\<lambda>c. c_id c = i) (concat (map row_channels rows))"

lemma update_wf:
  assumes "wf_refs (ct_store s) rs"
  shows "if has_id i (view (ct_store s) rs)
    then ct_rows (updateChannelProperty rs i f s) = rs \<and>
      view (ct_store (updateChannelProperty rs i f s)) rs = map (row_map (on_id i f)) (view (ct_store s) rs)
    else updateChannelProperty rs i f s = s"
proof -
  have up: "update_addrs i f (addrs (ct_store s) rs) (ct_store s) =
      ((\<exists>a\<in>set (addrs (ct_store s) rs). c_id (the (st_chans (ct_store s) a)) = i),
       write_where (\<lambda>c. c_id c = i) f (set (addrs (ct_store s) rs)) (ct_store s))"
    using assms wf_refs_alloc[OF assms] by (intro update_addrs_spec) (simp_all add: wf_refs_def)
  have ex: "has_id i (view (ct_store s) rs) \<longleftrightarrow> (\<exists>a\<in>set (addrs (ct_store s) rs). c_id (the (st_chans (ct_store s) a)) = i)"
    by (simp add: has_id_def view_channels list_ex_iff)
  show ?thesis unfolding ex using view_where[OF assms subset_refl, of "\<lambda>c. c_id c = i" f] by (simp add: updateChannelProperty_def up)
qed

lemma row_map_absent: "\<not> has_id i rows \<Longrightarrow> map (row_map (on_id i f)) rows = rows"
proof (rule map_idI)
  fix r assume "\<not> has_id i rows" "r \<in> set rows"
  then have "\<forall>c\<in>set (row_channels r). c_id c \<noteq> i" by (auto simp: has_id_def list_ex_iff)
  then show "row_map (on_id i f) r = r" by (cases r) (simp_all add: row_map_def row_channels_def map_idI)
qed

lemma update_view:
  "wf_refs (ct_store s) rs \<Longrightarrow> view (ct_store (updateChannelProperty rs i f s)) rs = map (row_map (on_id i f)) (view (ct_store s) rs)"
  using update_wf[of s rs i f] row_map_absent[of i "view (ct_store s) rs" f] by (simp split: if_splits)

lemma update_refines_parts:
  assumes "ct_reach s C P" "rs \<in> C"
  shows "if has_id i (view (ct_store s) rs)
    then ct_rows (updateChannelProperty rs i f s) = rs \<and>
      view (ct_store (updateChannelProperty rs i f s)) rs = map (row_map (on_id i f)) (view (ct_store s) rs)
    else updateChannelProperty rs i f s = s"
    "view (ct_store (updateChannelProperty rs j g (updateChannelProperty rs i f s))) rs =
      map (row_map (on_id j g)) (map (row_map (on_id i f)) (view (ct_store s) rs))"
proof -
  have inv: "ct_inv s C P" by (rule ct_reach_inv[OF assms(1)])
  have w: "wf_refs (ct_store s) rs" using inv assms(2) by (simp add: ct_inv_def)
  have w2: "wf_refs (ct_store (updateChannelProperty rs i f s)) rs" using inv_update[OF inv assms(2), of i f] assms(2) by (simp add: ct_inv_def)
  show "if has_id i (view (ct_store s) rs)
    then ct_rows (updateChannelProperty rs i f s) = rs \<and>
      view (ct_store (updateChannelProperty rs i f s)) rs = map (row_map (on_id i f)) (view (ct_store s) rs)
    else updateChannelProperty rs i f s = s" by (rule update_wf[OF w])
  show "view (ct_store (updateChannelProperty rs j g (updateChannelProperty rs i f s))) rs =
      map (row_map (on_id j g)) (map (row_map (on_id i f)) (view (ct_store s) rs))"
    unfolding update_view[OF w2] update_view[OF w] ..
qed

text \<open>C6. Refinement: an update of a channel by its identifier, made in place through the rows of some closure, is the update of that
  identifier in the rows as values, in tag rows and plain rows alike, and the list of the closure is what is shown then. When no row
  has the identifier nothing changes. Two updates through one closure add up: the second does not lose the first.\<close>

theorem update_refines:
  assumes "ct_reach s C P" "rs \<in> C"
  shows "(if has_id i (view (ct_store s) rs)
      then ct_rows (updateChannelProperty rs i f s) = rs \<and>
        view (ct_store (updateChannelProperty rs i f s)) rs = map (row_map (on_id i f)) (view (ct_store s) rs)
      else updateChannelProperty rs i f s = s) \<and>
    view (ct_store (updateChannelProperty rs j g (updateChannelProperty rs i f s))) rs =
      map (row_map (on_id j g)) (map (row_map (on_id i f)) (view (ct_store s) rs))"
  by (rule conjI) (rule update_refines_parts[OF assms])+

theorem update_refines_witness:
  "view (ct_store (updateChannelProperty [CRef 0, CRef 1] 2 (\<lambda>c. c\<lparr>c_balance := Fin 3\<rparr>) first_page)) [CRef 0, CRef 1] =
     [ChannelRow (sample_chan 1 ''a'' 1 0), ChannelRow (sample_chan 2 ''b'' 1 0\<lparr>c_balance := Fin 3\<rparr>)]"
proof -
  let ?f = "\<lambda>c. c\<lparr>c_balance := Fin 3\<rparr>"
  have v: "view (ct_store first_page) [CRef 0, CRef 1] = [ChannelRow (sample_chan 1 ''a'' 1 0), ChannelRow (sample_chan 2 ''b'' 1 0)]"
    by code_simp
  have h: "has_id 2 [ChannelRow (sample_chan 1 ''a'' 1 0), ChannelRow (sample_chan 2 ''b'' 1 0)] = True" by code_simp
  have "view (ct_store (updateChannelProperty [CRef 0, CRef 1] 2 ?f first_page)) [CRef 0, CRef 1] =
      map (row_map (on_id 2 ?f)) [ChannelRow (sample_chan 1 ''a'' 1 0), ChannelRow (sample_chan 2 ''b'' 1 0)]"
    using conjunct1[OF update_refines[OF first_page_reach, of "[CRef 0, CRef 1]" 2 ?f 0 id]] unfolding v h if_True by simp
  then show ?thesis by (simp add: row_map_def sample_chan_def)
qed

section \<open>Answers\<close>

lemma newest_load_wins_parts:
  assumes "ct_reach s C P" "p \<in> P" "\<not> pd_search p"
  shows "load_answer p ans s \<noteq> s \<Longrightarrow> q \<in> P \<Longrightarrow> \<not> pd_search q \<Longrightarrow> q = p \<or> pd_id q < pd_id p"
    "pd_id p = ct_requestCounter s \<Longrightarrow> setChannelFormat (la_items a) (q_tagMode (pd_query p)) = Inr rows \<Longrightarrow>
       let s' = load_answer p (Some (Granted a)) s in view (ct_store s') (ct_rows s') = rows \<and> \<not> ct_loading s' \<and> ct_count s' = la_total a"
proof -
  note inv = ct_reach_inv[OF assms(1)]
  show "load_answer p ans s \<noteq> s \<Longrightarrow> q \<in> P \<Longrightarrow> \<not> pd_search q \<Longrightarrow> q = p \<or> pd_id q < pd_id p"
  proof -
    assume a: "load_answer p ans s \<noteq> s" and q: "q \<in> P" "\<not> pd_search q"
    have id: "pd_id p = ct_requestCounter s" using a by (auto simp: load_answer_def split: option.splits reply.splits if_splits)
    then have "pd_id q \<le> pd_id p" using inv q by (simp add: ct_inv_def)
    then show ?thesis using inv q assms(2,3) unfolding ct_inv_def by (metis le_neq_implies_less)
  qed
  show "let s' = load_answer p (Some (Granted a)) s in view (ct_store s') (ct_rows s') = rows \<and> \<not> ct_loading s' \<and> ct_count s' = la_total a"
    if id: "pd_id p = ct_requestCounter s" and f: "setChannelFormat (la_items a) (q_tagMode (pd_query p)) = Inr rows"
  proof -
    define s1 where "s1 = (case la_type_counts a of Some tc \<Rightarrow> s\<lparr>ct_typeCounts := sum_counts tc\<rparr> | None \<Rightarrow> s)"
    have "same_model s s1" by (simp add: s1_def same_model_def split: option.split)
    then have i1: "ct_inv s1 C P" by (rule inv_same(1)[OF inv])
    obtain s2 where s2: "show_items (la_items a) (q_tagMode (pd_query p)) s1 = Some s2"
      by (cases "alloc_rows rows (ct_store s1)") (simp add: show_items_def f)
    have "load_answer p (Some (Granted a)) s = s2\<lparr>ct_count := la_total a, ct_loading := False\<rparr>"
      using id s2 by (simp add: load_answer_def s1_def[symmetric] Let_def)
    then show ?thesis using inv_shown(2)[OF i1 s2] f by simp
  qed
qed

text \<open>C8. Of the loads under way, only the newest one counts: when the answer of a load changes anything but \<open>searching\<close>, every
  other load that was ever sent has a smaller number; the answers of overtaken loads, refusals included, are dropped. An accepted
  answer shows exactly the rows made of its own items.\<close>

theorem newest_load_wins:
  assumes "ct_reach s C P" "p \<in> P" "\<not> pd_search p"
  shows "(load_answer p ans s \<noteq> s \<longrightarrow> (\<forall>q\<in>P. \<not> pd_search q \<longrightarrow> q = p \<or> pd_id q < pd_id p)) \<and>
    (pd_id p = ct_requestCounter s \<longrightarrow> (\<forall>rows. setChannelFormat (la_items a) (q_tagMode (pd_query p)) = Inr rows \<longrightarrow>
       (let s' = load_answer p (Some (Granted a)) s in
          view (ct_store s') (ct_rows s') = rows \<and> \<not> ct_loading s' \<and> ct_count s' = la_total a)))"
  using newest_load_wins_parts[OF assms] by (intro conjI impI ballI allI) simp_all

theorem newest_load_wins_witness:
  "let s' = load_answer (fst first_load) (Some (Granted \<lparr>la_items = [sample_chan 1 ''a'' 1 0], la_total = 1, la_type_counts = None\<rparr>))
       (snd first_load) in view (ct_store s') (ct_rows s') = [ChannelRow (sample_chan 1 ''a'' 1 0)] \<and> \<not> ct_loading s' \<and> ct_count s' = 1"
proof -
  have "pd_search (fst first_load) = False" "pd_id (fst first_load) = ct_requestCounter (snd first_load)"
    "setChannelFormat [sample_chan 1 ''a'' 1 0] (q_tagMode (pd_query (fst first_load))) = Inr [ChannelRow (sample_chan 1 ''a'' 1 0)]"
    by code_simp+
  then show ?thesis
    using newest_load_wins[OF first_reach, of "fst first_load" None "\<lparr>la_items = [sample_chan 1 ''a'' 1 0], la_total = 1, la_type_counts = None\<rparr>"]
    by simp
qed




end
