(* ===== verification/ChannelTableRuns.thy ===== *)
theory ChannelTableRuns
  imports ChannelTableProps
begin

text \<open>
  A whole run of the batch test: which models it asks for, that it ends, and what its summary counts.
\<close>

section \<open>Test runs\<close>

definition answered :: "(string \<times> jsval) + test_answer \<Rightarrow> bool" where
  "answered a = (case a of Inl _ \<Rightarrow> False | Inr t \<Rightarrow> ta_success t)"

definition tested :: "int \<Rightarrow> string \<Rightarrow> ct_state \<Rightarrow> bool option" where
  "tested i n s = map_option ts_success (obj_get (test_key i n) (ct_testResults s))"

lemma test_key_inj [simp]: "test_key i m = test_key i n \<longleftrightarrow> m = n"
  by (simp add: test_key_def)

lemma update_others [simp]: "ct_testResults (updateChannelProperty rs i f s) = ct_testResults s"
  "ct_testingModels (updateChannelProperty rs i f s) = ct_testingModels s" "ct_shouldStop (updateChannelProperty rs i f s) = ct_shouldStop s"
  by (simp_all add: updateChannelProperty_def split: prod.split)

lemma test_end:
  "tested i n (testChannel_end False rs i nm m True now a s) = (if n = m then Some (answered a) else tested i n s)"
  "ct_shouldStop (testChannel_end False rs i nm m True now a s) = ct_shouldStop s"
  "ct_testingModels (testChannel_end False rs i nm m True now a s) = filter (\<lambda>x. x \<noteq> m) (ct_testingModels s)"
  by (auto simp: tested_def testChannel_end_def remove_testing_def put_result_def answered_def Let_def obj_get_set split: sum.split prod.split)

lemma answer_batch_spec:
  "tested i n (run_answers rs i nm now (map (\<lambda>m. (m, ans m)) ms) s) = (if n \<in> set ms then Some (answered (ans n)) else tested i n s)"
  "ct_shouldStop (run_answers rs i nm now (map (\<lambda>m. (m, ans m)) ms) s) = ct_shouldStop s"
  "ct_testingModels (run_answers rs i nm now (map (\<lambda>m. (m, ans m)) ms) s) = filter (\<lambda>x. x \<notin> set ms) (ct_testingModels s)"
  by (induction ms arbitrary: s) (auto simp: run_answers_def test_end intro!: filter_cong)

lemma send_batch_spec:
  "tested i n (send_batch i ms s) = tested i n s" "ct_shouldStop (send_batch i ms s) = ct_shouldStop s"
  "filter (\<lambda>x. x \<notin> set ms) (ct_testingModels (send_batch i ms s)) = filter (\<lambda>x. x \<notin> set ms) (ct_testingModels s)"
proof -
  show "tested i n (send_batch i ms s) = tested i n s" "ct_shouldStop (send_batch i ms s) = ct_shouldStop s"
    by (induction ms arbitrary: s) (auto simp: send_batch_def testChannel_begin_def tested_def)
  have "filter (\<lambda>x. x \<notin> A) (ct_testingModels (send_batch i ms s)) = filter (\<lambda>x. x \<notin> A) (ct_testingModels s)" if "set ms \<subseteq> A" for A
    using that by (induction ms arbitrary: s) (auto simp: send_batch_def testChannel_begin_def)
  then show "filter (\<lambda>x. x \<notin> set ms) (ct_testingModels (send_batch i ms s)) = filter (\<lambda>x. x \<notin> set ms) (ct_testingModels s)" by simp
qed

lemma drop_parts: "set (drop k xs) = set (take n (drop k xs)) \<union> set (drop (k + n) xs)"
  by (metis append_take_drop_id drop_drop add.commute set_append)

lemma batch_loop_spec:
  assumes "\<not> ct_shouldStop s" "\<And>ms. set (order ms) = set ms"
  shows "tested i n (batch_loop rs i nm now ans order chosen k (batchTestModels_head chosen k s)) =
      (if n \<in> set (drop k chosen) then Some (answered (ans n)) else tested i n s) \<and>
    \<not> ct_shouldStop (batch_loop rs i nm now ans order chosen k (batchTestModels_head chosen k s)) \<and>
    ct_testingModels (batch_loop rs i nm now ans order chosen k (batchTestModels_head chosen k s)) =
      filter (\<lambda>x. x \<notin> set (drop k chosen)) (ct_testingModels s)"
  using assms(1)
proof (induction "length chosen - k" arbitrary: k s rule: less_induct)
  case less
  show ?case
  proof (cases "k < length chosen")
    case False
    then show ?thesis using less.prems by (simp add: batchTestModels_head_def batch_leave_def batch_loop.simps)
  next
    case True
    let ?ms = "take concurrencyLimit (drop k chosen)"
    let ?s = "ct_toast (CtBatchRange (Suc k) (min (k + concurrencyLimit) (length chosen)) (length chosen)) s"
    let ?t = "answer_batch rs i nm now ans order ?ms (send_batch i ?ms ?s)"
    have t: "tested i n ?t = (if n \<in> set ?ms then Some (answered (ans n)) else tested i n s)" "\<not> ct_shouldStop ?t"
      "ct_testingModels ?t = filter (\<lambda>x. x \<notin> set ?ms) (ct_testingModels s)"
      using less.prems by (simp_all add: answer_batch_def answer_batch_spec assms(2) send_batch_spec)
        (simp_all add: ct_toast_def tested_def)
    have "length chosen - (k + concurrencyLimit) < length chosen - k" using True by (simp add: concurrencyLimit_def)
    note ih = less.hyps[OF this t(2)]
    have "batch_loop rs i nm now ans order chosen k (batchTestModels_head chosen k s) =
        batch_loop rs i nm now ans order chosen (k + concurrencyLimit) (batchTestModels_head chosen (k + concurrencyLimit) ?t)"
      using True less.prems t(2) by (simp add: batchTestModels_head_def[of chosen k] batch_loop.simps[of _ _ _ _ _ _ _ k] batchTestModels_next_def)
    then show ?thesis using ih t drop_parts[of k chosen concurrencyLimit] by auto
  qed
qed

lemma batch_test_run_parts:
  assumes "batchTestModels_begin s = (chosen, s1)" "chosen \<noteq> []" "\<And>ms. set (order ms) = set ms"
  shows "fst (batchTestModels rs i nm now ans order s) =
      Some (length (filter (\<lambda>m. answered (ans m)) chosen), length (filter (\<lambda>m. \<not> answered (ans m)) chosen))"
    "tested i n (snd (batchTestModels rs i nm now ans order s)) = (if n \<in> set chosen then Some (answered (ans n)) else tested i n s1)"
    "set (ct_testingModels (snd (batchTestModels rs i nm now ans order s))) = set (ct_testingModels s1) - set chosen"
    "\<not> ct_isBatchTesting (snd (batchTestModels rs i nm now ans order s))"
    "batchTestModels_head chosen k s2 = (BatchAsk ms, s3) \<Longrightarrow> ms \<noteq> [] \<and> length ms \<le> 5"
proof -
  have stop: "\<not> ct_shouldStop s1"
    using assms(1,2) by (auto simp: batchTestModels_begin_def Let_def ct_toast_def split: option.splits if_splits)
  let ?e = "batch_loop rs i nm now ans order chosen 0 (batchTestModels_head chosen 0 s1)"
  have run: "batchTestModels rs i nm now ans order s = batchTestModels_finish i chosen ?e"
    using assms(1,2) by (cases chosen) (simp_all add: batchTestModels_def)
  note loop = batch_loop_spec[where order = order and chosen = chosen and k = 0, OF stop assms(3)]
  have res: "(case obj_get (test_key i m) (ct_testResults ?e) of Some r \<Rightarrow> ts_success r | None \<Rightarrow> False) = answered (ans m)" if "m \<in> set chosen" for m
    using loop[of i m rs nm now ans] that by (auto simp: tested_def split: option.split)
  show "fst (batchTestModels rs i nm now ans order s) =
      Some (length (filter (\<lambda>m. answered (ans m)) chosen), length (filter (\<lambda>m. \<not> answered (ans m)) chosen))"
    using loop by (simp add: run batchTestModels_finish_def batch_summary_def Let_def res cong: filter_cong)
  show "tested i n (snd (batchTestModels rs i nm now ans order s)) = (if n \<in> set chosen then Some (answered (ans n)) else tested i n s1)"
    using loop[of i n rs nm now ans] by (simp add: run batchTestModels_finish_def tested_def)
  show "set (ct_testingModels (snd (batchTestModels rs i nm now ans order s))) = set (ct_testingModels s1) - set chosen"
    using loop by (auto simp: run batchTestModels_finish_def)
  show "\<not> ct_isBatchTesting (snd (batchTestModels rs i nm now ans order s))"
    by (simp add: run batchTestModels_finish_def)
  show "batchTestModels_head chosen k s2 = (BatchAsk ms, s3) \<Longrightarrow> ms \<noteq> [] \<and> length ms \<le> 5"
    by (auto simp: batchTestModels_head_def batch_leave_def concurrencyLimit_def split: if_splits)
qed

text \<open>C9. A batch test that nobody stops ends. It never has more than five requests under way at once; whatever the order in which
  the answers of a batch come in, rejected ones included, every chosen model gets the result of its own answer, the results of other
  models stay, no chosen model is left marked as being tested, and the summary counts each chosen model once, as a success exactly when
  its answer was one.\<close>

theorem batch_test_run:
  assumes "batchTestModels_begin s = (chosen, s1)" "chosen \<noteq> []" "\<And>ms. set (order ms) = set ms"
  shows "let s' = snd (batchTestModels rs i nm now ans order s) in
    fst (batchTestModels rs i nm now ans order s) =
      Some (length (filter (\<lambda>m. answered (ans m)) chosen), length (filter (\<lambda>m. \<not> answered (ans m)) chosen)) \<and>
    (\<forall>n. tested i n s' = (if n \<in> set chosen then Some (answered (ans n)) else tested i n s1)) \<and>
    set (ct_testingModels s') = set (ct_testingModels s1) - set chosen \<and> \<not> ct_isBatchTesting s' \<and>
    (\<forall>k s2 ms s3. batchTestModels_head chosen k s2 = (BatchAsk ms, s3) \<longrightarrow> ms \<noteq> [] \<and> length ms \<le> 5)"
  unfolding Let_def
  by (intro conjI allI impI; (rule batch_test_run_parts(1,2,3,4)[OF assms] | drule batch_test_run_parts(5)[OF assms])?) simp_all

definition test_dialogue :: ct_state where
  "test_dialogue = first_page\<lparr>ct_testChannel := Some (1, ''gpt-4o,gpt-4,o3''), ct_modelSearchKeyword := ''GPT''\<rparr>"

definition half_backend :: test_backend where
  "half_backend m = (if m = ''gpt-4'' then Inl (''timeout'', JNull)
     else Inr \<lparr>ta_success = True, ta_message = [], ta_time = Fin 2, ta_error_code = JNull\<rparr>)"

theorem batch_test_run_witness:
  "fst (batchTestModels [CRef 0, CRef 1] 1 ''ch'' (Fin 0) half_backend rev test_dialogue) = Some (1, 1)"
proof -
  have b: "fst (batchTestModels_begin test_dialogue) = [''gpt-4o'', ''gpt-4'']" by code_simp
  obtain s1 where "batchTestModels_begin test_dialogue = ([''gpt-4o'', ''gpt-4''], s1)" using b by (metis prod.collapse)
  from batch_test_run[OF this, of rev "[CRef 0, CRef 1]" 1 "''ch''" "Fin 0" half_backend]
  show ?thesis by (simp add: Let_def half_backend_def answered_def)
qed

end
