(* ===== verification/JsRounding.thy ===== *)
theory JsRounding
  imports JsNumberFacts
begin

text \<open>
  How far a rounded operation is from the exact one: within the range of normal numbers a rounding changes a number by at most one part in
  \<open>2\<^sup>5\<^sup>3\<close>, and a chain of multiplications and divisions by at most one part in \<open>2\<^sup>5\<^sup>2\<close> per step.
\<close>

section \<open>The exponent\<close>

lemma bitlen_bounds:
  assumes "0 < n"
  shows "2 ^ (nat (bitlen n) - 1) \<le> n" "n < 2 ^ nat (bitlen n)"
proof -
  have "2 ^ (nat (bitlen n) - 1) \<le> n \<and> n < 2 ^ nat (bitlen n)"
    using assms
  proof (induction n rule: bitlen.induct)
    case (1 n)
    have step: "bitlen n = 1 + bitlen (n div 2)" using 1(2) by (subst bitlen.simps) simp
    show ?case
    proof (cases "n = 1")
      case True
      then show ?thesis using bitlen.simps[of 0] by (subst bitlen.simps, subst bitlen.simps) simp
    next
      case False
      then have h: "0 < n div 2" using 1(2) by auto
      then have ih: "2 ^ (nat (bitlen (n div 2)) - 1) \<le> n div 2" "n div 2 < 2 ^ nat (bitlen (n div 2))" using 1 by auto
      have b: "1 \<le> bitlen (n div 2)" by (rule bitlen_pos[OF h])
      define k where "k = nat (bitlen (n div 2)) - 1"
      have k: "nat (bitlen (n div 2)) = Suc k" "nat (bitlen n) = Suc (Suc k)" using b step by (simp_all add: k_def)
      have "2 ^ k \<le> n div 2" "n div 2 < 2 * 2 ^ k" using ih by (simp_all add: k)
      then have "2 * 2 ^ k \<le> n" "n < 4 * 2 ^ k" by linarith+
      then show ?thesis by (simp add: k)
    qed
  qed
  then show "2 ^ (nat (bitlen n) - 1) \<le> n" "n < 2 ^ nat (bitlen n)" by auto
qed

lemma pow2_neg: "0 < k \<Longrightarrow> pow2 (- k) = 1 / 2 ^ nat k"
  by (simp add: pow2_def)

lemma pow2_pos: "0 < pow2 e"
  by (simp add: pow2_def)

lemma ilog2_lower: "0 < a \<Longrightarrow> pow2 (ilog2 a) \<le> a"
proof (cases "1 \<le> a")
  case True
  then have f: "0 < \<lfloor>a\<rfloor>" by simp
  have e: "ilog2 a = int (nat (bitlen \<lfloor>a\<rfloor>) - 1)" using True bitlen_pos[OF f] by (simp add: ilog2_def)
  have "(2 ^ (nat (bitlen \<lfloor>a\<rfloor>) - 1) :: rat) = of_int (2 ^ (nat (bitlen \<lfloor>a\<rfloor>) - 1))" by simp
  also have "\<dots> \<le> of_int \<lfloor>a\<rfloor>" using bitlen_bounds(1)[OF f] by (simp only: of_int_le_iff)
  also have "\<dots> \<le> a" by simp
  finally show ?thesis unfolding e by (simp add: pow2_def)
next
  case False
  assume a: "0 < a"
  let ?m = "\<lceil>1 / a\<rceil> - 1"
  have "1 < 1 / a" using a False by simp
  then have m: "0 < ?m" by linarith
  have b: "1 \<le> bitlen ?m" by (rule bitlen_pos[OF m])
  have e: "ilog2 a = - bitlen ?m" using False by (simp add: ilog2_def)
  have "?m < 2 ^ nat (bitlen ?m)" by (rule bitlen_bounds(2)[OF m])
  then have "\<lceil>1 / a\<rceil> \<le> 2 ^ nat (bitlen ?m)" by linarith
  then have "1 / a \<le> of_int (2 ^ nat (bitlen ?m))" by (simp only: ceiling_le_iff)
  then have "1 / (2 ^ nat (bitlen ?m)) \<le> a" using a by (simp add: field_simps)
  then show ?thesis using b by (simp add: e pow2_neg)
qed

lemma ilog2_min:
  assumes "1 / 2 ^ k \<le> a"
  shows "- int k \<le> ilog2 a"
proof (cases "1 \<le> a")
  case True
  then have "0 < \<lfloor>a\<rfloor>" by simp
  then show ?thesis using True bitlen_pos[of "\<lfloor>a\<rfloor>"] by (simp add: ilog2_def)
next
  case False
  have "0 < (1::rat) / 2 ^ k" by simp
  then have a: "0 < a" using assms by linarith
  then have "1 / a \<le> 2 ^ k" using assms by (simp add: field_simps)
  then have "1 / a \<le> of_int (2 ^ k)" by simp
  then have "\<lceil>1 / a\<rceil> \<le> 2 ^ k" by (simp only: ceiling_le_iff)
  then have "bitlen (\<lceil>1 / a\<rceil> - 1) \<le> int k" by (intro bitlen_le) linarith
  then show ?thesis using False by (simp add: ilog2_def)
qed

lemma ilog2_max:
  assumes "a < 2 ^ k"
  shows "ilog2 a < int (Suc k)"
proof (cases "1 \<le> a")
  case True
  have "of_int \<lfloor>a\<rfloor> < (of_int (2 ^ k) :: rat)" using le_less_trans[OF of_int_floor_le[of a] assms] by (simp only: of_int_power of_int_numeral)
  then have "\<lfloor>a\<rfloor> < 2 ^ k" by (simp only: of_int_less_iff)
  then have "bitlen \<lfloor>a\<rfloor> \<le> int k" by (rule bitlen_le)
  then show ?thesis using True by (simp add: ilog2_def)
next
  case False
  have "0 \<le> bitlen m" for m by (induction m rule: bitlen.induct) (subst bitlen.simps, simp)
  from this[of "\<lceil>1 / a\<rceil> - 1"] show ?thesis using False by (simp add: ilog2_def)
qed

section \<open>One rounding\<close>

lemma round_half_even_close: "\<bar>of_int (round_half_even x) - x\<bar> \<le> 1 / 2"
proof -
  define f where "f = \<lfloor>x\<rfloor>"
  have "of_int f \<le> x" "x < of_int f + 1" by (simp_all add: f_def) linarith
  then have "\<bar>of_int f - x\<bar> \<le> 1 / 2" if "x - of_int f \<le> 1 / 2" using that by linarith
  moreover have "\<bar>of_int (f + 1) - x\<bar> \<le> 1 / 2" if "1 / 2 \<le> x - of_int f" using that \<open>x < of_int f + 1\<close> by (simp add: abs_le_iff)
  moreover have "round_half_even x = f \<and> x - of_int f \<le> 1 / 2 \<or> round_half_even x = f + 1 \<and> 1 / 2 \<le> x - of_int f"
    unfolding round_half_even_def Let_def f_def[symmetric] by (cases "x - of_int f" "1 / 2 :: rat" rule: linorder_cases) auto
  ultimately show ?thesis by metis
qed

lemma rnd_abs_close:
  assumes "1 / 2 ^ 1000 \<le> a"
  shows "\<bar>rnd_abs a - a\<bar> \<le> a / 2 ^ 53"
proof -
  have "0 < (1::rat) / 2 ^ 1000" by simp
  then have a: "0 < a" using assms by linarith
  let ?q = "ilog2 a - 52"
  have "- 1000 \<le> ilog2 a" using ilog2_min[OF assms] by simp
  then have q: "max ?q (- 1074) = ?q" by simp
  have "pow2 (ilog2 a) = 2 ^ 52 * pow2 ?q"
  proof -
    have "pow2 (e + 52) = 2 ^ 52 * pow2 e" for e
    proof (cases "0 \<le> e")
      case True
      then have "nat (e + 52) = nat e + 52" by simp
      then show ?thesis using True by (simp only: pow2_def) (simp add: power_add)
    next
      case False
      show ?thesis
      proof (cases "0 \<le> e + 52")
        case True
        then have "52 = nat (e + 52) + nat (- e)" using False by simp
        then have "(2::rat) ^ 52 = 2 ^ nat (e + 52) * 2 ^ nat (- e)" by (metis power_add)
        then show ?thesis using True False by (simp add: pow2_def field_simps)
      next
        case neg: False
        then have "nat (- e) = 52 + nat (- (e + 52))" using False by simp
        then have "(2::rat) ^ nat (- e) = 2 ^ 52 * 2 ^ nat (- (e + 52))" by (metis power_add)
        then show ?thesis using neg False by (simp add: pow2_def field_simps)
      qed
    qed
    from this[of ?q] show ?thesis by simp
  qed
  then have p: "pow2 ?q \<le> a / 2 ^ 52" using ilog2_lower[OF a] by (simp add: field_simps)
  have "rnd_abs a - a = (of_int (round_half_even (a / pow2 ?q)) - a / pow2 ?q) * pow2 ?q"
    using pow2_pos[of ?q] by (simp add: rnd_abs_def Let_def q left_diff_distrib)
  then have "\<bar>rnd_abs a - a\<bar> = \<bar>of_int (round_half_even (a / pow2 ?q)) - a / pow2 ?q\<bar> * pow2 ?q"
    using pow2_pos[of ?q] by (simp add: abs_mult)
  also have "\<dots> \<le> 1 / 2 * pow2 ?q" using round_half_even_close pow2_pos[of ?q] by (intro mult_right_mono) auto
  also have "\<dots> \<le> a / 2 ^ 53" using p by simp
  finally show ?thesis .
qed

lemma rnd_close:
  assumes "1 / 2 ^ 1000 \<le> a" "a \<le> 2 ^ 1000"
  obtains v where "rnd a = Fin v" "\<bar>v - a\<bar> \<le> a / 2 ^ 53" "0 < v"
proof -
  have "0 < (1::rat) / 2 ^ 1000" by simp
  then have a: "0 < a" using assms by linarith
  let ?v = "rnd_abs a"
  have c: "\<bar>?v - a\<bar> \<le> a / 2 ^ 53" by (rule rnd_abs_close[OF assms(1)])
  moreover have "a / 2 ^ 53 \<le> a / 2" using a by simp
  ultimately have "\<bar>?v - a\<bar> \<le> a / 2" by linarith
  then have v: "?v \<le> 2 * a" "0 < ?v" using a by linarith+
  have "?v < 2 ^ 1002" using v(1) assms(2) by (simp add: power_Suc[of 2 1001, simplified])
  then have "ilog2 ?v < 1024" using ilog2_max[of ?v 1002] by simp
  then have "rnd a = Fin ?v" using a by (simp add: rnd_def Let_def)
  then show ?thesis using that c v(2) by blast
qed

lemma rnd_neg: "0 < a \<Longrightarrow> rnd (- a) = num_neg (rnd a)"
  by (simp add: rnd_def Let_def)

section \<open>A chain of roundings\<close>

text \<open>\<open>x\<close> is within \<open>n\<close> roundings of \<open>a\<close>.\<close>

definition near :: "nat \<Rightarrow> rat \<Rightarrow> rat \<Rightarrow> bool" where
  "near n x a \<longleftrightarrow> 0 < a \<and> \<bar>x - a\<bar> \<le> a * of_nat n / 2 ^ 52"

lemma near_exact: "0 < a \<Longrightarrow> near 0 a a"
  by (simp add: near_def)

lemma near_bounds:
  assumes "near n x a" "n \<le> 10"
  shows "a / 2 \<le> x" "x \<le> 2 * a" "0 < x"
proof -
  have "of_nat n \<le> (10 :: rat)" using assms(2) by simp
  then have "a * of_nat n \<le> a * 10" using assms(1) by (intro mult_left_mono) (simp_all add: near_def)
  then have "a * of_nat n / 2 ^ 52 \<le> a * 10 / 2 ^ 52" by (rule divide_right_mono) simp
  then have "\<bar>x - a\<bar> \<le> a * 10 / 2 ^ 52" using assms(1) by (simp only: near_def) linarith
  moreover have "a * 10 / 2 ^ 52 \<le> a / 2" using assms(1) by (simp add: near_def)
  ultimately have "\<bar>x - a\<bar> \<le> a / 2" by linarith
  moreover have "0 < a" using assms(1) by (simp only: near_def)
  ultimately show "a / 2 \<le> x" "x \<le> 2 * a" "0 < x" by linarith+
qed

lemma near_scale: "near n x a \<Longrightarrow> 0 < c \<Longrightarrow> near n (x * c) (a * c)"
proof -
  assume n: "near n x a" and c: "0 < c"
  have "\<bar>x * c - a * c\<bar> = \<bar>x - a\<bar> * c" using c by (simp add: left_diff_distrib[symmetric] abs_mult)
  also have "\<dots> \<le> a * of_nat n / 2 ^ 52 * c" using n c by (intro mult_right_mono) (simp_all add: near_def)
  finally show ?thesis using n c by (simp add: near_def field_simps)
qed

lemma near_rnd:
  assumes "near n x a" "n \<le> 10" "1 / 2 ^ 999 \<le> a" "a \<le> 2 ^ 999"
  obtains v where "rnd x = Fin v" "near (Suc n) v a"
proof -
  note b = near_bounds[OF assms(1,2)]
  have lo: "1 / 2 ^ 1000 \<le> x" using b(1) assms(3) by simp
  have hi: "x \<le> 2 ^ 1000" using b(2) assms(4) by simp
  obtain v where v: "rnd x = Fin v" "\<bar>v - x\<bar> \<le> x / 2 ^ 53" by (rule rnd_close[OF lo hi])
  have "\<bar>v - x\<bar> \<le> a / 2 ^ 52" using v(2) b(2) by simp
  moreover have "\<bar>x - a\<bar> \<le> a * of_nat n / 2 ^ 52" "0 < a" using assms(1) by (simp_all only: near_def)
  ultimately have "\<bar>v - a\<bar> \<le> a / 2 ^ 52 + a * of_nat n / 2 ^ 52" by linarith
  also have "\<dots> = a * of_nat (Suc n) / 2 ^ 52" by (simp add: field_simps)
  finally have "near (Suc n) v a" using \<open>0 < a\<close> by (simp only: near_def)
  then show ?thesis using that v(1) by blast
qed

text \<open>Rounding to the nearest integer finds an integer that is not too large.\<close>

lemma near_round:
  assumes "near n x (of_int q)" "n \<le> 10" "q < 2 ^ 46"
  shows "num_round (Fin x) = Fin (of_int q)"
proof -
  have n10: "of_nat n \<le> (10 :: rat)" using assms(2) by simp
  have q: "0 < q" using assms(1) by (simp add: near_def)
  have "of_int q < (of_int (2 ^ 46) :: rat)" using assms(3) by (simp only: of_int_less_iff)
  then have "of_int q * of_nat n \<le> 2 ^ 46 * (10 :: rat)" using n10 q by (intro mult_mono) simp_all
  then have "of_int q * of_nat n / 2 ^ 52 \<le> (2 ^ 46 * 10 / 2 ^ 52 :: rat)" by (intro divide_right_mono) simp_all
  also have "\<dots> < 1 / 2" by simp
  finally have "of_int q * of_nat n / 2 ^ 52 < (1 / 2 :: rat)" .
  moreover have "\<bar>x - of_int q\<bar> \<le> of_int q * of_nat n / 2 ^ 52" using assms(1) unfolding near_def by blast
  ultimately have "\<bar>x - of_int q\<bar> < 1 / 2" by linarith
  then have "\<lfloor>x + 1 / 2\<rfloor> = q" by (intro floor_unique) linarith+
  then show ?thesis by simp
qed

end
