(* ===== verification/QuotaDisplay.thy ===== *)
theory QuotaDisplay
  imports JsRounding JsJson JsObjectFacts
begin

text \<open>
  Amounts as the console shows them: the formatting functions of web/src/helpers/render.jsx (numbers, quotas, currencies, effective
  group ratios) and web/src/helpers/quota.js, which turns a quota into the amount of an input field and back. The browser's storage is
  an argument. The signs of the yuan and of a currency are the code units 0xA5 and 0xA4. \<open>toFixed\<close> is called with at most a
  hundred digits.
\<close>

type_synonym storage = "string \<Rightarrow> string option"

section \<open>The settings\<close>

text \<open>\<open>localStorage.getItem(k) || d\<close> and \<open>parseFloat(localStorage.getItem(k))\<close>, which reads the text \<open>null\<close> of a missing value.\<close>

definition stored_or :: "storage \<Rightarrow> string \<Rightarrow> string \<Rightarrow> string" where
  "stored_or st k d = (case st k of None \<Rightarrow> d | Some t \<Rightarrow> if t = [] then d else t)"

definition stored_float :: "storage \<Rightarrow> string \<Rightarrow> jsnum" where
  "stored_float st k = parse_float (case st k of None \<Rightarrow> ''null'' | Some t \<Rightarrow> t)"

definition getQuotaDisplayType :: "storage \<Rightarrow> string" where
  "getQuotaDisplayType st = stored_or st ''quota_display_type'' ''USD''"

text \<open>The status object, where its text is there and can be parsed.\<close>

definition stored_status :: "storage \<Rightarrow> jsval option" where
  "stored_status st = (case st ''status'' of None \<Rightarrow> None | Some t \<Rightarrow> if t = [] then None else json_parse t)"

definition status_or :: "storage \<Rightarrow> string \<Rightarrow> jsval \<Rightarrow> jsval \<Rightarrow> jsval" where
  "status_or st k d missing = (case stored_status st of None \<Rightarrow> missing | Some s \<Rightarrow> js_or (jget k s) d)"

definition yen :: string where "yen = [CHR 0xA5]"
definition sol :: string where "sol = [CHR 0xA4]"

record currency_config =
  cc_symbol :: jsval
  cc_rate :: jsval
  cc_type :: string

definition getCurrencyConfig :: "storage \<Rightarrow> currency_config" where
  "getCurrencyConfig st =
     (let ty = getQuotaDisplayType st; one = JNum (Fin 1); dollar = JStr ''$'' in
      if ty = ''CNY'' then \<lparr>cc_symbol = JStr yen, cc_rate = status_or st ''usd_exchange_rate'' (JNum (Fin 7)) one, cc_type = ty\<rparr>
      else if ty = ''CUSTOM'' then \<lparr>cc_symbol = status_or st ''custom_currency_symbol'' (JStr sol) dollar,
        cc_rate = status_or st ''custom_currency_exchange_rate'' one one, cc_type = ty\<rparr>
      else \<lparr>cc_symbol = dollar, cc_rate = one, cc_type = ty\<rparr>)"

section \<open>Formatting\<close>

text \<open>\<open>renderNumber\<close> gives a text, or the number itself.\<close>

definition renderNumber :: "jsnum \<Rightarrow> jsval" where
  "renderNumber n =
     (if num_le (Fin 1000000000) n then JStr (to_fixed 1 (num_div n (Fin 1000000000)) @ ''B'')
      else if num_le (Fin 1000000) n then JStr (to_fixed 1 (num_div n (Fin 1000000)) @ ''M'')
      else if num_le (Fin 10000) n then JStr (to_fixed 1 (num_div n (Fin 1000)) @ ''k'')
      else JNum n)"

definition currency_symbol :: "storage \<Rightarrow> string \<Rightarrow> string" where
  "currency_symbol st ty = (if ty = ''CNY'' then yen
     else if ty = ''CUSTOM'' then js_string (status_or st ''custom_currency_symbol'' (JStr sol) (JStr sol)) else ''$'')"

definition renderQuotaNumberWithDigit :: "storage \<Rightarrow> jsval \<Rightarrow> nat \<Rightarrow> jsval" where
  "renderQuotaNumberWithDigit st v digits =
     (case v of
        JNum n \<Rightarrow>
          if n = NaN then JNum (Fin 0)
          else let ty = getQuotaDisplayType st; t = to_fixed digits n in
            if ty \<in> {''CNY'', ''USD'', ''CUSTOM''} then JStr (currency_symbol st ty @ t) else JStr t
      | _ \<Rightarrow> JNum (Fin 0))"

definition renderNumberWithPoint :: "jsnum option \<Rightarrow> string" where
  "renderNumberWithPoint v =
     (case v of
        None \<Rightarrow> []
      | Some n \<Rightarrow>
          let t = to_fixed 2 n in
          if num_le (Fin 100000) (num_of_string t) then
            (case index_of (CHR ''.'') t of
               None \<Rightarrow> take 2 t @ ''..'' @ drop (length t - 2) t
             | Some i \<Rightarrow> take 2 (take i t) @ ''..'' @ drop (i - 2) (take i t) @ drop i t)
          else t)"

text \<open>\<open>getQuotaPerUnit\<close> of render.jsx.\<close>

definition render_quotaPerUnit :: "storage \<Rightarrow> jsnum" where
  "render_quotaPerUnit st = stored_float st ''quota_per_unit''"

definition renderUnitWithQuota :: "storage \<Rightarrow> jsval \<Rightarrow> jsnum" where
  "renderUnitWithQuota st quota = num_mul (stored_float st ''quota_per_unit'') (parse_float (js_string quota))"

definition getQuotaWithUnit :: "storage \<Rightarrow> jsnum \<Rightarrow> nat \<Rightarrow> string" where
  "getQuotaWithUnit st quota digits = to_fixed digits (num_div quota (stored_float st ''quota_per_unit''))"

definition renderQuotaWithAmount :: "storage \<Rightarrow> jsval \<Rightarrow> jsval" where
  "renderQuotaWithAmount st amount =
     (let ty = getQuotaDisplayType st in
      if ty = ''TOKENS'' then renderNumber (renderUnitWithQuota st amount)
      else let n = js_number amount; t = (if is_finite n then to_fixed 2 n else js_string amount)
        in JStr (currency_symbol st ty @ t))"

definition convertUSDToCurrency :: "storage \<Rightarrow> jsnum \<Rightarrow> nat \<Rightarrow> string" where
  "convertUSDToCurrency st usd digits =
     (let c = getCurrencyConfig st in js_string (cc_symbol c) @ to_fixed digits (num_mul usd (js_number (cc_rate c))))"

text \<open>The value and the sign that \<open>renderQuota\<close> shows; \<open>Math.pow(10, -digits)\<close> is the double nearest to the power.\<close>

definition quota_value :: "storage \<Rightarrow> jsnum \<Rightarrow> jsnum" where
  "quota_value st quota =
     (let ty = getQuotaDisplayType st; usd = num_div quota (stored_float st ''quota_per_unit''); one = JNum (Fin 1) in
      if ty = ''CNY'' then num_mul usd (js_number (status_or st ''usd_exchange_rate'' one one))
      else if ty = ''CUSTOM'' then num_mul usd (js_number (status_or st ''custom_currency_exchange_rate'' one one))
      else usd)"

definition minValue :: "nat \<Rightarrow> jsnum" where
  "minValue digits = rnd (1 / of_int (10 ^ digits))"

definition renderQuota :: "storage \<Rightarrow> jsnum \<Rightarrow> nat \<Rightarrow> jsval" where
  "renderQuota st quota digits =
     (if getQuotaDisplayType st = ''TOKENS'' then renderNumber quota
      else let value = quota_value st quota; symbol = currency_symbol st (getQuotaDisplayType st); fixedResult = to_fixed digits value in
        if num_eq (parse_float fixedResult) (Fin 0) \<and> num_less (Fin 0) quota \<and> num_less (Fin 0) value
        then JStr (symbol @ to_fixed digits (minValue digits))
        else JStr (symbol @ fixedResult))"

section \<open>Group ratios and the display of prices\<close>

definition isValidGroupRatio :: "jsval \<Rightarrow> bool" where
  "isValidGroupRatio v = (case v of JNum n \<Rightarrow> is_finite n \<and> \<not> num_eq n (Fin (- 1)) | _ \<Rightarrow> False)"

datatype ratio_label = UserGroupRatio | GroupRatio

record effective_ratio =
  er_ratio :: jsval
  er_label :: ratio_label

definition getEffectiveRatio :: "jsval \<Rightarrow> jsval \<Rightarrow> effective_ratio" where
  "getEffectiveRatio groupRatio user_group_ratio =
     (if isValidGroupRatio user_group_ratio then \<lparr>er_ratio = user_group_ratio, er_label = UserGroupRatio\<rparr>
      else \<lparr>er_ratio = groupRatio, er_label = GroupRatio\<rparr>)"

datatype display_mode = ShowPrice | ShowRatio

definition no_price :: "jsval \<Rightarrow> bool" where
  "no_price modelPrice \<longleftrightarrow> strict_eq modelPrice (JNum (Fin (- 1)))"

definition resolveBillingDisplayMode :: "storage \<Rightarrow> jsval \<Rightarrow> jsval \<Rightarrow> display_mode" where
  "resolveBillingDisplayMode st displayMode modelPrice =
     (if \<not> no_price modelPrice then ShowPrice
      else if getQuotaDisplayType st = ''TOKENS'' then ShowRatio
      else if strict_eq displayMode (JStr ''ratio'') then ShowRatio else ShowPrice)"

definition isPriceDisplayMode :: "storage \<Rightarrow> jsval \<Rightarrow> jsval \<Rightarrow> bool" where
  "isPriceDisplayMode st displayMode modelPrice \<longleftrightarrow> resolveBillingDisplayMode st displayMode modelPrice = ShowPrice"

definition shouldUseRatioBillingProcess :: "storage \<Rightarrow> jsval \<Rightarrow> bool" where
  "shouldUseRatioBillingProcess st modelPrice \<longleftrightarrow> no_price modelPrice \<and> getQuotaDisplayType st = ''TOKENS''"

definition formatCompactDisplayPrice :: "storage \<Rightarrow> jsnum \<Rightarrow> nat \<Rightarrow> string" where
  "formatCompactDisplayPrice st usd digits =
     (let c = getCurrencyConfig st in
      js_string (cc_symbol c) @ num_str (num_of_string (to_fixed digits (num_mul usd (js_number (cc_rate c))))))"

definition formatRatioValue :: "jsval \<Rightarrow> nat \<Rightarrow> jsnum" where
  "formatRatioValue v digits = (let n = js_number v in if is_finite n then num_of_string (to_fixed digits n) else Fin 0)"

definition renderDisplayAmountFromUsd :: "storage \<Rightarrow> jsval \<Rightarrow> nat \<Rightarrow> jsval" where
  "renderDisplayAmountFromUsd st usd digits =
     renderQuotaWithAmount st (JNum (num_of_string (to_fixed digits (js_number (js_or usd (JNum (Fin 0)))))))"

definition formatBillingDisplayPrice :: "jsnum \<Rightarrow> jsnum \<Rightarrow> nat \<Rightarrow> string" where
  "formatBillingDisplayPrice usd rate digits = to_fixed digits (num_mul usd rate)"

section \<open>Quotas in input fields\<close>

text \<open>\<open>getQuotaPerUnit\<close> of quota.js, which falls back to 1.\<close>

definition getQuotaPerUnit :: "storage \<Rightarrow> jsnum" where
  "getQuotaPerUnit st = (let raw = parse_float (stored_or st ''quota_per_unit'' ''1'')
     in if is_finite raw \<and> num_less (Fin 0) raw then raw else Fin 1)"

text \<open>\<open>Number(v || 0)\<close> and \<open>rate || 1\<close>.\<close>

definition number_or_zero :: "jsval \<Rightarrow> jsnum" where
  "number_or_zero v = js_number (js_or v (JNum (Fin 0)))"

definition rate_or_one :: "currency_config \<Rightarrow> jsnum" where
  "rate_or_one c = js_number (js_or (cc_rate c) (JNum (Fin 1)))"

definition sign_num :: "jsnum \<Rightarrow> jsnum" where
  "sign_num n = Fin (of_int (num_sign n))"

definition quotaToDisplayAmount :: "storage \<Rightarrow> jsval \<Rightarrow> jsnum" where
  "quotaToDisplayAmount st quota =
     (let q = number_or_zero quota; c = getCurrencyConfig st in
      if \<not> is_finite q \<or> num_eq q (Fin 0) then Fin 0
      else if cc_type c = ''TOKENS'' then q
      else let usd = num_div (num_abs q) (getQuotaPerUnit st) in
        if cc_type c = ''USD'' then num_mul (sign_num q) usd
        else num_mul (num_mul (sign_num q) usd) (rate_or_one c))"

definition displayAmountToQuota :: "storage \<Rightarrow> jsval \<Rightarrow> jsnum" where
  "displayAmountToQuota st amount =
     (let v = number_or_zero amount; c = getCurrencyConfig st in
      if \<not> is_finite v \<or> num_eq v (Fin 0) then Fin 0
      else if cc_type c = ''TOKENS'' then num_round v
      else let usd = (if cc_type c = ''USD'' then num_abs v else num_div (num_abs v) (rate_or_one c))
        in num_mul (sign_num v) (num_round (num_mul usd (getQuotaPerUnit st))))"

end
