(* ===== verification/LogPrices.thy ===== *)
theory LogPrices
  imports QuotaDisplay TieredRoundTrip
begin

text \<open>
  What the usage log says about the price of a call, web/src/helpers/render.jsx: \<open>renderModelPriceSimple\<close> with its core, in its
  two output modes, and the tiered variant, which reads the tiers back from the billing expression that was applied. The sentences of the
  interface are constructors with the values that are filled in; \<open>atob\<close> is an argument, as the log's text is not the
  program's own.
\<close>

section \<open>Items\<close>

datatype log_item =
    GroupItem jsval ratio_label
  | ModelPriceItem string
  | InputItem string
  | CacheReadItem string
  | CacheCreate5mItem string
  | CacheCreate1hItem string
  | CacheCreateItem string
  | ImageItem string
  | PerCallItem
  | ModelRatioItem jsval
  | CacheRatioItem jsval
  | SplitRatioItem "jsval option" "jsval option"
  | CreateRatioItem jsval
  | ImageRatioItem jsval
  | OverrideItem
  | NoExprItem
  | TierPriceItem string string

text \<open>A list of segments, a summary joined by commas, a product of ratios, or the sentence with a fixed price; the flag is the note that the
  system prompt was overridden.\<close>

datatype log_summary = Segments "log_item list" | Summary "log_item list" bool | Product "log_item list" bool
  | FixedPrice string jsval ratio_label

record price_opts =
  po_modelRatio :: jsval
  po_modelPrice :: jsval
  po_groupRatio :: jsval
  po_userGroupRatio :: jsval
  po_cacheTokens :: jsval
  po_cacheRatio :: jsval
  po_createTokens :: jsval
  po_createRatio :: jsval
  po_create5mTokens :: jsval
  po_create5mRatio :: jsval
  po_create1hTokens :: jsval
  po_create1hRatio :: jsval
  po_image :: jsval
  po_imageRatio :: jsval
  po_override :: jsval
  po_displayMode :: jsval
  po_outputMode :: jsval

text \<open>\<open>v > 0\<close> and \<open>v !== 0\<close>.\<close>

definition positive :: "jsval \<Rightarrow> bool" where
  "positive v \<longleftrightarrow> num_less (Fin 0) (js_number v)"

definition not_zero :: "jsval \<Rightarrow> bool" where
  "not_zero v \<longleftrightarrow> \<not> strict_eq v (JNum (Fin 0))"

section \<open>The simple price\<close>

definition hasSplitCacheCreation :: "price_opts \<Rightarrow> bool" where
  "hasSplitCacheCreation po \<longleftrightarrow> positive (po_create5mTokens po) \<or> positive (po_create1hTokens po)"

definition shouldShowLegacyCacheCreation :: "price_opts \<Rightarrow> bool" where
  "shouldShowLegacyCacheCreation po \<longleftrightarrow> \<not> hasSplitCacheCreation po \<and> not_zero (po_createTokens po)"

definition input_price :: "price_opts \<Rightarrow> jsnum" where
  "input_price po = num_mul (js_number (po_modelRatio po)) (Fin 2)"

definition scaled_price :: "storage \<Rightarrow> price_opts \<Rightarrow> jsval \<Rightarrow> string" where
  "scaled_price st po ratio = formatCompactDisplayPrice st (num_mul (input_price po) (js_number ratio)) 6"

definition include_if :: "bool \<Rightarrow> 'a \<Rightarrow> 'a list" where
  "include_if b x = (if b then [x] else [])"

definition price_items :: "storage \<Rightarrow> price_opts \<Rightarrow> log_item list" where
  "price_items st po =
     [InputItem (formatCompactDisplayPrice st (input_price po) 6)]
     @ include_if (not_zero (po_cacheTokens po)) (CacheReadItem (scaled_price st po (po_cacheRatio po)))
     @ include_if (hasSplitCacheCreation po \<and> positive (po_create5mTokens po)) (CacheCreate5mItem (scaled_price st po (po_create5mRatio po)))
     @ include_if (hasSplitCacheCreation po \<and> positive (po_create1hTokens po)) (CacheCreate1hItem (scaled_price st po (po_create1hRatio po)))
     @ include_if (shouldShowLegacyCacheCreation po) (CacheCreateItem (scaled_price st po (po_createRatio po)))
     @ include_if (truthy (po_image po)) (ImageItem (scaled_price st po (po_imageRatio po)))"

definition split_item :: "price_opts \<Rightarrow> log_item" where
  "split_item po = SplitRatioItem (if positive (po_create5mTokens po) then Some (po_create5mRatio po) else None)
     (if positive (po_create1hTokens po) then Some (po_create1hRatio po) else None)"

definition ratio_items :: "price_opts \<Rightarrow> log_item list" where
  "ratio_items po =
     [ModelRatioItem (po_modelRatio po)]
     @ include_if (not_zero (po_cacheTokens po)) (CacheRatioItem (po_cacheRatio po))
     @ (if hasSplitCacheCreation po then [split_item po] else include_if (shouldShowLegacyCacheCreation po) (CreateRatioItem (po_createRatio po)))
     @ include_if (truthy (po_image po)) (ImageRatioItem (po_imageRatio po))"

definition group_item :: "jsval \<Rightarrow> jsval \<Rightarrow> log_item" where
  "group_item groupRatio userGroupRatio = (let e = getEffectiveRatio groupRatio userGroupRatio in GroupItem (er_ratio e) (er_label e))"

definition price_segments :: "storage \<Rightarrow> price_opts \<Rightarrow> log_item list" where
  "price_segments st po =
     [group_item (po_groupRatio po) (po_userGroupRatio po)]
     @ (if \<not> no_price (po_modelPrice po) then
          [if isPriceDisplayMode st (po_displayMode po) (po_modelPrice po)
           then ModelPriceItem (formatCompactDisplayPrice st (js_number (po_modelPrice po)) 6) else PerCallItem]
        else if isPriceDisplayMode st (po_displayMode po) (po_modelPrice po) then price_items st po else ratio_items po)
     @ include_if (truthy (po_override po)) OverrideItem"

text \<open>The text mode. With a price per call the note on the system prompt is not added.\<close>

definition summary_text :: "storage \<Rightarrow> price_opts \<Rightarrow> log_summary" where
  "summary_text st po =
     (let c = getCurrencyConfig st; g = group_item (po_groupRatio po) (po_userGroupRatio po); ov = truthy (po_override po) in
      if \<not> no_price (po_modelPrice po) then
        (let price = js_string (cc_symbol c) @ to_fixed 6 (num_mul (js_number (po_modelPrice po)) (js_number (cc_rate c))) in
         if isPriceDisplayMode st (po_displayMode po) (po_modelPrice po) then Summary [ModelPriceItem price, g] False
         else let e = getEffectiveRatio (po_groupRatio po) (po_userGroupRatio po) in FixedPrice price (er_ratio e) (er_label e))
      else if isPriceDisplayMode st (po_displayMode po) (po_modelPrice po) then Summary (price_items st po @ [g]) ov
      else Product (ratio_items po @ [g]) ov)"

definition renderPriceSimpleCore :: "storage \<Rightarrow> price_opts \<Rightarrow> log_summary" where
  "renderPriceSimpleCore st po =
     (if strict_eq (po_outputMode po) (JStr ''segments'') then Segments (price_segments st po) else summary_text st po)"

text \<open>A property of the log's options with the default of the destructuring pattern.\<close>

definition opt :: "string \<Rightarrow> jsval \<Rightarrow> jsval \<Rightarrow> jsval" where
  "opt k d opts = (let v = jget k opts in if v = JUndef then d else v)"

definition simple_opts :: "jsval \<Rightarrow> price_opts" where
  "simple_opts opts = (let z = JNum (Fin 0); one = JNum (Fin 1) in
     \<lparr>po_modelRatio = jget ''model_ratio'' opts, po_modelPrice = opt ''model_price'' (JNum (Fin (- 1))) opts,
      po_groupRatio = jget ''group_ratio'' opts, po_userGroupRatio = jget ''user_group_ratio'' opts,
      po_cacheTokens = opt ''cache_tokens'' z opts, po_cacheRatio = opt ''cache_ratio'' one opts,
      po_createTokens = opt ''cache_creation_tokens'' z opts, po_createRatio = opt ''cache_creation_ratio'' one opts,
      po_create5mTokens = opt ''cache_creation_tokens_5m'' z opts, po_create5mRatio = opt ''cache_creation_ratio_5m'' one opts,
      po_create1hTokens = opt ''cache_creation_tokens_1h'' z opts, po_create1hRatio = opt ''cache_creation_ratio_1h'' one opts,
      po_image = opt ''image'' (JBool False) opts, po_imageRatio = opt ''image_ratio'' one opts,
      po_override = opt ''is_system_prompt_overwritten'' (JBool False) opts,
      po_displayMode = opt ''displayMode'' (JStr ''price'') opts, po_outputMode = opt ''outputMode'' (JStr ''text'') opts\<rparr>)"

definition renderModelPriceSimple :: "storage \<Rightarrow> jsval \<Rightarrow> log_summary" where
  "renderModelPriceSimple st opts = renderPriceSimpleCore st (simple_opts opts)"

section \<open>Tiers\<close>

text \<open>\<open>/^v(\d+):([\s\S]*)$/\<close>\<close>

definition re_log_version :: matcher where
  "re_log_version = r_seqs [r_bol, r_lit ''v'', r_group 1 (r_plus r_digit), r_lit '':'', r_group 2 (r_star (r_cls (\<lambda>_. True))), r_eol]"

definition stripExprVersion :: "string \<Rightarrow> jsnum \<times> string" where
  "stripExprVersion exprStr =
     (if exprStr = [] then (Fin 1, [])
      else case rx_match re_log_version exprStr of
        Some m \<Rightarrow> (num_of_string (cap m 1), cap m 2)
      | None \<Rightarrow> (Fin 1, exprStr))"

record log_tier =
  lt_prices :: "(string \<times> jsnum) list"
  lt_label :: string
  lt_conditions :: "tcond list"

text \<open>The first coefficient of a variable counts; \<open>coeffs[v] || 0\<close>.\<close>

definition body_coeffs :: "string \<Rightarrow> (string \<times> jsnum) list" where
  "body_coeffs body = map (\<lambda>m. (cap m 1, num_of_string (cap m 2))) (rx_all BILLING_VAR_REGEX [] body)"

definition truthy_or_zero :: "jsnum \<Rightarrow> jsnum" where
  "truthy_or_zero n = (if num_truthy n then n else Fin 0)"

definition parseTierBody :: "string \<Rightarrow> (string \<times> jsnum) list" where
  "parseTierBody body = map (\<lambda>(v, f). (f, case map_of (body_coeffs body) v of Some n \<Rightarrow> truthy_or_zero n | None \<Rightarrow> Fin 0)) BILLING_VAR_KEY_TO_FIELD"

definition cls_not_paren :: "char \<Rightarrow> bool" where
  "cls_not_paren c \<longleftrightarrow> c \<noteq> CHR '')''"

definition re_log_tier :: matcher where
  "re_log_tier = r_seqs ([r_opt (r_seqs re_cond_prefix)] @ re_label 2 @ [r_group 3 (r_plus (r_cls cls_not_paren)), r_lit '')''])"

definition log_tier_of :: "(nat \<rightharpoonup> string) \<Rightarrow> log_tier" where
  "log_tier_of m = \<lparr>lt_prices = parseTierBody (cap m 3), lt_label = cap m 2, lt_conditions = parse_conditions (cap m 1)\<rparr>"

definition parseTiersFromExpr :: "string \<Rightarrow> log_tier list" where
  "parseTiersFromExpr exprStr = (if exprStr = [] then [] else map log_tier_of (rx_all re_log_tier [] (snd (stripExprVersion exprStr))))"

text \<open>The tier that was applied, or the first.\<close>

definition matched_tier :: "jsval \<Rightarrow> log_tier list \<Rightarrow> log_tier option" where
  "matched_tier matched tiers =
     (case find (\<lambda>t. JStr (lt_label t) = matched) tiers of
        Some t \<Rightarrow> Some t
      | None \<Rightarrow> (case tiers of [] \<Rightarrow> None | t # _ \<Rightarrow> Some t))"

definition hasAnyCacheTokens :: "jsval \<Rightarrow> bool" where
  "hasAnyCacheTokens opts \<longleftrightarrow> list_ex (\<lambda>k. positive (opt k (JNum (Fin 0)) opts))
     [''cache_tokens'', ''cache_creation_tokens'', ''cache_creation_tokens_5m'', ''cache_creation_tokens_1h'']"

text \<open>The prices of the tier that are shown: those of the cache only with cache tokens, and only positive ones.\<close>

definition shown_prices :: "bool \<Rightarrow> log_tier \<Rightarrow> (string \<times> jsnum) list" where
  "shown_prices cached t =
     List.map_filter (\<lambda>v. case bv_field v of
         None \<Rightarrow> None
       | Some f \<Rightarrow> let n = (case map_of (lt_prices t) f of Some n \<Rightarrow> n | None \<Rightarrow> NaN) in if num_less (Fin 0) n then Some (f, n) else None)
       (filter (\<lambda>v. bv_group v \<noteq> Some ''cache'' \<or> cached) BILLING_PRICING_VARS)"

definition expr_of :: "(jsval \<Rightarrow> string option) \<Rightarrow> jsval \<Rightarrow> string" where
  "expr_of atob opts = (case atob (jget ''expr_b64'' opts) of Some t \<Rightarrow> t | None \<Rightarrow> [])"

definition renderTieredModelPriceSimple :: "storage \<Rightarrow> (jsval \<Rightarrow> string option) \<Rightarrow> jsval \<Rightarrow> log_item list" where
  "renderTieredModelPriceSimple st atob opts =
     (let tier = matched_tier (jget ''matched_tier'' opts) (parseTiersFromExpr (expr_of atob opts)) in
      if strict_eq (opt ''outputMode'' (JStr ''segments'') opts) (JStr ''segments'') then
        [group_item (jget ''group_ratio'' opts) (jget ''user_group_ratio'' opts)]
        @ (case tier of
             None \<Rightarrow> [NoExprItem]
           | Some t \<Rightarrow>
               if isPriceDisplayMode st (opt ''displayMode'' (JStr ''price'') opts) (JNum (Fin (- 1)))
               then map (\<lambda>(f, n). TierPriceItem f (formatCompactDisplayPrice st n 6)) (shown_prices (hasAnyCacheTokens opts) t)
               else [])
      else [])"

text \<open>\<open>renderTieredModelPrice\<close>: the sentence for a missing or unreadable expression, or the tier's name with its prices.\<close>

datatype tier_article = ExprMissing | ExprUnreadable | TierArticle string jsval "(string \<times> string) list"

definition renderTieredModelPrice :: "storage \<Rightarrow> (jsval \<Rightarrow> string option) \<Rightarrow> jsval \<Rightarrow> tier_article" where
  "renderTieredModelPrice st atob opts =
     (if \<not> truthy (jget ''expr_b64'' opts) then ExprMissing
      else case matched_tier (jget ''matched_tier'' opts) (parseTiersFromExpr (expr_of atob opts)) of
        None \<Rightarrow> ExprUnreadable
      | Some t \<Rightarrow>
          let c = getCurrencyConfig st; name = js_or (jget ''matched_tier'' opts) (JStr (lt_label t)) in
          TierArticle (js_string name) (cc_symbol c)
            (map (\<lambda>(f, n). (f, formatBillingDisplayPrice n (js_number (cc_rate c)) 6)) (shown_prices (hasAnyCacheTokens opts) t)))"

end
