(* ===== verification/LogPricesFacts.thy ===== *)
theory LogPricesFacts
  imports LogPrices
begin

text \<open>
  The usage log shows the prices that the tiered editor printed: its reader of billing expressions, which is more liberal than the editor's,
  gives back the tiers with their labels, conditions and every price. And the two output modes of the simple price list the same items.
\<close>

section \<open>One coefficient\<close>

abbreviation re_coeff :: matcher where "re_coeff \<equiv> r_seqs [r_ws, r_lit ''*'', r_ws, r_group 2 r_costnum]"

lemma coeff_fails: "c \<noteq> CHR ''*'' \<Longrightarrow> \<not> js_ws c \<Longrightarrow> re_coeff (b, c # z, g) = []"
  by (simp add: r_seq_def)

lemma coeff_first:
  assumes "price_num n" "z = [] \<or> \<not> cls_num (hd z)"
  shows "first re_coeff (b, '' * '' @ num_str n @ z, g) (rev ('' * '' @ num_str n) @ b, z, (2, num_str n) # g)"
proof -
  have "first (r_seqs (re_term [] 2)) (b, term_text [] n @ z, g) (rev (term_text [] n) @ b, z, (2, num_str n) # g)"
    by (rule first_term[OF assms])
  moreover have "r_seq (r_lit []) m = m" for m by (rule ext) (simp add: r_seq_def)
  ultimately show ?thesis by (simp add: re_term_def term_text_def)
qed

lemma group_alts:
  "r_seq (r_group i (r_alts [])) k s = []"
  "r_seq (r_group i (r_alts (m # ms))) k s = r_seq (r_group i m) k s @ r_seq (r_group i (r_alts ms)) k s"
  by (cases s; simp add: r_seq_def r_alt_def)+

lemma group_lit:
  "r_seq (r_group i (r_lit w)) k (b, r, g) = (if prefix w r then k (rev w @ b, drop (length w) r, (i, w) # g) else [])"
  by (auto simp: r_seq_def r_lit_cases prefix_def)

definition price_vars :: "string list" where
  "price_vars = [''p'', ''c'', ''cr'', ''cc'', ''cc1h'', ''img'', ''img_o'', ''ai'', ''ao'']"

lemma regex_eq: "BILLING_VAR_REGEX s = r_seq r_wordb (r_seq (r_group 1 (r_alts (map r_lit price_vars))) re_coeff) s"
proof -
  have "map (\<lambda>v. r_lit (bv_key v)) BILLING_PRICING_VARS = map r_lit price_vars"
    by (simp add: BILLING_PRICING_VARS_def BILLING_VARS_def bvar_def price_vars_def)
  then show ?thesis unfolding BILLING_VAR_REGEX_def by simp
qed

lemma alts_first:
  assumes v: "v \<in> set price_vars" and fails: "\<And>c b z g. c \<noteq> CHR ''*'' \<Longrightarrow> \<not> js_ws c \<Longrightarrow> k (b, c # z, g) = []"
    and hit: "first k (rev v @ b, CHR '' '' # y, [(1, v)]) u"
  shows "first (r_seq (r_group 1 (r_alts (map r_lit price_vars))) k) (b, v @ CHR '' '' # y, []) u"
proof -
  have f: "k (b', c # z', g') = []" if "c \<in> {CHR ''r'', CHR ''c'', CHR ''1'', CHR ''_''}" for c b' z' g'
    using that by (intro fails) (auto simp: js_ws_def)
  have s: "r_seq (r_group 1 (r_alts (map r_lit ws))) k (b, r, []) =
      concat (map (\<lambda>w. if prefix w r then k (rev w @ b, drop (length w) r, [(1, w)]) else []) ws)" for ws r
    by (induction ws) (simp_all only: list.map group_alts group_lit concat.simps)
  have "v = ''p'' \<or> v = ''c'' \<or> v = ''cr'' \<or> v = ''cc'' \<or> v = ''cc1h'' \<or> v = ''img'' \<or> v = ''img_o'' \<or> v = ''ai'' \<or> v = ''ao''"
    using v by (simp add: price_vars_def)
  then have "\<exists>ts. concat (map (\<lambda>w. if prefix w (v @ CHR '' '' # y) then k (rev w @ b, drop (length w) (v @ CHR '' '' # y), [(1, w)]) else []) price_vars) = u # ts"
    using hit by (elim disjE) (simp_all add: price_vars_def f first_def)
  then show ?thesis by (simp only: first_def s)
qed

lemma var_first:
  assumes "v \<in> set price_vars" "price_num n" "z = [] \<or> \<not> cls_num (hd z)" "b = [] \<or> \<not> word_char (hd b)"
  shows "first BILLING_VAR_REGEX (b, term_text v n @ z, []) (rev (term_text v n) @ b, z, [(2, num_str n), (1, v)])"
proof -
  have s: "BILLING_VAR_REGEX (b, term_text v n @ z, []) = r_seq (r_group 1 (r_alts (map r_lit price_vars))) re_coeff (b, v @ '' * '' @ num_str n @ z, [])"
  proof -
    have "word_char (hd (v @ '' * ''))" using assms(1) by (auto simp: price_vars_def word_char_def)
    then have "r_wordb (b, v @ '' * '' @ num_str n @ z, []) = [(b, v @ '' * '' @ num_str n @ z, [])]"
      using assms(1,4) by (cases b) (auto simp: price_vars_def)
    then show ?thesis by (simp add: regex_eq term_text_def r_seq_single)
  qed
  have "first re_coeff (rev v @ b, '' * '' @ num_str n @ z, [(1, v)]) (rev ('' * '' @ num_str n) @ rev v @ b, z, [(2, num_str n), (1, v)])"
    by (rule coeff_first[OF assms(2,3)])
  then have "first (r_seq (r_group 1 (r_alts (map r_lit price_vars))) re_coeff) (b, v @ CHR '' '' # ''* '' @ num_str n @ z, [])
      (rev ('' * '' @ num_str n) @ rev v @ b, z, [(2, num_str n), (1, v)])"
    by (intro alts_first[OF assms(1)]) (simp_all add: coeff_fails del: r_seqs.simps)
  then show ?thesis unfolding first_def s by (simp only: append.simps rev_append append_assoc term_text_def)
qed

lemma regex_other: "c \<notin> {CHR ''p'', CHR ''c'', CHR ''i'', CHR ''a''} \<Longrightarrow> BILLING_VAR_REGEX (b, c # z, g) = []"
  by (auto simp: regex_eq price_vars_def r_seq_def r_alt_def)

lemma regex_nil: "BILLING_VAR_REGEX (b, [], g) = []"
  by (auto simp: regex_eq price_vars_def r_seq_def r_alt_def)

section \<open>The body of a tier\<close>

definition terms_text :: "(string \<times> jsnum) list \<Rightarrow> string" where
  "terms_text ts = join '' + '' (map (\<lambda>(v, n). term_text v n) ts)"

lemma regex_sep: "exec_from BILLING_VAR_REGEX b ('' + '' @ s) = exec_from BILLING_VAR_REGEX (rev '' + '' @ b) s"
  by (simp add: regex_other)

lemma coeffs_terms:
  assumes "list_all (\<lambda>(v, n). v \<in> set price_vars \<and> price_num n) ts" "ts \<noteq> []" "pre = [] \<and> b = [] \<or> pre = '' + ''"
  shows "map (\<lambda>m. (cap m 1, cap m 2)) (rx_all BILLING_VAR_REGEX b (pre @ terms_text ts)) = map (\<lambda>(v, n). (v, num_str n)) ts"
  using assms
proof (induction ts arbitrary: b pre)
  case (Cons t ts)
  obtain v n where t: "t = (v, n)" by force
  have ok: "v \<in> set price_vars" "price_num n" using Cons.prems t by simp_all
  let ?z = "if ts = [] then [] else '' + '' @ terms_text ts"
  have tt: "terms_text (t # ts) = term_text v n @ ?z" by (cases ts) (simp_all add: terms_text_def t)
  have z: "?z = [] \<or> \<not> cls_num (hd ?z)" by (simp add: cls_num_def is_digit_def)
  have bd: "rev pre @ b = [] \<or> \<not> word_char (hd (rev pre @ b))" using Cons.prems(3) by (auto simp: word_char_def)
  have ex: "exec_from BILLING_VAR_REGEX b (pre @ terms_text (t # ts)) = exec_from BILLING_VAR_REGEX (rev pre @ b) (terms_text (t # ts))"
    using Cons.prems(3) regex_sep by auto
  have e: "exec_from BILLING_VAR_REGEX b (pre @ terms_text (t # ts)) =
      Some (rev pre @ b, rev (term_text v n) @ rev pre @ b, ?z, [(2, num_str n), (1, v)])"
    by (subst ex, unfold tt) (rule exec_first[OF var_first[OF ok z bd]])
  have len: "length ?z < length (pre @ terms_text (t # ts))" unfolding tt by (simp add: term_text_def)
  have rest: "map (\<lambda>m. (cap m 1, cap m 2)) (rx_all BILLING_VAR_REGEX b' ?z) = map (\<lambda>(v, n). (v, num_str n)) ts" for b'
  proof (cases ts)
    case Nil
    then show ?thesis by (simp add: rx_all_None regex_nil)
  next
    case (Cons u us)
    then show ?thesis using Cons.IH[of "'' + ''" b'] Cons.prems by simp
  qed
  show ?case unfolding rx_all_Some[OF e len] using rest by (simp add: t cap_def)
qed simp

definition tier_terms :: "vtier \<Rightarrow> (string \<times> jsnum) list" where
  "tier_terms t = (''p'', num_or_zero (cost t ''input_unit_cost'')) # (''c'', num_or_zero (cost t ''output_unit_cost''))
     # List.map_filter (\<lambda>(f, v). let n = num_or_zero (cost t f) in if n = Fin 0 then None else Some (v, n)) BILLING_CACHE_VAR_MAP"

lemma map_map_filter: "map g (List.map_filter f xs) = List.map_filter (map_option g \<circ> f) xs"
  by (induction xs) (auto simp: List.map_filter_simps split: option.split)

lemma body_terms: "buildTierBodyExpr t = terms_text (tier_terms t)"
proof -
  have "map (\<lambda>(v, n). term_text v n) (List.map_filter (\<lambda>(f, v). let n = num_or_zero (cost t f) in if n = Fin 0 then None else Some (v, n)) vs) =
      extra_terms t vs" for vs
    unfolding map_map_filter extra_terms_def by (intro arg_cong[of _ _ "\<lambda>g. List.map_filter g vs"]) (auto simp: fun_eq_iff Let_def)
  then show ?thesis by (simp add: buildTierBodyExpr_def terms_text_def tier_terms_def)
qed

lemma tier_terms_ok: "prices_ok t \<Longrightarrow> list_all (\<lambda>(v, n). v \<in> set price_vars \<and> price_num n) (tier_terms t)"
  by (simp add: tier_terms_def prices_ok_def cost_fields_def cache_vars List.map_filter_simps Let_def price_vars_def)

lemma coeffs_body:
  assumes "prices_ok t"
  shows "body_coeffs (buildTierBodyExpr t) = tier_terms t"
proof -
  have "body_coeffs (buildTierBodyExpr t) = map (\<lambda>(v, x). (v, num_of_string x)) (map (\<lambda>m. (cap m 1, cap m 2)) (rx_all BILLING_VAR_REGEX [] ([] @ terms_text (tier_terms t))))"
    by (simp add: body_coeffs_def body_terms comp_def)
  also have "\<dots> = map (\<lambda>(v, x). (v, num_of_string x)) (map (\<lambda>(v, n). (v, num_str n)) (tier_terms t))"
    using coeffs_terms[OF tier_terms_ok[OF assms], of "[]" "[]"] by (simp add: tier_terms_def)
  also have "\<dots> = tier_terms t"
    using tier_terms_ok[OF assms] by (auto simp: list_all_iff num_text_def intro!: map_idI)
  finally show ?thesis .
qed

text \<open>The prices of a tier by the names the log uses.\<close>

definition tier_prices :: "vtier \<Rightarrow> (string \<times> jsnum) list" where
  "tier_prices t = map (\<lambda>v. (the (bv_field v), num_or_zero (cost t (the (bv_tierField v))))) BILLING_PRICING_VARS"

lemma num_or_zero_again: "truthy_or_zero (num_or_zero v) = num_or_zero v"
  by (simp add: truthy_or_zero_def num_or_zero_def Let_def)

lemma body_prices:
  assumes "prices_ok t"
  shows "parseTierBody (buildTierBodyExpr t) = tier_prices t"
proof -
  have p: "BILLING_PRICING_VARS = [
     bvar ''p'' ''inputPrice'' ''input_unit_cost'' ''input'' [], bvar ''c'' ''outputPrice'' ''output_unit_cost'' ''output'' [],
     bvar ''cr'' ''cacheReadPrice'' ''cache_read_unit_cost'' ''input'' ''cache'',
     bvar ''cc'' ''cacheCreatePrice'' ''cache_create_unit_cost'' ''input'' ''cache'',
     bvar ''cc1h'' ''cacheCreate1hPrice'' ''cache_create_1h_unit_cost'' ''input'' ''cache'',
     bvar ''img'' ''imagePrice'' ''image_unit_cost'' ''input'' ''media'',
     bvar ''img_o'' ''imageOutputPrice'' ''image_output_unit_cost'' ''output'' ''media'',
     bvar ''ai'' ''audioInputPrice'' ''audio_input_unit_cost'' ''input'' ''media'',
     bvar ''ao'' ''audioOutputPrice'' ''audio_output_unit_cost'' ''output'' ''media'']"
    by (simp add: BILLING_PRICING_VARS_def BILLING_VARS_def bvar_def)
  have k: "BILLING_VAR_KEY_TO_FIELD = [(''p'', ''inputPrice''), (''c'', ''outputPrice''), (''cr'', ''cacheReadPrice''), (''cc'', ''cacheCreatePrice''),
     (''cc1h'', ''cacheCreate1hPrice''), (''img'', ''imagePrice''), (''img_o'', ''imageOutputPrice''), (''ai'', ''audioInputPrice''),
     (''ao'', ''audioOutputPrice'')]"
    by code_simp
  have "map_of (tier_terms t) v = (if v = ''p'' then Some (num_or_zero (cost t ''input_unit_cost''))
      else if v = ''c'' then Some (num_or_zero (cost t ''output_unit_cost''))
      else map_of (List.map_filter (\<lambda>(f, v). let n = num_or_zero (cost t f) in if n = Fin 0 then None else Some (v, n)) BILLING_CACHE_VAR_MAP) v)" for v
    by (simp add: tier_terms_def)
  note look = this
  have extra: "(case map_of (List.map_filter (\<lambda>(f, v). let n = num_or_zero (cost t f) in if n = Fin 0 then None else Some (v, n)) vs) v of
      Some n \<Rightarrow> truthy_or_zero n | None \<Rightarrow> Fin 0) = num_or_zero (cost t f)" if "(f, v) \<in> set vs" "distinct (map snd vs)" for f v vs
    using that
  proof (induction vs)
    case (Cons x vs)
    obtain g w where x: "x = (g, w)" by force
    have no: "map_of (List.map_filter (\<lambda>(f, v). let n = num_or_zero (cost t f) in if n = Fin 0 then None else Some (v, n)) vs) w = None"
      if "w \<notin> snd ` set vs" for w
      using that by (induction vs) (auto simp: List.map_filter_simps Let_def)
    show ?case using Cons no[of w] by (auto simp: x List.map_filter_simps Let_def num_or_zero_again image_iff)
  qed simp
  have d: "distinct (map snd BILLING_CACHE_VAR_MAP)" by (simp add: cache_vars)
  note e = extra[OF _ d]
  show ?thesis
    unfolding parseTierBody_def coeffs_body[OF assms] look tier_prices_def p k
    by (simp add: bvar_def num_or_zero_again e cache_vars[THEN arg_cong[of _ _ set]])
qed

section \<open>Whole expressions\<close>

definition log_caps :: "vtier \<Rightarrow> (nat \<times> string) list" where
  "log_caps t = [(3, buildTierBodyExpr t), (2, t_label t)] @ (if t_conditions t = [] then [] else [(1, buildConditionStr (t_conditions t))])"

lemma cost_no_paren: "cls_num c \<Longrightarrow> cls_not_paren c"
  by (auto simp: cls_num_def cls_not_paren_def is_digit_def)

lemma body_no_paren:
  assumes "prices_ok t"
  shows "list_all cls_not_paren (buildTierBodyExpr t)"
proof -
  have sep: "cls_not_paren (CHR '' '')" "cls_not_paren (CHR ''+'')" by (simp_all add: cls_not_paren_def)
  have "list_all cls_not_paren (terms_text ts)" if "list_all (\<lambda>(v, n). v \<in> set price_vars \<and> price_num n) ts" for ts
    using that
  proof (induction ts)
    case (Cons x ts)
    obtain v n where x: "x = (v, n)" by force
    have "list_all cls_not_paren (num_str n)" using Cons.prems x cost_no_paren by (auto simp: num_text_def list_all_iff)
    moreover have "list_all cls_not_paren v" using Cons.prems x by (auto simp: price_vars_def cls_not_paren_def)
    ultimately have "list_all cls_not_paren (term_text v n)" by (simp add: term_text_def cls_not_paren_def)
    then show ?case using Cons x by (cases ts) (simp_all add: terms_text_def sep)
  qed (simp add: terms_text_def)
  then show ?thesis unfolding body_terms using tier_terms_ok[OF assms] by blast
qed

lemma re_log_tier_eq: "re_log_tier = r_seqs ([r_opt (r_seqs re_cond_prefix)] @ (re_label 2 @ [r_group 3 (r_plus (r_cls cls_not_paren)), r_lit '')'']))"
  by (simp add: re_log_tier_def)

lemma first_log_tier:
  assumes "tier_ok t"
  shows "first (r_seqs (re_label 2 @ [r_group 3 (r_plus (r_cls cls_not_paren)), r_lit '')''])) (b, tier_text (t_label t) t @ z, g)
     (rev (tier_text (t_label t) t) @ b, z, (3, buildTierBodyExpr t) # (2, t_label t) # g)"
proof -
  let ?l = "t_label t"
  have ok: "prices_ok t" "quote_free ?l" using assms by (simp_all add: tier_ok_def)
  obtain r where r: "buildTierBodyExpr t = CHR ''p'' # r" using body_start by blast
  have 1: "first (r_seqs (re_label 2)) (b, ''tier('' @ [CHR 0x22] @ ?l @ [CHR 0x22] @ '', '' @ (buildTierBodyExpr t @ '')'' @ z), g)
     (rev (''tier('' @ [CHR 0x22] @ ?l @ [CHR 0x22] @ '', '') @ b, buildTierBodyExpr t @ '')'' @ z, (2, ?l) # g)"
    using r by (intro first_label ok) (simp_all add: js_ws_def)
  have 2: "first (r_seqs [r_lit '')'']) (b', '')'' @ z, g') (rev '')'' @ b', z, g')" for b' g'
    by (rule first_seqs_Cons[OF first_lit]) (simp only: first_seqs_Nil)
  have 3: "first (r_group 3 (r_plus (r_cls cls_not_paren))) (b', buildTierBodyExpr t @ '')'' @ z, g')
      (rev (buildTierBodyExpr t) @ b', '')'' @ z, (3, buildTierBodyExpr t) # g')" for b' g'
    using r body_no_paren[OF ok(1)] by (intro first_group_plus) (simp_all add: cls_not_paren_def)
  have 4: "first (r_seqs [r_group 3 (r_plus (r_cls cls_not_paren)), r_lit '')'']) (b', buildTierBodyExpr t @ '')'' @ z, g')
      (rev '')'' @ rev (buildTierBodyExpr t) @ b', z, (3, buildTierBodyExpr t) # g')" for b' g'
    by (rule first_seqs_Cons[OF 3 2])
  show ?thesis using first_seqs_append[OF 1 4] by (simp add: tier_text_def del: r_seqs.simps)
qed

lemma first_log_part: "tier_ok t \<Longrightarrow> first re_log_tier (b, part t @ z, []) (rev (part t) @ b, z, log_caps t)"
  unfolding re_log_tier_eq log_caps_def
  using first_log_tier by (intro first_prefixed) (simp_all add: tier_ok_def del: r_seqs.simps)

lemma re_log_tier_other: "c \<notin> {CHR ''p'', CHR ''c'', CHR ''l'', CHR ''t''} \<Longrightarrow> re_log_tier (b, c # z, g) = []"
  unfolding re_log_tier_eq re_cond_prefix_def re_label_def by (auto simp: r_seq_def r_opt_def cond_group_other)

lemma re_log_tier_Nil: "re_log_tier (b, [], g) = []"
  unfolding re_log_tier_eq re_cond_prefix_def re_label_def
  by (simp add: r_seq_def r_opt_def re_cond_group_def re_cond_atom_def r_alt_def)

lemma log_zero_tail: "exec_from re_log_tier b '' : p * 0 + c * 0'' = None"
  unfolding re_log_tier_eq re_cond_prefix_def re_label_def
  by (simp add: r_seq_def r_opt_def re_cond_group_def re_cond_atom_def r_alt_def js_ws_def)

interpretation log_tiers: tier_scan re_log_tier log_caps
  by unfold_locales (erule first_log_part | erule re_log_tier_other | rule re_log_tier_Nil | rule log_zero_tail)+

text \<open>The tier of the log for a tier of the editor.\<close>

definition shown_tier :: "vtier \<Rightarrow> log_tier" where
  "shown_tier t = \<lparr>lt_prices = tier_prices t, lt_label = t_label t, lt_conditions = t_conditions t\<rparr>"

lemma log_tier_caps: "tier_ok t \<Longrightarrow> log_tier_of (map_of (log_caps t)) = shown_tier t"
  using body_prices[of t] parse_conditions_text[of "t_conditions t"] parse_conditions_text[of "[]"]
  by (simp add: log_tier_of_def shown_tier_def log_caps_def cap_def tier_ok_def buildConditionStr_def)

lemma not_log_version: "c \<noteq> CHR ''v'' \<Longrightarrow> rx_match re_log_version (c # s) = None"
  unfolding re_log_version_def rx_match_bol by (auto simp: r_seq_def)

lemma generated_start:
  assumes "config_ok ts"
  shows "\<exists>c s. generateExprFromVisualConfig lbl (Some ts) = c # s \<and> c \<noteq> CHR ''v''"
proof -
  obtain t us where ts: "ts = t # us" using assms by (cases ts) (auto simp: config_ok_def)
  then have "tier_ok t" using assms by (simp add: config_ok_def)
  then obtain c s where c: "part t = c # s" "c \<noteq> CHR ''v''" using part_hd by blast
  have "\<exists>y. generateExprFromVisualConfig lbl (Some ts) = part t @ y"
  proof (cases us)
    case Nil
    then show ?thesis using generate_single[OF \<open>tier_ok t\<close>] ts by simp
  next
    case (Cons u vs)
    then show ?thesis using generate_multi[OF assms, of lbl] ts by simp
  qed
  then show ?thesis using c by auto
qed

text \<open>C26. The log's reader of billing expressions understands what the tiered editor writes: for every configuration that the form can
  hold, the tiers of the printed expression come back in order, with their labels and conditions and with all nine prices as they are set
  in the form, where a price that was left out reads as zero.\<close>

theorem log_shows_editor_tiers:
  assumes "config_ok ts"
  shows "parseTiersFromExpr (generateExprFromVisualConfig lbl (Some ts)) = map shown_tier ts"
proof -
  obtain c s where c: "generateExprFromVisualConfig lbl (Some ts) = c # s" "c \<noteq> CHR ''v''" using generated_start[OF assms] by blast
  have "list_all tier_ok ts" using assms by (simp add: config_ok_def)
  then have "map log_tier_of (map (\<lambda>t. map_of (log_caps t)) ts) = map shown_tier ts" by (auto simp: log_tier_caps list_all_iff)
  then show ?thesis
    using log_tiers.scan_generated[OF assms, of lbl] not_log_version[OF c(2), of s]
    by (simp add: parseTiersFromExpr_def stripExprVersion_def c(1))
qed

definition log_sample :: "vtier list" where
  "log_sample = [\<lparr>t_conditions = [\<lparr>tc_var = ''len'', tc_op = ''<'', tc_value = JNum (Fin 200)\<rparr>],
      t_costs = [(''input_unit_cost'', JNum (Fin 3)), (''output_unit_cost'', JNum (Fin 15)), (''cache_read_unit_cost'', JNum (Fin (1 / 4)))],
      t_label = ''small'', t_cache_mode = None\<rparr>,
     \<lparr>t_conditions = [], t_costs = [(''input_unit_cost'', JNum (Fin 6))], t_label = ''large'', t_cache_mode = None\<rparr>]"

theorem log_shows_editor_tiers_witness:
  "map lt_label (parseTiersFromExpr (generateExprFromVisualConfig (\<lambda>_. ''tier'') (Some log_sample))) = [''small'', ''large'']"
proof -
  have "config_ok log_sample" by code_simp
  from log_shows_editor_tiers[OF this] show ?thesis by (simp add: shown_tier_def log_sample_def)
qed

section \<open>The two modes of the simple price\<close>

text \<open>The segments and the text of a price list the same items, in the same order but for the group ratio, which opens the one and closes
  the other; both note an overridden system prompt. With a price per call the text leaves this note out, while the segments keep it, and
  neither mode ever uses its sentence for a call without a price.\<close>

lemma price_modes_agree:
  "if no_price (po_modelPrice po) then
     \<exists>items. price_segments st po = group_item (po_groupRatio po) (po_userGroupRatio po) # items @ include_if (truthy (po_override po)) OverrideItem \<and>
       (if isPriceDisplayMode st (po_displayMode po) (po_modelPrice po)
        then summary_text st po = Summary (items @ [group_item (po_groupRatio po) (po_userGroupRatio po)]) (truthy (po_override po))
        else summary_text st po = Product (items @ [group_item (po_groupRatio po) (po_userGroupRatio po)]) (truthy (po_override po)))
   else \<exists>a b. price_segments st po = group_item (po_groupRatio po) (po_userGroupRatio po) # ModelPriceItem a
         # include_if (truthy (po_override po)) OverrideItem \<and>
       summary_text st po = Summary [ModelPriceItem b, group_item (po_groupRatio po) (po_userGroupRatio po)] False"
  by (auto simp: price_segments_def summary_text_def Let_def isPriceDisplayMode_def resolveBillingDisplayMode_def)

end
