(* ===== verification/Affinity.thy ===== *)
theory Affinity
  imports ParamOverride
begin

text \<open>
  Channel affinity settings, web/src/pages/Setting/Operation/SettingsChannelAffinity.jsx: the rules and their JSON text, the sources of a
  key, the names of appended templates, and the form of one rule. A rule is a JavaScript object; a handler that calls a method which a
  value lacks throws (\<open>Inl ()\<close>).
\<close>

section \<open>Texts and numbers of a field\<close>

text \<open>\<open>(v || '').trim()\<close>, \<open>Number(v || 0)\<close> and \<open>(v || []).join('\n')\<close>.\<close>

definition trim_text :: "jsval \<Rightarrow> unit + string" where
  "trim_text v = (case js_or v (JStr []) of JStr s \<Rightarrow> Inr (trim s) | _ \<Rightarrow> Inl ())"

definition number_text :: "jsval \<Rightarrow> jsnum" where
  "number_text v = js_number (js_or v (JNum (Fin 0)))"

definition newline :: char where "newline = CHR 0x0A"

definition join_lines :: "jsval \<Rightarrow> unit + string" where
  "join_lines v = (case js_or v (JArr []) of JArr vs \<Rightarrow> Inr (join [newline] (js_elem_strings vs)) | _ \<Rightarrow> Inl ())"

definition normalizeStringList :: "jsval \<Rightarrow> unit + string list" where
  "normalizeStringList v =
     (if \<not> truthy v then Inr []
      else case v of JStr t \<Rightarrow> Inr (filter (\<lambda>s. s \<noteq> []) (map trim (split_char newline t))) | _ \<Rightarrow> Inl ())"

section \<open>Rules as text\<close>

definition rule_id :: "jsobj \<Rightarrow> jsval" where
  "rule_id r = obj_or JUndef ''id'' r"

text \<open>\<open>{ id: index, ...(rule || {}) }\<close>: an identifier in the text replaces the position.\<close>

definition with_id :: "nat \<Rightarrow> jsval \<Rightarrow> jsobj" where
  "with_id i v = obj_spread [(''id'', JNum (Fin (of_nat i)))] (spread_of (js_or v (JObj [])))"

definition or_empty_array :: "string \<Rightarrow> string" where
  "or_empty_array t = (if t = [] then ''[]'' else t)"

definition parseRulesJson :: "string \<Rightarrow> jsobj list" where
  "parseRulesJson t = (case json_parse (or_empty_array t) of Some (JArr vs) \<Rightarrow> map (\<lambda>(i, v). with_id i v) (enumerate 0 vs) | _ \<Rightarrow> [])"

definition rulesToJson :: "jsobj list \<Rightarrow> string" where
  "rulesToJson rs = json_pretty (JArr (map (\<lambda>r. JObj (obj_del ''id'' r)) rs))"

text \<open>\<open>{ ...r, id: idx }\<close> for all rules.\<close>

definition renumber :: "jsobj list \<Rightarrow> jsobj list" where
  "renumber rs = map (\<lambda>(i, r). obj_set ''id'' (JNum (Fin (of_nat i))) r) (enumerate 0 rs)"

datatype rules_error = RulesInvalid | RulesNotArray

definition tryParseRulesJsonArray :: "string \<Rightarrow> rules_error + jsval list" where
  "tryParseRulesJsonArray t =
     (let raw = or_empty_array t in
      if \<not> verifyJSON raw then Inl RulesInvalid
      else case json_parse raw of None \<Rightarrow> Inl RulesInvalid | Some (JArr vs) \<Rightarrow> Inr vs | Some _ \<Rightarrow> Inl RulesNotArray)"

section \<open>Key sources\<close>

definition key_source :: "string \<Rightarrow> string \<Rightarrow> string \<Rightarrow> jsval" where
  "key_source ty key path = JObj [(''type'', JStr ty), (''key'', JStr key), (''path'', JStr path)]"

definition normalizeKeySource :: "jsval \<Rightarrow> unit + jsval" where
  "normalizeKeySource src =
     (case (trim_text (jget ''type'' src), trim_text (jget ''key'' src), trim_text (jget ''path'' src)) of
        (Inr ty, Inr key, Inr path) \<Rightarrow> Inr (if ty = ''gjson'' then key_source ty [] path else key_source ty key [])
      | _ \<Rightarrow> Inl ())"

datatype source_error = NoSources | NoKey | NoPath | BadSourceType

definition source_problem :: "jsval \<Rightarrow> source_error option" where
  "source_problem x =
     (if jget ''type'' x \<in> {JStr ''context_int'', JStr ''context_string'', JStr ''request_header''} then
        (if \<not> truthy (jget ''key'' x) then Some NoKey else None)
      else if jget ''type'' x = JStr ''gjson'' then (if \<not> truthy (jget ''path'' x) then Some NoPath else None)
      else Some BadSourceType)"

text \<open>\<open>xs || []\<close> where a method of arrays is called on the result.\<close>

definition array_or_empty :: "jsval \<Rightarrow> unit + jsval list" where
  "array_or_empty v = (case js_or v (JArr []) of JArr vs \<Rightarrow> Inr vs | _ \<Rightarrow> Inl ())"

definition normal_sources :: "jsval \<Rightarrow> unit + jsval list" where
  "normal_sources v = (case array_or_empty v of Inl e \<Rightarrow> Inl e | Inr vs \<Rightarrow> map_sum_list normalizeKeySource vs)"

text \<open>The outer sum is an exception, the inner one the result of the check.\<close>

definition validateKeySources :: "jsval \<Rightarrow> unit + source_error + jsval list" where
  "validateKeySources v =
     (case normal_sources v of
        Inl e \<Rightarrow> Inl e
      | Inr ns \<Rightarrow>
          let xs = filter (\<lambda>x. truthy (jget ''type'' x)) ns in
          Inr (if xs = [] then Inl NoSources
               else case List.map_filter source_problem xs of e # _ \<Rightarrow> Inl e | [] \<Rightarrow> Inr xs))"

section \<open>Templates\<close>

definition makeUniqueName :: "string list \<Rightarrow> string \<Rightarrow> int \<Rightarrow> string" where
  "makeUniqueName existingNames baseName now =
     (let base = (if trim baseName = [] then ''rule'' else trim baseName) in
      if base \<notin> set existingNames then base
      else case find (\<lambda>i. base @ ''-'' @ nat_str i \<notin> set existingNames) [2..<1000] of
        Some i \<Rightarrow> base @ ''-'' @ nat_str i
      | None \<Rightarrow> base @ ''-'' @ int_str now)"

definition affinity_template :: "string \<Rightarrow> string \<Rightarrow> string \<Rightarrow> string \<Rightarrow> jsval \<Rightarrow> jsobj" where
  "affinity_template nm model path source template =
     [(''name'', JStr nm), (''model_regex'', JArr [JStr model]), (''path_regex'', JArr [JStr path]),
      (''key_sources'', JArr [JObj [(''type'', JStr ''gjson''), (''path'', JStr source)]]),
      (''param_override_template'', template), (''value_regex'', JStr []), (''ttl_seconds'', JNum (Fin 0)),
      (''skip_retry_on_failure'', JBool True), (''include_using_group'', JBool True), (''include_rule_name'', JBool True)]"

definition codexCli :: jsobj where
  "codexCli = affinity_template ''codex cli trace'' ''^gpt-.*$'' ''/v1/responses'' ''prompt_cache_key'' CODEX_CLI_HEADER_PASSTHROUGH_TEMPLATE"

definition claudeCli :: jsobj where
  "claudeCli = affinity_template ''claude cli trace'' ''^claude-.*$'' ''/v1/messages'' ''metadata.user_id'' CLAUDE_CLI_HEADER_PASSTHROUGH_TEMPLATE"

definition cloneChannelAffinityTemplate :: "jsval \<Rightarrow> jsobj" where
  "cloneChannelAffinityTemplate t = (case json_parse (json_stringify (js_or t (JObj []))) of Some v \<Rightarrow> spread_of v | None \<Rightarrow> [])"

text \<open>The name of a rule, \<open>(r?.name || '').trim()\<close>, and the names in use.\<close>

definition rule_name :: "jsobj \<Rightarrow> unit + string" where
  "rule_name r = trim_text (obj_or JUndef ''name'' r)"

definition existing_names :: "jsobj list \<Rightarrow> unit + string list" where
  "existing_names rs = (case map_sum_list rule_name rs of Inl e \<Rightarrow> Inl e | Inr ns \<Rightarrow> Inr (filter (\<lambda>n. n \<noteq> []) ns))"

fun named_templates :: "int \<Rightarrow> string list \<Rightarrow> jsobj list \<Rightarrow> jsobj list" where
  "named_templates now used [] = []"
| "named_templates now used (t # ts) =
     (let n = makeUniqueName used (case obj_or JUndef ''name'' t of JStr s \<Rightarrow> s | _ \<Rightarrow> []) now
      in obj_set ''name'' (JStr n) (cloneChannelAffinityTemplate (JObj t)) # named_templates now (n # used) ts)"

definition append_templates :: "int \<Rightarrow> jsobj list \<Rightarrow> unit + jsobj list" where
  "append_templates now rs =
     (case existing_names rs of Inl e \<Rightarrow> Inl e | Inr used \<Rightarrow> Inr (renumber (rs @ named_templates now used [codexCli, claudeCli])))"

section \<open>The form of a rule\<close>

datatype template_error = TemplateInvalid | TemplateNotObject

definition parseOptionalObjectJson :: "string \<Rightarrow> template_error + jsobj option" where
  "parseOptionalObjectJson t =
     (let raw = trim t in
      if raw = [] then Inr None
      else if \<not> verifyJSON raw then Inl TemplateInvalid
      else case json_parse raw of None \<Rightarrow> Inl TemplateInvalid | Some (JObj ps) \<Rightarrow> Inr (Some ps) | Some _ \<Rightarrow> Inl TemplateNotObject)"

record rule_form =
  rf_name :: jsval
  rf_model_regex_text :: jsval
  rf_path_regex_text :: jsval
  rf_user_agent_include_text :: jsval
  rf_value_regex :: jsval
  rf_ttl_seconds :: jsval
  rf_skip_retry_on_failure :: jsval
  rf_include_using_group :: jsval
  rf_include_model_name :: jsval
  rf_include_rule_name :: jsval
  rf_param_override_template_json :: string

definition buildModalFormValues :: "jsobj \<Rightarrow> unit + rule_form" where
  "buildModalFormValues r =
     (let fld = (\<lambda>k. obj_or JUndef k r) in
      case (join_lines (fld ''model_regex''), join_lines (fld ''path_regex''), join_lines (fld ''user_agent_include'')) of
        (Inr ms, Inr ps, Inr us) \<Rightarrow> Inr
          \<lparr>rf_name = js_or (fld ''name'') (JStr []), rf_model_regex_text = JStr ms, rf_path_regex_text = JStr ps,
           rf_user_agent_include_text = JStr us, rf_value_regex = js_or (fld ''value_regex'') (JStr []),
           rf_ttl_seconds = JNum (number_text (fld ''ttl_seconds'')),
           rf_skip_retry_on_failure = JBool (truthy (fld ''skip_retry_on_failure'')),
           rf_include_using_group = js_coalesce (fld ''include_using_group'') (JBool True),
           rf_include_model_name = JBool (truthy (fld ''include_model_name'')),
           rf_include_rule_name = js_coalesce (fld ''include_rule_name'') (JBool True),
           rf_param_override_template_json =
             (if truthy (fld ''param_override_template'') then json_pretty (fld ''param_override_template'') else [])\<rparr>
      | _ \<Rightarrow> Inl ())"

definition buildChannelAffinityRulePayload ::
    "rule_form \<Rightarrow> jsval \<Rightarrow> string list \<Rightarrow> string list \<Rightarrow> jsval list \<Rightarrow> string list \<Rightarrow> jsobj option \<Rightarrow> unit + jsobj" where
  "buildChannelAffinityRulePayload f ident modelRegex pathRegex keySources userAgentInclude template =
     (case (trim_text (rf_name f), trim_text (rf_value_regex f)) of
        (Inr nm, Inr re) \<Rightarrow> Inr
          ([(''id'', ident), (''name'', JStr nm), (''model_regex'', JArr (map JStr modelRegex)),
            (''path_regex'', JArr (map JStr pathRegex)), (''key_sources'', JArr keySources), (''value_regex'', JStr re),
            (''ttl_seconds'', JNum (number_text (rf_ttl_seconds f))),
            (''include_using_group'', JBool (truthy (rf_include_using_group f))),
            (''include_model_name'', JBool (truthy (rf_include_model_name f))),
            (''include_rule_name'', JBool (truthy (rf_include_rule_name f))),
            (''skip_retry_on_failure'', JBool (truthy (rf_skip_retry_on_failure f)))]
           @ (if userAgentInclude \<noteq> [] then [(''user_agent_include'', JArr (map JStr userAgentInclude))] else [])
           @ (case template of Some ps \<Rightarrow> [(''param_override_template'', JObj ps)] | None \<Rightarrow> []))
      | _ \<Rightarrow> Inl ())"

text \<open>Everything that can stop the dialogue from saving, in the order of the checks.\<close>

datatype save_error = InputThrows | NoModelRegex | BadSources source_error | BadTemplate template_error | NoName | RuleGone

definition checked_rule :: "rule_form \<Rightarrow> string \<Rightarrow> jsval \<Rightarrow> jsval \<Rightarrow> save_error + jsobj" where
  "checked_rule f draft sources ident =
     (case normalizeStringList (rf_model_regex_text f) of Inl e \<Rightarrow> Inl InputThrows | Inr modelRegex \<Rightarrow>
      if modelRegex = [] then Inl NoModelRegex
      else case validateKeySources sources of Inl e \<Rightarrow> Inl InputThrows | Inr (Inl e) \<Rightarrow> Inl (BadSources e) | Inr (Inr keySources) \<Rightarrow>
      case normalizeStringList (rf_user_agent_include_text f) of Inl e \<Rightarrow> Inl InputThrows | Inr agents \<Rightarrow>
      case parseOptionalObjectJson draft of Inl e \<Rightarrow> Inl (BadTemplate e) | Inr template \<Rightarrow>
      case normalizeStringList (rf_path_regex_text f) of Inl e \<Rightarrow> Inl InputThrows | Inr pathRegex \<Rightarrow>
      case buildChannelAffinityRulePayload f ident modelRegex pathRegex keySources agents template of Inl e \<Rightarrow> Inl InputThrows | Inr r \<Rightarrow>
      if obj_or JUndef ''name'' r = JStr [] then Inl NoName else Inr r)"

text \<open>Where an edited rule stands: by its identifier, else by its name.\<close>

fun find_index_sum :: "('a \<Rightarrow> 'e + bool) \<Rightarrow> 'a list \<Rightarrow> 'e + nat option" where
  "find_index_sum P [] = Inr None"
| "find_index_sum P (x # xs) = (case P x of Inl e \<Rightarrow> Inl e | Inr True \<Rightarrow> Inr (Some 0)
     | Inr False \<Rightarrow> (case find_index_sum P xs of Inl e \<Rightarrow> Inl e | Inr i \<Rightarrow> Inr (map_option Suc i)))"

definition same_name :: "jsobj \<Rightarrow> jsobj \<Rightarrow> unit + bool" where
  "same_name edited r = (case rule_name r of Inl e \<Rightarrow> Inl e | Inr n \<Rightarrow> (case rule_name edited of Inl e \<Rightarrow> Inl e | Inr m \<Rightarrow> Inr (n = m)))"

definition edited_index :: "jsobj \<Rightarrow> jsobj list \<Rightarrow> unit + nat option" where
  "edited_index edited rs =
     (case find_index (\<lambda>r. strict_eq (rule_id r) (rule_id edited)) rs of
        Some i \<Rightarrow> Inr (Some i)
      | None \<Rightarrow> if truthy (obj_or JUndef ''name'' edited) then find_index_sum (same_name edited) rs else Inr None)"

section \<open>The table of rules\<close>

datatype rule_scope = GroupScope | ModelScope | RuleScope

record rule_cells =
  cl_name :: jsval
  cl_models :: "jsval list"
  cl_paths :: "jsval list"
  cl_sources :: "(string \<times> string) list"
  cl_ttl :: "jsnum option"
  cl_skip_retry :: bool
  cl_template :: bool
  cl_cache :: "jsnum option"
  cl_scopes :: "rule_scope list"

text \<open>\<open>(list || []).length > 0 ? (list || []).slice(0, n).map(...) : '-'\<close>; an empty list is the dash.\<close>

definition first_items :: "nat \<Rightarrow> jsval \<Rightarrow> unit + jsval list" where
  "first_items n v =
     (case js_or v (JArr []) of
        JArr vs \<Rightarrow> Inr (take n vs)
      | JStr _ \<Rightarrow> Inl ()
      | JObj ps \<Rightarrow> if num_less (Fin 0) (js_number (obj_or JUndef ''length'' ps)) then Inl () else Inr []
      | _ \<Rightarrow> Inr [])"

definition source_cell :: "jsval \<Rightarrow> unit + string \<times> string" where
  "source_cell src =
     (case normalizeKeySource src of
        Inl e \<Rightarrow> Inl e
      | Inr s \<Rightarrow> let ty = jget ''type'' s in
          Inr (js_string ty, js_string (if ty = JStr ''gjson'' then jget ''path'' s else jget ''key'' s)))"

definition source_cells :: "jsval \<Rightarrow> unit + (string \<times> string) list" where
  "source_cells v = (case array_or_empty v of Inl e \<Rightarrow> Inl e | Inr vs \<Rightarrow> map_sum_list source_cell (take 3 vs))"

definition ruleColumns :: "jsval \<Rightarrow> jsobj \<Rightarrow> unit + rule_cells" where
  "ruleColumns cacheStats r =
     (let fld = (\<lambda>k. obj_or JUndef k r) in
      case (first_items 3 (fld ''model_regex''), first_items 2 (fld ''path_regex''), source_cells (fld ''key_sources''), rule_name r) of
        (Inr ms, Inr ps, Inr ss, Inr nm) \<Rightarrow> Inr
          \<lparr>cl_name = js_or (fld ''name'') (JStr ''-''), cl_models = ms, cl_paths = ps, cl_sources = ss,
           cl_ttl = (let n = number_text (fld ''ttl_seconds'') in if num_truthy n then Some n else None),
           cl_skip_retry = truthy (fld ''skip_retry_on_failure''),
           cl_template = truthy (fld ''param_override_template''),
           cl_cache = (if nm = [] \<or> \<not> truthy (fld ''include_rule_name'') then None
                       else Some (number_text (jget nm (jget ''by_rule_name'' cacheStats)))),
           cl_scopes = (if truthy (fld ''include_using_group'') then [GroupScope] else [])
             @ (if truthy (fld ''include_model_name'') then [ModelScope] else [])
             @ (if truthy (fld ''include_rule_name'') then [RuleScope] else [])\<rparr>
      | _ \<Rightarrow> Inl ())"

end
