(* ===== verification/AffinityState.thy ===== *)
theory AffinityState
  imports Affinity
begin

text \<open>
  The state of the channel affinity page, its handlers and effects (SettingsChannelAffinity.jsx). React runs the effects after a
  handler (\<open>after_render\<close>). The dialogue's form is the library's: its values are an argument of \<open>handleModalSave\<close>. The outer form
  keeps the text of its JSON field (\<open>af_formText\<close>). A confirmation dialogue is modal: nothing else happens until it is answered. A handler that
  throws leaves the state as it was at that point.
\<close>

section \<open>State\<close>

record af_inputs =
  in_enabled :: bool
  in_switch :: bool
  in_maxEntries :: jsnum
  in_defaultTTL :: jsnum
  in_rules :: string

datatype af_mode = Visual | JsonText

datatype af_toast = AfSaveError save_error | AfSaved | AfDeleted | AfFilled | AfBadRules rules_error | AfNothingChanged | AfRulesNoJson
  | AfPartly | AfSaveFailed | AfCleared | AfRefused string | AfStatsFailed | AfBadTemplateText | AfNoTemplate | AfNoRuleScope

record af_state =
  af_inputs :: af_inputs
  af_inputsRow :: af_inputs
  af_editMode :: af_mode
  af_prevEditMode :: af_mode
  af_rules :: "jsobj list"
  af_formText :: string
  af_modalVisible :: bool
  af_editingRule :: "jsobj option"
  af_isEdit :: bool
  af_modalInitValues :: "rule_form option"
  af_modalFormKey :: nat
  af_advancedActive :: "string list"
  af_templateDraft :: string
  af_templateEditor :: bool
  af_loading :: bool
  af_cacheLoading :: bool
  af_cacheStats :: jsval
  af_toasts :: "af_toast list"

definition default_inputs :: af_inputs where
  "default_inputs = \<lparr>in_enabled = False, in_switch = True, in_maxEntries = Fin 100000, in_defaultTTL = Fin 3600, in_rules = ''[]''\<rparr>"

definition initial_af :: af_state where
  "initial_af =
     \<lparr>af_inputs = default_inputs, af_inputsRow = default_inputs, af_editMode = Visual, af_prevEditMode = Visual, af_rules = [],
      af_formText = ''[]'', af_modalVisible = False, af_editingRule = None, af_isEdit = False, af_modalInitValues = None, af_modalFormKey = 0,
      af_advancedActive = [], af_templateDraft = [], af_templateEditor = False, af_loading = False, af_cacheLoading = False,
      af_cacheStats = JObj [(''enabled'', JBool False), (''total'', JNum (Fin 0)), (''unknown'', JNum (Fin 0)), (''by_rule_name'', JObj []),
        (''cache_capacity'', JNum (Fin 0)), (''cache_algo'', JStr [])],
      af_toasts = []\<rparr>"

definition af_toast :: "af_toast \<Rightarrow> af_state \<Rightarrow> af_state" where
  "af_toast m s = s\<lparr>af_toasts := m # af_toasts s\<rparr>"

definition rules_text :: "af_state \<Rightarrow> string" where
  "rules_text s = in_rules (af_inputs s)"

definition set_rules_text :: "string \<Rightarrow> af_state \<Rightarrow> af_state" where
  "set_rules_text t s = s\<lparr>af_inputs := (af_inputs s)\<lparr>in_rules := t\<rparr>\<rparr>"

definition effectiveDefaultTTLSeconds :: "af_state \<Rightarrow> jsnum" where
  "effectiveDefaultTTLSeconds s =
     (let n = number_text (JNum (in_defaultTTL (af_inputs s))) in if num_less (Fin 0) n then n else Fin 3600)"

section \<open>Effects\<close>

definition mode_effect :: "af_state \<Rightarrow> af_state" where
  "mode_effect s =
     (let prev = af_prevEditMode s; s1 = s\<lparr>af_prevEditMode := af_editMode s\<rparr> in
      if prev = af_editMode s \<or> af_editMode s \<noteq> JsonText then s1 else s1\<lparr>af_formText := or_empty_array (rules_text s)\<rparr>)"

definition parse_rules_effect :: "af_state \<Rightarrow> af_state" where
  "parse_rules_effect s = (if af_editMode s = Visual then s\<lparr>af_rules := parseRulesJson (rules_text s)\<rparr> else s)"

text \<open>The effects after a handler that took the state \<open>old\<close> to \<open>s\<close>; the last one depends on the text and the mode.\<close>

definition after_render :: "af_state \<Rightarrow> af_state \<Rightarrow> af_state" where
  "after_render old s =
     (let s1 = mode_effect s in
      if rules_text s \<noteq> rules_text old \<or> af_editMode s \<noteq> af_editMode old then parse_rules_effect s1 else s1)"

text \<open>The options, as the page gets them from its parent.\<close>

type_synonym af_options = "string \<Rightarrow> jsval option"

definition option_number :: "jsval \<Rightarrow> jsnum" where
  "option_number v = (let n = number_text v in if num_truthy n then n else Fin 0)"

definition option_text :: "jsval \<Rightarrow> string" where
  "option_text v = js_string (js_or v (JStr ''[]''))"

definition option_rules :: "jsval \<Rightarrow> string" where
  "option_rules v = (case json_parse (option_text v) of Some obj \<Rightarrow> json_pretty obj | None \<Rightarrow> option_text v)"

definition KEY_ENABLED :: string where "KEY_ENABLED = ''channel_affinity_setting.enabled''"
definition KEY_SWITCH_ON_SUCCESS :: string where "KEY_SWITCH_ON_SUCCESS = ''channel_affinity_setting.switch_on_success''"
definition KEY_MAX_ENTRIES :: string where "KEY_MAX_ENTRIES = ''channel_affinity_setting.max_entries''"
definition KEY_DEFAULT_TTL :: string where "KEY_DEFAULT_TTL = ''channel_affinity_setting.default_ttl_seconds''"
definition KEY_RULES :: string where "KEY_RULES = ''channel_affinity_setting.rules''"

definition read_option :: "af_options \<Rightarrow> string \<Rightarrow> (jsval \<Rightarrow> 'a) \<Rightarrow> 'a \<Rightarrow> 'a" where
  "read_option opts k f d = (case opts k of Some v \<Rightarrow> f v | None \<Rightarrow> d)"

definition options_inputs :: "af_options \<Rightarrow> af_inputs \<Rightarrow> af_inputs" where
  "options_inputs opts i =
     \<lparr>in_enabled = read_option opts KEY_ENABLED toBoolean (in_enabled i),
      in_switch = read_option opts KEY_SWITCH_ON_SUCCESS toBoolean (in_switch i),
      in_maxEntries = read_option opts KEY_MAX_ENTRIES option_number (in_maxEntries i),
      in_defaultTTL = read_option opts KEY_DEFAULT_TTL option_number (in_defaultTTL i),
      in_rules = read_option opts KEY_RULES option_rules (in_rules i)\<rparr>"

definition refreshCacheStats_begin :: "af_state \<Rightarrow> af_state" where
  "refreshCacheStats_begin s = s\<lparr>af_cacheLoading := True\<rparr>"

definition refreshCacheStats_end :: "jsval reply \<Rightarrow> af_state \<Rightarrow> af_state" where
  "refreshCacheStats_end ans s =
     (case ans of
        Thrown _ \<Rightarrow> af_toast AfStatsFailed s
      | Refused m \<Rightarrow> af_toast (AfRefused m) s
      | Granted d \<Rightarrow> s\<lparr>af_cacheStats := js_or d (JObj [])\<rparr>)\<lparr>af_cacheLoading := False\<rparr>"

definition options_effect :: "af_options \<Rightarrow> af_state \<Rightarrow> af_state" where
  "options_effect opts s =
     (let i = options_inputs opts (af_inputs s) in
      refreshCacheStats_begin
        (s\<lparr>af_inputs := i, af_inputsRow := i, af_formText := in_rules i, af_rules := parseRulesJson (in_rules i)\<rparr>))"

section \<open>Rules\<close>

definition setRulesJsonToForm :: "string \<Rightarrow> af_state \<Rightarrow> af_state" where
  "setRulesJsonToForm t s = s\<lparr>af_formText := or_empty_array t\<rparr>"

definition af_switchToJsonMode :: "af_state \<Rightarrow> af_state" where
  "af_switchToJsonMode s = (set_rules_text (rulesToJson (af_rules s)) s)\<lparr>af_editMode := JsonText\<rparr>"

definition af_switchToVisualMode :: "af_state \<Rightarrow> af_state" where
  "af_switchToVisualMode s = (case tryParseRulesJsonArray (or_empty_array (rules_text s)) of
     Inl e \<Rightarrow> af_toast (AfBadRules e) s | Inr _ \<Rightarrow> s\<lparr>af_editMode := Visual\<rparr>)"

definition updateRulesState :: "jsobj list \<Rightarrow> af_state \<Rightarrow> af_state" where
  "updateRulesState nextRules s =
     (let t = rulesToJson nextRules; s1 = set_rules_text t (s\<lparr>af_rules := nextRules\<rparr>) in
      if af_editMode s = JsonText then s1\<lparr>af_formText := t\<rparr> else s1)"

text \<open>Typing in the JSON field, and the other inputs.\<close>

definition typeRules :: "string \<Rightarrow> af_state \<Rightarrow> af_state" where
  "typeRules t s = (set_rules_text t s)\<lparr>af_formText := t\<rparr>"

definition setEnabled :: "bool \<Rightarrow> af_state \<Rightarrow> af_state" where
  "setEnabled b s = s\<lparr>af_inputs := (af_inputs s)\<lparr>in_enabled := b\<rparr>\<rparr>"

definition setSwitch :: "bool \<Rightarrow> af_state \<Rightarrow> af_state" where
  "setSwitch b s = s\<lparr>af_inputs := (af_inputs s)\<lparr>in_switch := b\<rparr>\<rparr>"

definition setMaxEntries :: "jsval \<Rightarrow> af_state \<Rightarrow> af_state" where
  "setMaxEntries v s = s\<lparr>af_inputs := (af_inputs s)\<lparr>in_maxEntries := number_text v\<rparr>\<rparr>"

definition setDefaultTTL :: "jsval \<Rightarrow> af_state \<Rightarrow> af_state" where
  "setDefaultTTL v s = s\<lparr>af_inputs := (af_inputs s)\<lparr>in_defaultTTL := number_text v\<rparr>\<rparr>"

text \<open>With rules in the list the templates are appended after a confirmation.\<close>

definition doAppend :: "int \<Rightarrow> af_state \<Rightarrow> af_state" where
  "doAppend now s = (case append_templates now (af_rules s) of Inl _ \<Rightarrow> s | Inr next \<Rightarrow> af_toast AfFilled (updateRulesState next s))"

definition handleDeleteRule :: "jsval \<Rightarrow> af_state \<Rightarrow> af_state" where
  "handleDeleteRule ident s =
     af_toast AfDeleted (updateRulesState (renumber (filter (\<lambda>r. \<not> strict_eq (rule_id r) ident) (af_rules s))) s)"

section \<open>The dialogue\<close>

definition open_rule_modal :: "jsobj \<Rightarrow> bool \<Rightarrow> af_state \<Rightarrow> af_state" where
  "open_rule_modal nextRule edit s =
     (let s1 = s\<lparr>af_editingRule := Some nextRule, af_isEdit := edit\<rparr> in
      case buildModalFormValues nextRule of
        Inl _ \<Rightarrow> s1
      | Inr f \<Rightarrow> s1\<lparr>af_modalInitValues := Some f, af_templateDraft := rf_param_override_template_json f, af_templateEditor := False,
                    af_advancedActive := [], af_modalFormKey := Suc (af_modalFormKey s), af_modalVisible := True\<rparr>)"

definition new_rule :: jsobj where
  "new_rule =
     [(''name'', JStr []), (''model_regex'', JArr []), (''path_regex'', JArr []), (''user_agent_include'', JArr []),
      (''key_sources'', JArr [JObj [(''type'', JStr ''gjson''), (''path'', JStr [])]]), (''value_regex'', JStr []),
      (''ttl_seconds'', JNum (Fin 0)), (''skip_retry_on_failure'', JBool False), (''include_using_group'', JBool True),
      (''include_model_name'', JBool False), (''include_rule_name'', JBool True)]"

definition openAddModal :: "af_state \<Rightarrow> af_state" where
  "openAddModal s = open_rule_modal new_rule False s"

definition edited_rule :: "jsobj \<Rightarrow> unit + jsobj" where
  "edited_rule r =
     (case normal_sources (obj_or JUndef ''key_sources'' r) of
        Inl e \<Rightarrow> Inl e
      | Inr xs \<Rightarrow>
          let agents = obj_or JUndef ''user_agent_include'' r in
          Inr (obj_set ''key_sources'' (JArr xs) (obj_set ''user_agent_include'' (if is_array agents then agents else JArr []) r)))"

definition handleEditRule :: "jsobj \<Rightarrow> af_state \<Rightarrow> af_state" where
  "handleEditRule r s = (case edited_rule r of Inl _ \<Rightarrow> s | Inr nextRule \<Rightarrow> open_rule_modal nextRule True s)"

definition editing_at :: "string \<Rightarrow> af_state \<Rightarrow> jsval" where
  "editing_at k s = (case af_editingRule s of Some r \<Rightarrow> obj_or JUndef k r | None \<Rightarrow> JUndef)"

definition saved_rules :: "jsobj \<Rightarrow> af_state \<Rightarrow> save_error + jsobj list" where
  "saved_rules payload s =
     (if af_isEdit s then
        (case edited_index (case af_editingRule s of Some r \<Rightarrow> r | None \<Rightarrow> []) (af_rules s) of
           Inl _ \<Rightarrow> Inl InputThrows
         | Inr None \<Rightarrow> Inl RuleGone
         | Inr (Some i) \<Rightarrow> Inr ((af_rules s)[i := payload]))
      else Inr (af_rules s @ [payload]))"

text \<open>\<open>None\<close>: the form's own validation fails.\<close>

definition handleModalSave :: "rule_form option \<Rightarrow> af_state \<Rightarrow> af_state" where
  "handleModalSave values s =
     (let ident = (if af_isEdit s then editing_at ''id'' s else JNum (Fin (of_nat (length (af_rules s))))) in
      case (case values of None \<Rightarrow> Inl InputThrows | Some f \<Rightarrow> checked_rule f (af_templateDraft s) (editing_at ''key_sources'' s) ident) of
        Inl e \<Rightarrow> af_toast (AfSaveError e) s
      | Inr payload \<Rightarrow>
          (case saved_rules payload s of
             Inl e \<Rightarrow> af_toast (AfSaveError e) s
           | Inr next \<Rightarrow> af_toast AfSaved ((updateRulesState (renumber next) s)
               \<lparr>af_modalVisible := False, af_editingRule := None, af_modalInitValues := None, af_templateDraft := [],
                af_templateEditor := False\<rparr>)))"

definition cancelModal :: "af_state \<Rightarrow> af_state" where
  "cancelModal s = s\<lparr>af_modalVisible := False, af_editingRule := None, af_modalInitValues := None, af_advancedActive := [],
     af_templateDraft := [], af_templateEditor := False\<rparr>"

text \<open>The panel of advanced settings, and the editor of the template.\<close>

definition setModalAdvanced :: "string list \<Rightarrow> af_state \<Rightarrow> af_state" where
  "setModalAdvanced keys s = s\<lparr>af_advancedActive := filter (\<lambda>k. k \<noteq> []) keys\<rparr>"

definition setTemplateEditor :: "bool \<Rightarrow> af_state \<Rightarrow> af_state" where
  "setTemplateEditor b s = s\<lparr>af_templateEditor := b\<rparr>"

text \<open>\<open>{ ...(prev || {}), k: v }\<close> on the rule being edited.\<close>

definition set_editing :: "string \<Rightarrow> jsval \<Rightarrow> af_state \<Rightarrow> af_state" where
  "set_editing k v s = s\<lparr>af_editingRule := Some (obj_set k v (case af_editingRule s of Some r \<Rightarrow> r | None \<Rightarrow> []))\<rparr>"

definition typeName :: "string \<Rightarrow> af_state \<Rightarrow> af_state" where
  "typeName t s = set_editing ''name'' (JStr t) s"

text \<open>The rows of the table of sources give the index, so it is in range.\<close>

definition updateKeySource :: "nat \<Rightarrow> jsobj \<Rightarrow> af_state \<Rightarrow> af_state" where
  "updateKeySource i patch s =
     (case array_or_empty (editing_at ''key_sources'' s) of
        Inl _ \<Rightarrow> s
      | Inr xs \<Rightarrow>
          if length xs \<le> i then s
          else (case normalizeKeySource (JObj (obj_spread (spread_of (js_or (xs ! i) (JObj []))) patch)) of
            Inl _ \<Rightarrow> s | Inr x \<Rightarrow> set_editing ''key_sources'' (JArr (xs[i := x])) s))"

definition addKeySource :: "af_state \<Rightarrow> af_state" where
  "addKeySource s =
     (case array_or_empty (editing_at ''key_sources'' s) of
        Inl _ \<Rightarrow> s
      | Inr xs \<Rightarrow> set_editing ''key_sources'' (JArr (xs @ [JObj [(''type'', JStr ''gjson''), (''path'', JStr [])]])) s)"

definition removeKeySource :: "nat \<Rightarrow> af_state \<Rightarrow> af_state" where
  "removeKeySource i s =
     (case array_or_empty (editing_at ''key_sources'' s) of
        Inl _ \<Rightarrow> s | Inr xs \<Rightarrow> set_editing ''key_sources'' (JArr (take i xs @ drop (Suc i) xs)) s)"

text \<open>The template of parameter overrides.\<close>

datatype template_preview = PreviewNone | PreviewInvalid string | PreviewSet string

definition paramTemplatePreviewMeta :: "string \<Rightarrow> template_preview" where
  "paramTemplatePreviewMeta draft =
     (let raw = trim draft in
      if raw = [] then PreviewNone
      else case json_parse raw of None \<Rightarrow> PreviewInvalid raw | Some v \<Rightarrow> PreviewSet (json_pretty v))"

definition updateParamTemplateDraft :: "string \<Rightarrow> af_state \<Rightarrow> af_state" where
  "updateParamTemplateDraft t s = s\<lparr>af_templateDraft := t\<rparr>"

definition formatParamTemplateDraft :: "af_state \<Rightarrow> af_state" where
  "formatParamTemplateDraft s =
     (let raw = trim (af_templateDraft s) in
      if raw = [] then s
      else case json_parse raw of None \<Rightarrow> af_toast AfBadTemplateText s | Some v \<Rightarrow> updateParamTemplateDraft (json_pretty v) s)"

definition saveParamTemplate :: "string \<Rightarrow> af_state \<Rightarrow> af_state" where
  "saveParamTemplate t s = (updateParamTemplateDraft t s)\<lparr>af_templateEditor := False\<rparr>"

definition openParamTemplatePreview :: "jsobj \<Rightarrow> af_state \<Rightarrow> string option \<times> af_state" where
  "openParamTemplatePreview r s =
     (case obj_or JUndef ''param_override_template'' r of
        JObj ps \<Rightarrow> (Some (json_pretty (JObj ps)), s)
      | JArr vs \<Rightarrow> (Some (json_pretty (JArr vs)), s)
      | _ \<Rightarrow> (None, af_toast AfNoTemplate s))"

section \<open>The cache\<close>

text \<open>The name of the rule whose entries the dialogue asks about.\<close>

definition confirmClearRuleCache :: "jsobj \<Rightarrow> af_state \<Rightarrow> string option \<times> af_state" where
  "confirmClearRuleCache r s =
     (case rule_name r of
        Inl _ \<Rightarrow> (None, s)
      | Inr nm \<Rightarrow>
          if nm = [] then (None, s)
          else if \<not> truthy (obj_or JUndef ''include_rule_name'' r) then (None, af_toast AfNoRuleScope s)
          else (Some nm, s))"

text \<open>The answer to deleting entries, of a rule or all; an exception stays in the dialogue.\<close>

definition clearCache_end :: "unit reply \<Rightarrow> af_state \<Rightarrow> af_state" where
  "clearCache_end ans s =
     (case ans of Thrown _ \<Rightarrow> s | Refused m \<Rightarrow> af_toast (AfRefused m) s | Granted _ \<Rightarrow> refreshCacheStats_begin (af_toast AfCleared s))"

section \<open>Saving\<close>

definition bool_str :: "bool \<Rightarrow> string" where
  "bool_str b = (if b then ''true'' else ''false'')"

text \<open>The keys whose inputs differ from those loaded, with the text of the input.\<close>

definition compareObjects :: "af_inputs \<Rightarrow> af_inputs \<Rightarrow> string list" where
  "compareObjects i j =
     (if in_enabled i \<noteq> in_enabled j then [KEY_ENABLED] else [])
     @ (if in_switch i \<noteq> in_switch j then [KEY_SWITCH_ON_SUCCESS] else [])
     @ (if \<not> num_eq (in_maxEntries i) (in_maxEntries j) then [KEY_MAX_ENTRIES] else [])
     @ (if \<not> num_eq (in_defaultTTL i) (in_defaultTTL j) then [KEY_DEFAULT_TTL] else [])
     @ (if in_rules i \<noteq> in_rules j then [KEY_RULES] else [])"

definition input_text :: "string \<Rightarrow> af_inputs \<Rightarrow> string \<Rightarrow> string" where
  "input_text compactRules i k =
     (if k = KEY_RULES then compactRules
      else if k = KEY_ENABLED then bool_str (in_enabled i)
      else if k = KEY_SWITCH_ON_SUCCESS then bool_str (in_switch i)
      else if k = KEY_MAX_ENTRIES then num_str (in_maxEntries i)
      else num_str (in_defaultTTL i))"

definition af_submit :: "af_state \<Rightarrow> (string \<times> string) list \<times> af_state" where
  "af_submit s =
     (let changed = compareObjects (af_inputs s) (af_inputsRow s) in
      if changed = [] then ([], af_toast AfNothingChanged s)
      else case json_parse (or_empty_array (rules_text s)) of
        None \<Rightarrow> ([], af_toast AfRulesNoJson s)
      | Some v \<Rightarrow> (map (\<lambda>k. (k, input_text (json_stringify v) (af_inputs s) k)) changed, s\<lparr>af_loading := True\<rparr>))"

text \<open>All requests are answered (\<open>False\<close>: without a response), or one was rejected. The result says whether the options are loaded
  again. What the responses say is not looked at.\<close>

definition af_submit_end :: "bool list option \<Rightarrow> af_state \<Rightarrow> bool \<times> af_state" where
  "af_submit_end ans s =
     (let s1 = s\<lparr>af_loading := False\<rparr> in
      case ans of
        None \<Rightarrow> (False, af_toast AfSaveFailed s1)
      | Some oks \<Rightarrow>
          if False \<in> set oks then (False, if length oks = 1 then s1 else af_toast AfPartly s1)
          else (True, af_toast AfSaved s1))"

end
