(* ===== verification/AffinityFacts.thy ===== *)
theory AffinityFacts
  imports AffinityState JsObjectFacts JsNumberFacts
begin

text \<open>
  What the channel affinity page keeps of a rule: its JSON text is read back, the dialogue saves only complete rules, saving one again
  without a change leaves it as it is, and the names of appended templates are new.
\<close>

section \<open>Text\<close>

lemma or_empty_wrap: "or_empty_array (json_pretty (JArr vs)) = json_pretty (JArr vs)"
  by (simp add: or_empty_array_def json_pretty_def wrap_items_def)

lemma js_or_obj [simp]: "js_or (JObj ps) v = JObj ps"
  by (simp add: js_or_def)

lemma spread_of_obj [simp]: "spread_of (JObj ps) = ps"
  by (simp add: spread_of_def)

text \<open>The values of a rule can be written, whatever its identifier is.\<close>

definition rule_safe :: "jsobj \<Rightarrow> bool" where
  "rule_safe r \<longleftrightarrow> json_safe (JObj (obj_del ''id'' r))"

lemma rules_value:
  assumes "list_all rule_safe rs"
  shows "json_parse (rulesToJson rs) = Some (JArr (map (\<lambda>r. JObj (obj_del ''id'' r)) rs))"
proof -
  have "json_safe (JArr (map (\<lambda>r. JObj (obj_del ''id'' r)) rs))" using assms by (simp add: rule_safe_def list_all_iff)
  then show ?thesis unfolding rulesToJson_def by (rule json_parse_pretty)
qed

lemma parse_rules:
  assumes "list_all rule_safe rs"
  shows "parseRulesJson (rulesToJson rs) = map (\<lambda>(i, r). with_id i (JObj (obj_del ''id'' r))) (enumerate 0 rs)"
  using rules_value[OF assms] by (simp add: parseRulesJson_def or_empty_wrap rulesToJson_def enumerate_map_upt map_map)
     (simp add: list_eq_iff_nth_eq nth_enumerate_eq)

section \<open>Lines\<close>

text \<open>The lines that a text field can hold.\<close>

definition line_ok :: "string \<Rightarrow> bool" where
  "line_ok t \<longleftrightarrow> t \<noteq> [] \<and> trim t = t \<and> newline \<notin> set t"

lemma split_char_no: "t \<in> set (split_char d s) \<Longrightarrow> d \<notin> set t"
  by (induction d s arbitrary: t rule: split_char.induct) (auto split: list.splits if_splits)

lemma lines_ok: "normalizeStringList v = Inr ls \<Longrightarrow> list_all line_ok ls"
  by (auto simp: normalizeStringList_def list_all_iff line_ok_def dest!: split_char_no set_trim[THEN subsetD] split: if_splits jsval.splits)

lemma elem_strings [simp]: "js_elem_strings (map JStr ls) = ls"
  by (induction ls) auto

lemma lines_again:
  assumes "list_all line_ok ls"
  shows "normalizeStringList (JStr (join [newline] ls)) = Inr ls"
proof (cases "ls = []")
  case False
  have "split_char newline (join [newline] ls) = ls"
    using assms False by (intro split_char_join) (auto simp: list_all_iff line_ok_def)
  moreover have "join [newline] ls \<noteq> []" using assms False by (cases ls) (auto simp: join_Cons line_ok_def)
  moreover have "map trim ls = ls" "filter (\<lambda>s. s \<noteq> []) ls = ls"
    using assms by (auto simp: list_all_iff line_ok_def intro!: map_idI filter_True)
  ultimately show ?thesis by (simp add: normalizeStringList_def)
qed (simp add: normalizeStringList_def)

section \<open>Sources\<close>

lemma map_sum_list_Inr_in: "map_sum_list f xs = Inr ys \<Longrightarrow> y \<in> set ys \<Longrightarrow> \<exists>x \<in> set xs. f x = Inr y"
  by (induction xs arbitrary: ys) (auto split: sum.splits)

lemma map_sum_list_id: "(\<And>x. x \<in> set xs \<Longrightarrow> f x = Inr x) \<Longrightarrow> map_sum_list f xs = Inr xs"
  by (induction xs) auto

lemma trim_text_str [simp]: "trim_text (JStr t) = Inr (trim t)"
  by (simp add: trim_text_def js_or_def)

lemma trim_text_trimmed: "trim_text v = Inr t \<Longrightarrow> trim t = t"
  by (auto simp: trim_text_def split: jsval.splits)

lemma key_source_fields [simp]:
  "jget ''type'' (key_source ty k p) = JStr ty" "jget ''key'' (key_source ty k p) = JStr k" "jget ''path'' (key_source ty k p) = JStr p"
  by (simp_all add: key_source_def jget_Cons)

lemma normalize_again: "normalizeKeySource src = Inr x \<Longrightarrow> normalizeKeySource x = Inr x"
proof -
  assume a: "normalizeKeySource src = Inr x"
  then obtain ty k p where "trim ty = ty" "trim k = k" "trim p = p" "x = (if ty = ''gjson'' then key_source ty [] p else key_source ty k [])"
    by (auto simp: normalizeKeySource_def split: sum.splits) (blast dest: trim_text_trimmed)+
  then show ?thesis by (auto simp: normalizeKeySource_def)
qed

text \<open>Sources that pass the check: at least one, in normal form, each without a problem.\<close>

definition sources_ok :: "jsval list \<Rightarrow> bool" where
  "sources_ok xs \<longleftrightarrow> xs \<noteq> [] \<and> list_all (\<lambda>x. normalizeKeySource x = Inr x \<and> truthy (jget ''type'' x) \<and> source_problem x = None) xs"

lemma map_filter_Nil: "List.map_filter f xs = [] \<longleftrightarrow> (\<forall>x \<in> set xs. f x = None)"
  by (induction xs) (auto simp: List.map_filter_simps split: option.splits)

lemma sources_checked: "validateKeySources v = Inr (Inr xs) \<Longrightarrow> sources_ok xs"
  by (auto simp: validateKeySources_def sources_ok_def normal_sources_def list_all_iff Let_def map_filter_Nil normalize_again
      dest!: map_sum_list_Inr_in split: sum.splits if_splits list.splits)

lemma sources_again: "sources_ok xs \<Longrightarrow> normal_sources (JArr xs) = Inr xs \<and> validateKeySources (JArr xs) = Inr (Inr xs)"
proof -
  assume ok: "sources_ok xs"
  then have n: "map_sum_list normalizeKeySource xs = Inr xs" by (intro map_sum_list_id) (simp add: sources_ok_def list_all_iff)
  have "filter (\<lambda>x. truthy (jget ''type'' x)) xs = xs" "List.map_filter source_problem xs = []"
    using ok by (auto simp: sources_ok_def list_all_iff map_filter_Nil)
  then show ?thesis using ok n by (simp add: validateKeySources_def normal_sources_def array_or_empty_def js_or_def sources_ok_def)
qed

section \<open>The dialogue\<close>

text \<open>What the dialogue guarantees of a rule it saves.\<close>

definition strings_ok :: "(string \<Rightarrow> bool) \<Rightarrow> jsval \<Rightarrow> bool" where
  "strings_ok P v = (case v of JArr vs \<Rightarrow> list_all (\<lambda>x. case x of JStr t \<Rightarrow> P t | _ \<Rightarrow> False) vs | _ \<Rightarrow> False)"

definition source_complete :: "jsval \<Rightarrow> bool" where
  "source_complete x \<longleftrightarrow>
     (\<exists>ty k. ty \<in> {''context_int'', ''context_string'', ''request_header''} \<and> k \<noteq> [] \<and> trim k = k \<and>
       x = JObj [(''type'', JStr ty), (''key'', JStr k), (''path'', JStr [])]) \<or>
     (\<exists>p. p \<noteq> [] \<and> trim p = p \<and> x = JObj [(''type'', JStr ''gjson''), (''key'', JStr []), (''path'', JStr p)])"

definition rule_valid :: "jsobj \<Rightarrow> bool" where
  "rule_valid r \<longleftrightarrow>
     (case obj_or JUndef ''name'' r of JStr t \<Rightarrow> t \<noteq> [] \<and> trim t = t | _ \<Rightarrow> False) \<and>
     strings_ok line_ok (obj_or JUndef ''model_regex'' r) \<and> obj_or JUndef ''model_regex'' r \<noteq> JArr [] \<and>
     strings_ok line_ok (obj_or JUndef ''path_regex'' r) \<and>
     (case obj_or JUndef ''key_sources'' r of JArr xs \<Rightarrow> xs \<noteq> [] \<and> list_all source_complete xs | _ \<Rightarrow> False) \<and>
     (case obj_or JUndef ''param_override_template'' r of JUndef \<Rightarrow> True | JObj ps \<Rightarrow> True | _ \<Rightarrow> False)"

lemma source_complete:
  assumes "normalizeKeySource x = Inr x" "source_problem x = None"
  shows "source_complete x"
proof -
  obtain ty where ty: "trim_text (jget ''type'' x) = Inr ty" using assms(1) by (cases "trim_text (jget ''type'' x)") (simp_all add: normalizeKeySource_def)
  obtain k where k: "trim_text (jget ''key'' x) = Inr k" using assms(1) ty by (cases "trim_text (jget ''key'' x)") (simp_all add: normalizeKeySource_def)
  obtain q where q: "trim_text (jget ''path'' x) = Inr q" using assms(1) ty k by (cases "trim_text (jget ''path'' x)") (simp_all add: normalizeKeySource_def)
  have x: "(if ty = ''gjson'' then key_source ty [] q else key_source ty k []) = x" using assms(1) by (simp add: normalizeKeySource_def ty k q)
  have t: "trim k = k" "trim q = q" using k q by (auto dest: trim_text_trimmed)
  show ?thesis
  proof (cases "ty = ''gjson''")
    case True
    then have eq: "key_source ''gjson'' [] q = x" using x by simp
    then have "q \<noteq> []" using assms(2) by (auto simp: source_problem_def simp flip: eq)
    then show ?thesis using t(2) unfolding source_complete_def eq[symmetric] key_source_def by blast
  next
    case False
    then have eq: "key_source ty k [] = x" using x by simp
    have "ty \<in> {''context_int'', ''context_string'', ''request_header''} \<and> k \<noteq> []"
      using assms(2) False by (simp add: source_problem_def split: if_splits flip: eq)
    then show ?thesis using t(1) unfolding source_complete_def eq[symmetric] key_source_def by blast
  qed
qed

lemma strings_ok_map [simp]: "strings_ok P (JArr (map JStr ls)) = list_all P ls"
  by (simp add: strings_ok_def list_all_iff)

lemma payload_fields:
  assumes "buildChannelAffinityRulePayload f ident ms ps xs us t = Inr r"
  shows "trim_text (rf_name f) = Inr nm \<Longrightarrow> obj_or JUndef ''name'' r = JStr nm"
    "obj_or JUndef ''id'' r = ident" "obj_or JUndef ''model_regex'' r = JArr (map JStr ms)" "obj_or JUndef ''path_regex'' r = JArr (map JStr ps)"
    "obj_or JUndef ''key_sources'' r = JArr xs"
    "obj_or JUndef ''param_override_template'' r = (case t of Some qs \<Rightarrow> JObj qs | None \<Rightarrow> JUndef)"
  using assms by (auto simp: buildChannelAffinityRulePayload_def obj_or_def obj_get_def split: sum.splits option.splits)

text \<open>A saved rule comes from checked parts.\<close>

lemma checked_parts:
  assumes "checked_rule f draft sources ident = Inr r"
  obtains nm re ms ps xs us t where
    "r = [(''id'', ident), (''name'', JStr nm), (''model_regex'', JArr (map JStr ms)),
            (''path_regex'', JArr (map JStr ps)), (''key_sources'', JArr xs), (''value_regex'', JStr re),
            (''ttl_seconds'', JNum (number_text (rf_ttl_seconds f))),
            (''include_using_group'', JBool (truthy (rf_include_using_group f))),
            (''include_model_name'', JBool (truthy (rf_include_model_name f))),
            (''include_rule_name'', JBool (truthy (rf_include_rule_name f))),
            (''skip_retry_on_failure'', JBool (truthy (rf_skip_retry_on_failure f)))]
           @ (if us \<noteq> [] then [(''user_agent_include'', JArr (map JStr us))] else [])
           @ (case t of Some ps \<Rightarrow> [(''param_override_template'', JObj ps)] | None \<Rightarrow> [])"
    "trim nm = nm" "nm \<noteq> []" "trim re = re" "ms \<noteq> []" "list_all line_ok ms" "list_all line_ok ps" "list_all line_ok us" "sources_ok xs"
    "parseOptionalObjectJson draft = Inr t"
proof -
  obtain ms xs us t ps where p: "normalizeStringList (rf_model_regex_text f) = Inr ms" "ms \<noteq> []" "validateKeySources sources = Inr (Inr xs)"
    "normalizeStringList (rf_user_agent_include_text f) = Inr us" "parseOptionalObjectJson draft = Inr t"
    "normalizeStringList (rf_path_regex_text f) = Inr ps" "buildChannelAffinityRulePayload f ident ms ps xs us t = Inr r"
    "obj_or JUndef ''name'' r \<noteq> JStr []"
    using assms by (auto simp: checked_rule_def split: sum.splits if_splits)
  obtain nm re where t: "trim_text (rf_name f) = Inr nm" "trim_text (rf_value_regex f) = Inr re"
    using p(7) by (auto simp: buildChannelAffinityRulePayload_def split: sum.splits)
  show thesis
    by (rule that[of nm ms ps xs re us t])
      (use p t payload_fields(1)[OF p(7) t(1)] trim_text_trimmed lines_ok sources_checked in \<open>auto simp: buildChannelAffinityRulePayload_def\<close>)
qed

lemma checked_valid:
  assumes "checked_rule f draft sources ident = Inr r"
  shows "rule_valid r \<and> rule_id r = ident"
  using assms by (rule checked_parts) (auto simp: rule_valid_def rule_id_def obj_or_def obj_get_def sources_ok_def list_all_iff source_complete split: option.splits)

text \<open>Opening a saved rule and saving it again.\<close>

lemma template_again:
  assumes "json_safe (JObj qs)"
  shows "parseOptionalObjectJson (json_pretty (JObj qs)) = Inr (Some qs)"
  using json_parse_pretty[OF assms] pretty_obj_trimmed[of qs] by (simp add: parseOptionalObjectJson_def verifyJSON_def)

lemma number_again: "n \<noteq> NaN \<Longrightarrow> number_text (JNum n) = n"
  by (simp add: number_text_def js_or_def num_truthy_def)

lemma obj_or_set_simp [simp]: "obj_or d j (obj_set k v ps) = (if j = k then v else obj_or d j ps)"
  by (rule obj_or_set)

lemma js_or_str [simp]: "js_or (JStr s) (JStr []) = JStr s"
  by (simp add: js_or_def)

lemma join_lines_arr [simp]: "join_lines (JArr (map JStr ls)) = Inr (join [newline] ls)"
  by (simp add: join_lines_def js_or_def)

lemma join_lines_undef [simp]: "join_lines (JArr []) = Inr []"
  by (simp add: join_lines_def js_or_def)

lemma coalesce_bool [simp]: "js_coalesce (JBool b) v = JBool b"
  by (simp add: js_coalesce_def)

theorem rule_saved_again:
  assumes "checked_rule f draft sources ident = Inr r" "rule_safe r" "number_text (rf_ttl_seconds f) \<noteq> NaN"
  shows "\<exists>r' f'. edited_rule r = Inr r' \<and> buildModalFormValues r' = Inr f' \<and> rule_id r' = ident \<and>
    checked_rule f' (rf_param_override_template_json f') (obj_or JUndef ''key_sources'' r') ident = Inr r"
  using assms(1)
proof (rule checked_parts)
  fix nm re ms ps xs us t
  assume r: "r = [(''id'', ident), (''name'', JStr nm), (''model_regex'', JArr (map JStr ms)),
            (''path_regex'', JArr (map JStr ps)), (''key_sources'', JArr xs), (''value_regex'', JStr re),
            (''ttl_seconds'', JNum (number_text (rf_ttl_seconds f))),
            (''include_using_group'', JBool (truthy (rf_include_using_group f))),
            (''include_model_name'', JBool (truthy (rf_include_model_name f))),
            (''include_rule_name'', JBool (truthy (rf_include_rule_name f))),
            (''skip_retry_on_failure'', JBool (truthy (rf_skip_retry_on_failure f)))]
           @ (if us \<noteq> [] then [(''user_agent_include'', JArr (map JStr us))] else [])
           @ (case t of Some ps \<Rightarrow> [(''param_override_template'', JObj ps)] | None \<Rightarrow> [])"
    and ok: "trim nm = nm" "nm \<noteq> []" "trim re = re" "ms \<noteq> []" "list_all line_ok ms" "list_all line_ok ps" "list_all line_ok us"
      "sources_ok xs" "parseOptionalObjectJson draft = Inr t"
  define agents where "agents = (if us = [] then JArr [] else JArr (map JStr us))"
  define r' where "r' = obj_set ''key_sources'' (JArr xs) (obj_set ''user_agent_include'' agents r)"
  have at: "obj_or JUndef ''id'' r = ident" "obj_or JUndef ''name'' r = JStr nm" "obj_or JUndef ''model_regex'' r = JArr (map JStr ms)"
    "obj_or JUndef ''path_regex'' r = JArr (map JStr ps)" "obj_or JUndef ''key_sources'' r = JArr xs" "obj_or JUndef ''value_regex'' r = JStr re"
    "obj_or JUndef ''ttl_seconds'' r = JNum (number_text (rf_ttl_seconds f))"
    "obj_or JUndef ''include_using_group'' r = JBool (truthy (rf_include_using_group f))"
    "obj_or JUndef ''include_model_name'' r = JBool (truthy (rf_include_model_name f))"
    "obj_or JUndef ''include_rule_name'' r = JBool (truthy (rf_include_rule_name f))"
    "obj_or JUndef ''skip_retry_on_failure'' r = JBool (truthy (rf_skip_retry_on_failure f))"
    "obj_or JUndef ''user_agent_include'' r = (if us = [] then JUndef else JArr (map JStr us))"
    "obj_or JUndef ''param_override_template'' r = (case t of Some qs \<Rightarrow> JObj qs | None \<Rightarrow> JUndef)"
    by (auto simp: r obj_or_def obj_get_def split: option.split)
  have e: "edited_rule r = Inr r'"
    using sources_again[OF ok(8)] by (simp add: edited_rule_def at r'_def agents_def)
  have "json_safe (JObj qs)" if "t = Some qs" for qs
    using assms(2) that by (simp add: rule_safe_def r obj_del_def)
  then have tpl: "parseOptionalObjectJson (case t of Some qs \<Rightarrow> json_pretty (JObj qs) | None \<Rightarrow> []) = Inr t"
    by (auto simp: template_again parseOptionalObjectJson_def[of "[]"] split: option.split)
  define f' where "f' = \<lparr>rf_name = JStr nm, rf_model_regex_text = JStr (join [newline] ms), rf_path_regex_text = JStr (join [newline] ps),
           rf_user_agent_include_text = JStr (join [newline] us), rf_value_regex = JStr re,
           rf_ttl_seconds = JNum (number_text (rf_ttl_seconds f)),
           rf_skip_retry_on_failure = JBool (truthy (rf_skip_retry_on_failure f)),
           rf_include_using_group = JBool (truthy (rf_include_using_group f)),
           rf_include_model_name = JBool (truthy (rf_include_model_name f)),
           rf_include_rule_name = JBool (truthy (rf_include_rule_name f)),
           rf_param_override_template_json = (case t of Some qs \<Rightarrow> json_pretty (JObj qs) | None \<Rightarrow> [])\<rparr>"
  have "buildModalFormValues r' = Inr f'"
    using assms(3) by (auto simp: buildModalFormValues_def r'_def agents_def at f'_def number_again split: option.split)
  moreover have "obj_or JUndef ''key_sources'' r' = JArr xs" by (simp add: r'_def)
  moreover have "buildChannelAffinityRulePayload f' ident ms ps xs us t = Inr r"
    using assms(3) ok(1,3) by (simp add: buildChannelAffinityRulePayload_def f'_def number_again r)
  moreover have "checked_rule f' (rf_param_override_template_json f') (JArr xs) ident = Inr r"
    using ok sources_again[OF ok(8)] calculation(3) at(2) by (simp add: checked_rule_def f'_def lines_again tpl)
  moreover have "rule_id r' = ident" by (simp add: rule_id_def r'_def at)
  ultimately show ?thesis using e by auto
qed

section \<open>Identifiers\<close>

text \<open>Deleting a key that is no index commutes with building an object: both objects have the same indices in front, and the other
  keys behind them.\<close>

definition del_rel :: "string \<Rightarrow> (string \<times> 'v) list \<Rightarrow> (string \<times> 'v) list \<Rightarrow> bool" where
  "del_rel k a b \<longleftrightarrow> (\<exists>I M. a = I @ M \<and> b = I @ obj_del k M \<and> k \<notin> fst ` set I \<and> list_all (\<lambda>p. is_index (fst p)) I \<and>
     list_all (\<lambda>p. \<not> is_index (fst p)) M)"

lemma del_relI:
  "a = I @ M \<Longrightarrow> b = I @ obj_del k M \<Longrightarrow> k \<notin> fst ` set I \<Longrightarrow> list_all (\<lambda>p. is_index (fst p)) I \<Longrightarrow>
    list_all (\<lambda>p. \<not> is_index (fst p)) M \<Longrightarrow> del_rel k a b"
  unfolding del_rel_def by blast

lemma ins_index_front:
  "list_all (\<lambda>p. is_index (fst p)) I \<Longrightarrow> list_all (\<lambda>p. \<not> is_index (fst p)) M \<Longrightarrow> obj_ins_index j v (I @ M) = obj_ins_index j v I @ M"
proof (induction I)
  case Nil
  then show ?case by (cases M) auto
qed auto

lemma del_rel_set:
  assumes "del_rel k a b" "\<not> is_index k"
  shows "del_rel k (obj_set j v a) (if j = k then b else obj_set j v b)"
proof -
  obtain I M where r: "a = I @ M" "b = I @ obj_del k M" "k \<notin> fst ` set I" "list_all (\<lambda>p. is_index (fst p)) I" "list_all (\<lambda>p. \<not> is_index (fst p)) M"
    using assms(1) unfolding del_rel_def by blast
  define upd where "upd = map (\<lambda>(i, w). if i = j then (i, v) else (i :: string, w))"
  have fsts: "fst ` set (upd xs) = fst ` set xs" for xs using map_fst_upd[of j v xs] unfolding upd_def by (metis list.set_map)
  then have keys: "list_all (\<lambda>p. P (fst p)) (upd xs) = list_all (\<lambda>p. P (fst p)) xs" for P xs
    unfolding list_all_iff by (metis (mono_tags, lifting) image_iff)
  have del: "obj_del k (upd M) = (if j = k then obj_del k M else upd (obj_del k M))"
    by (induction M) (auto simp: upd_def obj_del_def split: if_splits)
  have idle: "upd I = I" if "j = k" using r(3) that by (force simp: upd_def intro!: map_idI)
  have plain: "list_all (\<lambda>p. \<not> is_index (fst p)) (obj_del k M)" using r(5) by (auto simp: obj_del_def list_all_iff)
  show ?thesis
  proof (cases "obj_has j a")
    case True
    then have sa: "obj_set j v a = upd I @ upd M" by (simp add: obj_set_def upd_def r(1))
    show ?thesis
    proof (cases "j = k")
      case False
      then have "obj_has j b" using True r by (auto simp: obj_has_def obj_del_def)
      then have "obj_set j v b = upd I @ upd (obj_del k M)" by (simp add: obj_set_def upd_def r(2))
      then show ?thesis using False r sa del by (intro del_relI[where I = "upd I" and M = "upd M"]) (simp_all add: fsts keys[of is_index] keys[of "\<lambda>i. \<not> is_index i"])
    qed (use r sa del idle in \<open>intro del_relI[where I = I and M = "upd M"], simp_all add: fsts keys[of is_index] keys[of "\<lambda>i. \<not> is_index i"]\<close>)
  next
    case False
    show ?thesis
    proof (cases "j = k")
      case True
      then have "obj_set j v a = I @ (M @ [(k, v)])" using False assms(2) r(1) by (simp add: obj_set_def)
      then show ?thesis using True r assms(2) by (intro del_relI[where I = I and M = "M @ [(k, v)]"]) (simp_all add: obj_del_def)
    next
      case jk: False
      then have nb: "\<not> obj_has j b" using False r by (auto simp: obj_has_def obj_del_def)
      show ?thesis
      proof (cases "is_index j")
        case True
        have "obj_set j v a = obj_ins_index j v I @ M" "obj_set j v b = obj_ins_index j v I @ obj_del k M"
          using True False nb ins_index_front[OF r(4,5)] ins_index_front[OF r(4) plain] by (simp_all add: obj_set_def r(1,2))
        then show ?thesis using jk r True 
          by (intro del_relI[where I = "obj_ins_index j v I" and M = M]) (auto simp: set_obj_ins_index list_all_iff)
      next
        case ni: False
        have "obj_set j v a = I @ (M @ [(j, v)])" "obj_set j v b = I @ obj_del k (M @ [(j, v)])"
          using ni False nb jk by (simp_all add: obj_set_def r(1,2) obj_del_def)
        then show ?thesis using jk r ni by (intro del_relI[where I = I and M = "M @ [(j, v)]"]) simp_all
      qed
    qed
  qed
qed

lemma del_rel_spread:
  "del_rel k a b \<Longrightarrow> \<not> is_index k \<Longrightarrow> del_rel k (obj_spread a ps) (obj_spread b (obj_del k ps))"
proof (induction ps arbitrary: a b)
  case (Cons p ps)
  obtain j v where p: "p = (j, v)" by force
  show ?case using Cons.IH[OF del_rel_set[OF Cons.prems, of j v] Cons.prems(2)]
    by (cases "j = k") (simp_all add: p obj_spread_def obj_del_def)
qed (simp add: obj_spread_def obj_del_def)

lemma del_rel_del: "del_rel k a b \<Longrightarrow> obj_del k a = b"
  by (force simp: del_rel_def obj_del_def filter_id_conv)

lemma obj_del_idem [simp]: "obj_del k (obj_del k ps) = obj_del k ps"
  by (simp add: obj_del_def)

lemma id_no_index [simp]: "\<not> is_index ''id''"
  by (rule not_index_letter) (simp_all add: is_digit_def)

lemma del_with_id: "obj_del ''id'' (with_id i v) = obj_of (obj_del ''id'' (spread_of (js_or v (JObj []))))"
proof -
  have "del_rel ''id'' [(''id'', JNum (Fin (of_nat i)))] []"
    by (rule del_relI[where I = "[]" and M = "[(''id'', JNum (Fin (of_nat i)))]"]) (simp_all add: obj_del_def)
  from del_rel_del[OF del_rel_spread[OF this id_no_index]] show ?thesis by (simp add: with_id_def obj_of_def)
qed

lemma del_obj_of: "obj_of (obj_del ''id'' ps) = obj_del ''id'' (obj_of ps)"
proof -
  have "del_rel ''id'' [] []" by (simp add: del_rel_def obj_del_def)
  from del_rel_del[OF del_rel_spread[OF this id_no_index]] show ?thesis unfolding obj_of_def by (rule sym)
qed

lemma del_set_id [simp]: "obj_del ''id'' (obj_set ''id'' v r) = obj_del ''id'' r"
  by (auto simp: obj_set_def obj_del_def filter_map comp_def case_prod_beta' intro: map_idI) 

end
