(* ===== verification/AffinityReach.thy ===== *)
theory AffinityReach
  imports AffinityFacts
begin

text \<open>
  The channel affinity page as a step relation, its invariant, and what follows for saving. The numbers in the texts that come in are
  assumed to read back, as every double does by ECMA-262, and the elements of an array of rules to be objects.
\<close>

section \<open>Steps\<close>

definition text_ok :: "string \<Rightarrow> bool" where
  "text_ok t \<longleftrightarrow> (case json_parse (or_empty_array t) of
     None \<Rightarrow> True
   | Some v \<Rightarrow> json_safe v \<and> (case v of JArr vs \<Rightarrow> list_all (\<lambda>x. truthy x \<longrightarrow> as_object x \<noteq> None) vs | _ \<Rightarrow> True))"

definition draft_ok :: "string \<Rightarrow> bool" where
  "draft_ok t \<longleftrightarrow> (case json_parse (trim t) of Some v \<Rightarrow> json_safe v | None \<Rightarrow> True)"

definition form_ok :: "rule_form \<Rightarrow> bool" where
  "form_ok f \<longleftrightarrow> num_ok (number_text (rf_ttl_seconds f))"

definition options_ok :: "af_options \<Rightarrow> bool" where
  "options_ok opts \<longleftrightarrow> (case opts KEY_RULES of Some v \<Rightarrow> text_ok (option_rules v) | None \<Rightarrow> True)"

inductive af_step :: "af_state \<Rightarrow> af_state \<Rightarrow> bool" where
  Load: "options_ok opts \<Longrightarrow> af_step s (after_render s (options_effect opts s))"
| Type: "text_ok t \<Longrightarrow> af_editMode s = JsonText \<Longrightarrow> af_step s (after_render s (typeRules t s))"
| ToJson: "af_step s (after_render s (af_switchToJsonMode s))"
| ToVisual: "af_step s (after_render s (af_switchToVisualMode s))"
| Enabled: "af_step s (after_render s (setEnabled b s))"
| Switch: "af_step s (after_render s (setSwitch b s))"
| MaxEntries: "af_step s (after_render s (setMaxEntries v s))"
| DefaultTTL: "af_step s (after_render s (setDefaultTTL v s))"
| Append: "af_step s (after_render s (doAppend now s))"
| Delete: "af_step s (after_render s (handleDeleteRule ident s))"
| Add: "af_step s (after_render s (openAddModal s))"
| Edit: "r \<in> set (af_rules s) \<Longrightarrow> af_step s (after_render s (handleEditRule r s))"
| Save: "(case vals of Some f \<Rightarrow> form_ok f | None \<Rightarrow> True) \<Longrightarrow> af_step s (after_render s (handleModalSave vals s))"
| Advanced: "af_step s (after_render s (setModalAdvanced keys s))"
| Editor: "af_step s (after_render s (setTemplateEditor b s))"
| Cancel: "af_step s (after_render s (cancelModal s))"
| Name: "af_step s (after_render s (typeName t s))"
| Source: "af_step s (after_render s (updateKeySource i patch s))"
| AddSource: "af_step s (after_render s (addKeySource s))"
| RemoveSource: "af_step s (after_render s (removeKeySource i s))"
| Draft: "draft_ok t \<Longrightarrow> af_step s (after_render s (updateParamTemplateDraft t s))"
| Format: "af_step s (after_render s (formatParamTemplateDraft s))"
| Template: "draft_ok t \<Longrightarrow> af_step s (after_render s (saveParamTemplate t s))"
| Preview: "af_step s (after_render s (snd (openParamTemplatePreview r s)))"
| Stats: "af_step s (after_render s (refreshCacheStats_begin s))"
| StatsEnd: "af_step s (after_render s (refreshCacheStats_end ans s))"
| Clear: "af_step s (after_render s (snd (confirmClearRuleCache r s)))"
| ClearEnd: "af_step s (after_render s (clearCache_end ans' s))"
| Submit: "af_step s (after_render s (snd (af_submit s)))"
| SubmitEnd: "af_step s (after_render s (snd (af_submit_end oks s)))"

inductive af_reach :: "af_state \<Rightarrow> bool" where
  Init: "af_reach initial_af"
| Step: "af_reach s \<Longrightarrow> af_step s s' \<Longrightarrow> af_reach s'"

section \<open>The invariant\<close>

text \<open>The rules of the table are those of the text, but for their identifiers.\<close>

definition shown_as :: "string \<Rightarrow> jsobj list \<Rightarrow> bool" where
  "shown_as t rs \<longleftrightarrow> map (obj_del ''id'') rs = map (obj_del ''id'') (parseRulesJson t)"

definition rules_ok :: "jsobj list \<Rightarrow> bool" where
  "rules_ok rs \<longleftrightarrow> list_all (\<lambda>r. rule_safe r \<and> obj_ok r) rs"

definition af_inv :: "af_state \<Rightarrow> bool" where
  "af_inv s \<longleftrightarrow> rules_ok (af_rules s) \<and> text_ok (rules_text s) \<and> draft_ok (af_templateDraft s) \<and> af_prevEditMode s = af_editMode s \<and>
     (af_modalVisible s \<longrightarrow> af_editingRule s \<noteq> None \<and> af_modalInitValues s \<noteq> None) \<and>
     (af_editMode s = Visual \<longrightarrow> shown_as (rules_text s) (af_rules s))"

lemma safe_with_id:
  assumes "json_safe v" "truthy v \<longrightarrow> as_object v \<noteq> None"
  shows "rule_safe (with_id i v) \<and> obj_ok (with_id i v)"
proof -
  obtain ps where ps: "js_or v (JObj []) = JObj ps" "obj_of ps = ps" "list_all (\<lambda>p. json_safe (snd p)) ps"
    using assms by (cases v) (auto simp: js_or_def obj_of_def obj_spread_def split: if_splits)
  have "obj_del ''id'' (with_id i v) = obj_del ''id'' ps" by (simp add: del_with_id ps(1) del_obj_of ps(2))
  moreover have "obj_of (obj_del ''id'' ps) = obj_del ''id'' ps" by (simp add: del_obj_of ps(2))
  moreover have "list_all (\<lambda>p. json_safe (snd p)) (obj_del ''id'' ps)" using ps(3) by (rule list_all_obj_del)
  moreover have "obj_ok (with_id i v)"
    unfolding with_id_def obj_spread_def by (rule obj.good_fold_put) (simp add: obj_ok_def)
  ultimately show ?thesis by (simp add: rule_safe_def)
qed

lemma parse_rules_ok: "text_ok t \<Longrightarrow> rules_ok (parseRulesJson t)"
  by (auto simp: text_ok_def parseRulesJson_def rules_ok_def list_all_iff in_set_enumerate_eq safe_with_id
      split: option.splits jsval.splits)

lemma shown_parse [simp]: "shown_as t (parseRulesJson t)"
  by (simp add: shown_as_def)

lemma shown_update:
  assumes "rules_ok rs"
  shows "shown_as (rulesToJson rs) rs \<and> text_ok (rulesToJson rs)"
proof
  have safe: "list_all rule_safe rs" using assms by (simp add: rules_ok_def list_all_iff)
  have "obj_del ''id'' (with_id i (JObj (obj_del ''id'' r))) = obj_del ''id'' r" if "r \<in> set rs" for i r
    using safe that by (simp add: del_with_id rule_safe_def list_all_iff)
  then show "shown_as (rulesToJson rs) rs"
    by (auto simp: shown_as_def parse_rules[OF safe] list_eq_iff_nth_eq nth_enumerate_eq)
  show "text_ok (rulesToJson rs)"
    using rules_value[OF safe] safe by (auto simp: text_ok_def or_empty_wrap rulesToJson_def rule_safe_def list_all_iff)
qed

lemma renumber_ok: "rules_ok rs \<Longrightarrow> rules_ok (renumber rs)"
  by (simp add: rules_ok_def renumber_def list_all_length nth_enumerate_eq rule_safe_def obj_ok_set)

text \<open>What a handler has to leave for the effects to restore the invariant.\<close>

lemma inv_after:
  assumes "rules_ok (af_rules s')" "text_ok (rules_text s')" "draft_ok (af_templateDraft s')" "af_prevEditMode s' = af_editMode s"
    "af_modalVisible s' \<longrightarrow> af_editingRule s' \<noteq> None \<and> af_modalInitValues s' \<noteq> None"
    "rules_text s' = rules_text s \<Longrightarrow> af_editMode s' = Visual \<Longrightarrow> af_editMode s = Visual \<Longrightarrow> shown_as (rules_text s') (af_rules s')"
  shows "af_inv (after_render s s')"
  using assms parse_rules_ok[OF assms(2)]
  by (auto simp: after_render_def parse_rules_effect_def mode_effect_def af_inv_def Let_def rules_text_def)

lemma inv_update_af:
  assumes "af_inv s" "rules_ok rs" "af_inputs s' = (af_inputs s)\<lparr>in_rules := rulesToJson rs\<rparr>" "af_rules s' = rs"
    "af_editMode s' = af_editMode s" "af_prevEditMode s' = af_prevEditMode s" "draft_ok (af_templateDraft s')"
    "af_modalVisible s' \<longrightarrow> af_editingRule s' \<noteq> None \<and> af_modalInitValues s' \<noteq> None"
  shows "af_inv (after_render s s')"
proof (rule inv_after)
  have "rules_text s' = rulesToJson rs" using assms(3) by (simp add: rules_text_def)
  then show "text_ok (rules_text s')" "shown_as (rules_text s') (af_rules s')" using shown_update[OF assms(2)] assms(4) by simp_all
qed (use assms in \<open>simp_all add: af_inv_def\<close>)

text \<open>A handler that leaves the rules, their text and the mode alone.\<close>

lemma inv_same_af:
  assumes "af_inv s" "af_rules s' = af_rules s" "in_rules (af_inputs s') = in_rules (af_inputs s)" "af_editMode s' = af_editMode s"
    "af_prevEditMode s' = af_prevEditMode s" "draft_ok (af_templateDraft s')"
    "af_modalVisible s' \<longrightarrow> af_editingRule s' \<noteq> None \<and> af_modalInitValues s' \<noteq> None"
  shows "af_inv (after_render s s')"
  using assms by (intro inv_after) (simp_all add: af_inv_def rules_text_def)

section \<open>Handlers\<close>

lemma inv_parts:
  assumes "af_inv s"
  shows "draft_ok (af_templateDraft s)" "af_modalVisible s \<Longrightarrow> af_editingRule s \<noteq> None \<and> af_modalInitValues s \<noteq> None" "rules_ok (af_rules s)"
  using assms by (simp_all add: af_inv_def)

lemma obj_or_safe:
  assumes "rule_safe r" "k \<noteq> ''id''" "obj_or JUndef k r \<noteq> JUndef"
  shows "json_safe (obj_or JUndef k r)"
proof -
  obtain v where v: "obj_get k r = Some v" using assms(3) by (cases "obj_get k r") (auto simp: obj_or_def)
  then have "(k, v) \<in> set (obj_del ''id'' r)" using assms(2) obj_get_in[of k r v] by (auto simp: obj_del_def)
  then show ?thesis using assms(1) v by (auto simp: rule_safe_def list_all_iff obj_or_def)
qed

lemma pretty_trimmed: "json_safe v \<Longrightarrow> trim (json_pretty v) = json_pretty v"
proof (cases v)
  case (JNum n)
  assume "json_safe v"
  then have "is_finite n" "list_all (\<lambda>c. \<not> js_ws c) (num_str n)" using JNum by (auto simp: num_ok_def list_all_iff num_char_def is_digit_def js_ws_def)
  then show ?thesis using JNum by (auto simp: json_pretty_def intro!: trim_id not_ws_all_trimmed)
qed (auto simp: json_pretty_def json_quote_def wrap_items_def trimmed_def js_ws_def intro!: trim_id)

lemma draft_pretty: "json_safe v \<Longrightarrow> draft_ok (json_pretty v)"
  by (simp add: draft_ok_def pretty_trimmed json_parse_pretty)

lemma draft_Nil [simp]: "draft_ok []"
  unfolding draft_ok_def by code_simp

lemma draft_template: "draft_ok t \<Longrightarrow> parseOptionalObjectJson t = Inr (Some qs) \<Longrightarrow> json_safe (JObj qs)"
  by (auto simp: draft_ok_def parseOptionalObjectJson_def Let_def split: if_splits option.splits jsval.splits)

text \<open>The draft that a form starts with.\<close>

lemma form_draft:
  assumes "buildModalFormValues r = Inr f" "truthy (obj_or JUndef ''param_override_template'' r) \<longrightarrow> json_safe (obj_or JUndef ''param_override_template'' r)"
  shows "draft_ok (rf_param_override_template_json f)"
  using assms draft_pretty by (auto simp: buildModalFormValues_def Let_def split: sum.splits)

lemma inv_open:
  assumes "af_inv s" "truthy (obj_or JUndef ''param_override_template'' r) \<longrightarrow> json_safe (obj_or JUndef ''param_override_template'' r)"
  shows "af_inv (after_render s (open_rule_modal r b s))"
proof (rule inv_same_af[OF assms(1)])
  show "draft_ok (af_templateDraft (open_rule_modal r b s))"
    using form_draft[OF _ assms(2)] inv_parts(1)[OF assms(1)] by (auto simp: open_rule_modal_def Let_def split: sum.split)
qed (use inv_parts(2)[OF assms(1)] in \<open>auto simp: open_rule_modal_def Let_def split: sum.split\<close>)

lemma edited_template: "edited_rule r = Inr r' \<Longrightarrow> obj_or JUndef ''param_override_template'' r' = obj_or JUndef ''param_override_template'' r"
  by (auto simp: edited_rule_def Let_def split: sum.splits)

lemma inv_edit:
  assumes "af_inv s" "r \<in> set (af_rules s)"
  shows "af_inv (after_render s (handleEditRule r s))"
proof (cases "edited_rule r")
  case (Inl e)
  then show ?thesis using inv_parts[OF assms(1)] by (intro inv_same_af[OF assms(1)]) (simp_all add: handleEditRule_def)
next
  case (Inr r')
  have "rule_safe r" using assms by (simp add: af_inv_def rules_ok_def list_all_iff)
  then have "truthy (obj_or JUndef ''param_override_template'' r) \<longrightarrow> json_safe (obj_or JUndef ''param_override_template'' r)"
    by (auto intro!: obj_or_safe)
  then show ?thesis using inv_open[OF assms(1), of r' True] by (simp add: handleEditRule_def Inr edited_template[OF Inr])
qed

text \<open>A rule from the dialogue can be written.\<close>

lemma source_safe: "normalizeKeySource x = Inr x \<Longrightarrow> json_safe x"
proof -
  assume "normalizeKeySource x = Inr x"
  then obtain ty k p where "x = key_source ty k p" by (auto simp: normalizeKeySource_def split: sum.splits if_splits)
  moreover have "json_safe (key_source ty k p)"
    unfolding key_source_def by (rule json_safe_obj) (simp_all add: plain_keys_def not_index_letter is_digit_def)
  ultimately show ?thesis by simp
qed

lemma checked_safe:
  assumes "checked_rule f draft sources ident = Inr r" "form_ok f" "draft_ok draft"
  shows "rule_safe r \<and> obj_ok r"
  using assms(1)
proof (rule checked_parts)
  fix nm re ms ps xs us t
  assume r: "r = [(''id'', ident), (''name'', JStr nm), (''model_regex'', JArr (map JStr ms)),
            (''path_regex'', JArr (map JStr ps)), (''key_sources'', JArr xs), (''value_regex'', JStr re),
            (''ttl_seconds'', JNum (number_text (rf_ttl_seconds f))),
            (''include_using_group'', JBool (truthy (rf_include_using_group f))),
            (''include_model_name'', JBool (truthy (rf_include_model_name f))),
            (''include_rule_name'', JBool (truthy (rf_include_rule_name f))),
            (''skip_retry_on_failure'', JBool (truthy (rf_skip_retry_on_failure f)))]
           @ (if us \<noteq> [] then [(''user_agent_include'', JArr (map JStr us))] else [])
           @ (case t of Some ps \<Rightarrow> [(''param_override_template'', JObj ps)] | None \<Rightarrow> [])"
    and ok: "sources_ok xs" "parseOptionalObjectJson draft = Inr t"
  have "list_all json_safe xs" using ok(1) source_safe by (auto simp: sources_ok_def list_all_iff)
  moreover have "json_safe (JObj qs)" if "t = Some qs" for qs using draft_template[OF assms(3)] ok(2) that by blast
  ultimately have written: "list_all (\<lambda>p. json_safe (snd p)) (obj_del ''id'' r)"
    using assms(2) by (auto simp: r obj_del_def form_ok_def list_all_iff split: option.split)
  have "plain_keys (obj_del ''id'' r)"
    by (auto simp: plain_keys_def r obj_del_def not_index_letter is_digit_def split: option.split)
  then have "rule_safe r" unfolding rule_safe_def using written by (rule json_safe_obj)
  moreover have "obj_ok r" by (auto simp: obj_ok_def r split: option.split)
  ultimately show ?thesis ..
qed

lemma template_safe: "json_safe template \<Longrightarrow> json_safe (JObj (affinity_template nm m p src template))"
  by (rule json_safe_obj)
     (auto simp: affinity_template_def plain_keys_def not_index_letter is_digit_def num_ok_int[of 0, simplified] obj_of_plain)

lemma pass_headers_safe: "json_safe (buildPassHeadersTemplate hs)"
  unfolding buildPassHeadersTemplate_def
  by (rule json_safe_obj) (auto simp: plain_keys_def not_index_letter is_digit_def list_all_iff obj_of_plain)

lemma templates_safe: "json_safe (JObj codexCli)" "json_safe (JObj claudeCli)"
  unfolding codexCli_def claudeCli_def CODEX_CLI_HEADER_PASSTHROUGH_TEMPLATE_def CLAUDE_CLI_HEADER_PASSTHROUGH_TEMPLATE_def
  by (rule template_safe, rule pass_headers_safe)+

lemma clone_templates: "cloneChannelAffinityTemplate (JObj codexCli) = codexCli" "cloneChannelAffinityTemplate (JObj claudeCli) = claudeCli"
  using json_parse_stringify[OF templates_safe(1)] json_parse_stringify[OF templates_safe(2)] by (simp_all add: cloneChannelAffinityTemplate_def)

lemma template_name: "obj_or JUndef ''name'' codexCli = JStr ''codex cli trace''" "obj_or JUndef ''name'' claudeCli = JStr ''claude cli trace''"
  by (simp_all add: codexCli_def claudeCli_def affinity_template_def obj_or_def obj_get_def)

lemma named_template:
  "obj_set ''name'' (JStr n) (affinity_template nm m p src template) = affinity_template n m p src template"
  by (simp add: affinity_template_def obj_set_def obj_has_def)

lemma template_rule_ok: "json_safe template \<Longrightarrow> rule_safe (affinity_template nm m p src template) \<and> obj_ok (affinity_template nm m p src template)"
  using template_safe[of template nm m p src] unfolding rule_safe_def
  by (simp add: affinity_template_def obj_del_def obj_ok_def)

lemma named_templates_eq:
  "named_templates now used [codexCli, claudeCli] =
     (let a = makeUniqueName used ''codex cli trace'' now; b = makeUniqueName (a # used) ''claude cli trace'' now in
      [affinity_template a ''^gpt-.*$'' ''/v1/responses'' ''prompt_cache_key'' CODEX_CLI_HEADER_PASSTHROUGH_TEMPLATE,
       affinity_template b ''^claude-.*$'' ''/v1/messages'' ''metadata.user_id'' CLAUDE_CLI_HEADER_PASSTHROUGH_TEMPLATE])"
  by (simp add: Let_def clone_templates template_name) (simp add: codexCli_def claudeCli_def named_template)

lemma append_ok:
  assumes "rules_ok rs" "append_templates now rs = Inr rs'"
  shows "rules_ok rs'"
proof -
  obtain used where n: "rs' = renumber (rs @ named_templates now used [codexCli, claudeCli])"
    using assms(2) by (auto simp: append_templates_def split: sum.splits)
  have "json_safe CODEX_CLI_HEADER_PASSTHROUGH_TEMPLATE" "json_safe CLAUDE_CLI_HEADER_PASSTHROUGH_TEMPLATE"
    by (simp_all add: CODEX_CLI_HEADER_PASSTHROUGH_TEMPLATE_def CLAUDE_CLI_HEADER_PASSTHROUGH_TEMPLATE_def pass_headers_safe del: json_safe.simps)
  then have "rules_ok (named_templates now used [codexCli, claudeCli])"
    by (simp add: named_templates_eq Let_def rules_ok_def template_rule_ok del: named_templates.simps)
  then show ?thesis using assms(1) unfolding n by (intro renumber_ok) (simp add: rules_ok_def del: named_templates.simps)
qed

lemma saved_rules_ok:
  assumes "rules_ok (af_rules s)" "rule_safe p \<and> obj_ok p" "saved_rules p s = Inr rs'"
  shows "rules_ok rs'"
  using assms set_update_subset_insert by (fastforce simp: saved_rules_def rules_ok_def list_all_iff split: if_splits sum.splits option.splits)

lemma update_simps [simp]:
  "af_rules (updateRulesState rs s) = rs" "af_inputs (updateRulesState rs s) = (af_inputs s)\<lparr>in_rules := rulesToJson rs\<rparr>"
  "af_editMode (updateRulesState rs s) = af_editMode s" "af_prevEditMode (updateRulesState rs s) = af_prevEditMode s"
  "af_templateDraft (updateRulesState rs s) = af_templateDraft s" "af_modalVisible (updateRulesState rs s) = af_modalVisible s"
  "af_editingRule (updateRulesState rs s) = af_editingRule s" "af_modalInitValues (updateRulesState rs s) = af_modalInitValues s"
  "af_toasts (updateRulesState rs s) = af_toasts s" "af_isEdit (updateRulesState rs s) = af_isEdit s"
  by (simp_all add: updateRulesState_def set_rules_text_def Let_def)

lemma toast_simps [simp]:
  "af_rules (af_toast m s) = af_rules s" "af_inputs (af_toast m s) = af_inputs s" "af_editMode (af_toast m s) = af_editMode s"
  "af_prevEditMode (af_toast m s) = af_prevEditMode s" "af_templateDraft (af_toast m s) = af_templateDraft s"
  "af_modalVisible (af_toast m s) = af_modalVisible s" "af_editingRule (af_toast m s) = af_editingRule s"
  "af_modalInitValues (af_toast m s) = af_modalInitValues s"
  by (simp_all add: af_toast_def)

definition save_ident :: "af_state \<Rightarrow> jsval" where
  "save_ident s = (if af_isEdit s then editing_at ''id'' s else JNum (Fin (of_nat (length (af_rules s)))))"

lemma modal_save_cases:
  obtains (failed) e where "handleModalSave vals s = af_toast (AfSaveError e) s"
  | (saved) f r rs' where "vals = Some f" "checked_rule f (af_templateDraft s) (editing_at ''key_sources'' s) (save_ident s) = Inr r"
      "saved_rules r s = Inr rs'"
      "handleModalSave vals s = af_toast AfSaved ((updateRulesState (renumber rs') s)
          \<lparr>af_modalVisible := False, af_editingRule := None, af_modalInitValues := None, af_templateDraft := [], af_templateEditor := False\<rparr>)"
proof (cases vals)
  case None
  then show thesis using failed[of InputThrows] by (simp add: handleModalSave_def)
next
  case (Some f)
  show thesis
  proof (cases "checked_rule f (af_templateDraft s) (editing_at ''key_sources'' s) (save_ident s)")
    case (Inl e)
    then show thesis using failed[of e] Some by (simp add: handleModalSave_def save_ident_def)
  next
    case (Inr r)
    then show thesis
      using failed[of "projl (saved_rules r s)"] saved[OF Some Inr] Some
      by (cases "saved_rules r s") (simp_all add: handleModalSave_def save_ident_def)
  qed
qed

lemma inv_save:
  assumes "af_inv s" "case vals of Some f \<Rightarrow> form_ok f | None \<Rightarrow> True"
  shows "af_inv (after_render s (handleModalSave vals s))"
proof -
  note p = inv_parts[OF assms(1)]
  show ?thesis
  proof (rule modal_save_cases[of vals s])
    fix e assume e: "handleModalSave vals s = af_toast (AfSaveError e) s"
    show ?thesis unfolding e using p by (intro inv_same_af[OF assms(1)]) simp_all
  next
    fix f r rs'
    assume v: "vals = Some f" and r: "checked_rule f (af_templateDraft s) (editing_at ''key_sources'' s) (save_ident s) = Inr r"
      "saved_rules r s = Inr rs'"
      and eq: "handleModalSave vals s = af_toast AfSaved ((updateRulesState (renumber rs') s)
          \<lparr>af_modalVisible := False, af_editingRule := None, af_modalInitValues := None, af_templateDraft := [], af_templateEditor := False\<rparr>)"
    have "form_ok f" using assms(2) v by simp
    then have "rules_ok (renumber rs')" using renumber_ok[OF saved_rules_ok[OF p(3) checked_safe[OF r(1) _ p(1)] r(2)]] by simp
    then show ?thesis unfolding eq by (intro inv_update_af[OF assms(1)]) simp_all
  qed
qed

lemma set_editing_simps [simp]:
  "af_rules (set_editing k v s) = af_rules s" "af_inputs (set_editing k v s) = af_inputs s" "af_editMode (set_editing k v s) = af_editMode s"
  "af_prevEditMode (set_editing k v s) = af_prevEditMode s" "af_templateDraft (set_editing k v s) = af_templateDraft s"
  "af_modalVisible (set_editing k v s) = af_modalVisible s" "\<exists>r. af_editingRule (set_editing k v s) = Some r"
  "af_modalInitValues (set_editing k v s) = af_modalInitValues s"
  by (simp_all add: set_editing_def)

lemma inv_sources:
  assumes "af_inv s"
  shows "af_inv (after_render s (typeName t s))" "af_inv (after_render s (updateKeySource i patch s))"
    "af_inv (after_render s (addKeySource s))" "af_inv (after_render s (removeKeySource i s))"
proof -
  have step: "af_inv (after_render s s')" if "s' = s \<or> (\<exists>k v. s' = set_editing k v s)" for s'
    using that inv_parts[OF assms] by (auto intro!: inv_same_af[OF assms])
  show "af_inv (after_render s (typeName t s))" by (rule step) (auto simp: typeName_def)
  show "af_inv (after_render s (updateKeySource i patch s))"
    by (rule step) (fastforce simp: updateKeySource_def split: sum.splits if_splits)
  show "af_inv (after_render s (addKeySource s))" by (rule step) (fastforce simp: addKeySource_def split: sum.splits)
  show "af_inv (after_render s (removeKeySource i s))" by (rule step) (fastforce simp: removeKeySource_def split: sum.splits)
qed

lemma inv_load:
  assumes "af_inv s" "options_ok opts"
  shows "af_inv (after_render s (options_effect opts s))"
proof -
  have "text_ok (in_rules (options_inputs opts (af_inputs s)))"
    using assms by (auto simp: options_inputs_def read_option_def options_ok_def af_inv_def rules_text_def split: option.splits)
  then show ?thesis using inv_parts[OF assms(1)] assms(1)
    by (intro inv_after) (simp_all add: options_effect_def refreshCacheStats_begin_def Let_def rules_text_def parse_rules_ok af_inv_def)
qed

lemma inv_modes:
  assumes "af_inv s"
  shows "af_inv (after_render s (af_switchToJsonMode s))" "af_inv (after_render s (af_switchToVisualMode s))"
proof -
  note p = inv_parts[OF assms]
  show "af_inv (after_render s (af_switchToJsonMode s))"
    using p assms shown_update[OF p(3)]
    by (intro inv_after) (simp_all add: af_switchToJsonMode_def set_rules_text_def rules_text_def af_inv_def)
  show "af_inv (after_render s (af_switchToVisualMode s))"
    using p assms by (intro inv_after) (simp_all add: af_switchToVisualMode_def rules_text_def af_inv_def split: sum.splits)
qed

lemma inv_append:
  assumes "af_inv s"
  shows "af_inv (after_render s (doAppend now s))"
proof (cases "append_templates now (af_rules s)")
  case (Inl e)
  then show ?thesis using inv_parts[OF assms] by (intro inv_same_af[OF assms]) (simp_all add: doAppend_def)
next
  case (Inr rs')
  then show ?thesis using inv_parts[OF assms] append_ok[OF _ Inr] by (intro inv_update_af[OF assms, of rs']) (simp_all add: doAppend_def)
qed

lemma inv_delete:
  assumes "af_inv s"
  shows "af_inv (after_render s (handleDeleteRule ident s))"
proof -
  have "rules_ok (filter (\<lambda>r. \<not> strict_eq (rule_id r) ident) (af_rules s))"
    using inv_parts(3)[OF assms] by (simp add: rules_ok_def list_all_iff)
  from renumber_ok[OF this] show ?thesis using inv_parts[OF assms]
    by (intro inv_update_af[OF assms, of "renumber (filter (\<lambda>r. \<not> strict_eq (rule_id r) ident) (af_rules s))"]) (simp_all add: handleDeleteRule_def)
qed

lemma inv_format:
  assumes "af_inv s"
  shows "af_inv (after_render s (formatParamTemplateDraft s))"
proof (rule inv_same_af[OF assms])
  show "draft_ok (af_templateDraft (formatParamTemplateDraft s))"
    using inv_parts(1)[OF assms]
    by (auto simp: formatParamTemplateDraft_def updateParamTemplateDraft_def Let_def draft_ok_def[of "af_templateDraft s"] draft_pretty
        split: option.splits)
qed (use inv_parts[OF assms] in \<open>auto simp: formatParamTemplateDraft_def updateParamTemplateDraft_def Let_def split: option.split\<close>)

lemma template_free: "obj_or JUndef ''param_override_template'' new_rule = JUndef"
  by (simp add: new_rule_def obj_or_def obj_get_def)

lemma af_step_inv:
  assumes "af_step s s'" "af_inv s"
  shows "af_inv s'"
proof -
  note p = inv_parts[OF assms(2)]
  note same = inv_same_af[OF assms(2)]
  from assms(1) show ?thesis
  proof cases
    case (Type t)
    show ?thesis unfolding Type(1) using p assms(2) Type(2,3)
      by (intro inv_after) (simp_all add: typeRules_def set_rules_text_def rules_text_def af_inv_def)
  next
    case Enabled
    then show ?thesis using p by (auto simp: setEnabled_def intro!: same)
  next
    case Switch
    then show ?thesis using p by (auto simp: setSwitch_def intro!: same)
  next
    case MaxEntries
    then show ?thesis using p by (auto simp: setMaxEntries_def intro!: same)
  next
    case DefaultTTL
    then show ?thesis using p by (auto simp: setDefaultTTL_def intro!: same)
  next
    case Advanced
    then show ?thesis using p by (auto simp: setModalAdvanced_def intro!: same)
  next
    case Editor
    then show ?thesis using p by (auto simp: setTemplateEditor_def intro!: same)
  next
    case Cancel
    then show ?thesis using p by (auto simp: cancelModal_def intro!: same)
  next
    case Draft
    then show ?thesis using p by (auto simp: updateParamTemplateDraft_def intro!: same)
  next
    case Template
    then show ?thesis using p by (auto simp: saveParamTemplate_def updateParamTemplateDraft_def intro!: same)
  next
    case Preview
    then show ?thesis using p by (auto simp: openParamTemplatePreview_def intro!: same split: jsval.split)
  next
    case Stats
    then show ?thesis using p by (auto simp: refreshCacheStats_begin_def intro!: same)
  next
    case StatsEnd
    then show ?thesis using p by (auto simp: refreshCacheStats_end_def intro!: same split: reply.split)
  next
    case Clear
    then show ?thesis using p by (auto simp: confirmClearRuleCache_def intro!: same split: sum.split)
  next
    case ClearEnd
    then show ?thesis using p by (auto simp: clearCache_end_def refreshCacheStats_begin_def intro!: same split: reply.split)
  next
    case Submit
    then show ?thesis using p by (auto simp: af_submit_def Let_def intro!: same split: option.split)
  next
    case SubmitEnd
    then show ?thesis using p by (auto simp: af_submit_end_def Let_def intro!: same split: option.split)
  qed (use assms(2) in \<open>simp_all add: inv_load inv_modes inv_append inv_delete inv_open inv_edit inv_save inv_format openAddModal_def
        inv_sources template_free\<close>)
qed

lemma start_texts: "text_ok ''[]''" "parseRulesJson ''[]'' = []"
  by code_simp+

lemma af_reach_inv: "af_reach s \<Longrightarrow> af_inv s"
proof (induction rule: af_reach.induct)
  case Init
  show ?case by (simp add: af_inv_def initial_af_def rules_ok_def rules_text_def default_inputs_def shown_as_def start_texts)
next
  case (Step s s')
  then show ?case by (blast intro: af_step_inv)
qed

end
