(* ===== verification/AffinityProps.thy ===== *)
theory AffinityProps
  imports AffinityReach
begin

text \<open>
  The properties of the channel affinity page: what the table shows is what a save sends, the dialogue saves only complete rules and
  keeps a rule that is not changed, a save is read back, and edits of the text that the page throws away.
\<close>

section \<open>Table and text\<close>

text \<open>C18. In every reachable state of the channel affinity page the properties of a rule are distinct, an open dialogue has a rule and initial
  values, and in the visual mode the table shows exactly the rules of the text that a save sends, in order and but for their identifiers.\<close>

theorem affinity_invariant:
  assumes "af_reach s"
  shows "list_all obj_ok (af_rules s) \<and> af_prevEditMode s = af_editMode s \<and>
    (af_modalVisible s \<longrightarrow> af_editingRule s \<noteq> None \<and> af_modalInitValues s \<noteq> None) \<and>
    (af_editMode s = Visual \<longrightarrow> map (obj_del ''id'') (af_rules s) = map (obj_del ''id'') (parseRulesJson (rules_text s)))"
  using af_reach_inv[OF assms] by (auto simp: af_inv_def rules_ok_def list_all_iff shown_as_def)

definition small_options :: af_options where
  "small_options k = (if k = KEY_RULES then Some (JStr (json_stringify (JArr [JObj [(''name'', JStr ''a'')]]))) else None)"

definition loaded :: af_state where
  "loaded = after_render initial_af (options_effect small_options initial_af)"

lemma loaded_reach: "af_reach loaded"
proof -
  have "options_ok small_options" by code_simp
  from af_reach.Step[OF af_reach.Init Load[OF this]] show ?thesis unfolding loaded_def .
qed

theorem affinity_invariant_witness:
  "map (obj_del ''id'') (parseRulesJson (rules_text loaded)) = [[(''name'', JStr ''a'')]] \<and> list_all obj_ok (af_rules loaded)"
proof -
  have "af_editMode loaded = Visual" "map (obj_del ''id'') (af_rules loaded) = [[(''name'', JStr ''a'')]]" by code_simp+
  then show ?thesis using affinity_invariant[OF loaded_reach] by simp
qed

section \<open>The dialogue\<close>

text \<open>Identifiers are positions.\<close>

definition numbered :: "jsobj list \<Rightarrow> bool" where
  "numbered rs \<longleftrightarrow> map rule_id rs = map (\<lambda>i. JNum (Fin (of_nat i))) [0..<length rs]"

lemma numbered_at: "numbered rs \<Longrightarrow> i < length rs \<Longrightarrow> rule_id (rs ! i) = JNum (Fin (of_nat i))"
  unfolding numbered_def by (drule arg_cong[where f = "\<lambda>xs. xs ! i"]) simp

lemma numbered_renumber: "numbered (renumber rs)"
  unfolding numbered_def by (rule nth_equalityI) (simp_all add: renumber_def rule_id_def nth_enumerate_eq)

lemma obj_set_same: "obj_ok r \<Longrightarrow> obj_get k r = Some v \<Longrightarrow> obj_set k v r = r"
proof -
  assume a: "obj_ok r" "obj_get k r = Some v"
  then have "map (\<lambda>(j, w). if j = k then (j, v) else (j, w)) r = r" using obj_get_of_mem[OF a(1), of k] by (intro map_idI) auto
  then show ?thesis using a(2) by (simp add: obj_set_def obj_has_get)
qed

lemma renumber_same:
  assumes "numbered rs" "list_all obj_ok rs"
  shows "renumber rs = rs"
proof -
  have "obj_set ''id'' (JNum (Fin (of_nat i))) (rs ! i) = rs ! i" if "i < length rs" for i
    using numbered_at[OF assms(1) that] assms(2) that
    by (intro obj_set_same) (auto simp: rule_id_def obj_or_def list_all_length split: option.splits)
  then show ?thesis by (simp add: renumber_def list_eq_iff_nth_eq nth_enumerate_eq)
qed

lemma find_index_first: "i < length xs \<Longrightarrow> P (xs ! i) \<Longrightarrow> (\<forall>j<i. \<not> P (xs ! j)) \<Longrightarrow> find_index P xs = Some i"
proof (induction xs arbitrary: i)
  case (Cons x xs)
  show ?case
  proof (cases i)
    case (Suc j)
    then have "find_index P xs = Some j" using Cons.prems by (intro Cons.IH) auto
    then show ?thesis using Cons.prems(3) Suc by auto
  qed (use Cons.prems in simp)
qed simp

lemma find_index_length: "find_index P xs = Some i \<Longrightarrow> i < length xs"
  by (induction xs arbitrary: i) (auto split: if_splits)

lemma find_index_sum_length: "find_index_sum P xs = Inr (Some i) \<Longrightarrow> i < length xs"
  by (induction xs arbitrary: i) (auto split: sum.splits bool.splits)

lemma edited_index_length: "edited_index r rs = Inr (Some i) \<Longrightarrow> i < length rs"
  by (auto simp: edited_index_def find_index_length find_index_sum_length split: option.splits if_splits)

text \<open>C19. The dialogue either leaves the table and its text as they are and names the problem, or it closes and replaces or adds exactly one rule;
  that rule has a name and at least one pattern for models, all patterns are non-empty trimmed lines, its sources are in normal form, of a
  known type and complete, and its template is an object. Afterwards the identifiers are the positions and the text is that of the table.\<close>

theorem affinity_rule_saved:
  "(\<exists>e. handleModalSave vals s = af_toast (AfSaveError e) s) \<or>
   (let s' = handleModalSave vals s in
      (\<exists>r. rule_valid r \<and> (if af_isEdit s then \<exists>i. i < length (af_rules s) \<and> af_rules s' = renumber ((af_rules s)[i := r])
                           else af_rules s' = renumber (af_rules s @ [r]))) \<and>
      numbered (af_rules s') \<and> rules_text s' = rulesToJson (af_rules s') \<and> \<not> af_modalVisible s' \<and> af_toasts s' = AfSaved # af_toasts s)"
proof (rule modal_save_cases[of vals s])
  fix f r rs'
  assume r: "checked_rule f (af_templateDraft s) (editing_at ''key_sources'' s) (save_ident s) = Inr r" "saved_rules r s = Inr rs'"
    and eq: "handleModalSave vals s = af_toast AfSaved ((updateRulesState (renumber rs') s)
          \<lparr>af_modalVisible := False, af_editingRule := None, af_modalInitValues := None, af_templateDraft := [], af_templateEditor := False\<rparr>)"
  have "if af_isEdit s then \<exists>i. i < length (af_rules s) \<and> rs' = (af_rules s)[i := r] else rs' = af_rules s @ [r]"
    using r(2) by (auto simp: saved_rules_def dest: edited_index_length split: if_splits sum.splits option.splits)
  then show ?thesis unfolding eq using checked_valid[OF r(1)] numbered_renumber
    by (intro disjI2) (auto simp: Let_def rules_text_def af_toast_def split: if_splits)
qed blast

text \<open>C20. Opening a rule that the dialogue saved and pressing save without a change keeps the table and its text, whatever the rule holds.\<close>

theorem affinity_edit_unchanged:
  assumes "numbered (af_rules s)" "list_all obj_ok (af_rules s)" "i < length (af_rules s)"
    "checked_rule f draft sources (rule_id (af_rules s ! i)) = Inr (af_rules s ! i)" "rule_safe (af_rules s ! i)"
    "number_text (rf_ttl_seconds f) \<noteq> NaN"
  shows "let s1 = handleEditRule (af_rules s ! i) s; s2 = handleModalSave (af_modalInitValues s1) s1 in
    af_modalVisible s1 \<and> \<not> af_modalVisible s2 \<and> af_toasts s2 = AfSaved # af_toasts s \<and> af_rules s2 = af_rules s \<and>
    rules_text s2 = rulesToJson (af_rules s)"
proof -
  define r where "r = af_rules s ! i"
  obtain r' f' where e: "edited_rule r = Inr r'" "buildModalFormValues r' = Inr f'" "rule_id r' = rule_id r"
    "checked_rule f' (rf_param_override_template_json f') (obj_or JUndef ''key_sources'' r') (rule_id r) = Inr r"
    using rule_saved_again[OF assms(4-6)] unfolding r_def by blast
  define s1 where "s1 = handleEditRule r s"
  have s1: "af_rules s1 = af_rules s" "af_isEdit s1" "af_editingRule s1 = Some r'" "af_modalInitValues s1 = Some f'" "af_modalVisible s1"
    "af_templateDraft s1 = rf_param_override_template_json f'" "af_toasts s1 = af_toasts s"
    by (simp_all add: s1_def handleEditRule_def e(1,2) open_rule_modal_def Let_def)
  have ids: "rule_id (af_rules s ! j) = JNum (Fin (of_nat j))" if "j < length (af_rules s)" for j
    by (rule numbered_at[OF assms(1) that])
  have "edited_index r' (af_rules s) = Inr (Some i)"
    using find_index_first[of i "af_rules s" "\<lambda>x. strict_eq (rule_id x) (rule_id r')"] ids assms(3) e(3)
    by (simp add: edited_index_def r_def num_eq_def)
  then have "saved_rules r s1 = Inr (af_rules s)" by (simp add: saved_rules_def s1 r_def)
  moreover have "renumber (af_rules s) = af_rules s" by (rule renumber_same[OF assms(1,2)])
  ultimately have "handleModalSave (af_modalInitValues s1) s1 = af_toast AfSaved ((updateRulesState (af_rules s) s1)
      \<lparr>af_modalVisible := False, af_editingRule := None, af_modalInitValues := None, af_templateDraft := [], af_templateEditor := False\<rparr>)"
    using e(3,4) by (simp add: handleModalSave_def Let_def s1 editing_at_def rule_id_def)
  then show ?thesis using s1 by (simp add: Let_def s1_def r_def rules_text_def af_toast_def)
qed

definition sample_form :: rule_form where
  "sample_form =
     \<lparr>rf_name = JStr ''a'', rf_model_regex_text = JStr ''^gpt'', rf_path_regex_text = JStr [], rf_user_agent_include_text = JStr [],
      rf_value_regex = JStr [], rf_ttl_seconds = JNum (Fin 60), rf_skip_retry_on_failure = JBool False, rf_include_using_group = JBool True,
      rf_include_model_name = JBool False, rf_include_rule_name = JBool True, rf_param_override_template_json = []\<rparr>"

definition sample_source :: jsval where
  "sample_source = JArr [JObj [(''type'', JStr ''gjson''), (''path'', JStr ''user'')]]"

definition sample_rule :: jsobj where
  "sample_rule = (case checked_rule sample_form [] sample_source (JNum (Fin 0)) of Inr r \<Rightarrow> r | Inl _ \<Rightarrow> [])"

definition with_rule :: af_state where
  "with_rule = updateRulesState [sample_rule] initial_af"

theorem affinity_edit_unchanged_witness:
  "af_rules (handleModalSave (af_modalInitValues (handleEditRule sample_rule with_rule)) (handleEditRule sample_rule with_rule)) = [sample_rule]"
proof -
  have r: "checked_rule sample_form [] sample_source (JNum (Fin 0)) = Inr sample_rule" "rule_id sample_rule = JNum (Fin 0)"
    by code_simp+
  have "form_ok sample_form" by (simp add: form_ok_def sample_form_def number_again num_ok_int[of 60, simplified])
  from checked_safe[OF r(1) this draft_Nil] have ok: "rule_safe sample_rule" "obj_ok sample_rule" by simp_all
  have s: "af_rules with_rule = [sample_rule]" by (simp add: with_rule_def)
  have "number_text (rf_ttl_seconds sample_form) \<noteq> NaN" by code_simp
  then show ?thesis
    using affinity_edit_unchanged[of with_rule 0 sample_form "[]" sample_source] r ok s by (simp add: numbered_def Let_def)
qed

section \<open>Saving\<close>

text \<open>The texts of the requests are read back.\<close>

lemma written_texts:
  assumes "json_safe v"
  shows "json_parse (or_empty_array (json_pretty v)) = Some v \<and> option_rules (JStr (json_stringify v)) = json_pretty v"
proof -
  have none: "json_parse [] = None" by code_simp
  have "json_stringify v \<noteq> []" "json_pretty v \<noteq> []"
    using json_parse_stringify[OF assms] json_parse_pretty[OF assms] none by (metis option.distinct(1))+
  then show ?thesis
    using json_parse_stringify[OF assms] json_parse_pretty[OF assms]
    by (simp add: or_empty_array_def option_rules_def option_text_def js_or_def)
qed

lemma option_number_text:
  assumes "num_ok n"
  shows "option_number (JStr (num_str n)) = n"
proof -
  have "\<not> json_number_ok []" by code_simp
  then have "num_str n \<noteq> []" using assms by (auto simp: num_ok_def)
  then have "number_text (JStr (num_str n)) = n" using assms by (simp add: number_text_def js_or_def num_ok_def)
  moreover have "n \<noteq> NaN" using assms by (auto simp: num_ok_def)
  ultimately show ?thesis by (simp add: option_number_def num_truthy_def Let_def)
qed

lemma toBoolean_text: "toBoolean (JStr (bool_str b)) = b"
proof -
  have "toBoolean (JStr (bool_str True))" "\<not> toBoolean (JStr (bool_str False))" by code_simp+
  then show ?thesis by (cases b) simp_all
qed

lemma key_neq: "KEY_ENABLED \<noteq> KEY_RULES" "KEY_SWITCH_ON_SUCCESS \<noteq> KEY_RULES" "KEY_MAX_ENTRIES \<noteq> KEY_RULES" "KEY_DEFAULT_TTL \<noteq> KEY_RULES"
  by (simp_all add: KEY_ENABLED_def KEY_SWITCH_ON_SUCCESS_def KEY_MAX_ENTRIES_def KEY_DEFAULT_TTL_def KEY_RULES_def)

lemma input_texts:
  "input_text c i KEY_ENABLED = bool_str (in_enabled i)" "input_text c i KEY_SWITCH_ON_SUCCESS = bool_str (in_switch i)"
  "input_text c i KEY_MAX_ENTRIES = num_str (in_maxEntries i)" "input_text c i KEY_DEFAULT_TTL = num_str (in_defaultTTL i)"
  by (simp_all add: input_text_def KEY_ENABLED_def KEY_SWITCH_ON_SUCCESS_def KEY_MAX_ENTRIES_def KEY_DEFAULT_TTL_def KEY_RULES_def)

text \<open>C21. What a save sends is what the next load shows: when the options hold the texts of the requests, the table has the same rules as
  the text before the save, the other inputs that were sent come back as they were, and nothing is left to save.\<close>

theorem affinity_save_reload:
  assumes "af_reach s" "fst (af_submit s) = reqs" "reqs \<noteq> []" "\<forall>(k, t) \<in> set reqs. opts k = Some (JStr t)"
    "num_ok (in_maxEntries (af_inputs s))" "num_ok (in_defaultTTL (af_inputs s))"
  shows "let keys = map fst reqs; i = af_inputs s; j = af_inputs (options_effect opts s') in
    (KEY_RULES \<in> set keys \<longrightarrow> af_rules (options_effect opts s') = parseRulesJson (rules_text s)) \<and>
    (KEY_ENABLED \<in> set keys \<longrightarrow> in_enabled j = in_enabled i) \<and> (KEY_SWITCH_ON_SUCCESS \<in> set keys \<longrightarrow> in_switch j = in_switch i) \<and>
    (KEY_MAX_ENTRIES \<in> set keys \<longrightarrow> in_maxEntries j = in_maxEntries i) \<and>
    (KEY_DEFAULT_TTL \<in> set keys \<longrightarrow> in_defaultTTL j = in_defaultTTL i) \<and>
    af_inputsRow (options_effect opts s') = j"
proof -
  define changed where "changed = compareObjects (af_inputs s) (af_inputsRow s)"
  obtain v where v: "json_parse (or_empty_array (rules_text s)) = Some v"
    "reqs = map (\<lambda>k. (k, input_text (json_stringify v) (af_inputs s) k)) changed"
    using assms(2,3) by (auto simp: af_submit_def changed_def Let_def split: if_splits option.splits)
  have keys: "map fst reqs = changed" by (simp add: v(2) comp_def)
  have opt: "opts k = Some (JStr (input_text (json_stringify v) (af_inputs s) k))" if "k \<in> set changed" for k
    using assms(4) that by (auto simp: v(2))
  have "json_safe v" using af_reach_inv[OF assms(1)] v(1) by (simp add: af_inv_def text_ok_def)
  have read: "parseRulesJson t = (case v of JArr vs \<Rightarrow> map (\<lambda>(i, v). with_id i v) (enumerate 0 vs) | _ \<Rightarrow> [])"
    if "json_parse (or_empty_array t) = Some v" for t
    using that by (simp add: parseRulesJson_def)
  have rules: "parseRulesJson (option_rules (JStr (json_stringify v))) = parseRulesJson (rules_text s)"
    using read[OF v(1)] read[of "json_pretty v"] written_texts[OF \<open>json_safe v\<close>] by simp
  have opt_rules: "KEY_RULES \<in> set changed \<Longrightarrow> opts KEY_RULES = Some (JStr (json_stringify v))"
    using opt by (simp add: input_text_def)
  have others: "k \<in> set changed \<Longrightarrow> k \<noteq> KEY_RULES \<Longrightarrow> opts k = Some (JStr (input_text [] (af_inputs s) k))" for k
    using opt by (simp add: input_text_def)
  show ?thesis unfolding Let_def keys
    using opt_rules rules others[OF _ key_neq(1)] others[OF _ key_neq(2)] others[OF _ key_neq(3)] others[OF _ key_neq(4)]
      option_number_text[OF assms(5)] option_number_text[OF assms(6)]
    by (simp add: options_effect_def refreshCacheStats_begin_def Let_def options_inputs_def read_option_def input_texts toBoolean_text)
qed

definition switched_requests :: "(string \<times> string) list" where
  "switched_requests = [(KEY_SWITCH_ON_SUCCESS, ''false''), (KEY_RULES, ''[]'')]"

theorem affinity_save_reload_witness:
  "af_rules (options_effect (\<lambda>k. map_option JStr (map_of switched_requests k)) initial_af) = [] \<and>
   \<not> in_switch (af_inputs (options_effect (\<lambda>k. map_option JStr (map_of switched_requests k)) initial_af))"
proof -
  define deleted where "deleted = after_render loaded (handleDeleteRule (JNum (Fin 0)) loaded)"
  define s where "s = after_render deleted (setSwitch False deleted)"
  have "af_reach deleted" unfolding deleted_def by (rule af_reach.Step[OF loaded_reach Delete])
  then have reach: "af_reach s" unfolding s_def by (rule af_reach.Step) (rule Switch)
  have reqs: "fst (af_submit s) = switched_requests" unfolding s_def deleted_def by code_simp
  have shown: "parseRulesJson (rules_text s) = []" "in_switch (af_inputs s) = False" unfolding s_def deleted_def by code_simp+
  have "in_maxEntries (af_inputs s) = Fin 100000" "in_defaultTTL (af_inputs s) = Fin 3600" unfolding s_def deleted_def by code_simp+
  then have nums: "num_ok (in_maxEntries (af_inputs s))" "num_ok (in_defaultTTL (af_inputs s))"
    using num_ok_int[of 100000] num_ok_int[of 3600] by simp_all
  have "\<forall>(k, t) \<in> set switched_requests. map_option JStr (map_of switched_requests k) = Some (JStr t)"
    by (simp add: switched_requests_def KEY_SWITCH_ON_SUCCESS_def KEY_RULES_def)
  from affinity_save_reload[OF reach reqs _ this nums, of initial_af] show ?thesis
    using shown by (simp add: Let_def switched_requests_def)
qed

section \<open>What is lost\<close>



text \<open>An identifier in the text replaces the position, and deleting a rule then removes every rule with the same one.\<close>

definition twins :: "string" where
  "twins = json_stringify (JArr [JObj [(''id'', JNum (Fin 7)), (''name'', JStr ''a'')], JObj [(''id'', JNum (Fin 7)), (''name'', JStr ''b'')]])"

lemma same_id_rules_deleted:
  "let s = options_effect (\<lambda>k. if k = KEY_RULES then Some (JStr twins) else None) initial_af in
     length (af_rules s) = 2 \<and> af_rules (handleDeleteRule (rule_id (hd (af_rules s))) s) = []"
  by code_simp

section \<open>Names of templates\<close>

text \<open>A template gets a new name as long as fewer than 998 names are in use.\<close>

lemma find_fresh:
  assumes "inj_on g (set is)" "distinct is" "length used < length is"
  shows "\<exists>i. find (\<lambda>i. g i \<notin> set used) is = Some i \<and> g i \<notin> set used"
proof -
  have "\<exists>i \<in> set is. g i \<notin> set used"
  proof (rule ccontr)
    assume "\<not> ?thesis"
    then have "g ` set is \<subseteq> set used" by auto
    then have "card (set is) \<le> card (set used)" using card_mono[OF finite_set] card_image[OF assms(1)] by metis
    then show False using card_length[of used] assms(3) distinct_card[OF assms(2)] by simp
  qed
  then show ?thesis by (cases "find (\<lambda>i. g i \<notin> set used) is") (auto simp: find_None_iff find_Some_iff)
qed

lemma unique_name:
  assumes "length used < 998"
  shows "makeUniqueName used b now \<notin> set used"
proof -
  define base where "base = (if trim b = [] then ''rule'' else trim b)"
  have "\<exists>i. find (\<lambda>i. base @ ''-'' @ nat_str i \<notin> set used) [2..<1000] = Some i \<and> base @ ''-'' @ nat_str i \<notin> set used"
    using assms by (intro find_fresh) (auto simp: inj_on_def simp del: upt_rec_numeral)
  then show ?thesis unfolding makeUniqueName_def base_def[symmetric] Let_def by (auto simp del: upt_rec_numeral)
qed

lemma template_names_new:
  assumes "existing_names rs = Inr used" "length used < 997"
  shows "distinct (map (obj_or JUndef ''name'') (named_templates now used [codexCli, claudeCli])) \<and>
    (\<forall>t \<in> set (named_templates now used [codexCli, claudeCli]). obj_or JUndef ''name'' t \<notin> JStr ` set used)"
  using unique_name[of used "''codex cli trace''" now] unique_name[of "makeUniqueName used ''codex cli trace'' now # used" "''claude cli trace''" now] assms(2)
  by (auto simp: named_templates_eq Let_def affinity_template_def obj_or_def obj_get_def simp del: named_templates.simps)

end
