(* ===== verification/Spec2Isabelle.thy ===== *)
theory Spec2Isabelle
  imports PricingReach TieredReach StatusCodes ParamOverrideReach RatioSyncReload RatioSyncBulk ChannelTableRuns QuotaFacts LogPricesFacts AffinityProps
begin

text \<open>
  Verification of the billing, quota and channel management in the administration console of G-Master-API (JavaScript, web/src). The console
  is a React application over an HTTP backend written in Go. Its own logic lies in editors that turn stored option texts into editable
  state, check and edit that state, and print it back as the texts the backend reads, in tables whose requests overlap, and in the
  amounts it shows. The development models these parts from the source, function by function, and proves that nothing is lost on
  the way through them, or shows what is.

  \<^bold>\<open>JavaScript.\<close> \<open>Prelude\<close> has the generic facts and the operations that update or remove a list element by its key. \<open>JsString\<close>: strings
  over the 8-bit alphabet of HOL's \<open>char\<close> (Latin-1) with \<open>trim\<close>, \<open>split\<close>, \<open>includes\<close> and case conversion. \<open>JsRegex\<close>: regular expressions as
  matchers that list all matches in the order of ECMAScript's backtracking; the patterns of the source are written with its combinators.
  \<open>JsNumber\<close>: doubles as rationals with rounding to nearest even, \<open>Number(s)\<close>, \<open>String(x)\<close>, \<open>toFixed\<close>, \<open>parseFloat\<close>. \<open>JsValue\<close>: values and
  objects with the property order of \<open>Object.keys\<close>, and the interface \<open>keyed_store\<close>. Own properties named like members of
  \<open>Object.prototype\<close> are not treated specially. \<open>JsJson\<close>: \<open>JSON.parse\<close> and \<open>JSON.stringify\<close>. \<open>JsJsonFacts\<close> proves that reading undoes writing
  (interface \<open>text_codec\<close>, interpreted for compact and indented text), \<open>JsNumberFacts\<close> that integers below \<open>10\<^sup>1\<^sup>5\<close> are exact,
  printed by their digits and read back.

  \<^bold>\<open>Request rules\<close> (pages/Setting/Ratio/components/requestRuleExpr.js). \<open>RequestRules\<close> models every function: conditions on body
  parameters, headers and the time, their normalisation, the printed expression, the parser, and the split of a billing expression
  into base and rules. \<open>RequestRulesFacts\<close> has the splitting at top level (interface \<open>top_level_split\<close>, interpreted for products and
  conjunctions) and the printed conditions, \<open>RequestRulesRoundTrip\<close> the theorems: printing and parsing rule groups, splitting and
  combining, normal form of parsed groups, termination of removing parentheses, and the comparisons that are not read back.

  \<^bold>\<open>Tiered billing\<close> (pages/Setting/Ratio/components/TieredPricingEditor.jsx, constants/billing.constants.js). \<open>TieredPricing\<close> models
  the billing variables, printing tiers and reading them back with the source's patterns; \<open>TieredState\<close> the tier and rule-group
  operations, price inputs, presets and the editor's state with its effects. \<open>TieredFacts\<close> and \<open>TieredRoundTrip\<close> follow the first
  choices of the patterns through a printed expression; \<open>TieredReach\<close> holds the theorems: tiers survive their expression, the page
  holds what the editor shows, incomplete rule groups are dropped. The label of the n-th tier is an argument.

  \<^bold>\<open>Model pricing\<close> (pages/Setting/Ratio/hooks/useModelPricingEditorState.js). \<open>Pricing\<close> models the pure functions between ratios and
  prices, \<open>PricingState\<close> the hook's state, effects and handlers up to the requests of a save. \<open>PricingFacts\<close> proves the numeric facts,
  \<open>PricingSave\<close> what a save sends and what the next load reads, \<open>PricingReach\<close> the step relation, its invariant, and the
  refinement of the table of saved ratios. The comparison of \<open>localeCompare\<close> is an argument (a total preorder where order matters) and the
  backend's answers are arguments of the step that receives them. This component calls the request rules for tiered models.

  \<^bold>\<open>Status codes\<close> (helpers/statusCodeRules.js, channels/modals/statusCodeRiskGuard.js). \<open>StatusCodes\<close> models both files: parsing lists of codes
  and ranges, and the guard that asks for confirmation of risky redirects. Theorems: merged ranges are canonical and cover the same
  codes, the normalised text is a fixed point, and the guard reports exactly the risky entries.

  \<^bold>\<open>Parameter overrides\<close> (components/table/channels/modals/ParamOverrideEditorModal.jsx). \<open>ParamOverride\<close> models the data and pure functions
  (operations, conditions, drafts, validation, reordering, the saved text), \<open>ParamOverrideState\<close> the state and all handlers.
  \<open>ParamOverrideFacts\<close> proves the round trips of drafts and of the whole override, validation and reordering; \<open>ParamOverrideInv\<close> and
  \<open>ParamOverrideReach\<close> the invariant of all reachable states, the outcome of saving, and the operations that have no effect.

  \<^bold>\<open>Upstream ratio synchronisation\<close> (pages/Setting/Ratio/UpstreamRatioSync.jsx, components/settings/ChannelSelectorModal.jsx).
  \<open>RatioSync\<close> has the fields, the choices (resolutions), the conflicts and what a write puts into the options, \<open>RatioSyncState\<close> the page's and
  the dialogue's state with all handlers and the tables shown. \<open>JsObjectFacts\<close> proves how JavaScript objects change under updates.
  \<open>RatioSyncFacts\<close> follows a choice through the object of choices, \<open>RatioSyncReach\<close> is the step relation with its invariant, \<open>RatioSyncProps\<close> the
  refinement of a table of values, the confirmation and the end of a write, \<open>RatioSyncBulk\<close> the header checkboxes, and
  \<open>RatioSyncReload\<close> composes the page with the pricing editor, which reads the options that were written.

  \<^bold>\<open>Channel table\<close> (hooks/channels/useChannelsData.jsx). The source changes channel objects in place while several lists refer to
  them, so \<open>ChannelTable\<close> has a store from addresses to channels, with rows, tag rows, columns and queries, \<open>ChannelTableState\<close> the hook's state,
  loads and searches, \<open>ChannelTableActions\<close> all requests and the loop of the batch test. A request is two steps, its begin and the
  arrival of its answer, and carries what its closure holds. \<open>ChannelTableFacts\<close>: tag mode, columns, counts by type; \<open>ChannelTableReach\<close>: the
  step relation over a pool of closures; \<open>ChannelTableProps\<close>: the invariant of every interleaving, the refinement of updates in
  place to updates of values, the newest load and late answers; \<open>ChannelTableRuns\<close>: a batch test ends and records every answer.
  \<open>UpstreamUpdates\<close> (upstreamUpdateUtils.js, useChannelUpstreamUpdates.jsx) models the pending model updates of channels and their requests.

  \<^bold>\<open>Channel affinity\<close> (pages/Setting/Operation/SettingsChannelAffinity.jsx). \<open>Affinity\<close> models the rules and their text, the sources of a key,
  the templates and the dialogue's form, \<open>AffinityState\<close> the state with its handlers, effects and requests. \<open>AffinityFacts\<close> has the round
  trips of lines, sources and a saved rule, \<open>AffinityReach\<close> the step relation and its invariant, \<open>AffinityProps\<close> the theorems: the table
  shows the text that is sent, only complete rules are saved, a rule saved again is unchanged, a save is read back, and what is lost.

  \<^bold>\<open>Amounts and prices shown\<close> (helpers/render.jsx, helpers/quota.js). \<open>QuotaDisplay\<close> models the formatting of numbers, quotas and currencies and
  the amounts of input fields. \<open>JsRounding\<close> bounds the relative error of rounded operations, from which \<open>QuotaFacts\<close> derives that
  a quota survives an input field. \<open>LogPrices\<close> models what a log entry says about its price; \<open>LogPricesFacts\<close> proves that the log's reader
  of tiers agrees with the tiered editor (interface \<open>tier_scan\<close>, interpreted for the editor's own reader and for the log's).

  \<^bold>\<open>Conventions.\<close> A component that throws returns a sum with \<open>Inl\<close>. Translated display texts are constructors of datatypes. Loops are structural
  recursion or have a termination proof; no fuel bounds a result, except that the star of a pattern runs as many rounds as characters
  are left, which is enough because an empty round is dropped, and that printing a double tries up to 17 digits, which identify a
  double. Round trips of numbers assume that a number's text reads back (\<open>num_ok\<close>, \<open>num_text\<close>), which holds for every double by
  ECMA-262 and is proved here for the integers used.

  \<^bold>\<open>Not modelled.\<close> The Go backend; JSX, styles and translations; \<open>evalExprLocally\<close>, which runs the text in the JavaScript engine; the HTTP
  client and browser storage beyond the values read from it; the long billing articles of a log entry; the channel dialogues, the
  system settings, the playground, dashboard, deployment and top-up pages, which render forms and tables over single
  requests; the desktop shell.
\<close>

end
